(* ===== verification/Merchant_Prelude.thy ===== *)
theory Merchant_Prelude
  imports Main "HOL-Library.AList" "HOL-Library.List_Lexorder" "HOL-Library.Char_ord"
begin

text \<open>
  Vocabulary shared by every component: Python strings (character tests, \<open>strip\<close>, truth of
  a string), insertion-ordered dictionaries as association lists, \<open>sorted(set(..))\<close>,
  \<open>dict.fromkeys\<close> deduplication, and results that may be an exception.

  A Python \<open>str\<close> is modelled as a \<^typ>\<open>string\<close>: one \<^typ>\<open>char\<close> per code point, for the
  code points below 256. Every test the backend makes on identifiers is an ASCII test, so
  the alphabet loses nothing there; \<open>str.isspace\<close> is written out for the whole range.
\<close>

named_theorems py_simps \<open>unfolding rules for the Python vocabulary\<close>

section \<open>Characters and strings\<close>

definition py_ord :: "char \<Rightarrow> nat" where
  "py_ord c = of_char c"

definition py_isspace :: "char \<Rightarrow> bool" where
  "py_isspace c =
     (let n = py_ord c in 9 \<le> n \<and> n \<le> 13 \<or> 28 \<le> n \<and> n \<le> 32 \<or> n = 133 \<or> n = 160)"

definition ascii_lower :: "char \<Rightarrow> bool" where
  "ascii_lower c = (97 \<le> py_ord c \<and> py_ord c \<le> 122)"

definition ascii_upper :: "char \<Rightarrow> bool" where
  "ascii_upper c = (65 \<le> py_ord c \<and> py_ord c \<le> 90)"

definition ascii_digit :: "char \<Rightarrow> bool" where
  "ascii_digit c = (48 \<le> py_ord c \<and> py_ord c \<le> 57)"

definition ascii_alpha :: "char \<Rightarrow> bool" where
  "ascii_alpha c = (ascii_lower c \<or> ascii_upper c)"

definition ascii_alnum :: "char \<Rightarrow> bool" where
  "ascii_alnum c = (ascii_alpha c \<or> ascii_digit c)"

text \<open>\<open>str.lstrip()\<close>, \<open>str.rstrip()\<close> and \<open>str.strip()\<close>, for a class of characters.\<close>

definition lstrip_of :: "(char \<Rightarrow> bool) \<Rightarrow> string \<Rightarrow> string" where
  "lstrip_of p s = dropWhile p s"

definition rstrip_of :: "(char \<Rightarrow> bool) \<Rightarrow> string \<Rightarrow> string" where
  "rstrip_of p s = rev (dropWhile p (rev s))"

definition strip_of :: "(char \<Rightarrow> bool) \<Rightarrow> string \<Rightarrow> string" where
  "strip_of p s = rstrip_of p (lstrip_of p s)"

text \<open>
  \<open>str.lower()\<close> and \<open>str.upper()\<close>. Upper-casing the sharp s (223) gives two letters; the capitals of
  181 and 255 lie outside the alphabet and stand for themselves (no test of the backend
  tells them from their capitals).
\<close>

definition lower_char :: "char \<Rightarrow> char" where
  "lower_char c = (if ascii_upper c \<or> (192 \<le> py_ord c \<and> py_ord c \<le> 222 \<and> py_ord c \<noteq> 215)
     then char_of (py_ord c + 32) else c)"

definition upper_char :: "char \<Rightarrow> string" where
  "upper_char c = (if ascii_lower c \<or> (224 \<le> py_ord c \<and> py_ord c \<le> 254 \<and> py_ord c \<noteq> 247)
     then [char_of (py_ord c - 32)] else if py_ord c = 223 then ''SS'' else [c])"

definition py_lower :: "string \<Rightarrow> string" where
  "py_lower s = map lower_char s"

definition py_upper :: "string \<Rightarrow> string" where
  "py_upper s = concat (map upper_char s)"

definition py_strip :: "string \<Rightarrow> string" where
  "py_strip s = strip_of py_isspace s"

text \<open>\<open>str(value or "").strip()\<close> of an optional text: \<open>None\<close> reads as the empty string.\<close>

definition text_or_empty :: "string option \<Rightarrow> string" where
  "text_or_empty v = (case v of None \<Rightarrow> [] | Some s \<Rightarrow> s)"

lemma rstrip_of_snoc [simp]:
  "rstrip_of p (s @ [c]) = (if p c then rstrip_of p s else s @ [c])"
  by (simp add: rstrip_of_def)

lemma rstrip_of_Nil [simp]: "rstrip_of p [] = []"
  by (simp add: rstrip_of_def)

lemma rstrip_of_prefix: "\<exists>t. s = rstrip_of p s @ t \<and> (\<forall>c\<in>set t. p c)"
proof (induction s rule: rev_induct)
  case Nil
  then show ?case by simp
next
  case (snoc c s)
  then obtain t where t: "s = rstrip_of p s @ t" "\<forall>d\<in>set t. p d" by blast
  show ?case
  proof (cases "p c")
    case True
    have "s @ [c] = rstrip_of p s @ (t @ [c])"
      using t(1) by (metis append.assoc)
    with True t(2) show ?thesis by (intro exI [of _ "t @ [c]"]) auto
  next
    case False
    then show ?thesis by simp
  qed
qed

lemma rstrip_of_last: "rstrip_of p s \<noteq> [] \<Longrightarrow> \<not> p (last (rstrip_of p s))"
  by (induction s rule: rev_induct) auto

lemma rstrip_of_id: "s = [] \<or> \<not> p (last s) \<Longrightarrow> rstrip_of p s = s"
  by (cases s rule: rev_cases) auto

lemma lstrip_of_hd: "lstrip_of p s \<noteq> [] \<Longrightarrow> \<not> p (hd (lstrip_of p s))"
  unfolding lstrip_of_def by (rule hd_dropWhile)

lemma lstrip_of_id: "s = [] \<or> \<not> p (hd s) \<Longrightarrow> lstrip_of p s = s"
  by (cases s) (auto simp: lstrip_of_def)

lemma strip_of_hd:
  assumes "strip_of p s \<noteq> []"
  shows "\<not> p (hd (strip_of p s))"
proof -
  obtain t where t: "lstrip_of p s = strip_of p s @ t"
    unfolding strip_of_def using rstrip_of_prefix by blast
  with assms have "lstrip_of p s \<noteq> []" and "hd (lstrip_of p s) = hd (strip_of p s)"
    by auto
  then show ?thesis using lstrip_of_hd by metis
qed

lemma strip_of_idem [simp]: "strip_of p (strip_of p s) = strip_of p s"
proof (cases "strip_of p s = []")
  case True
  then show ?thesis by (simp add: strip_of_def lstrip_of_def)
next
  case False
  have "\<not> p (last (strip_of p s))"
    using False unfolding strip_of_def by (rule rstrip_of_last)
  with strip_of_hd [OF False] show ?thesis
    using lstrip_of_id [of "strip_of p s" p] rstrip_of_id [of "strip_of p s" p]
    by (simp add: strip_of_def)
qed

lemma py_strip_idem [simp]: "py_strip (py_strip s) = py_strip s"
  by (simp add: py_strip_def)

lemma strip_of_subset: "set (strip_of p s) \<subseteq> set s"
proof -
  have "set (rstrip_of p t) \<subseteq> set t" for t
    using rstrip_of_prefix [of t p] by (metis set_append Un_upper1)
  moreover have "set (lstrip_of p s) \<subseteq> set s"
    unfolding lstrip_of_def by (meson set_dropWhileD subsetI)
  ultimately show ?thesis unfolding strip_of_def by blast
qed

lemma strip_of_clean: "\<forall>c\<in>set s. \<not> p c \<Longrightarrow> strip_of p s = s"
  unfolding strip_of_def
  by (metis last_in_set list.set_sel(1) lstrip_of_id rstrip_of_id)

section \<open>Sets and ordered deduplication\<close>

text \<open>\<open>sorted(set(xs))\<close> and \<open>list(dict.fromkeys(xs))\<close>.\<close>

definition sorted_set :: "'a::linorder list \<Rightarrow> 'a list" where
  "sorted_set xs = sort (remdups xs)"

fun fromkeys :: "'a list \<Rightarrow> 'a list" where
  "fromkeys [] = []"
| "fromkeys (x # xs) = x # filter (\<lambda>y. y \<noteq> x) (fromkeys xs)"

lemma set_sorted_set [simp]: "set (sorted_set xs) = set xs"
  by (simp add: sorted_set_def)

lemma sorted_sorted_set [simp]: "sorted (sorted_set xs)"
  by (simp add: sorted_set_def)

lemma distinct_sorted_set [simp]: "distinct (sorted_set xs)"
  by (simp add: sorted_set_def)

lemma sorted_set_Nil_iff [simp]: "sorted_set xs = [] \<longleftrightarrow> xs = []"
  by (metis set_empty set_sorted_set)

lemma sorted_set_cong: "set xs = set ys \<Longrightarrow> sorted_set xs = sorted_set ys"
  by (simp add: sorted_distinct_set_unique)

lemma set_fromkeys [simp]: "set (fromkeys xs) = set xs"
  by (induction xs) auto

lemma distinct_fromkeys [simp]: "distinct (fromkeys xs)"
  by (induction xs) auto

lemma fromkeys_Nil_iff: "fromkeys xs = [] \<longleftrightarrow> xs = []"
  by (cases xs) auto

lemma fromkeys_distinct: "distinct xs \<Longrightarrow> fromkeys xs = xs"
  by (induction xs) (auto intro: filter_True)

lemma concat_map_Nil_iff: "concat (map f xs) = [] \<longleftrightarrow> (\<forall>x\<in>set xs. f x = [])"
  by (induction xs) auto

section \<open>Dictionaries\<close>

text \<open>
  A dictionary that keeps its insertion order is an association list with distinct keys:
  \<open>AList.update\<close> overwrites in place or appends, as \<open>d[k] = v\<close> does.
\<close>

type_synonym ('k, 'v) dict = "('k \<times> 'v) list"

definition dict_ok :: "('k, 'v) dict \<Rightarrow> bool" where
  "dict_ok d = distinct (map fst d)"

definition dict_get :: "('k, 'v) dict \<Rightarrow> 'k \<Rightarrow> 'v \<Rightarrow> 'v" where
  "dict_get d k v = (case map_of d k of None \<Rightarrow> v | Some w \<Rightarrow> w)"

definition dict_merge :: "('k, 'v) dict \<Rightarrow> ('k, 'v) dict \<Rightarrow> ('k, 'v) dict" where
  "dict_merge d e = fold (\<lambda>(k, v). AList.update k v) e d"

lemma dict_ok_update [simp, intro]: "dict_ok d \<Longrightarrow> dict_ok (AList.update k v d)"
  by (simp add: dict_ok_def distinct_update)

lemma map_of_update [simp]: "map_of (AList.update k v d) = (map_of d)(k \<mapsto> v)"
  by (rule update_conv')

lemma update_forall:
  assumes "\<forall>(a, b)\<in>set d. P a b" and "P k v"
  shows "\<forall>(a, b)\<in>set (AList.update k v d). P a b"
proof -
  have "set (AList.update k v d) \<subseteq> insert (k, v) (set d)" by (induction d) auto
  with assms show ?thesis by blast
qed

lemma dict_values_by_key:
  assumes "distinct (map fst d)" and "\<And>k. k \<in> set (map fst d) \<Longrightarrow> map_of d k = Some (f k)"
  shows "map snd d = map f (map fst d)"
proof -
  have "snd kv = f (fst kv)" if "kv \<in> set d" for kv
    using assms that by (metis list.set_map map_of_eq_Some_iff option.inject prod.collapse imageI)
  then show ?thesis by simp
qed

lemma dict_ok_Nil [simp]: "dict_ok []"
  by (simp add: dict_ok_def)

section \<open>Results that may raise\<close>

definition bind_res :: "'e + 'a \<Rightarrow> ('a \<Rightarrow> 'e + 'b) \<Rightarrow> 'e + 'b" where
  "bind_res m f = (case m of Inl e \<Rightarrow> Inl e | Inr x \<Rightarrow> f x)"

definition require :: "bool \<Rightarrow> 'e \<Rightarrow> 'e + unit" where
  "require b e = (if b then Inr () else Inl e)"

lemma bind_res_simps [simp]:
  "bind_res (Inl e) f = Inl e"
  "bind_res (Inr x) f = f x"
  by (simp_all add: bind_res_def)

lemma bind_res_InrE:
  assumes "bind_res m f = Inr y"
  obtains x where "m = Inr x" and "f x = Inr y"
  using assms by (cases m) auto

lemma require_Inr [simp]: "require b e = Inr u \<longleftrightarrow> b"
  by (simp add: require_def)

lemma require_Inl [simp]: "require b e = Inl x \<longleftrightarrow> \<not> b \<and> x = e"
  by (auto simp: require_def)

lemma bind_require [simp]: "bind_res (require b e) f = (if b then f () else Inl e)"
  by (simp add: require_def)

fun map_res :: "('a \<Rightarrow> 'e + 'b) \<Rightarrow> 'a list \<Rightarrow> 'e + 'b list" where
  "map_res f [] = Inr []"
| "map_res f (x # xs) = bind_res (f x) (\<lambda>y. bind_res (map_res f xs) (\<lambda>ys. Inr (y # ys)))"

lemma map_res_Cons_Inr:
  "map_res f (x # xs) = Inr ys \<longleftrightarrow> (\<exists>y zs. f x = Inr y \<and> map_res f xs = Inr zs \<and> ys = y # zs)"
  by (cases "f x"; cases "map_res f xs") auto

lemma map_res_Inr_iff: "map_res f xs = Inr ys \<longleftrightarrow> list_all2 (\<lambda>x y. f x = Inr y) xs ys"
proof (induction xs arbitrary: ys)
  case Nil
  then show ?case by auto
next
  case (Cons x xs)
  show ?case unfolding map_res_Cons_Inr list_all2_Cons1 Cons by blast
qed

lemma map_res_set: "map_res f xs = Inr ys \<Longrightarrow> y \<in> set ys \<Longrightarrow> \<exists>x\<in>set xs. f x = Inr y"
  unfolding map_res_Inr_iff by (induction xs ys rule: list_all2_induct) auto

lemma map_res_id: "(\<And>x. x \<in> set xs \<Longrightarrow> f x = Inr x) \<Longrightarrow> map_res f xs = Inr xs"
  by (induction xs) auto

section \<open>Case mapping of ASCII text\<close>

lemma py_ord_bound [simp]: "py_ord c < 256"
  by (simp add: py_ord_def)

lemma py_ord_of_char [simp]: "n < 256 \<Longrightarrow> py_ord (char_of n) = n"
  by (simp add: py_ord_def)

lemma lower_char_idem [simp]: "lower_char (lower_char c) = lower_char c"
  by (auto simp: lower_char_def ascii_upper_def)

lemma py_lower_idem [simp]: "py_lower (py_lower s) = py_lower s"
  by (simp add: py_lower_def comp_def)

lemma upper_char_idem: "concat (map upper_char (upper_char c)) = upper_char c"
  by (auto simp: upper_char_def ascii_lower_def py_ord_def)

lemma py_upper_idem [simp]: "py_upper (py_upper s) = py_upper s"
proof (induction s)
  case (Cons c s)
  then show ?case using upper_char_idem [of c] by (simp add: py_upper_def)
qed (simp add: py_upper_def)

end
