(* ===== verification/Canonical_Json.thy ===== *)
theory Canonical_Json
  imports Merchant_Prelude
begin

text \<open>
  The canonical JSON text behind every fingerprint of the backend:
  \<open>json.dumps(value, ensure_ascii=False, sort_keys=True, separators=(",", ":"))\<close>, hashed with
  SHA-256. The values that reach it are the ones a pydantic \<open>model_dump(mode="json")\<close> makes of
  the graph models: null, booleans, integers, strings, lists and string-keyed objects
  (floating-point numbers occur in none of them).

  The hash is a parameter of every definition that uses it (\<open>h\<close>, the hex digest of the UTF-8
  encoding of a text). What the code relies on is that it does not collide; a theorem that
  needs it says so. What is proved here is the other half: the text determines the value up to
  the order of object keys.
\<close>

datatype json =
    JNull
  | JBool bool
  | JInt int
  | JStr string
  | JArr "json list"
  | JObj "(string \<times> json) list"

section \<open>Printing\<close>

fun nat_digits :: "nat \<Rightarrow> string" where
  "nat_digits n =
     (if n < 10 then [char_of (48 + n)] else nat_digits (n div 10) @ [char_of (48 + n mod 10)])"

declare nat_digits.simps [simp del]

definition int_text :: "int \<Rightarrow> string" where
  "int_text i = (if i < 0 then CHR ''-'' # nat_digits (nat (- i)) else nat_digits (nat i))"

definition hex_digit :: "nat \<Rightarrow> char" where
  "hex_digit n = (if n < 10 then char_of (48 + n) else char_of (87 + n))"

text \<open>The escapes of \<open>json.encoder.ESCAPE\<close>; \<open>DEL\<close> and everything above is kept.\<close>

definition escape_char :: "char \<Rightarrow> string" where
  "escape_char c =
     (let n = py_ord c
      in if n = 34 then [CHR 0x5C, CHR 0x22]
         else if n = 92 then [CHR 0x5C, CHR 0x5C]
         else if n = 10 then [CHR 0x5C, CHR ''n'']
         else if n = 13 then [CHR 0x5C, CHR ''r'']
         else if n = 9 then [CHR 0x5C, CHR ''t'']
         else if n = 12 then [CHR 0x5C, CHR ''f'']
         else if n = 8 then [CHR 0x5C, CHR ''b'']
         else if n < 32 then
           [CHR 0x5C, CHR ''u'', CHR ''0'', CHR ''0'', hex_digit (n div 16), hex_digit (n mod 16)]
         else [c])"

definition quote :: "string \<Rightarrow> string" where
  "quote s = CHR 0x22 # concat (map escape_char s) @ [CHR 0x22]"

text \<open>
  \<open>pad\<close> is what follows a comma or a colon: nothing with \<open>separators=(",", ":")\<close>, a space otherwise.
\<close>

fun join_comma :: "string \<Rightarrow> string list \<Rightarrow> string" where
  "join_comma pad [] = []"
| "join_comma pad [x] = x"
| "join_comma pad (x # xs) = x @ CHR '','' # pad @ join_comma pad xs"

definition member_text :: "string \<Rightarrow> string \<times> string \<Rightarrow> string" where
  "member_text pad kv = quote (fst kv) @ CHR '':'' # pad @ snd kv"

fun dumps_with :: "string \<Rightarrow> json \<Rightarrow> string" where
  "dumps_with pad JNull = ''null''"
| "dumps_with pad (JBool b) = (if b then ''true'' else ''false'')"
| "dumps_with pad (JInt i) = int_text i"
| "dumps_with pad (JStr s) = quote s"
| "dumps_with pad (JArr js) = CHR ''['' # join_comma pad (map (dumps_with pad) js) @ '']''"
| "dumps_with pad (JObj kvs) = CHR ''{'' #
     join_comma pad (map (member_text pad) (sort_key fst (map (\<lambda>(k, v). (k, dumps_with pad v)) kvs))) @ ''}''"

definition dumps :: "json \<Rightarrow> string" where
  "dumps = dumps_with []"

definition dumps_spaced :: "json \<Rightarrow> string" where
  "dumps_spaced = dumps_with '' ''"

text \<open>\<open>hashlib.sha256(encoded.encode("utf-8")).hexdigest()\<close>, with the digest a parameter.\<close>

definition stable_fingerprint :: "(string \<Rightarrow> string) \<Rightarrow> json \<Rightarrow> string" where
  "stable_fingerprint h j = h (dumps j)"

section \<open>Canonical values: object keys in order\<close>

fun canon :: "json \<Rightarrow> json" where
  "canon (JArr js) = JArr (map canon js)"
| "canon (JObj kvs) = JObj (sort_key fst (map (\<lambda>(k, v). (k, canon v)) kvs))"
| "canon j = j"

lemma sort_key_map_snd:
  "sort_key fst (map (\<lambda>(k, v). (k, f v)) kvs) = map (\<lambda>(k, v). (k, f v)) (sort_key fst kvs)"
proof -
  have ins: "insort_key fst (k, f v) (map (\<lambda>(k, v). (k, f v)) xs) =
      map (\<lambda>(k, v). (k, f v)) (insort_key fst (k, v) xs)" for k v xs
    by (induction xs) auto
  show ?thesis by (induction kvs) (auto simp: ins)
qed

lemma canon_idem: "canon (canon j) = canon j"
proof (induction j rule: canon.induct)
  case (2 kvs)
  let ?kvs = "sort_key fst (map (\<lambda>(k, v). (k, canon v)) kvs)"
  have "map (\<lambda>(k, v). (k, canon v)) ?kvs = ?kvs" using 2 by (intro map_idI) auto
  then show ?case by (simp add: sort_key_id_if_sorted)
qed auto

text \<open>The printer without the sorting: what \<open>dumps_with\<close> does to a canonical value.\<close>

fun print_json :: "string \<Rightarrow> json \<Rightarrow> string" where
  "print_json pad JNull = ''null''"
| "print_json pad (JBool b) = (if b then ''true'' else ''false'')"
| "print_json pad (JInt i) = int_text i"
| "print_json pad (JStr s) = quote s"
| "print_json pad (JArr js) = CHR ''['' # join_comma pad (map (print_json pad) js) @ '']''"
| "print_json pad (JObj kvs) =
     CHR ''{'' # join_comma pad (map (\<lambda>(k, v). member_text pad (k, print_json pad v)) kvs) @ ''}''"

lemma dumps_eq_print: "dumps_with pad j = print_json pad (canon j)"
proof (induction j rule: canon.induct)
  case (1 js)
  then show ?case by (simp add: comp_def cong: map_cong)
next
  case (2 kvs)
  have "map (\<lambda>(k, v). (k, dumps_with pad v)) kvs = map (\<lambda>(k, v). (k, print_json pad (canon v))) kvs"
    using 2 by (auto 0 3)
  then have "map (member_text pad) (sort_key fst (map (\<lambda>(k, v). (k, dumps_with pad v)) kvs))
      = map (\<lambda>(k, v). member_text pad (k, print_json pad (canon v))) (sort_key fst kvs)"
    by (simp only: sort_key_map_snd [of "\<lambda>v. print_json pad (canon v)"] map_map comp_def)
      (simp add: case_prod_unfold)
  moreover have "map (\<lambda>(k, v). member_text pad (k, print_json pad v))
        (sort_key fst (map (\<lambda>(k, v). (k, canon v)) kvs))
      = map (\<lambda>(k, v). member_text pad (k, print_json pad (canon v))) (sort_key fst kvs)"
    by (simp only: sort_key_map_snd map_map comp_def) (simp add: case_prod_unfold)
  ultimately show ?case by (simp only: canon.simps dumps_with.simps print_json.simps)
qed auto

section \<open>The text determines the canonical value\<close>

lemma py_ord_inj: "py_ord c = py_ord d \<Longrightarrow> c = d"
  by (simp add: py_ord_def)

lemma char_of_inj: "m < 256 \<Longrightarrow> n < 256 \<Longrightarrow> char_of m = char_of n \<Longrightarrow> m = (n::nat)"
  by (metis py_ord_of_char)

lemma nat_digits_nonempty [simp]: "nat_digits n \<noteq> []"
  by (subst nat_digits.simps) simp

lemma nat_digits_digit: "c \<in> set (nat_digits n) \<Longrightarrow> ascii_digit c"
proof (induction n rule: nat_digits.induct)
  case (1 n)
  have *: "ascii_digit (char_of (48 + m))" if "m < 10" for m :: nat
    using that by (simp add: ascii_digit_def)
  show ?case
    using 1 *[of n] * [of "n mod 10"]
    by (subst (asm) (2) nat_digits.simps) (auto split: if_splits)
qed

lemma nat_digits_inj: "nat_digits m = nat_digits n \<Longrightarrow> m = n"
proof (induction m arbitrary: n rule: nat_digits.induct)
  case (1 m)
  have c: "k < 10 \<Longrightarrow> l < 10 \<Longrightarrow> char_of (48 + k) = (char_of (48 + l) :: char) \<Longrightarrow> k = l"
    for k l :: nat using char_of_inj [of "48 + k" "48 + l"] by simp
  have len1: "length (nat_digits k @ [d]) \<noteq> 1" for k d by simp
  show ?case
  proof (cases "m < 10")
    case True
    then have m: "nat_digits m = [char_of (48 + m)]" by (simp add: nat_digits.simps)
    have "n < 10"
    proof (rule ccontr)
      assume "\<not> n < 10"
      then have "nat_digits n = nat_digits (n div 10) @ [char_of (48 + n mod 10)]"
        by (simp add: nat_digits.simps [of n])
      with m "1.prems" len1 show False by (metis One_nat_def length_Cons list.size(3))
    qed
    with True m c [of m n] "1.prems" show ?thesis by (simp add: nat_digits.simps [of n])
  next
    case False
    then have m: "nat_digits m = nat_digits (m div 10) @ [char_of (48 + m mod 10)]"
      by (simp add: nat_digits.simps [of m])
    have "\<not> n < 10"
    proof
      assume "n < 10"
      then have "nat_digits n = [char_of (48 + n)]" by (simp add: nat_digits.simps)
      with m "1.prems" len1 show False by (metis One_nat_def length_Cons list.size(3))
    qed
    then have "nat_digits n = nat_digits (n div 10) @ [char_of (48 + n mod 10)]"
      by (simp add: nat_digits.simps [of n])
    with m "1.prems" have "nat_digits (m div 10) = nat_digits (n div 10)"
      and "char_of (48 + m mod 10) = (char_of (48 + n mod 10) :: char)" by auto
    with "1.IH" [OF False] c [of "m mod 10" "n mod 10"]
    have "m div 10 = n div 10" and "m mod 10 = n mod 10" by simp_all
    then show ?thesis by (metis div_mod_decomp)
  qed
qed

definition ends_value :: "string \<Rightarrow> bool" where
  "ends_value r = (case r of [] \<Rightarrow> True | c # _ \<Rightarrow> c \<in> {CHR '','', CHR '']'', CHR ''}''})"

lemma ends_value_simps [simp]:
  "ends_value []" "ends_value (CHR '','' # r)" "ends_value (CHR '']'' # r)"
  "ends_value (CHR ''}'' # r)"
  by (simp_all add: ends_value_def)

lemma ends_value_no_digit: "ends_value r \<Longrightarrow> r = [] \<or> \<not> ascii_digit (hd r)"
  by (cases r) (auto simp: ends_value_def ascii_digit_def py_ord_def)

lemma nat_digits_prefix:
  assumes "nat_digits m @ r = nat_digits n @ s" and "ends_value r" and "ends_value s"
  shows "m = n \<and> r = s"
proof -
  have tw: "takeWhile ascii_digit (nat_digits k @ t) = nat_digits k" if "ends_value t" for k t
  proof -
    have "takeWhile ascii_digit (nat_digits k @ t) = nat_digits k @ takeWhile ascii_digit t"
      by (rule takeWhile_append2) (simp add: nat_digits_digit)
    with ends_value_no_digit [OF that] show ?thesis by (cases t) auto
  qed
  from assms tw have "nat_digits m = nat_digits n" by metis
  with assms(1) nat_digits_inj show ?thesis by auto
qed

lemma nat_digits_Cons: "\<exists>c t. nat_digits n = c # t \<and> ascii_digit c"
  by (metis list.exhaust list.set_intros(1) nat_digits_digit nat_digits_nonempty)

lemma minus_not_digit [simp]: "\<not> ascii_digit (CHR ''-'')"
  by (simp add: ascii_digit_def py_ord_def)

lemma int_text_Cons: "\<exists>c t. int_text i = c # t \<and> (c = CHR ''-'' \<or> ascii_digit c)"
proof (cases "i < 0")
  case True
  then show ?thesis by (simp add: int_text_def)
next
  case False
  then show ?thesis using nat_digits_Cons [of "nat i"] by (auto simp: int_text_def)
qed

lemma nat_digits_not_minus: "nat_digits n @ r \<noteq> CHR ''-'' # s"
  using nat_digits_Cons [of n] by auto

lemma int_text_prefix:
  assumes eq: "int_text i @ r = int_text j @ s" and r: "ends_value r" and s: "ends_value s"
  shows "i = j \<and> r = s"
proof (cases "i < 0"; cases "j < 0")
  assume neg: "i < 0" "j < 0"
  then have "nat_digits (nat (- i)) @ r = nat_digits (nat (- j)) @ s"
    using eq by (simp add: int_text_def)
  from nat_digits_prefix [OF this r s] neg show ?thesis by auto
next
  assume pos: "\<not> i < 0" "\<not> j < 0"
  then have "nat_digits (nat i) @ r = nat_digits (nat j) @ s"
    using eq by (simp add: int_text_def)
  from nat_digits_prefix [OF this r s] pos show ?thesis by auto
next
  assume "i < 0" "\<not> j < 0"
  then show ?thesis using eq nat_digits_not_minus [symmetric] by (simp add: int_text_def)
next
  assume "\<not> i < 0" "j < 0"
  then show ?thesis using eq nat_digits_not_minus [of "nat i" r] by (auto simp: int_text_def)
qed

text \<open>Reading one escaped character back.\<close>

definition hex_value :: "char \<Rightarrow> nat" where
  "hex_value c = (if py_ord c < 58 then py_ord c - 48 else py_ord c - 87)"

fun unescape :: "string \<Rightarrow> (char \<times> string) option" where
  "unescape [] = None"
| "unescape (c # r) =
     (if py_ord c \<noteq> 92 then Some (c, r)
      else (case r of
          [] \<Rightarrow> None
        | x # r' \<Rightarrow>
            (if x = CHR ''u'' then
               (case r' of
                  _ # _ # a # b # t \<Rightarrow> Some (char_of (16 * hex_value a + hex_value b), t)
                | _ \<Rightarrow> None)
             else if x = CHR ''n'' then Some (char_of (10::nat), r')
             else if x = CHR ''r'' then Some (char_of (13::nat), r')
             else if x = CHR ''t'' then Some (char_of (9::nat), r')
             else if x = CHR ''f'' then Some (char_of (12::nat), r')
             else if x = CHR ''b'' then Some (char_of (8::nat), r')
             else Some (x, r'))))"

lemma hex_value_digit: "n < 16 \<Longrightarrow> hex_value (hex_digit n) = n"
  by (auto simp: hex_value_def hex_digit_def)

lemma char_of_py_ord [simp]: "char_of (py_ord c) = c"
  by (simp add: py_ord_def)

lemma unescape_escape: "unescape (escape_char c @ r) = Some (c, r)"
proof -
  have bs: "py_ord (CHR 0x5C) = 92" "py_ord (CHR 0x22) = 34" by (simp_all add: py_ord_def)
  have num: "py_ord c = n \<Longrightarrow> char_of n = c" for n by auto
  have hex: "16 * hex_value (hex_digit (py_ord c div 16)) + hex_value (hex_digit (py_ord c mod 16))
      = py_ord c" if "py_ord c < 32"
    using that by (simp add: hex_value_digit)
  consider "py_ord c \<in> {34, 92}" | "py_ord c \<in> {10, 13, 9, 12, 8}"
    | "py_ord c < 32" "py_ord c \<notin> {10, 13, 9, 12, 8}"
    | "32 \<le> py_ord c" "py_ord c \<notin> {34, 92}" by force
  then show ?thesis
  proof cases
    case 1
    then have "c = CHR 0x22 \<or> c = CHR 0x5C" using bs by (auto intro!: py_ord_inj)
    then show ?thesis by (auto simp: escape_char_def bs)
  next
    case 2
    then show ?thesis
      by (auto simp: escape_char_def bs num [of 10] num [of 13] num [of 9] num [of 12] num [of 8])
  next
    case 3
    then show ?thesis by (simp add: escape_char_def Let_def bs hex)
  next
    case 4
    then show ?thesis by (simp add: escape_char_def)
  qed
qed

lemma escape_char_prefix:
  assumes "escape_char c @ r = escape_char d @ s"
  shows "c = d \<and> r = s"
proof -
  have "Some (c, r) = Some (d, s)"
    by (simp only: unescape_escape [symmetric] assms)
  then show ?thesis by simp
qed

lemma escape_char_not_quote: "escape_char c @ r \<noteq> CHR 0x22 # s"
  by (auto simp: escape_char_def Let_def py_ord_def)

lemma escaped_prefix:
  "concat (map escape_char a) @ CHR 0x22 # r = concat (map escape_char b) @ CHR 0x22 # s
    \<Longrightarrow> a = b \<and> r = s"
proof (induction a arbitrary: b)
  case Nil
  then show ?case using escape_char_not_quote by (cases b) (auto, metis)
next
  case (Cons c a)
  show ?case
  proof (cases b)
    case Nil
    with Cons.prems escape_char_not_quote show ?thesis by auto
  next
    case (Cons d b')
    with Cons.prems escape_char_prefix
    have "c = d" and "concat (map escape_char a) @ CHR 0x22 # r = concat (map escape_char b') @ CHR 0x22 # s"
      by fastforce+
    with Cons.IH Cons show ?thesis by blast
  qed
qed

lemma quote_prefix: "quote a @ r = quote b @ s \<Longrightarrow> a = b \<and> r = s"
  using escaped_prefix [of a r b s] by (simp add: quote_def)

lemma print_json_Cons:
  "\<exists>c t. print_json pad j = c # t \<and> c \<notin> {CHR '','', CHR '']'', CHR ''}''}"
proof (cases j)
  case (JInt i)
  then show ?thesis
    using int_text_Cons [of i] by (auto simp: ascii_digit_def py_ord_def)
qed (auto simp: quote_def)

lemma join_comma_Cons:
  "join_comma pad (x # xs) = x @ (if xs = [] then [] else CHR '','' # pad @ join_comma pad xs)"
  by (cases xs) auto

text \<open>
  A comma-separated list is determined by its text once each element is: the two elements
  that start it agree, and what follows is a comma or the closing bracket.
\<close>

lemma join_comma_prefix:
  assumes "\<And>x y r s. x \<in> set xs \<Longrightarrow> f x @ r = f y @ s \<Longrightarrow> ends_value r \<Longrightarrow> ends_value s
      \<Longrightarrow> x = y \<and> r = s"
    and "\<And>x. \<exists>c t. f x = c # t \<and> c \<notin> {CHR '','', CHR '']'', CHR ''}''}"
    and "z \<in> {CHR '']'', CHR ''}''}"
    and "join_comma pad (map f xs) @ z # r = join_comma pad (map f ys) @ z # s"
  shows "xs = ys \<and> r = s"
  using assms(1,4)
proof (induction xs arbitrary: ys)
  case Nil
  show ?case
  proof (cases ys)
    case (Cons y ys')
    with Nil.prems(2) assms(2) [of y] assms(3) show ?thesis
      by (auto simp: join_comma_Cons)
  qed (use Nil in simp)
next
  case (Cons x xs)
  show ?case
  proof (cases ys)
    case Nil
    with Cons.prems(2) assms(2) [of x] assms(3) show ?thesis
      by (auto simp: join_comma_Cons)
  next
    case (Cons y ys')
    let ?tail = "\<lambda>us t. (if us = [] then [] else CHR '','' # pad @ join_comma pad (map f us)) @ z # t"
    have ends: "ends_value (?tail us t)" for us t using assms(3) by auto
    have "f x @ ?tail xs r = f y @ ?tail ys' s"
      using Cons.prems(2) Cons by (simp add: join_comma_Cons)
    with Cons.prems(1) [of x "?tail xs r" y "?tail ys' s"] ends
    have xy: "x = y" and tail: "?tail xs r = ?tail ys' s" by auto
    have "join_comma pad (map f xs) @ z # r = join_comma pad (map f ys') @ z # s"
      using tail assms(3) by (auto split: if_splits)
    with Cons.IH [of ys'] Cons.prems(1) xy Cons show ?thesis by auto
  qed
qed

text \<open>The first character says which kind of value follows.\<close>

fun kind :: "json \<Rightarrow> char" where
  "kind JNull = CHR ''n''"
| "kind (JBool b) = (if b then CHR ''t'' else CHR ''f'')"
| "kind (JInt i) = CHR ''0''"
| "kind (JStr s) = CHR 0x22"
| "kind (JArr js) = CHR ''[''"
| "kind (JObj kvs) = CHR ''{''"

definition head_kind :: "char \<Rightarrow> char" where
  "head_kind c = (if c = CHR ''-'' \<or> ascii_digit c then CHR ''0'' else c)"

lemma head_kind_print: "head_kind (hd (print_json pad j @ r)) = kind j"
proof (cases j)
  case (JInt i)
  then show ?thesis using int_text_Cons [of i] by (auto simp: head_kind_def)
qed (auto simp: head_kind_def quote_def ascii_digit_def py_ord_def)

lemma kind_eq_cases:
  assumes "kind j = kind k"
  obtains "j = JNull" "k = JNull"
  | b where "j = JBool b" "k = JBool b"
  | m n where "j = JInt m" "k = JInt n"
  | s t where "j = JStr s" "k = JStr t"
  | js ks where "j = JArr js" "k = JArr ks"
  | kvs kws where "j = JObj kvs" "k = JObj kws"
  using assms by (cases j; cases k) (auto split: if_splits)

lemma member_text_prefix:
  assumes "member_text pad (a, u) @ r = member_text pad (b, w) @ s"
  shows "a = b \<and> u @ r = w @ s"
  using assms quote_prefix [of a "CHR '':'' # pad @ u @ r" b "CHR '':'' # pad @ w @ s"]
  by (simp add: member_text_def)

lemma print_json_prefix:
  "print_json pad j @ r = print_json pad k @ s \<Longrightarrow> ends_value r \<Longrightarrow> ends_value s \<Longrightarrow> j = k \<and> r = s"
proof (induction pad j arbitrary: k r s rule: print_json.induct)
  case (5 pad js)
  then have "kind (JArr js) = kind k"
    using head_kind_print [of pad "JArr js" r] head_kind_print [of pad k s] by simp
  then obtain ks where k: "k = JArr ks" by (cases rule: kind_eq_cases) auto
  with 5 have "join_comma pad (map (print_json pad) js) @ CHR '']'' # r
      = join_comma pad (map (print_json pad) ks) @ CHR '']'' # s" by simp
  from join_comma_prefix [OF _ print_json_Cons _ this] 5(1) k show ?case by blast
next
  case (6 pad kvs)
  let ?f = "\<lambda>(k, v). member_text pad (k, print_json pad v)"
  have "kind (JObj kvs) = kind k"
    using 6 head_kind_print [of pad "JObj kvs" r] head_kind_print [of pad k s] by simp
  then obtain kws where k: "k = JObj kws" by (cases rule: kind_eq_cases) auto
  have hd: "\<exists>c t. ?f x = c # t \<and> c \<notin> {CHR '','', CHR '']'', CHR ''}''}" for x
    by (cases x) (auto simp: member_text_def quote_def)
  have step: "x = y \<and> r' = s'" if "x \<in> set kvs" "?f x @ r' = ?f y @ s'"
    "ends_value r'" "ends_value s'" for x y r' s'
  proof -
    obtain a v b w where xy: "x = (a, v)" "y = (b, w)" by fastforce
    with that(2) have "a = b" "print_json pad v @ r' = print_json pad w @ s'"
      using member_text_prefix [of pad a "print_json pad v" r' b "print_json pad w" s'] by auto
    with 6(1) [of x a v] that xy show ?thesis by auto
  qed
  from 6 k have "join_comma pad (map ?f kvs) @ CHR ''}'' # r
      = join_comma pad (map ?f kws) @ CHR ''}'' # s" by simp
  from join_comma_prefix [OF step hd _ this] k show ?case by blast
next
  case (1 pad k)
  then have "kind JNull = kind k" using head_kind_print [of pad JNull r] head_kind_print [of pad k s] by simp
  then show ?case using 1 by (cases rule: kind_eq_cases) auto
next
  case (2 pad b k)
  then have "kind (JBool b) = kind k"
    using head_kind_print [of pad "JBool b" r] head_kind_print [of pad k s] by simp
  then show ?case using 2 by (cases rule: kind_eq_cases) auto
next
  case (3 pad i k)
  then have "kind (JInt i) = kind k"
    using head_kind_print [of pad "JInt i" r] head_kind_print [of pad k s] by simp
  then obtain l where k: "k = JInt l" by (cases rule: kind_eq_cases) auto
  with 3 have "int_text i @ r = int_text l @ s" by simp
  from int_text_prefix [OF this 3(2,3)] k show ?case by simp
next
  case (4 pad t k)
  then have "kind (JStr t) = kind k"
    using head_kind_print [of pad "JStr t" r] head_kind_print [of pad k s] by simp
  then obtain u where k: "k = JStr u" by (cases rule: kind_eq_cases) auto
  with 4 have "quote t @ r = quote u @ s" by simp
  from quote_prefix [OF this] k show ?case by simp
qed

lemma print_json_inj: "print_json pad j = print_json pad k \<Longrightarrow> j = k"
  using print_json_prefix [of pad j "[]" k "[]"] by simp

lemma dumps_with_eq_iff: "dumps_with pad j = dumps_with pad k \<longleftrightarrow> canon j = canon k"
  by (auto simp: dumps_eq_print dest: print_json_inj)

lemma dumps_eq_iff: "dumps j = dumps k \<longleftrightarrow> canon j = canon k"
  by (simp add: dumps_def dumps_with_eq_iff)

lemma dumps_spaced_eq_iff: "dumps_spaced j = dumps_spaced k \<longleftrightarrow> canon j = canon k"
  by (simp add: dumps_spaced_def dumps_with_eq_iff)

lemma dumps_nonempty [simp]: "dumps j \<noteq> []"
  using print_json_Cons [of "[]" "canon j"] by (auto simp: dumps_def dumps_eq_print)

text \<open>
  With a digest that does not collide, two values have the same fingerprint exactly if they
  are the same up to the order of their keys.
\<close>

lemma stable_fingerprint_eq_iff:
  "inj h \<Longrightarrow> stable_fingerprint h j = stable_fingerprint h k \<longleftrightarrow> canon j = canon k"
  by (simp add: stable_fingerprint_def inj_eq dumps_eq_iff)

section \<open>Reading an object back by its keys\<close>

definition field :: "json \<Rightarrow> string \<Rightarrow> json option" where
  "field j k = (case j of JObj kvs \<Rightarrow> map_of kvs k | _ \<Rightarrow> None)"

lemma map_of_sort_key:
  assumes "distinct (map fst kvs)"
  shows "map_of (sort_key fst kvs) = map_of kvs"
proof -
  have "distinct (map fst (sort_key fst kvs))"
    by (metis assms distinct_map distinct_sort set_sort)
  with assms show ?thesis
    by (intro ext) (metis map_of_eq_Some_iff not_None_eq set_sort)
qed

lemma map_of_canon_values: "map_of (map (\<lambda>(k, v). (k, canon v)) kvs) k = map_option canon (map_of kvs k)"
  by (induction kvs) auto

text \<open>Two objects with the same canonical form have the same canonical fields.\<close>

lemma canon_eq_field:
  assumes "canon (JObj kvs) = canon (JObj kws)"
    and "distinct (map fst kvs)" and "distinct (map fst kws)"
  shows "map_option canon (map_of kvs k) = map_option canon (map_of kws k)"
proof -
  let ?f = "\<lambda>(k, v). (k, canon v)"
  have keys: "map fst (map ?f l) = map fst l" for l :: "(string \<times> json) list"
    by (auto simp: case_prod_unfold)
  have "map_of (sort_key fst (map ?f kvs)) = map_of (sort_key fst (map ?f kws))"
    using assms(1) by simp
  then have "map_of (map ?f kvs) = map_of (map ?f kws)"
    using assms(2,3) by (simp only: map_of_sort_key keys)
  then show ?thesis by (metis map_of_canon_values)
qed

lemma canon_eq_values:
  assumes "canon (JObj kvs) = canon (JObj kws)"
    and "map fst kvs = map fst kws" and "distinct (map fst kvs)"
  shows "map (\<lambda>kv. canon (snd kv)) kvs = map (\<lambda>kv. canon (snd kv)) kws"
proof (rule nth_equalityI)
  show len: "length (map (\<lambda>kv. canon (snd kv)) kvs) = length (map (\<lambda>kv. canon (snd kv)) kws)"
    using assms(2) by (metis length_map)
  fix i assume i: "i < length (map (\<lambda>kv. canon (snd kv)) kvs)"
  have look: "map_of l (fst (l ! i)) = Some (snd (l ! i))"
    if "distinct (map fst l)" "i < length l" for l :: "(string \<times> json) list"
    using that by (metis map_of_eq_Some_iff nth_mem prod.collapse)
  have key: "fst (kvs ! i) = fst (kws ! i)"
    using assms(2) i len by (metis length_map nth_map)
  have dw: "distinct (map fst kws)" and iw: "i < length kvs" "i < length kws"
    using assms(2,3) i len by auto
  have "map_of kvs (fst (kvs ! i)) = Some (snd (kvs ! i))" by (rule look [OF assms(3) iw(1)])
  moreover have "map_of kws (fst (kvs ! i)) = Some (snd (kws ! i))"
    unfolding key by (rule look [OF dw iw(2)])
  ultimately show "map (\<lambda>kv. canon (snd kv)) kvs ! i = map (\<lambda>kv. canon (snd kv)) kws ! i"
    using canon_eq_field [OF assms(1,3) dw, of "fst (kvs ! i)"] iw by simp
qed

end
