(* ===== verification/Graph_Search.thy ===== *)
theory Graph_Search
  imports Merchant_Prelude
begin

text \<open>
  The graph loops the services write out by hand, each as the code has it, over a
  \<open>dict[str, set[str]]\<close> (an association list from a node to its successors, in the order the
  loop visits them):
  \<^item> \<open>has_graph_path\<close> and \<open>is_downstream\<close> of \<^verbatim>\<open>grounded_execution_graph.py\<close>: breadth first, stopping at
    the target;
  \<^item> the loop of \<open>goal_dependency_closure\<close> in \<^verbatim>\<open>grounded_goal_contract.py\<close>;
  \<^item> the depth-first \<open>visit\<close> of \<open>_dependency_cycle\<close>, which returns the cycle it finds;
  \<^item> Kahn's loop at the end of \<open>validate_grounded_execution_graph\<close>.
  For each: it ends, and what it returns is what the graph says (paths are \<open>edges\<^sup>+\<close>).
\<close>

type_synonym 'a digraph = "('a \<times> 'a list) list"

definition succs :: "'a digraph \<Rightarrow> 'a \<Rightarrow> 'a list" where
  "succs G v = (case map_of G v of None \<Rightarrow> [] | Some ds \<Rightarrow> ds)"

definition edges :: "'a digraph \<Rightarrow> ('a \<times> 'a) set" where
  "edges G = {(u, v). v \<in> set (succs G u)}"

definition targets_of :: "'a digraph \<Rightarrow> 'a set" where
  "targets_of G = (\<Union>(_, ds)\<in>set G. set ds)"

lemma edges_iff [simp]: "(u, v) \<in> edges G \<longleftrightarrow> v \<in> set (succs G u)"
  by (simp add: edges_def)

lemma finite_targets_of [simp]: "finite (targets_of G)"
  by (auto simp: targets_of_def)

lemma succs_in_targets: "v \<in> set (succs G u) \<Longrightarrow> v \<in> targets_of G"
  by (cases "map_of G u") (auto simp: succs_def targets_of_def dest!: map_of_SomeD intro!: bexI)

lemma succs_not_key: "v \<notin> fst ` set G \<Longrightarrow> succs G v = []"
  by (auto simp: succs_def map_of_eq_None_iff [symmetric])

section \<open>Breadth-first search for a path\<close>

text \<open>One pass of the inner loop; \<open>None\<close> is the early \<open>return True\<close>.\<close>

fun scan :: "'a \<Rightarrow> 'a list \<Rightarrow> 'a list \<Rightarrow> 'a list \<Rightarrow> ('a list \<times> 'a list) option" where
  "scan t [] visited pending = Some (visited, pending)"
| "scan t (c # cs) visited pending =
     (if c = t then None
      else if c \<in> set visited then scan t cs visited pending
      else scan t cs (c # visited) (pending @ [c]))"

lemma scan_None_iff: "scan t cs visited pending = None \<longleftrightarrow> t \<in> set cs"
  by (induction t cs visited pending rule: scan.induct) auto

lemma scan_Some:
  assumes "scan t cs visited pending = Some (visited', pending')"
  obtains new where "distinct new" "set new = set cs - set visited"
    "set visited' = set visited \<union> set new" "pending' = pending @ new" "t \<notin> set cs"
  using assms
proof (induction t cs visited pending arbitrary: thesis rule: scan.induct)
  case (1 t visited pending)
  then show ?case by auto
next
  case (2 t c cs visited pending)
  show ?case
  proof (cases "c \<in> set visited")
    case True
    with 2 show ?thesis by (auto split: if_splits)
  next
    case False
    with 2 obtain new where new: "distinct new" "set new = set cs - set (c # visited)"
      "set visited' = set (c # visited) \<union> set new" "pending' = (pending @ [c]) @ new"
      "t \<notin> set cs" and "c \<noteq> t"
      by (auto split: if_splits)
    with False show ?thesis by (intro 2(3) [of "c # new"]) auto
  qed
qed

lemma card_minus_new:
  assumes "finite U" "set new = A - V" "A \<subseteq> U" "distinct new"
  shows "card (U - V) = card (U - (V \<union> set new)) + length new"
proof -
  have "U - V = (U - (V \<union> set new)) \<union> set new" and "(U - (V \<union> set new)) \<inter> set new = {}"
    using assms(2,3) by auto
  then show ?thesis
    using assms(1,4) by (metis card_Un_disjoint distinct_card finite_Diff finite_set)
qed

function search :: "'a digraph \<Rightarrow> 'a \<Rightarrow> 'a list \<Rightarrow> 'a list \<Rightarrow> bool" where
  "search G t [] visited = False"
| "search G t (u # pending) visited =
     (case scan t (succs G u) visited pending of
        None \<Rightarrow> True
      | Some (visited', pending') \<Rightarrow> search G t pending' visited')"
  by pat_completeness auto
termination
proof (relation "measure (\<lambda>(G, t, pending, visited). 2 * card (targets_of G - set visited) + length pending)",
    goal_cases)
  case 1
  show ?case by simp
next
  case (2 G t u pending visited x visited' pending')
  then have "scan t (succs G u) visited pending = Some (visited', pending')" by simp
  then obtain new where "distinct new" "set new = set (succs G u) - set visited"
    "set visited' = set visited \<union> set new" "pending' = pending @ new"
    by (rule scan_Some)
  moreover have "set (succs G u) \<subseteq> targets_of G" by (auto dest: succs_in_targets)
  ultimately show ?case
    using card_minus_new [of "targets_of G" new "set (succs G u)" "set visited"] by simp
qed

definition has_graph_path :: "'a digraph \<Rightarrow> 'a \<Rightarrow> 'a \<Rightarrow> bool" where
  "has_graph_path G source target = search G target [source] [source]"

definition is_downstream :: "'a digraph \<Rightarrow> 'a \<Rightarrow> 'a \<Rightarrow> bool" where
  "is_downstream G source target = (source = target \<or> search G target [source] [source])"

lemma search_sound: "search G t pending visited \<Longrightarrow> \<exists>u\<in>set pending. (u, t) \<in> (edges G)\<^sup>+"
proof (induction G t pending visited rule: search.induct)
  case (1 G t visited)
  then show ?case by simp
next
  case (2 G t u pending visited)
  show ?case
  proof (cases "scan t (succs G u) visited pending")
    case None
    then show ?thesis by (auto simp: scan_None_iff)
  next
    case (Some p)
    then obtain visited' pending' where p: "scan t (succs G u) visited pending = Some (visited', pending')"
      by (cases p) auto
    with 2 have "\<exists>w\<in>set pending'. (w, t) \<in> (edges G)\<^sup>+" by fastforce
    then obtain w where w: "w \<in> set pending'" "(w, t) \<in> (edges G)\<^sup>+" by blast
    from p obtain new where "set new = set (succs G u) - set visited" "pending' = pending @ new"
      by (rule scan_Some)
    with w(1) have "w \<in> set pending \<or> (u, w) \<in> edges G" by auto
    with w(2) show ?thesis by (meson list.set_intros trancl_into_trancl2)
  qed
qed

text \<open>
  When the search fails, some set that holds everything visited is closed under successors
  and has no edge to the target.
\<close>

lemma search_closed:
  assumes "\<not> search G t pending visited" and "set pending \<subseteq> set visited"
    and "\<And>v. v \<in> set visited - set pending \<Longrightarrow> t \<notin> set (succs G v) \<and> set (succs G v) \<subseteq> set visited"
  shows "\<exists>C. set visited \<subseteq> C \<and> (\<forall>v\<in>C. t \<notin> set (succs G v) \<and> set (succs G v) \<subseteq> C)"
  using assms
proof (induction G t pending visited rule: search.induct)
  case (1 G t visited)
  then show ?case by (intro exI [of _ "set visited"]) auto
next
  case (2 G t u pending visited)
  then obtain visited' pending' where p: "scan t (succs G u) visited pending = Some (visited', pending')"
    by (auto split: option.splits)
  then obtain new where new: "set new = set (succs G u) - set visited"
    "set visited' = set visited \<union> set new" "pending' = pending @ new" "t \<notin> set (succs G u)"
    by (rule scan_Some)
  have "\<exists>C. set visited' \<subseteq> C \<and> (\<forall>v\<in>C. t \<notin> set (succs G v) \<and> set (succs G v) \<subseteq> C)"
  proof (rule "2.IH" [OF p])
    show "\<not> search G t pending' visited'" using 2(2) p by simp
    show "set pending' \<subseteq> set visited'" using 2(3) new by auto
    fix v assume v: "v \<in> set visited' - set pending'"
    show "t \<notin> set (succs G v) \<and> set (succs G v) \<subseteq> set visited'"
    proof (cases "v = u")
      case True
      with new show ?thesis by auto
    next
      case False
      with v new have "v \<in> set visited - set (u # pending)" by auto
      with 2(4) new show ?thesis by blast
    qed
  qed simp
  with new show ?case by auto
qed

lemma closed_no_path:
  assumes "(u, t) \<in> (edges G)\<^sup>+" and "u \<in> C"
    and "\<forall>v\<in>C. t \<notin> set (succs G v) \<and> set (succs G v) \<subseteq> C"
  shows False
proof -
  from assms(1) obtain w where w: "(u, w) \<in> (edges G)\<^sup>*" "t \<in> set (succs G w)"
    by (auto dest!: tranclD2)
  from w(1) have "w \<in> C" by (induction rule: rtrancl_induct) (use assms(2,3) in auto)
  with w(2) assms(3) show False by auto
qed

lemma search_iff_path: "search G t [u] [u] \<longleftrightarrow> (u, t) \<in> (edges G)\<^sup>+"
proof
  show "search G t [u] [u] \<Longrightarrow> (u, t) \<in> (edges G)\<^sup>+" using search_sound by fastforce
  assume path: "(u, t) \<in> (edges G)\<^sup>+"
  show "search G t [u] [u]"
  proof (rule ccontr)
    assume "\<not> search G t [u] [u]"
    from search_closed [OF this] obtain C where "u \<in> C"
      "\<forall>v\<in>C. t \<notin> set (succs G v) \<and> set (succs G v) \<subseteq> C" by auto
    with path show False by (rule closed_no_path)
  qed
qed

lemma has_graph_path_iff: "has_graph_path G u t \<longleftrightarrow> (u, t) \<in> (edges G)\<^sup>+"
  unfolding has_graph_path_def by (rule search_iff_path)

lemma is_downstream_iff: "is_downstream G u t \<longleftrightarrow> (u, t) \<in> (edges G)\<^sup>*"
  unfolding is_downstream_def search_iff_path rtrancl_eq_or_trancl by auto

section \<open>The dependency closure\<close>

fun collect :: "'a list \<Rightarrow> 'a list \<Rightarrow> 'a list \<Rightarrow> 'a list \<Rightarrow> 'a list \<times> 'a list" where
  "collect targets [] deps pending = (deps, pending)"
| "collect targets (d # ds) deps pending =
     (if d \<in> set deps \<or> d \<in> set targets then collect targets ds deps pending
      else collect targets ds (deps @ [d]) (pending @ [d]))"

lemma collect_spec:
  "\<exists>new. collect targets ds deps pending = (deps @ new, pending @ new) \<and> distinct new \<and>
     set new = set ds - (set deps \<union> set targets)"
proof (induction targets ds deps pending rule: collect.induct)
  case (1 targets deps pending)
  then show ?case by auto
next
  case (2 targets d ds deps pending)
  show ?case
  proof (cases "d \<in> set deps \<or> d \<in> set targets")
    case True
    with 2(1) show ?thesis by auto
  next
    case False
    with 2(2) obtain new where
      "collect targets ds (deps @ [d]) (pending @ [d]) = ((deps @ [d]) @ new, (pending @ [d]) @ new)"
      "distinct new" "set new = set ds - (set (deps @ [d]) \<union> set targets)" by auto
    with False show ?thesis by (intro exI [of _ "d # new"]) auto
  qed
qed

function closure_loop :: "'a digraph \<Rightarrow> 'a list \<Rightarrow> 'a list \<Rightarrow> 'a list \<Rightarrow> 'a list" where
  "closure_loop G targets [] deps = deps"
| "closure_loop G targets (u # pending) deps =
     (let p = collect targets (succs G u) deps pending in closure_loop G targets (snd p) (fst p))"
  by pat_completeness auto
termination
proof (relation "measure (\<lambda>(G, targets, pending, deps).
    2 * card (targets_of G - (set deps \<union> set targets)) + length pending)", goal_cases)
  case 1
  show ?case by simp
next
  case (2 G targets u pending deps p)
  obtain new where new: "p = (deps @ new, pending @ new)" "distinct new"
    "set new = set (succs G u) - (set deps \<union> set targets)"
    using collect_spec [of targets "succs G u" deps pending] 2 by auto
  have "set (succs G u) \<subseteq> targets_of G" by (auto dest: succs_in_targets)
  from card_minus_new [OF finite_targets_of new(3) this new(2)] new(1)
  show ?case by (simp add: Un_ac)
qed

definition dependency_closure :: "'a digraph \<Rightarrow> 'a list \<Rightarrow> 'a list" where
  "dependency_closure G targets = closure_loop G targets targets []"

lemma closure_loop_sound:
  assumes "d \<in> set (closure_loop G targets pending deps)" and "d \<notin> set deps"
  shows "d \<notin> set targets \<and> (\<exists>u\<in>set pending. (u, d) \<in> (edges G)\<^sup>+)"
  using assms
proof (induction G targets pending deps rule: closure_loop.induct)
  case (1 G targets deps)
  then show ?case by simp
next
  case (2 G targets u pending deps)
  obtain new where new: "collect targets (succs G u) deps pending = (deps @ new, pending @ new)"
    "set new = set (succs G u) - (set deps \<union> set targets)"
    using collect_spec [of targets "succs G u" deps pending] by auto
  have edge: "w \<in> set new \<Longrightarrow> (u, w) \<in> edges G" for w using new(2) by simp
  show ?case
  proof (cases "d \<in> set new")
    case True
    with new(2) edge show ?thesis by auto
  next
    case False
    have "d \<in> set (closure_loop G targets (pending @ new) (deps @ new))"
      using 2(2) new(1) by (simp add: Let_def)
    with 2(1) [OF refl] new(1) False 2(3)
    have "d \<notin> set targets \<and> (\<exists>w\<in>set pending \<union> set new. (w, d) \<in> (edges G)\<^sup>+)" by simp
    with edge show ?thesis by (meson UnE list.set_intros trancl_into_trancl2)
  qed
qed

lemma closure_loop_closed:
  assumes "set pending \<subseteq> set deps \<union> set targets"
    and "\<And>v. v \<in> (set deps \<union> set targets) - set pending \<Longrightarrow> set (succs G v) \<subseteq> set deps \<union> set targets"
  shows "let C = set (closure_loop G targets pending deps) \<union> set targets
    in set deps \<subseteq> C \<and> (\<forall>v\<in>C. set (succs G v) \<subseteq> C)"
  using assms
proof (induction G targets pending deps rule: closure_loop.induct)
  case (1 G targets deps)
  then show ?case by (simp add: Let_def)
next
  case (2 G targets u pending deps)
  obtain new where new: "collect targets (succs G u) deps pending = (deps @ new, pending @ new)"
    "set new = set (succs G u) - (set deps \<union> set targets)"
    using collect_spec [of targets "succs G u" deps pending] by auto
  have p: "set (pending @ new) \<subseteq> set (deps @ new) \<union> set targets" using 2(2) by auto
  have q: "set (succs G v) \<subseteq> set (deps @ new) \<union> set targets"
    if "v \<in> set (deps @ new) \<union> set targets - set (pending @ new)" for v
    using that 2(3) [of v] new(2) by (cases "v = u") auto
  have "let C = set (closure_loop G targets (pending @ new) (deps @ new)) \<union> set targets
    in set (deps @ new) \<subseteq> C \<and> (\<forall>v\<in>C. set (succs G v) \<subseteq> C)"
    using 2(1) [OF new(1) [symmetric]] p q by (simp only: fst_conv snd_conv)
  moreover have "closure_loop G targets (u # pending) deps
      = closure_loop G targets (pending @ new) (deps @ new)" using new(1) by (simp add: Let_def)
  ultimately show ?case by (simp only: Let_def set_append Un_subset_iff) blast
qed

lemma dependency_closure_eq:
  "set (dependency_closure G targets) = {d. \<exists>t\<in>set targets. (t, d) \<in> (edges G)\<^sup>+} - set targets"
proof (intro equalityI subsetI)
  fix d assume "d \<in> set (dependency_closure G targets)"
  then show "d \<in> {d. \<exists>t\<in>set targets. (t, d) \<in> (edges G)\<^sup>+} - set targets"
    using closure_loop_sound [of d G targets targets "[]"] by (simp add: dependency_closure_def)
next
  fix d assume "d \<in> {d. \<exists>t\<in>set targets. (t, d) \<in> (edges G)\<^sup>+} - set targets"
  then obtain t where t: "t \<in> set targets" "(t, d) \<in> (edges G)\<^sup>+" "d \<notin> set targets" by auto
  let ?C = "set (dependency_closure G targets) \<union> set targets"
  have "\<forall>v\<in>?C. set (succs G v) \<subseteq> ?C"
    using closure_loop_closed [of targets "[]" targets G] by (simp add: dependency_closure_def Let_def)
  then have closed: "\<And>v w. v \<in> ?C \<Longrightarrow> w \<in> set (succs G v) \<Longrightarrow> w \<in> ?C" by blast
  have "(t, d) \<in> (edges G)\<^sup>*" using t(2) by (rule trancl_into_rtrancl)
  then have "d \<in> ?C"
    by (induction rule: rtrancl_induct) (use t(1) closed in \<open>auto simp only: edges_iff Un_iff\<close>)
  with t(3) show "d \<in> set (dependency_closure G targets)" by simp
qed

section \<open>Depth-first search for a cycle\<close>

text \<open>
  \<open>visit\<close> of the code keeps \<open>path\<close> and \<open>visiting\<close> (the same elements) and \<open>visited\<close>; a call
  that finds no cycle leaves the first two as they were, so they are arguments here, and the
  loop over the dependencies of a node threads \<open>visited\<close>. \<open>Inl\<close> is the cycle found.
\<close>

function find_cycle :: "'a digraph \<Rightarrow> 'a list \<Rightarrow> 'a list \<Rightarrow> 'a list \<Rightarrow> 'a list + 'a list" where
  "find_cycle G path [] visited = Inr visited"
| "find_cycle G path (d # ds) visited =
     (if d \<in> set path then Inl (dropWhile (\<lambda>x. x \<noteq> d) path @ [d])
      else if d \<in> set visited then find_cycle G path ds visited
      else (case find_cycle G (path @ [d]) (succs G d) visited of
              Inl c \<Rightarrow> Inl c
            | Inr visited' \<Rightarrow> find_cycle G path ds (d # visited')))"
  by pat_completeness auto
termination
proof (relation "measures [\<lambda>(G, path, ds, visited). card (fst ` set G - set path),
    \<lambda>(G, path, ds, visited). length ds]", goal_cases)
  case (3 G path d ds visited)
  show ?case
  proof (cases "d \<in> fst ` set G")
    case True
    with 3 have "fst ` set G - set (path @ [d]) \<subset> fst ` set G - set path" by auto
    then have "card (fst ` set G - set (path @ [d])) < card (fst ` set G - set path)"
      by (intro psubset_card_mono) auto
    then show ?thesis by simp
  next
    case False
    then have "fst ` set G - set (path @ [d]) = fst ` set G - set path" by auto
    with False show ?thesis by (simp add: succs_not_key)
  qed
qed auto

definition cycle_of :: "'a digraph \<Rightarrow> 'a list" where
  "cycle_of G = (case find_cycle G [] (map fst G) [] of Inl c \<Rightarrow> c | Inr visited \<Rightarrow> [])"

definition walk :: "'a digraph \<Rightarrow> 'a list \<Rightarrow> bool" where
  "walk G = successively (\<lambda>u v. v \<in> set (succs G u))"

text \<open>A list in which every element comes before all its \<open>r\<close>-successors.\<close>

fun ordered_by :: "('a \<times> 'a) set \<Rightarrow> 'a list \<Rightarrow> bool" where
  "ordered_by r [] = True"
| "ordered_by r (v # vs) = (v \<notin> set vs \<and> r `` {v} \<subseteq> set vs \<and> ordered_by r vs)"

lemma ordered_by_distinct: "ordered_by r vs \<Longrightarrow> distinct vs"
  by (induction vs) auto

lemma ordered_by_closed: "ordered_by r vs \<Longrightarrow> v \<in> set vs \<Longrightarrow> (v, w) \<in> r \<Longrightarrow> w \<in> set vs"
  by (induction vs) auto

lemma ordered_by_no_cycle: "ordered_by r vs \<Longrightarrow> u \<in> set vs \<Longrightarrow> (u, u) \<notin> r\<^sup>+"
proof (induction vs)
  case (Cons v vs)
  have reach: "w \<in> set vs \<Longrightarrow> (w, x) \<in> r\<^sup>* \<Longrightarrow> x \<in> set vs" for w x
    by (rotate_tac, induction rule: rtrancl_induct) (use Cons.prems(1) in \<open>auto dest: ordered_by_closed\<close>)
  show ?case
  proof (cases "u = v")
    case True
    show ?thesis
    proof
      assume "(u, u) \<in> r\<^sup>+"
      then obtain w where "(u, w) \<in> r" "(w, u) \<in> r\<^sup>*" by (meson tranclD)
      with Cons.prems(1) True reach [of w u] show False by auto
    qed
  qed (use Cons in auto)
qed simp

lemma ordered_by_acyclic:
  assumes "ordered_by r vs" and "Domain r \<subseteq> set vs"
  shows "acyclic r"
proof (rule acyclicI, rule allI)
  fix u
  show "(u, u) \<notin> r\<^sup>+"
    using ordered_by_no_cycle [OF assms(1), of u] assms(2) by (meson Domain.DomainI subsetD tranclD)
qed

lemma find_cycle_Inl:
  assumes "find_cycle G path ds visited = Inl c"
    and "walk G path" and "path \<noteq> [] \<Longrightarrow> set ds \<subseteq> set (succs G (last path))"
  shows "walk G c \<and> 2 \<le> length c \<and> hd c = last c"
  using assms
proof (induction G path ds visited arbitrary: c rule: find_cycle.induct)
  case (1 G path visited)
  then show ?case by simp
next
  case (2 G path d ds visited)
  show ?case
  proof (cases "d \<in> set path")
    case True
    let ?suf = "dropWhile (\<lambda>x. x \<noteq> d) path"
    have c: "c = ?suf @ [d]" using 2(4) True by simp
    have ne: "?suf \<noteq> []" "hd ?suf = d" using True hd_dropWhile [of "\<lambda>x. x \<noteq> d" path] by auto
    have "walk G (takeWhile (\<lambda>x. x \<noteq> d) path @ ?suf)" using 2(5) by simp
    then have "walk G ?suf" unfolding walk_def by (simp only: successively_append_iff)
    moreover have "last ?suf = last path" using ne(1) by (metis last_appendR takeWhile_dropWhile_id)
    moreover have "d \<in> set (succs G (last path))" using 2(6) True by (cases path) auto
    ultimately have "walk G c"
      using ne(1) unfolding c walk_def by (simp add: successively_append_iff)
    with c ne show ?thesis by (auto simp: Suc_le_eq)
  next
    case False
    show ?thesis
    proof (cases "d \<in> set visited")
      case True
      with False 2 show ?thesis by auto
    next
      case nv: False
      have walk': "walk G (path @ [d])"
        using 2(5,6) unfolding walk_def by (auto simp: successively_append_iff)
      show ?thesis
      proof (cases "find_cycle G (path @ [d]) (succs G d) visited")
        case (Inl c')
        with False nv 2(4) have "c' = c" by simp
        with Inl 2(2) [OF False nv Inl walk'] show ?thesis by simp
      next
        case (Inr visited')
        with False nv 2(4) have "find_cycle G path ds (d # visited') = Inl c" by simp
        with 2(3) [OF False nv Inr] 2(5,6) show ?thesis by auto
      qed
    qed
  qed
qed

lemma find_cycle_Inr:
  assumes "find_cycle G path ds visited = Inr visited'" and "ordered_by (edges G) visited"
    and "set path \<inter> set visited = {}"
  shows "ordered_by (edges G) visited' \<and> set visited \<subseteq> set visited' \<and> set ds \<subseteq> set visited' \<and>
    set path \<inter> set visited' = {}"
  using assms
proof (induction G path ds visited arbitrary: visited' rule: find_cycle.induct)
  case (1 G path visited)
  then show ?case by simp
next
  case (2 G path d ds visited)
  have np: "d \<notin> set path" using 2(4) by (auto split: if_splits)
  show ?case
  proof (cases "d \<in> set visited")
    case True
    with np 2 show ?thesis by auto
  next
    case nv: False
    then obtain w where w: "find_cycle G (path @ [d]) (succs G d) visited = Inr w"
      "find_cycle G path ds (d # w) = Inr visited'"
      using np 2(4) by (auto split: sum.splits)
    have "set (path @ [d]) \<inter> set visited = {}" using 2(6) nv by auto
    from 2(2) [OF np nv w(1) 2(5) this]
    have sub: "ordered_by (edges G) w" "set visited \<subseteq> set w" "set (succs G d) \<subseteq> set w"
      "set (path @ [d]) \<inter> set w = {}" by auto
    then have "ordered_by (edges G) (d # w)" and "set path \<inter> set (d # w) = {}"
      using np by auto
    from 2(3) [OF np nv w(1) w(2) this] sub(2) show ?thesis by auto
  qed
qed

lemma Domain_edges: "Domain (edges G) \<subseteq> fst ` set G"
  using succs_not_key by (fastforce simp: edges_def)

lemma cycle_of_Nil_iff: "cycle_of G = [] \<longleftrightarrow> acyclic (edges G)"
proof (cases "find_cycle G [] (map fst G) []")
  case (Inl c)
  with find_cycle_Inl [OF Inl] have c: "walk G c" "2 \<le> length c" "hd c = last c"
    by (auto simp: walk_def)
  then obtain u v vs where uv: "c = u # v # vs" by (cases c; cases "tl c") auto
  have path: "successively (\<lambda>u v. v \<in> set (succs G u)) (x # xs) \<Longrightarrow> (x, last (x # xs)) \<in> (edges G)\<^sup>*"
    for x xs
    by (induction xs arbitrary: x) (auto intro: converse_rtrancl_into_rtrancl)
  have "(u, v) \<in> edges G" "(v, last (v # vs)) \<in> (edges G)\<^sup>*"
    using c(1) uv path [of v vs] by (auto simp: walk_def)
  then have "(u, u) \<in> (edges G)\<^sup>+"
    using c(3) uv by (metis last_ConsR list.distinct(1) list.sel(1) rtrancl_into_trancl2)
  with Inl uv show ?thesis by (auto simp: cycle_of_def acyclic_def)
next
  case (Inr visited)
  from find_cycle_Inr [OF Inr] have "ordered_by (edges G) visited" "fst ` set G \<subseteq> set visited"
    by auto
  with Domain_edges have "acyclic (edges G)" by (meson ordered_by_acyclic subset_trans)
  with Inr show ?thesis by (simp add: cycle_of_def)
qed

lemma cycle_of_walk:
  assumes "cycle_of G \<noteq> []"
  shows "walk G (cycle_of G) \<and> 2 \<le> length (cycle_of G) \<and> hd (cycle_of G) = last (cycle_of G)"
proof (cases "find_cycle G [] (map fst G) []")
  case (Inl c)
  then show ?thesis using find_cycle_Inl [OF Inl] by (simp add: cycle_of_def walk_def)
qed (use assms in \<open>simp add: cycle_of_def\<close>)

section \<open>Kahn's loop\<close>

text \<open>
  \<open>relax\<close> is the loop over the successors of the node taken from \<open>ready\<close>; \<open>kahn\<close> counts the
  nodes taken. The in-degrees are a function on the nodes.
\<close>

fun relax :: "'a list \<Rightarrow> ('a \<Rightarrow> int) \<Rightarrow> 'a list \<Rightarrow> ('a \<Rightarrow> int) \<times> 'a list" where
  "relax [] indegree ready = (indegree, ready)"
| "relax (t # ts) indegree ready =
     (let n = indegree t - 1
      in relax ts (indegree(t := n)) (if n = 0 then ready @ [t] else ready))"

lemma relax_measure:
  assumes "finite U" and "set ts \<subseteq> U"
  shows "2 * card {t \<in> U. 0 < fst (relax ts indegree ready) t} + length (snd (relax ts indegree ready))
    \<le> 2 * card {t \<in> U. 0 < indegree t} + length ready"
  using assms(2)
proof (induction ts indegree ready rule: relax.induct)
  case (1 indegree ready)
  then show ?case by simp
next
  case (2 t ts indegree ready)
  let ?n = "indegree t - 1"
  have fin: "finite {t \<in> U. 0 < indegree t}" using assms(1) by simp
  have sub: "{s \<in> U. 0 < (indegree(t := ?n)) s} \<subseteq> {t \<in> U. 0 < indegree t}" by auto
  show ?case
  proof (cases "?n = 0")
    case True
    then have "{s \<in> U. 0 < (indegree(t := ?n)) s} \<subset> {t \<in> U. 0 < indegree t}"
      using 2(2) by auto
    from psubset_card_mono [OF fin this] 2 True show ?thesis by (simp add: Let_def fun_upd_def)
  next
    case False
    with card_mono [OF fin sub] 2 show ?thesis by (simp add: Let_def fun_upd_def)
  qed
qed

function kahn :: "'a::linorder digraph \<Rightarrow> ('a \<Rightarrow> int) \<Rightarrow> 'a list \<Rightarrow> nat \<Rightarrow> nat" where
  "kahn G indegree [] visited = visited"
| "kahn G indegree (u # ready) visited =
     (let p = relax (sort (succs G u)) indegree ready in kahn G (fst p) (snd p) (Suc visited))"
  by pat_completeness auto
termination
proof (relation "measure (\<lambda>(G, indegree, ready, visited).
    2 * card {t \<in> targets_of G. 0 < indegree t} + length ready)", goal_cases)
  case (2 G indegree u ready visited p)
  have "set (sort (succs G u)) \<subseteq> targets_of G" by (auto dest: succs_in_targets)
  from relax_measure [OF finite_targets_of this, of indegree ready] 2 show ?case by simp
qed auto

lemma relax_eq:
  "distinct ts \<Longrightarrow> relax ts indegree ready =
     (\<lambda>t. if t \<in> set ts then indegree t - 1 else indegree t, ready @ filter (\<lambda>t. indegree t = 1) ts)"
proof (induction ts indegree ready rule: relax.induct)
  case (2 t ts indegree ready)
  let ?upd = "indegree(t := indegree t - 1)"
  have zeros: "filter (\<lambda>s. ?upd s = 1) ts = filter (\<lambda>t. indegree t = 1) ts"
    using 2(2) by (intro filter_cong) auto
  have degrees: "(\<lambda>s. if s \<in> set ts then ?upd s - 1 else ?upd s)
      = (\<lambda>s. if s \<in> set (t # ts) then indegree s - 1 else indegree s)"
    using 2(2) by (auto simp: fun_eq_iff)
  have "relax (t # ts) indegree ready
      = (\<lambda>s. if s \<in> set ts then ?upd s - 1 else ?upd s,
         (if indegree t - 1 = 0 then ready @ [t] else ready) @ filter (\<lambda>s. ?upd s = 1) ts)"
    unfolding relax.simps Let_def by (rule 2(1)) (use 2(2) in auto)
  then show ?case unfolding zeros degrees by simp
qed auto

text \<open>
  The invariant, with the nodes already taken (the last one first) as a ghost list: their
  predecessors were all taken before them, the in-degree of a node counts the predecessors
  not taken yet, and the nodes at zero are the ones taken or ready.
\<close>

definition kahn_inv :: "'a digraph \<Rightarrow> 'a set \<Rightarrow> 'a list \<Rightarrow> ('a \<Rightarrow> int) \<Rightarrow> 'a list \<Rightarrow> bool" where
  "kahn_inv G N taken indegree ready \<longleftrightarrow>
     ordered_by ((edges G)\<inverse>) taken \<and> distinct (taken @ ready) \<and> set (taken @ ready) \<subseteq> N \<and>
     (\<forall>t\<in>N. indegree t = int (card {s \<in> N - set taken. t \<in> set (succs G s)})) \<and>
     (\<forall>t\<in>N. indegree t = 0 \<longleftrightarrow> t \<in> set (taken @ ready))"

definition graph_on :: "'a digraph \<Rightarrow> 'a set \<Rightarrow> bool" where
  "graph_on G N \<longleftrightarrow> finite N \<and> fst ` set G \<subseteq> N \<and> targets_of G \<subseteq> N \<and> (\<forall>u. distinct (succs G u))"

lemma kahn_inv_step:
  assumes G: "graph_on G N" and inv: "kahn_inv G N taken indegree (u # ready)"
  shows "kahn_inv G N (u # taken) (fst (relax (sort (succs G u)) indegree ready))
    (snd (relax (sort (succs G u)) indegree ready))"
proof -
  let ?ts = "sort (succs G u)"
  let ?zero = "filter (\<lambda>t. indegree t = 1) ?ts"
  define indegree' where "indegree' = (\<lambda>t. if t \<in> set ?ts then indegree t - 1 else indegree t)"
  have p: "relax ?ts indegree ready = (indegree', ready @ ?zero)"
    using G by (simp add: relax_eq graph_on_def indegree'_def)
  have finN: "finite N" and succN: "set (succs G v) \<subseteq> N" for v
    using G by (auto simp: graph_on_def dest: succs_in_targets)
  have u: "u \<in> N" "u \<notin> set taken" "u \<notin> set ready" and dist: "distinct (taken @ ready)"
    and sub: "set (taken @ ready) \<subseteq> N"
    and count: "\<And>t. t \<in> N \<Longrightarrow> indegree t = int (card {s \<in> N - set taken. t \<in> set (succs G s)})"
    and zero: "\<And>t. t \<in> N \<Longrightarrow> indegree t = 0 \<longleftrightarrow> t \<in> set taken \<or> t = u \<or> t \<in> set ready"
    using inv by (auto simp: kahn_inv_def)
  have preds: "s \<in> set taken" if "u \<in> set (succs G s)" for s
  proof -
    have "s \<in> fst ` set G" using that succs_not_key [of s G] by force
    then have "s \<in> N" using G by (auto simp: graph_on_def)
    moreover have "{s \<in> N - set taken. u \<in> set (succs G s)} = {}"
      using count [OF u(1)] zero [OF u(1)] finN by simp
    ultimately show ?thesis using that by auto
  qed
  have ord: "ordered_by ((edges G)\<inverse>) (u # taken)"
    using inv u(2) preds by (auto simp: kahn_inv_def)
  have count': "indegree' t = int (card {s \<in> N - set (u # taken). t \<in> set (succs G s)})"
    if t: "t \<in> N" for t
  proof -
    let ?A = "{s \<in> N - set taken. t \<in> set (succs G s)}"
    have A': "{s \<in> N - set (u # taken). t \<in> set (succs G s)} = ?A - {u}" by auto
    show ?thesis
    proof (cases "t \<in> set (succs G u)")
      case True
      with u have "u \<in> ?A" by simp
      then have "card ?A = Suc (card (?A - {u}))"
        using finN by (intro card.remove) auto
      with True count [OF t] A' show ?thesis by (simp add: indegree'_def)
    next
      case False
      then have "?A - {u} = ?A" by auto
      with False count [OF t] A' show ?thesis by (simp add: indegree'_def)
    qed
  qed
  have zero': "indegree' t = 0 \<longleftrightarrow> t \<in> set ((u # taken) @ (ready @ ?zero))" if t: "t \<in> N" for t
  proof (cases "t \<in> set (succs G u)")
    case True
    then have "u \<in> {s \<in> N - set taken. t \<in> set (succs G s)}" using u by simp
    then have "indegree t \<noteq> 0" using count [OF t] finN by auto
    with True zero [OF t] show ?thesis by (auto simp: indegree'_def)
  next
    case False
    with zero [OF t] show ?thesis by (auto simp: indegree'_def)
  qed
  have "set ?zero \<inter> (set taken \<union> {u} \<union> set ready) = {}"
    using zero succN by fastforce
  moreover have "distinct ?zero" using G by (simp add: graph_on_def)
  ultimately have "distinct ((u # taken) @ (ready @ ?zero))" using dist u by auto
  moreover have "set ((u # taken) @ (ready @ ?zero)) \<subseteq> N" using sub u(1) succN by auto
  ultimately show ?thesis
    unfolding p fst_conv snd_conv kahn_inv_def using ord count' zero' by blast
qed

lemma kahn_result:
  assumes "graph_on G N" and "kahn_inv G N taken indegree ready"
  shows "\<exists>taken' indegree'. kahn_inv G N taken' indegree' [] \<and>
    kahn G indegree ready (length taken) = length taken'"
  using assms
proof (induction G indegree ready "length taken" arbitrary: taken rule: kahn.induct)
  case (1 G indegree)
  then show ?case by auto
next
  case (2 G indegree u ready)
  from 2(1) [OF refl _ 2(2) kahn_inv_step [OF 2(2,3)]] show ?case by (simp add: Let_def)
qed

text \<open>
  Kahn's loop takes every node exactly when the graph has no cycle, started with the nodes
  of in-degree zero.
\<close>

lemma kahn_all_iff_acyclic:
  assumes G: "graph_on G N" and ready: "distinct ready" "set ready = {t \<in> N. indegree t = 0}"
    and count: "\<And>t. t \<in> N \<Longrightarrow> indegree t = int (card {s \<in> N. t \<in> set (succs G s)})"
  shows "kahn G indegree ready 0 = card N \<longleftrightarrow> acyclic (edges G)"
proof -
  have "kahn_inv G N [] indegree ready"
    using ready count by (auto simp: kahn_inv_def)
  from kahn_result [OF G this] obtain taken indegree' where
    inv: "kahn_inv G N taken indegree' []" and res: "kahn G indegree ready 0 = length taken"
    by auto
  have ord: "ordered_by ((edges G)\<inverse>) taken" and sub: "set taken \<subseteq> N" and dist: "distinct taken"
    and left: "\<And>t. t \<in> N - set taken \<Longrightarrow> card {s \<in> N - set taken. t \<in> set (succs G s)} \<noteq> 0"
    using inv by (auto simp: kahn_inv_def)
  have finN: "finite N" using G by (simp add: graph_on_def)
  have all: "kahn G indegree ready 0 = card N \<longleftrightarrow> set taken = N"
    using res sub finN dist by (metis card_subset_eq distinct_card)
  have dom: "Domain ((edges G)\<inverse>) \<subseteq> N"
    using G by (fastforce simp: graph_on_def dest: succs_in_targets)
  show ?thesis unfolding all
  proof
    assume "set taken = N"
    with ord dom have "acyclic ((edges G)\<inverse>)" by (intro ordered_by_acyclic) auto
    then show "acyclic (edges G)" by (simp add: acyclic_converse)
  next
    assume acyc: "acyclic (edges G)"
    have "edges G \<subseteq> N \<times> N"
      using G Domain_edges [of G] by (fastforce simp: graph_on_def dest: succs_in_targets)
    then have "finite (edges G)" using finN finite_subset by blast
    with acyc have wf: "wf (edges G)" by (simp add: finite_acyclic_wf)
    show "set taken = N"
    proof (rule ccontr)
      assume "set taken \<noteq> N"
      then obtain x where "x \<in> N - set taken" using sub by auto
      with wf obtain m where m: "m \<in> N - set taken" "\<And>s. (s, m) \<in> edges G \<Longrightarrow> s \<notin> N - set taken"
        by (metis wfE_min)
      then have "{s \<in> N - set taken. m \<in> set (succs G s)} = {}" by auto
      with left [OF m(1)] show False by (metis card.empty)
    qed
  qed
qed

end
