(* ===== verification/Goal_Contract.thy ===== *)
theory Goal_Contract
  imports Canonical_Json Graph_Search "HOL-Library.Sublist"
begin

text \<open>
  The original-question goal contract of \<^verbatim>\<open>grounded_goal_contract.py\<close>: the typed goals of one
  question, the normalisation a contract goes through before it is used, the structural
  checks (\<open>_contract_issues\<close>), the goal dependency graph with its cycle check and closures, and
  the contract fingerprint.

  A goal is the common part of \<open>QuestionGoalBase\<close> and a body per kind. Issues carry the code and
  the identifiers the code puts in them; their English messages are not modelled.
\<close>

section \<open>Goals and contracts\<close>

datatype population_scope =
    ALL_MATCHING_ROWS
  | SAME_AS_GOAL
  | VERIFIED_ENTITY_SET
  | VERIFIED_PREDICATE_SCOPE
  | VERIFIED_RESULT_ARTIFACT

datatype limit_source = USER_EXPLICIT | SYSTEM_DEFAULT

record time_window_goal =
  time_expression :: string
  tw_start :: string
  tw_end :: string
  tw_timezone :: string
  granularity :: string
  tw_days :: int
  calendar_anchor_policy :: string
  data_as_of_policy :: string
  window_role :: string
  time_range_kind :: string
  applies_to_goal_ids :: "string list"

record detail_goal =
  required_field_ref_ids :: "string list"
  dt_input_goal_ids :: "string list"
  requested_field_phrases :: "string list"
  request_all_fields :: bool
  dt_population_scope :: population_scope
  dt_population_goal_ids :: "string list"

record ranking_goal =
  population_scope :: population_scope
  population_goal_ids :: "string list"
  metric_goal_ids :: "string list"
  dimension_goal_ids :: "string list"
  direction :: string
  rk_limit :: int
  limit_source :: limit_source

datatype goal_body =
    Metric string string                \<comment> \<open>\<open>metric_ref_id\<close>, \<open>result_role\<close>\<close>
  | Dimension string string             \<comment> \<open>\<open>dimension_ref_id\<close>, \<open>usage\<close>\<close>
  | TimeWindow time_window_goal
  | Comparison string "string list" "string list"
      \<comment> \<open>\<open>comparison_type\<close>, \<open>left_goal_ids\<close>, \<open>right_goal_ids\<close>\<close>
  | Entity string string string "string list"
      \<comment> \<open>\<open>entity_ref_id\<close>, \<open>entity_identity\<close>, \<open>role\<close>, \<open>source_goal_ids\<close>\<close>
  | Dependency string "string list" "string list" string
      \<comment> \<open>\<open>dependency_type\<close>, \<open>upstream_goal_ids\<close>, \<open>downstream_goal_ids\<close>, \<open>artifact_kind\<close>\<close>
  | Rule "string list" string           \<comment> \<open>\<open>rule_ref_ids\<close>, \<open>requested_action\<close>\<close>
  | Detail detail_goal
  | Ranking ranking_goal
  | Analysis string "string list" "string list"
      \<comment> \<open>\<open>analysis_type\<close>, \<open>input_goal_ids\<close>, \<open>baseline_goal_ids\<close>\<close>

record question_goal =
  goal_id :: string
  label :: string
  required :: bool
  depends_on_goal_ids :: "string list"
  source_spans :: "string list"
  semantic_ref_ids :: "string list"
  rationale :: string
  body :: goal_body

record goal_contract =
  contract_version :: string
  contract_id :: string
  question :: string
  goals :: "question_goal list"
  source :: string

definition goal_map :: "goal_contract \<Rightarrow> string \<Rightarrow> question_goal option" where
  "goal_map c = map_of (rev (map (\<lambda>g. (goal_id g, g)) (goals c)))"

fun kind_text :: "goal_body \<Rightarrow> string" where
  "kind_text (Metric _ _) = ''METRIC''"
| "kind_text (Dimension _ _) = ''DIMENSION''"
| "kind_text (TimeWindow _) = ''TIME_WINDOW''"
| "kind_text (Comparison _ _ _) = ''COMPARISON''"
| "kind_text (Entity _ _ _ _) = ''ENTITY''"
| "kind_text (Dependency _ _ _ _) = ''DEPENDENCY''"
| "kind_text (Rule _ _) = ''RULE''"
| "kind_text (Detail _) = ''DETAIL''"
| "kind_text (Ranking _) = ''RANKING''"
| "kind_text (Analysis _ _ _) = ''ANALYSIS''"

fun is_metric :: "goal_body \<Rightarrow> bool" where
  "is_metric (Metric _ _) = True"
| "is_metric _ = False"

fun is_dimension_or_entity :: "goal_body \<Rightarrow> bool" where
  "is_dimension_or_entity (Dimension _ _) = True"
| "is_dimension_or_entity (Entity _ _ _ _) = True"
| "is_dimension_or_entity _ = False"

fun is_population_kind :: "goal_body \<Rightarrow> bool" where
  "is_population_kind (Detail _) = True"
| "is_population_kind (Entity _ _ _ _) = True"
| "is_population_kind (Ranking _) = True"
| "is_population_kind _ = False"

section \<open>Identifiers\<close>

text \<open>\<open>canonical_goal_id\<close>: every run of white space becomes one underscore, then the shape check.\<close>

fun squeeze_spaces :: "bool \<Rightarrow> string \<Rightarrow> string" where
  "squeeze_spaces prev [] = []"
| "squeeze_spaces prev (c # cs) =
     (if py_isspace c then (if prev then squeeze_spaces True cs else CHR ''_'' # squeeze_spaces True cs)
      else c # squeeze_spaces False cs)"

definition goal_id_tail :: "char \<Rightarrow> bool" where
  "goal_id_tail c = (ascii_alnum c \<or> c \<in> {CHR ''.'', CHR ''_'', CHR '':'', CHR ''-''})"

definition goal_id_ok :: "string \<Rightarrow> bool" where
  "goal_id_ok s = (1 \<le> length s \<and> length s \<le> 128 \<and> ascii_alnum (hd s) \<and> list_all goal_id_tail (tl s))"

datatype goal_error = InvalidGoalId

definition canonical_goal_id :: "string \<Rightarrow> goal_error + string" where
  "canonical_goal_id value =
     (let normalized = squeeze_spaces False (py_lower (py_strip value))
      in if goal_id_ok normalized then Inr normalized else Inl InvalidGoalId)"

definition canonical_goal_id_list :: "string list \<Rightarrow> goal_error + string list" where
  "canonical_goal_id_list values =
     bind_res (map_res canonical_goal_id values) (\<lambda>ids. Inr (fromkeys ids))"

definition normalized_string_list :: "string list \<Rightarrow> string list" where
  "normalized_string_list values = fromkeys (filter (\<lambda>v. v \<noteq> []) (map py_strip values))"

text \<open>\<open>_canonical_ascii_symbol\<close>: the loop over the stripped upper-case text.\<close>

fun ascii_symbol_loop :: "string \<Rightarrow> string \<Rightarrow> bool \<Rightarrow> string" where
  "ascii_symbol_loop [] result pending = result"
| "ascii_symbol_loop (c # cs) result pending =
     (if ascii_alnum c then
        ascii_symbol_loop cs
          ((if pending \<and> result \<noteq> [] \<and> last result \<noteq> CHR ''_'' then result @ ''_'' else result) @ [c])
          False
      else if result \<noteq> [] then ascii_symbol_loop cs result True
      else ascii_symbol_loop cs result pending)"

definition canonical_ascii_symbol :: "string \<Rightarrow> string" where
  "canonical_ascii_symbol value = ascii_symbol_loop (py_upper (py_strip value)) [] False"

section \<open>Normalisation\<close>

text \<open>
  \<open>_normalize_contract_payload\<close> and \<open>_normalize_goal_payload\<close> on a typed contract (the form every
  caller inside the kernel passes): identifiers canonical, identifier lists deduplicated,
  every text stripped, and the population fields of any goal but a ranking put back to their
  defaults.
\<close>

fun normalize_body :: "goal_body \<Rightarrow> goal_error + goal_body" where
  "normalize_body (Metric r v) = Inr (Metric (py_strip r) (py_strip v))"
| "normalize_body (Dimension r u) = Inr (Dimension (py_strip r) (py_strip u))"
| "normalize_body (TimeWindow w) =
     bind_res (canonical_goal_id_list (applies_to_goal_ids w)) (\<lambda>targets.
       Inr (TimeWindow (w\<lparr>time_expression := py_strip (time_expression w),
         tw_start := py_strip (tw_start w), tw_end := py_strip (tw_end w),
         tw_timezone := py_strip (tw_timezone w), granularity := py_strip (granularity w),
         calendar_anchor_policy := py_strip (calendar_anchor_policy w),
         data_as_of_policy := py_strip (data_as_of_policy w),
         window_role := py_strip (window_role w),
         time_range_kind := py_strip (time_range_kind w), applies_to_goal_ids := targets\<rparr>)))"
| "normalize_body (Comparison t ls rs) =
     bind_res (canonical_goal_id_list ls) (\<lambda>ls'. bind_res (canonical_goal_id_list rs) (\<lambda>rs'.
       Inr (Comparison (py_strip t) ls' rs')))"
| "normalize_body (Entity r i ro ss) =
     bind_res (canonical_goal_id_list ss) (\<lambda>ss'.
       Inr (Entity (py_strip r) (py_strip i) (py_strip ro) ss'))"
| "normalize_body (Dependency t us ds a) =
     bind_res (canonical_goal_id_list us) (\<lambda>us'. bind_res (canonical_goal_id_list ds) (\<lambda>ds'.
       Inr (Dependency (py_strip t) us' ds' (py_strip a))))"
| "normalize_body (Rule rs a) = Inr (Rule (normalized_string_list rs) (py_strip a))"
| "normalize_body (Detail d) =
     bind_res (canonical_goal_id_list (dt_input_goal_ids d)) (\<lambda>inputs.
     bind_res (canonical_goal_id_list (dt_population_goal_ids d)) (\<lambda>_.
       Inr (Detail (d\<lparr>required_field_ref_ids := normalized_string_list (required_field_ref_ids d),
         dt_input_goal_ids := inputs,
         requested_field_phrases := normalized_string_list (requested_field_phrases d),
         dt_population_scope := ALL_MATCHING_ROWS, dt_population_goal_ids := []\<rparr>))))"
| "normalize_body (Ranking r) =
     bind_res (canonical_goal_id_list (metric_goal_ids r)) (\<lambda>ms.
     bind_res (canonical_goal_id_list (dimension_goal_ids r)) (\<lambda>ds.
     bind_res (canonical_goal_id_list (population_goal_ids r)) (\<lambda>ps.
       Inr (Ranking (r\<lparr>metric_goal_ids := ms, dimension_goal_ids := ds, population_goal_ids := ps,
         direction := py_upper (py_strip (direction r))\<rparr>)))))"
| "normalize_body (Analysis t is bs) =
     bind_res (canonical_goal_id_list is) (\<lambda>is'. bind_res (canonical_goal_id_list bs) (\<lambda>bs'.
       Inr (Analysis (py_strip t) is' bs')))"

definition normalize_goal :: "question_goal \<Rightarrow> goal_error + question_goal" where
  "normalize_goal g =
     bind_res (canonical_goal_id (goal_id g)) (\<lambda>i.
     bind_res (canonical_goal_id_list (depends_on_goal_ids g)) (\<lambda>deps.
     bind_res (normalize_body (body g)) (\<lambda>b.
       Inr (g\<lparr>goal_id := i, label := py_strip (label g), depends_on_goal_ids := deps,
         source_spans := normalized_string_list (source_spans g),
         semantic_ref_ids := normalized_string_list (semantic_ref_ids g),
         rationale := py_strip (rationale g), body := b\<rparr>))))"

definition normalize_contract :: "goal_contract \<Rightarrow> goal_error + goal_contract" where
  "normalize_contract c =
     bind_res (map_res normalize_goal (goals c)) (\<lambda>gs.
       Inr (c\<lparr>goals := gs, question := py_strip (question c),
         contract_id := py_strip (contract_id c), source := py_strip (source c)\<rparr>))"

section \<open>References and the dependency graph\<close>

fun body_references :: "goal_body \<Rightarrow> string list" where
  "body_references (TimeWindow w) = applies_to_goal_ids w"
| "body_references (Comparison _ ls rs) = ls @ rs"
| "body_references (Entity _ _ _ ss) = ss"
| "body_references (Dependency _ us ds _) = us @ ds"
| "body_references (Detail d) = dt_input_goal_ids d"
| "body_references (Ranking r) = metric_goal_ids r @ dimension_goal_ids r @ population_goal_ids r"
| "body_references (Analysis _ is bs) = is @ bs"
| "body_references _ = []"

definition all_goal_references :: "question_goal \<Rightarrow> string list" where
  "all_goal_references g = fromkeys (depends_on_goal_ids g @ body_references (body g))"

text \<open>\<open>graph[k].update(ds)\<close> and \<open>graph.setdefault(k, set()).add(d)\<close>.\<close>

definition add_deps :: "string \<Rightarrow> string list \<Rightarrow> string digraph \<Rightarrow> string digraph" where
  "add_deps k ds G = AList.update k (fromkeys (succs G k @ ds)) G"

fun add_goal_edges :: "question_goal \<Rightarrow> string digraph \<Rightarrow> string digraph" where
  "add_goal_edges g G =
     (case body g of
        Comparison _ ls rs \<Rightarrow> add_deps (goal_id g) rs (add_deps (goal_id g) ls G)
      | Entity _ _ _ ss \<Rightarrow> add_deps (goal_id g) ss G
      | TimeWindow w \<Rightarrow> fold (\<lambda>t. add_deps t [goal_id g]) (applies_to_goal_ids w) G
      | Dependency _ us ds _ \<Rightarrow>
          fold (\<lambda>d. add_deps d [goal_id g]) ds (add_deps (goal_id g) us G)
      | Detail d \<Rightarrow> add_deps (goal_id g) (dt_input_goal_ids d) G
      | Ranking r \<Rightarrow>
          add_deps (goal_id g) (population_goal_ids r)
            (add_deps (goal_id g) (dimension_goal_ids r)
              (add_deps (goal_id g) (metric_goal_ids r) G))
      | Analysis _ is bs \<Rightarrow> add_deps (goal_id g) bs (add_deps (goal_id g) is G)
      | _ \<Rightarrow> G)"

definition base_graph :: "question_goal list \<Rightarrow> string digraph" where
  "base_graph gs = fold (\<lambda>g. AList.update (goal_id g) (fromkeys (depends_on_goal_ids g))) gs []"

definition goal_dependency_graph :: "goal_contract \<Rightarrow> string digraph" where
  "goal_dependency_graph c = fold add_goal_edges (goals c) (base_graph (goals c))"

definition dependency_cycle :: "string digraph \<Rightarrow> string list" where
  "dependency_cycle G = cycle_of (map (\<lambda>(k, ds). (k, sort ds)) G)"

definition goal_dependency_closure :: "goal_contract \<Rightarrow> string list \<Rightarrow> string list" where
  "goal_dependency_closure c target_ids =
     dependency_closure (goal_dependency_graph c)
       (fromkeys (filter (\<lambda>i. i \<noteq> []) (map py_strip target_ids)))"

text \<open>The loop of \<open>required_goal_ids\<close>, whose \<open>pending\<close> is a stack (\<open>pop()\<close> takes the last).\<close>

function required_loop :: "'a digraph \<Rightarrow> 'a list \<Rightarrow> 'a list \<Rightarrow> 'a list" where
  "required_loop G pending req =
     (if pending = [] then req
      else let p = collect [] (succs G (last pending)) req (butlast pending)
           in required_loop G (snd p) (fst p))"
  by pat_completeness auto
termination
proof (relation "measure (\<lambda>(G, pending, req). 2 * card (targets_of G - set req) + length pending)",
    goal_cases)
  case (2 G pending req p)
  obtain new where new: "p = (req @ new, butlast pending @ new)" "distinct new"
    "set new = set (succs G (last pending)) - set req"
    using collect_spec [of "[]" "succs G (last pending)" req "butlast pending"] 2 by auto
  have "set (succs G (last pending)) \<subseteq> targets_of G" by (auto dest: succs_in_targets)
  from card_minus_new [OF finite_targets_of new(3) this new(2)] new(1) 2(1)
  show ?case by (cases pending) auto
qed simp

declare required_loop.simps [simp del]

lemma required_loop_Nil [simp]: "required_loop G [] req = req"
  by (simp add: required_loop.simps [of G "[]"])

definition required_goal_ids :: "goal_contract \<Rightarrow> string list" where
  "required_goal_ids c =
     (let req = fromkeys (map goal_id (filter required (goals c)));
          closed = required_loop (goal_dependency_graph c) req req
      in map goal_id (filter (\<lambda>g. goal_id g \<in> set closed) (goals c)))"

section \<open>Structural checks\<close>

datatype goal_issue_code =
    GOAL_CONTRACT_VERSION_UNSUPPORTED
  | GOAL_CONTRACT_QUESTION_MISSING
  | GOAL_CONTRACT_EMPTY
  | DUPLICATE_GOAL_ID
  | GOAL_LABEL_MISSING
  | GOAL_SOURCE_SPAN_NOT_IN_QUESTION
  | TIME_WINDOW_DEFINITION_MISSING
  | COMPARISON_OPERANDS_MISSING
  | DEPENDENCY_ENDPOINTS_MISSING
  | RANKING_METRIC_GOAL_MISSING
  | RANKING_DIRECTION_INVALID
  | RANKING_LIMIT_REQUIRED
  | RANKING_POPULATION_GOALS_UNEXPECTED
  | RANKING_POPULATION_GOALS_REQUIRED
  | RANKING_CROSS_TURN_POPULATION_GOALS_UNEXPECTED
  | RANKING_POPULATION_GOAL_KIND_INVALID
  | RANKING_METRIC_GOAL_KIND_INVALID
  | RANKING_DIMENSION_GOAL_KIND_INVALID
  | ANALYSIS_TYPE_MISSING
  | ANALYSIS_INPUT_GOALS_MISSING
  | SELF_REFERENTIAL_GOAL
  | UNKNOWN_GOAL_REFERENCE
  | GOAL_DEPENDENCY_CYCLE

record goal_issue =
  gi_code :: goal_issue_code
  gi_goal :: string
  gi_reference :: string

definition issue :: "goal_issue_code \<Rightarrow> string \<Rightarrow> string \<Rightarrow> goal_issue" where
  "issue c g r = \<lparr>gi_code = c, gi_goal = g, gi_reference = r\<rparr>"

definition issue_if :: "bool \<Rightarrow> 'a \<Rightarrow> 'a list" where
  "issue_if b x = (if b then [x] else [])"

definition duplicate_ids :: "string list \<Rightarrow> string list" where
  "duplicate_ids ids = sorted_set (filter (\<lambda>i. 1 < count_list ids i) ids)"

definition ranking_issues :: "(string \<Rightarrow> question_goal option) \<Rightarrow> string \<Rightarrow> ranking_goal \<Rightarrow> goal_issue list" where
  "ranking_issues by_id i r =
     issue_if (metric_goal_ids r = []) (issue RANKING_METRIC_GOAL_MISSING i []) @
     issue_if (direction r \<noteq> ''ASC'' \<and> direction r \<noteq> ''DESC'') (issue RANKING_DIRECTION_INVALID i []) @
     issue_if (rk_limit r \<le> 0) (issue RANKING_LIMIT_REQUIRED i []) @
     (case population_scope r of
        ALL_MATCHING_ROWS \<Rightarrow>
          issue_if (population_goal_ids r \<noteq> []) (issue RANKING_POPULATION_GOALS_UNEXPECTED i [])
      | SAME_AS_GOAL \<Rightarrow>
          issue_if (population_goal_ids r = []) (issue RANKING_POPULATION_GOALS_REQUIRED i [])
      | VERIFIED_ENTITY_SET \<Rightarrow>
          issue_if (population_goal_ids r = []) (issue RANKING_POPULATION_GOALS_REQUIRED i [])
      | VERIFIED_PREDICATE_SCOPE \<Rightarrow>
          issue_if (population_goal_ids r \<noteq> []) (issue RANKING_CROSS_TURN_POPULATION_GOALS_UNEXPECTED i [])
      | VERIFIED_RESULT_ARTIFACT \<Rightarrow>
          issue_if (population_goal_ids r \<noteq> []) (issue RANKING_CROSS_TURN_POPULATION_GOALS_UNEXPECTED i [])) @
     concat (map (\<lambda>p. case by_id p of None \<Rightarrow> [] | Some g \<Rightarrow>
        issue_if (\<not> is_population_kind (body g)) (issue RANKING_POPULATION_GOAL_KIND_INVALID i p))
       (population_goal_ids r)) @
     concat (map (\<lambda>m. case by_id m of None \<Rightarrow> [] | Some g \<Rightarrow>
        issue_if (\<not> is_metric (body g)) (issue RANKING_METRIC_GOAL_KIND_INVALID i m))
       (metric_goal_ids r)) @
     concat (map (\<lambda>d. case by_id d of None \<Rightarrow> [] | Some g \<Rightarrow>
        issue_if (\<not> is_dimension_or_entity (body g)) (issue RANKING_DIMENSION_GOAL_KIND_INVALID i d))
       (dimension_goal_ids r))"

fun body_issues :: "(string \<Rightarrow> question_goal option) \<Rightarrow> string \<Rightarrow> goal_body \<Rightarrow> goal_issue list" where
  "body_issues by_id i (TimeWindow w) =
     issue_if (\<not> (time_expression w \<noteq> [] \<or> (tw_start w \<noteq> [] \<and> tw_end w \<noteq> [])))
       (issue TIME_WINDOW_DEFINITION_MISSING i [])"
| "body_issues by_id i (Comparison _ ls rs) =
     issue_if (ls = [] \<or> rs = []) (issue COMPARISON_OPERANDS_MISSING i [])"
| "body_issues by_id i (Dependency _ us ds _) =
     issue_if (us = [] \<or> ds = []) (issue DEPENDENCY_ENDPOINTS_MISSING i [])"
| "body_issues by_id i (Ranking r) = ranking_issues by_id i r"
| "body_issues by_id i (Analysis t is _) =
     issue_if (t = []) (issue ANALYSIS_TYPE_MISSING i []) @
     issue_if (is = []) (issue ANALYSIS_INPUT_GOALS_MISSING i [])"
| "body_issues by_id i _ = []"

definition reference_issues :: "string list \<Rightarrow> question_goal \<Rightarrow> goal_issue list" where
  "reference_issues ids g =
     concat (map (\<lambda>r.
        if r = goal_id g then [issue SELF_REFERENTIAL_GOAL (goal_id g) r]
        else issue_if (r \<notin> set ids) (issue UNKNOWN_GOAL_REFERENCE (goal_id g) r))
       (all_goal_references g))"

definition goal_issues :: "goal_contract \<Rightarrow> question_goal \<Rightarrow> goal_issue list" where
  "goal_issues c g =
     issue_if (label g = []) (issue GOAL_LABEL_MISSING (goal_id g) []) @
     concat (map (\<lambda>span. issue_if (\<not> sublist span (question c))
       (issue GOAL_SOURCE_SPAN_NOT_IN_QUESTION (goal_id g) [])) (source_spans g)) @
     body_issues (goal_map c) (goal_id g) (body g) @
     reference_issues (map goal_id (goals c)) g"

definition contract_issues :: "goal_contract \<Rightarrow> goal_issue list" where
  "contract_issues c =
     (let ids = map goal_id (goals c);
          first =
            issue_if (contract_version c \<noteq> ''original_question_goal_contract.v1'')
              (issue GOAL_CONTRACT_VERSION_UNSUPPORTED [] []) @
            issue_if (question c = []) (issue GOAL_CONTRACT_QUESTION_MISSING [] []) @
            issue_if (goals c = []) (issue GOAL_CONTRACT_EMPTY [] []) @
            map (\<lambda>i. issue DUPLICATE_GOAL_ID i []) (duplicate_ids ids) @
            concat (map (goal_issues c) (goals c));
          cycle = (if duplicate_ids ids = [] \<and> (\<forall>x\<in>set first. gi_code x \<noteq> UNKNOWN_GOAL_REFERENCE)
                   then dependency_cycle (goal_dependency_graph c) else [])
      in first @ (case cycle of [] \<Rightarrow> [] | i # _ \<Rightarrow> [issue GOAL_DEPENDENCY_CYCLE i []]))"

text \<open>
  \<open>validate_original_question_goal_contract\<close> without a question verifier: the normalised
  contract and the issues, or the error of the normalisation.
\<close>

definition validate_contract :: "goal_contract \<Rightarrow> goal_error + (goal_contract \<times> goal_issue list)" where
  "validate_contract c = bind_res (normalize_contract c) (\<lambda>n. Inr (n, contract_issues n))"

datatype contract_error = SchemaInvalid goal_error | ContractInvalid "goal_issue list"

definition parse_contract :: "goal_contract \<Rightarrow> contract_error + goal_contract" where
  "parse_contract c =
     (case validate_contract c of
        Inl e \<Rightarrow> Inl (SchemaInvalid e)
      | Inr (n, issues) \<Rightarrow> if issues = [] then Inr n else Inl (ContractInvalid issues))"

section \<open>Normal forms are stable\<close>

lemma alnum_not_space: "ascii_alnum c \<Longrightarrow> \<not> py_isspace c"
  by (auto simp: ascii_alnum_def ascii_alpha_def ascii_lower_def ascii_upper_def ascii_digit_def
      py_isspace_def Let_def)

lemma goal_id_tail_not_space: "goal_id_tail c \<Longrightarrow> \<not> py_isspace c"
  by (auto simp: goal_id_tail_def alnum_not_space) (simp_all add: py_isspace_def py_ord_def)

lemma goal_id_ok_no_space: "goal_id_ok s \<Longrightarrow> c \<in> set s \<Longrightarrow> \<not> py_isspace c"
  by (cases s) (auto simp: goal_id_ok_def list_all_iff alnum_not_space goal_id_tail_not_space)

lemma squeeze_spaces_id: "\<forall>c\<in>set s. \<not> py_isspace c \<Longrightarrow> squeeze_spaces b s = s"
  by (induction s arbitrary: b) auto

lemma squeeze_spaces_lower:
  "\<forall>c\<in>set s. lower_char c = c \<Longrightarrow> \<forall>c\<in>set (squeeze_spaces b s). lower_char c = c"
  by (induction b s rule: squeeze_spaces.induct)
    (auto simp: lower_char_def ascii_upper_def py_ord_def)

lemma canonical_goal_id_ok: "canonical_goal_id v = Inr i \<Longrightarrow> goal_id_ok i"
  by (auto simp: canonical_goal_id_def Let_def split: if_splits)

lemma canonical_goal_id_idem: "canonical_goal_id v = Inr i \<Longrightarrow> canonical_goal_id i = Inr i"
proof -
  assume i: "canonical_goal_id v = Inr i"
  then have ok: "goal_id_ok i" by (rule canonical_goal_id_ok)
  have sp: "\<forall>c\<in>set i. \<not> py_isspace c" using goal_id_ok_no_space [OF ok] by blast
  have "i = squeeze_spaces False (py_lower (py_strip v))"
    using i by (auto simp: canonical_goal_id_def Let_def split: if_splits)
  then have "\<forall>c\<in>set i. lower_char c = c"
    using squeeze_spaces_lower [of "py_lower (py_strip v)" False] by (auto simp: py_lower_def)
  then have "py_lower i = i" by (simp add: py_lower_def map_idI)
  with sp ok show ?thesis
    by (simp add: canonical_goal_id_def py_strip_def strip_of_clean squeeze_spaces_id Let_def)
qed

lemma canonical_goal_id_list_idem:
  assumes "canonical_goal_id_list vs = Inr is"
  shows "canonical_goal_id_list is = Inr is"
proof -
  from assms obtain js where js: "map_res canonical_goal_id vs = Inr js" "is = fromkeys js"
    by (auto simp: canonical_goal_id_list_def elim!: bind_res_InrE)
  have "canonical_goal_id i = Inr i" if "i \<in> set is" for i
  proof -
    have "i \<in> set js" using that js(2) by simp
    from map_res_set [OF js(1) this] show ?thesis by (auto dest: canonical_goal_id_idem)
  qed
  then have "map_res canonical_goal_id is = Inr is" by (rule map_res_id)
  then show ?thesis using js(2) by (simp add: canonical_goal_id_list_def fromkeys_distinct)
qed

lemma canonical_goal_id_list_Nil [simp]: "canonical_goal_id_list [] = Inr []"
  by (simp add: canonical_goal_id_list_def)

lemma normalized_string_list_idem [simp]:
  "normalized_string_list (normalized_string_list vs) = normalized_string_list vs"
proof -
  let ?n = "normalized_string_list vs"
  have "py_strip v = v \<and> v \<noteq> []" if "v \<in> set ?n" for v
    using that by (auto simp: normalized_string_list_def)
  then have "map py_strip ?n = ?n" and "filter (\<lambda>v. v \<noteq> []) ?n = ?n"
    by (auto simp: map_idI intro: filter_True)
  moreover have "distinct ?n" by (simp add: normalized_string_list_def)
  ultimately show ?thesis
    by (subst normalized_string_list_def) (simp add: fromkeys_distinct)
qed

lemma py_strip_upper_strip:
  "py_strip (py_upper (py_strip s)) = py_upper (py_strip s)"
proof -
  have sp: "py_isspace d \<longleftrightarrow> py_isspace c" if "d \<in> set (upper_char c)" for c d
    using that
    by (auto simp: upper_char_def ascii_lower_def py_isspace_def Let_def split: if_splits)
      (simp_all add: py_ord_def)
  have ne: "upper_char c \<noteq> []" for c by (simp add: upper_char_def)
  let ?t = "py_strip s"
  show ?thesis
  proof (cases "?t = []")
    case True
    then show ?thesis by (simp add: py_upper_def py_strip_def strip_of_def lstrip_of_def)
  next
    case False
    then obtain c cs where t: "?t = c # cs" by (cases ?t) auto
    obtain ds d where t': "?t = ds @ [d]" using False by (cases ?t rule: rev_cases) auto
    have nc: "\<not> py_isspace c"
      using strip_of_hd [of py_isspace s] False t by (simp add: py_strip_def)
    have nd: "\<not> py_isspace d"
      using rstrip_of_last [of py_isspace "lstrip_of py_isspace s"] False t'
      by (simp add: py_strip_def strip_of_def)
    have "hd (py_upper ?t) \<in> set (upper_char c)"
      using ne [of c] t by (cases "upper_char c") (auto simp: py_upper_def)
    then have h: "\<not> py_isspace (hd (py_upper ?t))" using sp nc by blast
    have "last (py_upper ?t) \<in> set (upper_char d)"
      using ne [of d] t' by (simp add: py_upper_def)
    then have l: "\<not> py_isspace (last (py_upper ?t))" using sp nd by blast
    show ?thesis
      using lstrip_of_id [of "py_upper ?t" py_isspace] rstrip_of_id [of "py_upper ?t" py_isspace] h l
      by (simp add: py_strip_def strip_of_def)
  qed
qed

lemma normalize_body_idem: "normalize_body b = Inr b' \<Longrightarrow> normalize_body b' = Inr b'"
  by (cases b) (auto elim!: bind_res_InrE simp: canonical_goal_id_list_idem py_strip_upper_strip)

lemma normalize_goal_idem: "normalize_goal g = Inr g' \<Longrightarrow> normalize_goal g' = Inr g'"
  by (auto simp: normalize_goal_def canonical_goal_id_idem canonical_goal_id_list_idem
      normalize_body_idem elim!: bind_res_InrE)

lemma normalize_contract_idem:
  assumes "normalize_contract c = Inr n"
  shows "normalize_contract n = Inr n"
proof -
  from assms obtain gs where gs: "map_res normalize_goal (goals c) = Inr gs"
    and n: "n = c\<lparr>goals := gs, question := py_strip (question c),
         contract_id := py_strip (contract_id c), source := py_strip (source c)\<rparr>"
    by (auto simp: normalize_contract_def elim!: bind_res_InrE)
  have "map_res normalize_goal gs = Inr gs"
    by (rule map_res_id) (use map_res_set [OF gs] normalize_goal_idem in blast)
  with n show ?thesis by (simp add: normalize_contract_def)
qed

section \<open>What the dependency graph says\<close>

text \<open>The direct dependencies of a contract, read off its goals: a relation, not a loop.\<close>

fun body_depends :: "string \<Rightarrow> goal_body \<Rightarrow> (string \<times> string) set" where
  "body_depends i (Comparison _ ls rs) = {i} \<times> (set ls \<union> set rs)"
| "body_depends i (Entity _ _ _ ss) = {i} \<times> set ss"
| "body_depends i (TimeWindow w) = set (applies_to_goal_ids w) \<times> {i}"
| "body_depends i (Dependency _ us ds _) = {i} \<times> set us \<union> set ds \<times> {i}"
| "body_depends i (Detail d) = {i} \<times> set (dt_input_goal_ids d)"
| "body_depends i (Ranking r) =
     {i} \<times> (set (metric_goal_ids r) \<union> set (dimension_goal_ids r) \<union> set (population_goal_ids r))"
| "body_depends i (Analysis _ is bs) = {i} \<times> (set is \<union> set bs)"
| "body_depends i _ = {}"

definition depends_on :: "goal_contract \<Rightarrow> (string \<times> string) set" where
  "depends_on c =
     (\<Union>g\<in>set (goals c). {goal_id g} \<times> set (depends_on_goal_ids g) \<union> body_depends (goal_id g) (body g))"

lemma succs_update: "succs (AList.update k ds G) v = (if v = k then ds else succs G v)"
  by (simp add: succs_def)

lemma edges_add_deps [simp]: "edges (add_deps k ds G) = edges G \<union> {k} \<times> set ds"
  by (auto simp: add_deps_def edges_def succs_update split: if_splits)

lemma edges_fold_add_deps: "edges (fold (\<lambda>t. add_deps t [d]) ts G) = edges G \<union> set ts \<times> {d}"
  by (induction ts arbitrary: G) auto

lemma edges_add_goal: "edges (add_goal_edges g G) = edges G \<union> body_depends (goal_id g) (body g)"
  by (cases "body g") (auto simp: edges_fold_add_deps)

lemma edges_fold_add_goal:
  "edges (fold add_goal_edges gs G) = edges G \<union> (\<Union>g\<in>set gs. body_depends (goal_id g) (body g))"
  by (induction gs arbitrary: G) (auto simp: edges_add_goal simp del: add_goal_edges.simps)

lemma base_graph_snoc:
  "base_graph (gs @ [g]) = AList.update (goal_id g) (fromkeys (depends_on_goal_ids g)) (base_graph gs)"
  by (simp add: base_graph_def)

lemma keys_base_graph: "fst ` set (base_graph gs) = goal_id ` set gs"
proof (induction gs rule: rev_induct)
  case Nil
  then show ?case by (simp add: base_graph_def)
next
  case (snoc g gs)
  then show ?case by (simp only: base_graph_snoc dom_update) auto
qed

lemma edges_update:
  "succs G k = [] \<Longrightarrow> edges (AList.update k ds G) = edges G \<union> {k} \<times> set ds"
  by (auto simp: edges_def succs_update split: if_splits)

lemma edges_base_graph:
  "distinct (map goal_id gs) \<Longrightarrow>
    edges (base_graph gs) = (\<Union>g\<in>set gs. {goal_id g} \<times> set (depends_on_goal_ids g))"
proof (induction gs rule: rev_induct)
  case Nil
  then show ?case by (simp add: base_graph_def edges_def succs_def)
next
  case (snoc g gs)
  then have "goal_id g \<notin> fst ` set (base_graph gs)" by (auto simp: keys_base_graph)
  then have "succs (base_graph gs) (goal_id g) = []" by (rule succs_not_key)
  with snoc show ?case by (simp add: base_graph_snoc edges_update Un_commute)
qed

lemma edges_goal_dependency_graph:
  "distinct (map goal_id (goals c)) \<Longrightarrow> edges (goal_dependency_graph c) = depends_on c"
  by (auto simp: goal_dependency_graph_def edges_fold_add_goal edges_base_graph depends_on_def)

lemma edges_sorted [simp]: "edges (map (\<lambda>(k, ds). (k, sort ds)) G) = edges G"
proof -
  have "map_of (map (\<lambda>(k, ds). (k, sort ds)) G) v = map_option sort (map_of G v)" for v
    by (induction G) auto
  then have "set (succs (map (\<lambda>(k, ds). (k, sort ds)) G) v) = set (succs G v)" for v
    by (simp add: succs_def split: option.splits)
  then show ?thesis by (simp add: edges_def)
qed

lemma dependency_cycle_Nil_iff: "dependency_cycle G = [] \<longleftrightarrow> acyclic (edges G)"
  by (simp add: dependency_cycle_def cycle_of_Nil_iff)

section \<open>What a clean contract guarantees\<close>

lemma issue_if_Nil [simp]: "issue_if b x = [] \<longleftrightarrow> \<not> b"
  by (simp add: issue_if_def)

lemma set_issue_if [simp]: "x \<in> set (issue_if b y) \<longleftrightarrow> b \<and> x = y"
  by (auto simp: issue_if_def)

lemma duplicate_ids_Nil_iff [simp]: "duplicate_ids ids = [] \<longleftrightarrow> distinct ids"
proof -
  have "distinct ids \<longleftrightarrow> (\<forall>i\<in>set ids. count_list ids i \<le> 1)"
  proof (induction ids)
    case (Cons a ids)
    have "count_list ids a = 0 \<longleftrightarrow> a \<notin> set ids" by (simp add: count_list_0_iff)
    with Cons show ?case by auto
  qed simp
  then show ?thesis by (auto simp: duplicate_ids_def filter_empty_conv not_less)
qed

lemma duplicate_ids_distinct [simp]: "distinct ids \<Longrightarrow> duplicate_ids ids = []"
  by simp

lemma contract_issues_Nil_iff:
  "contract_issues c = [] \<longleftrightarrow>
     contract_version c = ''original_question_goal_contract.v1'' \<and> question c \<noteq> [] \<and> goals c \<noteq> [] \<and>
     distinct (map goal_id (goals c)) \<and> (\<forall>g\<in>set (goals c). goal_issues c g = []) \<and>
     acyclic (depends_on c)"
proof -
  have "dependency_cycle (goal_dependency_graph c) = [] \<longleftrightarrow> acyclic (depends_on c)"
    if "distinct (map goal_id (goals c))"
    using that by (simp add: dependency_cycle_Nil_iff edges_goal_dependency_graph)
  then show ?thesis
    by (auto simp: contract_issues_def Let_def concat_eq_Nil_conv split: list.splits)
qed

lemma reference_issues_Nil_iff:
  "reference_issues ids g = [] \<longleftrightarrow>
     (\<forall>r\<in>set (depends_on_goal_ids g) \<union> set (body_references (body g)). r \<noteq> goal_id g \<and> r \<in> set ids)"
proof -
  have "reference_issues ids g = [] \<longleftrightarrow>
      (\<forall>r\<in>set (all_goal_references g). r \<noteq> goal_id g \<and> r \<in> set ids)"
    unfolding reference_issues_def concat_map_Nil_iff by (auto split: if_splits)
  then show ?thesis by (simp add: all_goal_references_def)
qed

lemma depends_on_in_goals:
  assumes "\<forall>g\<in>set (goals c). reference_issues (map goal_id (goals c)) g = []"
  shows "depends_on c \<subseteq> goal_id ` set (goals c) \<times> goal_id ` set (goals c)"
proof -
  have "body_depends (goal_id g) (body g) \<subseteq> goal_id ` set (goals c) \<times> goal_id ` set (goals c)"
    if g: "g \<in> set (goals c)" for g
    using assms g by (cases "body g") (auto simp: reference_issues_Nil_iff)
  moreover have "{goal_id g} \<times> set (depends_on_goal_ids g) \<subseteq> goal_id ` set (goals c) \<times> goal_id ` set (goals c)"
    if g: "g \<in> set (goals c)" for g
    using assms g by (auto simp: reference_issues_Nil_iff)
  ultimately show ?thesis unfolding depends_on_def by blast
qed

section \<open>Closures\<close>

lemma required_loop_closed:
  assumes "set pending \<subseteq> set req"
    and "\<And>v. v \<in> set req - set pending \<Longrightarrow> set (succs G v) \<subseteq> set req"
  shows "set req \<subseteq> set (required_loop G pending req) \<and>
    (\<forall>v\<in>set (required_loop G pending req). set (succs G v) \<subseteq> set (required_loop G pending req)) \<and>
    set (required_loop G pending req) \<subseteq> (edges G)\<^sup>* `` set req"
  using assms
proof (induction G pending req rule: required_loop.induct)
  case (1 G pending req)
  show ?case
  proof (cases "pending = []")
    case True
    with 1 show ?thesis by auto
  next
    case False
    let ?u = "last pending"
    obtain new where new: "collect [] (succs G ?u) req (butlast pending) = (req @ new, butlast pending @ new)"
      "set new = set (succs G ?u) - set req"
      using collect_spec [of "[]" "succs G ?u" req "butlast pending"] by auto
    let ?R = "required_loop G (butlast pending @ new) (req @ new)"
    have eq: "required_loop G pending req = ?R"
      using False new(1) by (simp add: required_loop.simps [of G pending req] Let_def)
    have split: "set pending = insert ?u (set (butlast pending))"
      using False by (metis append_butlast_last_id list.simps(15) rotate1.simps(2) set_rotate1)
    have p: "set (butlast pending @ new) \<subseteq> set (req @ new)" using 1(2) split by auto
    have q: "set (succs G v) \<subseteq> set (req @ new)" if "v \<in> set (req @ new) - set (butlast pending @ new)" for v
      using that 1(3) [of v] new(2) split by (cases "v = ?u") auto
    have IH: "set (req @ new) \<subseteq> set ?R \<and> (\<forall>v\<in>set ?R. set (succs G v) \<subseteq> set ?R) \<and>
        set ?R \<subseteq> (edges G)\<^sup>* `` set (req @ new)"
      by (rule 1(1) [OF False new(1) [symmetric], unfolded fst_conv snd_conv, OF p q])
    have "?u \<in> set req" using 1(2) split by auto
    then have "(edges G)\<^sup>* `` {w} \<subseteq> (edges G)\<^sup>* `` set req" if "w \<in> set (succs G ?u)" for w
      using that by (meson ImageI Image_singleton_iff converse_rtrancl_into_rtrancl edges_iff subsetI)
    with new(2) have "(edges G)\<^sup>* `` set (req @ new) \<subseteq> (edges G)\<^sup>* `` set req" by auto
    with IH show ?thesis unfolding eq by auto
  qed
qed

lemma required_loop_eq: "set (required_loop G req req) = (edges G)\<^sup>* `` set req"
proof -
  let ?R = "set (required_loop G req req)"
  have R: "set req \<subseteq> ?R" "\<And>v w. v \<in> ?R \<Longrightarrow> (v, w) \<in> edges G \<Longrightarrow> w \<in> ?R"
    "?R \<subseteq> (edges G)\<^sup>* `` set req"
    using required_loop_closed [of req req G] by auto
  have "w \<in> ?R" if "(v, w) \<in> (edges G)\<^sup>*" "v \<in> ?R" for v w
    using that by (induction rule: rtrancl_induct) (auto intro: R(2) simp del: edges_iff)
  with R show ?thesis by blast
qed

lemma set_required_goal_ids:
  assumes "distinct (map goal_id (goals c))"
  shows "set (required_goal_ids c) =
    {goal_id g | g. g \<in> set (goals c) \<and>
       (\<exists>r\<in>set (goals c). required r \<and> (goal_id r, goal_id g) \<in> (depends_on c)\<^sup>*)}"
  using edges_goal_dependency_graph [OF assms]
  by (auto simp: required_goal_ids_def Let_def required_loop_eq)

lemma set_goal_dependency_closure:
  assumes "distinct (map goal_id (goals c))" and "T = py_strip ` set ts - {[]}"
  shows "set (goal_dependency_closure c ts) = {d. \<exists>t\<in>T. (t, d) \<in> (depends_on c)\<^sup>+} - T"
proof -
  have "set (fromkeys (filter (\<lambda>i. i \<noteq> []) (map py_strip ts))) = T" using assms(2) by auto
  then show ?thesis
    by (simp only: goal_dependency_closure_def dependency_closure_eq
        edges_goal_dependency_graph [OF assms(1)])
qed

section \<open>The contract fingerprint\<close>

definition strings_json :: "string list \<Rightarrow> json" where
  "strings_json xs = JArr (map JStr xs)"

fun scope_text :: "population_scope \<Rightarrow> string" where
  "scope_text ALL_MATCHING_ROWS = ''ALL_MATCHING_ROWS''"
| "scope_text SAME_AS_GOAL = ''SAME_AS_GOAL''"
| "scope_text VERIFIED_ENTITY_SET = ''VERIFIED_ENTITY_SET''"
| "scope_text VERIFIED_PREDICATE_SCOPE = ''VERIFIED_PREDICATE_SCOPE''"
| "scope_text VERIFIED_RESULT_ARTIFACT = ''VERIFIED_RESULT_ARTIFACT''"

fun limit_source_text :: "limit_source \<Rightarrow> string" where
  "limit_source_text USER_EXPLICIT = ''USER_EXPLICIT''"
| "limit_source_text SYSTEM_DEFAULT = ''SYSTEM_DEFAULT''"

text \<open>The fields each kind adds to a dump (\<open>model_dump(by_alias=False)\<close>).\<close>

fun body_json :: "goal_body \<Rightarrow> (string \<times> json) list" where
  "body_json (Metric r v) = [(''metric_ref_id'', JStr r), (''result_role'', JStr v)]"
| "body_json (Dimension r u) = [(''dimension_ref_id'', JStr r), (''usage'', JStr u)]"
| "body_json (TimeWindow w) =
     [(''time_expression'', JStr (time_expression w)), (''start'', JStr (tw_start w)),
      (''end'', JStr (tw_end w)), (''timezone'', JStr (tw_timezone w)),
      (''granularity'', JStr (granularity w)), (''days'', JInt (tw_days w)),
      (''calendar_anchor_policy'', JStr (calendar_anchor_policy w)),
      (''data_as_of_policy'', JStr (data_as_of_policy w)),
      (''window_role'', JStr (window_role w)), (''time_range_kind'', JStr (time_range_kind w)),
      (''applies_to_goal_ids'', strings_json (applies_to_goal_ids w))]"
| "body_json (Comparison t ls rs) =
     [(''comparison_type'', JStr t), (''left_goal_ids'', strings_json ls),
      (''right_goal_ids'', strings_json rs)]"
| "body_json (Entity r i ro ss) =
     [(''entity_ref_id'', JStr r), (''entity_identity'', JStr i), (''role'', JStr ro),
      (''source_goal_ids'', strings_json ss)]"
| "body_json (Dependency t us ds a) =
     [(''dependency_type'', JStr t), (''upstream_goal_ids'', strings_json us),
      (''downstream_goal_ids'', strings_json ds), (''artifact_kind'', JStr a)]"
| "body_json (Rule rs a) = [(''rule_ref_ids'', strings_json rs), (''requested_action'', JStr a)]"
| "body_json (Detail d) =
     [(''required_field_ref_ids'', strings_json (required_field_ref_ids d)),
      (''input_goal_ids'', strings_json (dt_input_goal_ids d)),
      (''requested_field_phrases'', strings_json (requested_field_phrases d)),
      (''request_all_fields'', JBool (request_all_fields d)),
      (''population_scope'', JStr (scope_text (dt_population_scope d))),
      (''population_goal_ids'', strings_json (dt_population_goal_ids d))]"
| "body_json (Ranking r) =
     [(''population_scope'', JStr (scope_text (population_scope r))),
      (''population_goal_ids'', strings_json (population_goal_ids r)),
      (''metric_goal_ids'', strings_json (metric_goal_ids r)),
      (''dimension_goal_ids'', strings_json (dimension_goal_ids r)),
      (''direction'', JStr (direction r)), (''limit'', JInt (rk_limit r)),
      (''limit_source'', JStr (limit_source_text (limit_source r)))]"
| "body_json (Analysis t is bs) =
     [(''analysis_type'', JStr t), (''input_goal_ids'', strings_json is),
      (''baseline_goal_ids'', strings_json bs)]"

definition goal_json :: "question_goal \<Rightarrow> json" where
  "goal_json g = JObj (
     [(''goal_id'', JStr (goal_id g)), (''kind'', JStr (kind_text (body g))),
      (''label'', JStr (label g)), (''required'', JBool (required g)),
      (''depends_on_goal_ids'', strings_json (depends_on_goal_ids g)),
      (''source_spans'', strings_json (source_spans g)),
      (''semantic_ref_ids'', strings_json (semantic_ref_ids g)),
      (''rationale'', JStr (rationale g))] @ body_json (body g))"

definition contract_json :: "goal_contract \<Rightarrow> json" where
  "contract_json c = JObj
     [(''contract_version'', JStr (contract_version c)), (''contract_id'', JStr (contract_id c)),
      (''question'', JStr (question c)), (''goals'', JArr (map goal_json (goals c))),
      (''source'', JStr (source c))]"

definition goal_contract_fingerprint :: "(string \<Rightarrow> string) \<Rightarrow> goal_contract \<Rightarrow> contract_error + string" where
  "goal_contract_fingerprint h c =
     bind_res (parse_contract c) (\<lambda>n. Inr (stable_fingerprint h (contract_json n)))"

text \<open>A dump determines the goal: the key of each field is fixed by the kind.\<close>

lemma strings_json_inj [simp]: "strings_json xs = strings_json ys \<longleftrightarrow> xs = ys"
  by (auto simp: strings_json_def inj_on_def intro: map_injective)

lemma canon_strings [simp]: "canon (strings_json xs) = strings_json xs"
  by (simp add: strings_json_def)

lemma scope_text_inj [simp]: "scope_text a = scope_text b \<longleftrightarrow> a = b"
  by (cases a; cases b) auto

lemma limit_source_text_inj [simp]: "limit_source_text a = limit_source_text b \<longleftrightarrow> a = b"
  by (cases a; cases b) auto

lemma canon_JStr_iff [simp]: "canon j = JStr s \<longleftrightarrow> j = JStr s"
  by (cases j) auto



lemma body_json_keys:
  "distinct ([''goal_id'', ''kind'', ''label'', ''required'', ''depends_on_goal_ids'',
     ''source_spans'', ''semantic_ref_ids'', ''rationale''] @ map fst (body_json b))"
  by (cases b; simp only: body_json.simps list.map fst_conv; code_simp)

lemma body_json_same:
  assumes "kind_text b = kind_text b'"
  shows "map fst (body_json b) = map fst (body_json b')"
    and "map (\<lambda>kv. canon (snd kv)) (body_json b) = map (\<lambda>kv. canon (snd kv)) (body_json b') \<Longrightarrow> b = b'"
  using assms by (cases b; cases b'; simp)+

lemma goal_json_inj:
  assumes "canon (goal_json g) = canon (goal_json (g' :: question_goal))"
  shows "g = g'"
proof -
  let ?base = "\<lambda>g. [(''goal_id'', JStr (goal_id g)), (''kind'', JStr (kind_text (body g))),
      (''label'', JStr (label g)), (''required'', JBool (required g)),
      (''depends_on_goal_ids'', strings_json (depends_on_goal_ids g)),
      (''source_spans'', strings_json (source_spans g)),
      (''semantic_ref_ids'', strings_json (semantic_ref_ids g)),
      (''rationale'', JStr (rationale g))]"
  have keys: "distinct (map fst (?base g @ body_json (body g)))" for g :: question_goal
    using body_json_keys [of "body g"] by simp
  note eq = assms [unfolded goal_json_def]
  have kind: "kind_text (body g) = kind_text (body g')"
    using canon_eq_field [OF eq keys keys, of "''kind''"] by simp
  have "map fst (?base g @ body_json (body g)) = map fst (?base g' @ body_json (body g'))"
    using body_json_same(1) [OF kind] by simp
  from canon_eq_values [OF eq this keys] body_json_same(2) [OF kind] show ?thesis by simp
qed

lemma contract_json_inj:
  assumes "canon (contract_json c) = canon (contract_json (c' :: goal_contract))"
  shows "c = c'"
proof -
  have keys: "distinct [''contract_version'', ''contract_id'', ''question'', ''goals'', ''source'']"
    by code_simp
  have eqs: "contract_version c = contract_version c'" "contract_id c = contract_id c'"
    "question c = question c'" "source c = source c'"
    "map (\<lambda>g. canon (goal_json g)) (goals c) = map (\<lambda>g. canon (goal_json g)) (goals c')"
    using canon_eq_values [OF assms [unfolded contract_json_def]] keys by (simp_all add: comp_def)
  have "goals c = goals c'"
    using eqs(5) by (rule map_injective) (auto intro: injI goal_json_inj)
  with eqs show ?thesis by simp
qed

lemma goal_contract_fingerprint_eq:
  assumes "inj h" and "parse_contract c = Inr n" and "parse_contract c' = Inr n'"
  shows "goal_contract_fingerprint h c = goal_contract_fingerprint h c' \<longleftrightarrow> n = n'"
  using assms by (auto simp: goal_contract_fingerprint_def stable_fingerprint_eq_iff contract_json_inj)

section \<open>Properties\<close>

text \<open>
  C21: A goal contract that passes the structural checks is well formed: its goal identifiers are
  distinct, every goal a goal refers to exists and is another goal, and the dependencies the
  goals declare (in either direction) have no cycle.
\<close>

theorem goal_contract_sound:
  assumes "contract_issues c = []"
  shows "distinct (map goal_id (goals c)) \<and>
    (\<forall>g\<in>set (goals c). \<forall>r\<in>set (all_goal_references g).
       r \<noteq> goal_id g \<and> (\<exists>t\<in>set (goals c). goal_id t = r)) \<and>
    acyclic (depends_on c) \<and> depends_on c \<subseteq> goal_id ` set (goals c) \<times> goal_id ` set (goals c)"
proof -
  have ok: "distinct (map goal_id (goals c))" "acyclic (depends_on c)"
    "\<forall>g\<in>set (goals c). reference_issues (map goal_id (goals c)) g = []"
    using assms by (auto simp: contract_issues_Nil_iff goal_issues_def)
  moreover have "r \<noteq> goal_id g \<and> (\<exists>t\<in>set (goals c). goal_id t = r)"
    if g: "g \<in> set (goals c)" and r: "r \<in> set (all_goal_references g)" for g r
  proof -
    have "r \<noteq> goal_id g \<and> r \<in> set (map goal_id (goals c))"
      using ok(3) g r unfolding reference_issues_Nil_iff all_goal_references_def set_fromkeys set_append
      by blast
    then show ?thesis by auto
  qed
  ultimately show ?thesis using depends_on_in_goals by blast
qed

definition sample_goal :: "string \<Rightarrow> goal_body \<Rightarrow> question_goal" where
  "sample_goal i b = \<lparr>goal_id = i, label = i, required = True, depends_on_goal_ids = [],
     source_spans = [], semantic_ref_ids = [], rationale = [], body = b\<rparr>"

definition sample_contract :: goal_contract where
  "sample_contract =
     \<lparr>contract_version = ''original_question_goal_contract.v1'', contract_id = [],
      question = ''top goods by gmv'',
      goals =
        [sample_goal ''gmv'' (Metric [] ''value''),
         sample_goal ''goods'' (Dimension [] ''group_by''),
         sample_goal ''top'' (Ranking \<lparr>population_scope = ALL_MATCHING_ROWS,
           population_goal_ids = [], metric_goal_ids = [''gmv''], dimension_goal_ids = [''goods''],
           direction = ''DESC'', rk_limit = 10, limit_source = USER_EXPLICIT\<rparr>)],
      source = ''core''\<rparr>"

lemma goal_contract_sound_witness:
  "contract_issues sample_contract = [] \<and> acyclic (depends_on sample_contract)"
proof -
  have clean: "contract_issues sample_contract = []" by code_simp
  from goal_contract_sound [OF this] clean show ?thesis by simp
qed

text \<open>
  C34: Parsing a contract a second time changes nothing: a contract that parses to \<open>n\<close> has a
  normal form that parses to itself, with the same fingerprint.
\<close>

theorem parse_contract_stable:
  assumes "parse_contract c = Inr n"
  shows "parse_contract n = Inr n \<and> goal_contract_fingerprint h n = goal_contract_fingerprint h c"
proof -
  have n: "normalize_contract c = Inr n" "contract_issues n = []"
    using assms
    by (auto simp: parse_contract_def validate_contract_def bind_res_def split: sum.splits if_splits)
  with normalize_contract_idem [OF n(1)] have "parse_contract n = Inr n"
    by (simp add: parse_contract_def validate_contract_def)
  with assms show ?thesis by (simp add: goal_contract_fingerprint_def)
qed

lemma parse_contract_stable_witness:
  "parse_contract (sample_contract\<lparr>question := '' top goods by gmv ''\<rparr>) = Inr sample_contract \<and>
   parse_contract sample_contract = Inr sample_contract"
proof -
  have p: "parse_contract (sample_contract\<lparr>question := '' top goods by gmv ''\<rparr>) = Inr sample_contract"
    by code_simp
  from parse_contract_stable [OF p] p show ?thesis by simp
qed

text \<open>
  The contract fingerprint identifies the parsed contract: with a digest that does not
  collide, two contracts that parse have the same fingerprint exactly if they parse to the
  same contract, field by field and goal by goal.
\<close>

theorem goal_fingerprint_identifies:
  assumes "inj h" and "parse_contract c = Inr n" and "parse_contract c' = Inr n'"
  shows "goal_contract_fingerprint h c = goal_contract_fingerprint h c' \<longleftrightarrow> n = n'"
  using assms by (rule goal_contract_fingerprint_eq)

lemma goal_fingerprint_identifies_witness:
  "goal_contract_fingerprint id sample_contract
    \<noteq> goal_contract_fingerprint id (sample_contract\<lparr>contract_id := ''v2''\<rparr>)"
proof -
  have p: "parse_contract sample_contract = Inr sample_contract"
    "parse_contract (sample_contract\<lparr>contract_id := ''v2''\<rparr>) = Inr (sample_contract\<lparr>contract_id := ''v2''\<rparr>)"
    by code_simp+
  have "sample_contract \<noteq> sample_contract\<lparr>contract_id := ''v2''\<rparr>"
    by (simp add: sample_contract_def)
  with goal_fingerprint_identifies [OF inj_on_id p] show ?thesis by simp
qed

text \<open>
  \<open>required_goal_ids\<close> returns, in contract order, exactly the goals marked required and the
  goals they depend on through any number of declared dependencies.
\<close>

theorem required_goal_ids_spec:
  assumes "distinct (map goal_id (goals c))"
  shows "required_goal_ids c = filter (\<lambda>i. \<exists>r\<in>set (goals c). required r \<and>
      (goal_id r, i) \<in> (depends_on c)\<^sup>*) (map goal_id (goals c))"
  using edges_goal_dependency_graph [OF assms]
  by (auto simp: required_goal_ids_def Let_def required_loop_eq filter_map comp_def Bex_def
      intro!: arg_cong [of _ _ "map goal_id"] filter_cong)

lemma required_goal_ids_spec_witness:
  "required_goal_ids (sample_contract\<lparr>goals :=
     [sample_goal ''gmv'' (Metric [] []) \<lparr>required := False\<rparr>,
      sample_goal ''other'' (Metric [] []) \<lparr>required := False\<rparr>,
      sample_goal ''why'' (Analysis ''trend'' [''gmv''] [])]\<rparr>) = [''gmv'', ''why'']"
  (is "required_goal_ids ?c = _")
proof -
  have d: "distinct (map goal_id (goals ?c))" by code_simp
  have "required_goal_ids ?c = [''gmv'', ''why'']" by code_simp
  with required_goal_ids_spec [OF d] show ?thesis by simp
qed

text \<open>
  \<open>goal_dependency_closure\<close> returns exactly the goals the (stripped, non-empty) targets depend
  on through one or more declared dependencies, the targets themselves left out.
\<close>

theorem goal_dependency_closure_spec:
  assumes "distinct (map goal_id (goals c))"
  shows "d \<in> set (goal_dependency_closure c ts) \<longleftrightarrow>
    d \<notin> py_strip ` set ts - {[]} \<and>
    (\<exists>t\<in>py_strip ` set ts - {[]}. (t, d) \<in> (depends_on c)\<^sup>+)"
  unfolding set_goal_dependency_closure [OF assms refl] by auto

lemma goal_dependency_closure_spec_witness:
  "(''top'', ''gmv'') \<in> (depends_on sample_contract)\<^sup>+ \<and>
   ''gmv'' \<in> set (goal_dependency_closure sample_contract [''top ''])"
proof -
  have d: "distinct (map goal_id (goals sample_contract))" by code_simp
  have "''gmv'' \<in> set (goal_dependency_closure sample_contract [''top ''])" by code_simp
  moreover from this goal_dependency_closure_spec [OF d, of "''gmv''" "[''top '']"]
  have "\<exists>t\<in>py_strip ` set [''top ''] - {[]}. (t, ''gmv'') \<in> (depends_on sample_contract)\<^sup>+"
    by blast
  moreover have "py_strip ''top '' = ''top''" by code_simp
  ultimately show ?thesis by auto
qed

end
