(* ===== verification/Py_Text.thy ===== *)
theory Py_Text
  imports Merchant_Prelude
begin

text \<open>
  Text operations of Python that several components use: joining, prefixes and suffixes, substring
  search, splitting and replacing. They extend the vocabulary of the prelude.
\<close>

fun join_with :: "string \<Rightarrow> string list \<Rightarrow> string" where
  "join_with sep [] = []"
| "join_with sep [x] = x"
| "join_with sep (x # xs) = x @ sep @ join_with sep xs"

fun starts_with :: "string \<Rightarrow> string \<Rightarrow> bool" where
  "starts_with s [] = True"
| "starts_with [] (p # ps) = False"
| "starts_with (c # s) (p # ps) = (c = p \<and> starts_with s ps)"

definition ends_with :: "string \<Rightarrow> string \<Rightarrow> bool" where
  "ends_with s suffix = starts_with (rev s) (rev suffix)"

text \<open>\<open>needle in text\<close>.\<close>

fun contains_text :: "string \<Rightarrow> string \<Rightarrow> bool" where
  "contains_text [] needle = (needle = [])"
| "contains_text (c # s) needle = (starts_with (c # s) needle \<or> contains_text s needle)"

lemma starts_with_append [simp]: "starts_with (p @ s) p"
  by (induction p) auto

lemma starts_with_iff: "starts_with s p \<longleftrightarrow> (\<exists>t. s = p @ t)"
  by (induction s p rule: starts_with.induct) auto

lemma starts_with_take: "starts_with s p \<longleftrightarrow> take (length p) s = p"
  by (induction s p rule: starts_with.induct) auto

lemma ends_with_iff: "ends_with s p \<longleftrightarrow> (\<exists>t. s = t @ p)"
  unfolding ends_with_def starts_with_iff by (metis rev_append rev_rev_ident)

lemma contains_text_iff: "contains_text s n \<longleftrightarrow> (\<exists>u v. s = u @ n @ v)"
proof (induction s)
  case (Cons c s)
  show ?case
    unfolding contains_text.simps Cons starts_with_iff
    by (metis append_Cons append_Nil list.exhaust list.inject)
qed simp

lemma contains_text_Nil [simp]: "contains_text s []"
  unfolding contains_text_iff by (metis append_Nil)

text \<open>\<open>list[-n:]\<close>.\<close>

definition take_last :: "nat \<Rightarrow> 'a list \<Rightarrow> 'a list" where
  "take_last n xs = drop (length xs - n) xs"

lemma length_take_last [simp]: "length (take_last n xs) = min n (length xs)"
  by (simp add: take_last_def)

lemma set_take_last: "set (take_last n xs) \<subseteq> set xs"
  by (simp add: take_last_def set_drop_subset)

lemma take_last_short: "length xs \<le> n \<Longrightarrow> take_last n xs = xs"
  by (simp add: take_last_def)


text \<open>\<open>str.isalnum\<close>, on the letters, digits and numbers of Latin-1.\<close>

definition py_isalnum :: "char \<Rightarrow> bool" where
  "py_isalnum c = (ascii_alnum c \<or>
     (let n = py_ord c in n \<in> {170, 178, 179, 181, 185, 186, 188, 189, 190} \<or> 192 \<le> n \<and> n \<noteq> 215 \<and> n \<noteq> 247))"

text \<open>\<open>str.casefold\<close>; the micro sign, whose folding lies outside the alphabet, stands for itself.\<close>

definition py_casefold :: "string \<Rightarrow> string" where
  "py_casefold s = concat (map (\<lambda>c. if py_ord c = 223 then ''ss'' else [lower_char c]) s)"

text \<open>\<open>str.split()\<close>: the words between white space.\<close>

fun words_of :: "string \<Rightarrow> string \<Rightarrow> string list" where
  "words_of w [] = (if w = [] then [] else [w])"
| "words_of w (c # s) =
     (if py_isspace c then (if w = [] then words_of [] s else w # words_of [] s) else words_of (w @ [c]) s)"

definition py_words :: "string \<Rightarrow> string list" where
  "py_words s = words_of [] s"

text \<open>\<open>str.replace\<close> of a text that is not empty: \<open>skip\<close> characters belong to the last match.\<close>

fun replace_from :: "string \<Rightarrow> string \<Rightarrow> nat \<Rightarrow> string \<Rightarrow> string" where
  "replace_from old new skip [] = []"
| "replace_from old new skip (c # s) =
     (if 0 < skip then replace_from old new (skip - 1) s
      else if starts_with (c # s) old then new @ replace_from old new (length old - 1) s
      else c # replace_from old new 0 s)"

definition py_replace :: "string \<Rightarrow> string \<Rightarrow> string \<Rightarrow> string" where
  "py_replace old new s = replace_from old new 0 s"

end
