(* ===== verification/Json_Python.thy ===== *)
theory Json_Python
  imports Canonical_Json
begin

text \<open>
  What Python's \<open>str()\<close>, \<open>repr()\<close> and \<open>bool()\<close> give on the values of a decoded JSON document. The task
  store and the access control read the fields of a document this way.
\<close>

text \<open>\<open>str()\<close> and the truth value of a payload value.\<close>

definition repr_char :: "char \<Rightarrow> char \<Rightarrow> string" where
  "repr_char q c =
     (let n = py_ord c
      in if c = q \<or> n = 92 then [CHR 0x5C, c]
         else if n = 10 then [CHR 0x5C, CHR ''n'']
         else if n = 13 then [CHR 0x5C, CHR ''r'']
         else if n = 9 then [CHR 0x5C, CHR ''t'']
         else if n < 32 \<or> 127 \<le> n \<and> n \<le> 160 \<or> n = 173
           then [CHR 0x5C, CHR ''x'', hex_digit (n div 16), hex_digit (n mod 16)]
         else [c])"

definition py_repr_text :: "string \<Rightarrow> string" where
  "py_repr_text s =
     (let q = (if CHR 0x27 \<in> set s \<and> CHR 0x22 \<notin> set s then CHR 0x22 else CHR 0x27)
      in q # concat (map (repr_char q) s) @ [q])"

fun join_repr :: "string list \<Rightarrow> string" where
  "join_repr [] = []"
| "join_repr [x] = x"
| "join_repr (x # xs) = x @ '', '' @ join_repr xs"

fun py_repr :: "json \<Rightarrow> string" where
  "py_repr JNull = ''None''"
| "py_repr (JBool b) = (if b then ''True'' else ''False'')"
| "py_repr (JInt i) = int_text i"
| "py_repr (JStr s) = py_repr_text s"
| "py_repr (JArr js) = ''['' @ join_repr (map py_repr js) @ '']''"
| "py_repr (JObj kvs) = ''{'' @ join_repr (map (\<lambda>(k, v). py_repr_text k @ '': '' @ py_repr v) kvs) @ ''}''"

definition py_str :: "json \<Rightarrow> string" where
  "py_str j = (case j of JStr s \<Rightarrow> s | _ \<Rightarrow> py_repr j)"

fun truthy :: "json \<Rightarrow> bool" where
  "truthy JNull = False"
| "truthy (JBool b) = b"
| "truthy (JInt i) = (i \<noteq> 0)"
| "truthy (JStr s) = (s \<noteq> [])"
| "truthy (JArr js) = (js \<noteq> [])"
| "truthy (JObj kvs) = (kvs \<noteq> [])"

text \<open>\<open>str(payload.get(key) or "")\<close>.\<close>

definition payload_text :: "(string, json) dict \<Rightarrow> string \<Rightarrow> string" where
  "payload_text p key = (case map_of p key of None \<Rightarrow> [] | Some j \<Rightarrow> if truthy j then py_str j else [])"

end
