(* ===== verification/Goal_Proofs.thy ===== *)
theory Goal_Proofs
  imports Goal_Contract Py_Text Json_Python
begin

text \<open>
  Proofs of single goals (\<^verbatim>\<open>grounded_goal_contract.py\<close>): the typed resolutions an artifact declares, their
  normalisation, the checks of one resolution against its goal (\<open>_goal_resolution_issues\<close>), the semantic
  evidence, and the compatibility proofs of primitive goals.

  A resolution is the common part of \<open>GoalProofResolutionBase\<close> and a body per kind. Issues carry the
  code, the goal, the artifact and the identifiers the code lists as missing; messages are left out.
  \<open>unicodedata.normalize("NFKC", ..)\<close> is written out for Latin-1, where the characters whose
  decomposition leaves the alphabet stand for themselves.
\<close>

section \<open>Resolutions\<close>

datatype resolution_status = PROVED | INSUFFICIENT_EVIDENCE

record time_proof =
  tp_expression :: string
  tp_start :: string
  tp_end :: string
  tp_timezone :: string
  tp_granularity :: string
  tp_days :: int
  tp_label :: string
  tp_explicit :: bool
  tp_calendar :: string
  tp_as_of :: string
  tp_role :: string
  tp_kind :: string

text \<open>Comparisons and analyses: the type, the operands or inputs, and how the result came about.\<close>

record derived_proof =
  dp_type :: string
  dp_goals :: "string list"
  dp_method :: string
  dp_result :: string
  dp_baselines :: "string list"
  dp_normalization :: string

record detail_proof =
  dt_output_fields :: "string list"
  dt_output_refs :: "string list"
  dt_row_set :: string
  dt_row_count :: "int option"

record ranking_proof =
  rp_order_by :: "string list"
  rp_dimensions :: "string list"
  rp_metric_ref :: string
  rp_dimension_ref :: string
  rp_direction :: string
  rp_limit :: int
  rp_row_set :: string
  rp_scope :: string
  rp_population :: "string list"
  rp_lineage :: "string list"

datatype proof_body =
    MetricProof "string list" "string list"               \<comment> \<open>\<open>metric_ref_ids\<close>, \<open>value_refs\<close>\<close>
  | DimensionProof "string list" "string list"            \<comment> \<open>\<open>dimension_ref_ids\<close>, \<open>output_fields\<close>\<close>
  | TimeProof time_proof
  | ComparisonProof derived_proof
  | EntityProof "string list" "string list" string        \<comment> \<open>\<open>entity_ref_ids\<close>, \<open>identity_fields\<close>, \<open>entity_set_ref\<close>\<close>
  | DependencyProof "string list" "string list" "string list"
      \<comment> \<open>\<open>upstream_artifact_ids\<close>, \<open>downstream_artifact_ids\<close>, \<open>lineage_refs\<close>\<close>
  | RuleProof "string list" "string list"                 \<comment> \<open>\<open>rule_ref_ids\<close>, \<open>citation_refs\<close>\<close>
  | DetailProof detail_proof
  | RankingProof ranking_proof
  | AnalysisProof derived_proof

record goal_resolution =
  rs_goal :: string
  rs_status :: resolution_status
  rs_proof_type :: string
  rs_evidence :: "string list"
  rs_reason :: string
  rs_details :: "(string, json) dict"
  rs_body :: proof_body

fun proof_kind_text :: "proof_body \<Rightarrow> string" where
  "proof_kind_text (MetricProof _ _) = ''METRIC''"
| "proof_kind_text (DimensionProof _ _) = ''DIMENSION''"
| "proof_kind_text (TimeProof _) = ''TIME_WINDOW''"
| "proof_kind_text (ComparisonProof _) = ''COMPARISON''"
| "proof_kind_text (EntityProof _ _ _) = ''ENTITY''"
| "proof_kind_text (DependencyProof _ _ _) = ''DEPENDENCY''"
| "proof_kind_text (RuleProof _ _) = ''RULE''"
| "proof_kind_text (DetailProof _) = ''DETAIL''"
| "proof_kind_text (RankingProof _) = ''RANKING''"
| "proof_kind_text (AnalysisProof _) = ''ANALYSIS''"

text \<open>\<open>_normalize_goal_resolution_payload\<close> of a typed resolution.\<close>

definition normalize_derived :: "derived_proof \<Rightarrow> goal_error + derived_proof" where
  "normalize_derived d = bind_res (canonical_goal_id_list (dp_goals d)) (\<lambda>gs.
     Inr \<lparr>dp_type = py_strip (dp_type d), dp_goals = gs, dp_method = py_strip (dp_method d),
       dp_result = py_strip (dp_result d), dp_baselines = normalized_string_list (dp_baselines d),
       dp_normalization = py_strip (dp_normalization d)\<rparr>)"

fun normalize_proof :: "proof_body \<Rightarrow> goal_error + proof_body" where
  "normalize_proof (MetricProof rs vs) = Inr (MetricProof (normalized_string_list rs) (normalized_string_list vs))"
| "normalize_proof (DimensionProof rs fs) = Inr (DimensionProof (normalized_string_list rs) (normalized_string_list fs))"
| "normalize_proof (TimeProof t) = Inr (TimeProof (t\<lparr>tp_expression := py_strip (tp_expression t),
     tp_start := py_strip (tp_start t), tp_end := py_strip (tp_end t), tp_timezone := py_strip (tp_timezone t),
     tp_granularity := py_strip (tp_granularity t), tp_label := py_strip (tp_label t),
     tp_calendar := py_strip (tp_calendar t), tp_as_of := py_strip (tp_as_of t), tp_role := py_strip (tp_role t),
     tp_kind := py_strip (tp_kind t)\<rparr>))"
| "normalize_proof (ComparisonProof d) = bind_res (normalize_derived d) (\<lambda>d'. Inr (ComparisonProof d'))"
| "normalize_proof (EntityProof rs fs s) =
     Inr (EntityProof (normalized_string_list rs) (normalized_string_list fs) (py_strip s))"
| "normalize_proof (DependencyProof us ds ls) =
     Inr (DependencyProof (normalized_string_list us) (normalized_string_list ds) (normalized_string_list ls))"
| "normalize_proof (RuleProof rs cs) = Inr (RuleProof (normalized_string_list rs) (normalized_string_list cs))"
| "normalize_proof (DetailProof d) = Inr (DetailProof (d\<lparr>dt_output_fields := normalized_string_list (dt_output_fields d),
     dt_output_refs := normalized_string_list (dt_output_refs d), dt_row_set := py_strip (dt_row_set d)\<rparr>))"
| "normalize_proof (RankingProof r) =
     bind_res (canonical_goal_id_list (rp_order_by r)) (\<lambda>os.
     bind_res (canonical_goal_id_list (rp_dimensions r)) (\<lambda>ds.
     bind_res (canonical_goal_id_list (rp_population r)) (\<lambda>ps.
       Inr (RankingProof (r\<lparr>rp_order_by := os, rp_dimensions := ds, rp_population := ps,
         rp_metric_ref := py_strip (rp_metric_ref r), rp_dimension_ref := py_strip (rp_dimension_ref r),
         rp_direction := py_upper (py_strip (rp_direction r)), rp_row_set := py_strip (rp_row_set r),
         rp_scope := py_strip (rp_scope r), rp_lineage := normalized_string_list (rp_lineage r)\<rparr>)))))"
| "normalize_proof (AnalysisProof d) = bind_res (normalize_derived d) (\<lambda>d'. Inr (AnalysisProof d'))"

definition normalize_resolution :: "goal_resolution \<Rightarrow> goal_error + goal_resolution" where
  "normalize_resolution r =
     bind_res (canonical_goal_id (rs_goal r)) (\<lambda>i. bind_res (normalize_proof (rs_body r)) (\<lambda>b.
       Inr (r\<lparr>rs_goal := i, rs_proof_type := py_strip (rs_proof_type r), rs_reason := py_strip (rs_reason r),
         rs_evidence := normalized_string_list (rs_evidence r), rs_body := b\<rparr>)))"

section \<open>Semantic references\<close>

definition nfkc_char :: "char \<Rightarrow> char" where
  "nfkc_char c = (let n = py_ord c in
     if n = 160 then CHR '' '' else if n = 170 then CHR ''a'' else if n = 178 then CHR ''2''
     else if n = 179 then CHR ''3'' else if n = 185 then CHR ''1'' else if n = 186 then CHR ''o'' else c)"

definition canonical_semantic_ref :: "string \<Rightarrow> string" where
  "canonical_semantic_ref v = py_replace '':column:'' '':field:'' (py_casefold (map nfkc_char (py_strip v)))"

definition canonical_semantic_refs :: "string list \<Rightarrow> string list" where
  "canonical_semantic_refs vs = filter (\<lambda>v. v \<noteq> []) (map canonical_semantic_ref vs)"

fun body_refs :: "goal_body \<Rightarrow> string list" where
  "body_refs (Metric r _) = filter (\<lambda>v. v \<noteq> []) [py_strip r]"
| "body_refs (Dimension r _) = filter (\<lambda>v. v \<noteq> []) [py_strip r]"
| "body_refs (Entity r _ _ _) = filter (\<lambda>v. v \<noteq> []) [py_strip r]"
| "body_refs (Rule rs _) = normalized_string_list rs"
| "body_refs (Detail d) = normalized_string_list (required_field_ref_ids d)"
| "body_refs _ = []"

definition goal_semantic_refs :: "question_goal \<Rightarrow> string list" where
  "goal_semantic_refs g = semantic_ref_ids g @ body_refs (body g)"

section \<open>Issues\<close>

datatype coverage_code =
    ContractSchemaInvalid goal_error
  | ContractIssue goal_issue_code
  | ARTIFACT_GOAL_COVERAGE_INVALID
  | ARTIFACT_ID_MISSING
  | DUPLICATE_ARTIFACT_GOAL_COVERAGE
  | ARTIFACT_NOT_VERIFIED
  | GOAL_CONTRACT_FINGERPRINT_MISMATCH
  | ARTIFACT_COVERS_NO_GOALS
  | DUPLICATE_ARTIFACT_GOAL_RESOLUTION
  | UNKNOWN_COVERED_GOAL_ID
  | UNKNOWN_GOAL_RESOLUTION_ID
  | GOAL_RESOLUTION_KIND_MISMATCH
  | INSUFFICIENT_EVIDENCE_CANNOT_PROVE_GOAL
  | GOAL_SEMANTIC_EVIDENCE_UNCOVERED
  | GOAL_TYPED_PROOF_REQUIRED
  | CONFLICTING_GOAL_RESOLUTIONS
  | COVERED_GOAL_DEPENDENCY_UNCOVERED
  | RESOLVED_GOAL_DEPENDENCY_UNRESOLVED
  | REQUIRED_GOAL_UNCOVERED
  | GOAL_RESOLVED_INSUFFICIENT_EVIDENCE
  | INSUFFICIENT_EVIDENCE_REASON_MISSING
  | METRIC_PROOF_VALUE_MISSING
  | DIMENSION_PROOF_OUTPUT_MISSING
  | TIME_WINDOW_PROOF_BOUNDARY_MISSING
  | TIME_WINDOW_PROOF_NOT_EXPLICIT
  | TIME_WINDOW_PROOF_DAYS_INVALID
  | TIME_WINDOW_PROOF_MISMATCH string      \<comment> \<open>\<open>TIME_WINDOW_PROOF_%s_MISMATCH\<close>\<close>
  | COMPARISON_PROOF_OPERANDS_INCOMPLETE
  | COMPARISON_PROOF_METHOD_MISSING
  | COMPARISON_PROOF_RESULT_MISSING
  | ANOMALY_PROOF_BASELINE_MISSING
  | ANOMALY_PROOF_NORMALIZATION_MISSING
  | ENTITY_PROOF_IDENTITY_MISSING
  | DEPENDENCY_PROOF_UPSTREAM_ARTIFACT_MISSING
  | DEPENDENCY_PROOF_DOWNSTREAM_ARTIFACT_MISSING
  | DEPENDENCY_PROOF_LINEAGE_MISSING
  | DEPENDENCY_PROOF_ARTIFACT_UNKNOWN
  | RULE_PROOF_CITATION_MISSING
  | DETAIL_PROOF_ROW_SET_MISSING
  | DETAIL_PROOF_FIELDS_MISSING
  | DETAIL_PROOF_ROW_COUNT_INVALID
  | DETAIL_PROOF_REQUIRED_FIELDS_MISSING
  | RANKING_PROOF_ORDER_GOAL_MISMATCH
  | RANKING_PROOF_DIMENSION_GOAL_MISMATCH
  | RANKING_PROOF_METRIC_REF_MISSING
  | RANKING_PROOF_METRIC_REF_MISMATCH
  | RANKING_PROOF_DIMENSION_REF_MISSING
  | RANKING_PROOF_DIMENSION_REF_MISMATCH
  | RANKING_PROOF_DIRECTION_INVALID
  | RANKING_PROOF_DIRECTION_MISMATCH
  | RANKING_PROOF_LIMIT_INVALID
  | RANKING_PROOF_LIMIT_MISMATCH
  | RANKING_PROOF_ROW_SET_MISSING
  | RANKING_PROOF_POPULATION_SCOPE_MISMATCH
  | RANKING_PROOF_POPULATION_GOALS_MISSING
  | RANKING_PROOF_POPULATION_LINEAGE_MISSING
  | ANALYSIS_PROOF_INPUTS_INCOMPLETE
  | ANALYSIS_PROOF_METHOD_MISSING
  | ANALYSIS_PROOF_RESULT_MISSING

record coverage_issue =
  ci_code :: coverage_code
  ci_blocking :: bool
  ci_goal :: string
  ci_artifact :: string
  ci_refs :: "string list"

definition cissue :: "coverage_code \<Rightarrow> string \<Rightarrow> string \<Rightarrow> string list \<Rightarrow> coverage_issue" where
  "cissue c g a rs = \<lparr>ci_code = c, ci_blocking = True, ci_goal = g, ci_artifact = a, ci_refs = rs\<rparr>"

definition cnote :: "coverage_code \<Rightarrow> string \<Rightarrow> string \<Rightarrow> coverage_issue" where
  "cnote c g a = \<lparr>ci_code = c, ci_blocking = False, ci_goal = g, ci_artifact = a, ci_refs = []\<rparr>"

definition semantic_evidence_issues :: "question_goal \<Rightarrow> string \<Rightarrow> string list \<Rightarrow> string list \<Rightarrow> coverage_issue list" where
  "semantic_evidence_issues g aid artifact_refs resolution_refs =
     (let declared = canonical_semantic_refs (goal_semantic_refs g);
          evidence = canonical_semantic_refs (artifact_refs @ resolution_refs)
      in issue_if (declared \<noteq> [] \<and> set declared \<inter> set evidence = {})
           (cissue GOAL_SEMANTIC_EVIDENCE_UNCOVERED (goal_id g) aid (sorted_set declared)))"

section \<open>One resolution against its goal\<close>

definition canonical_time_value :: "string \<Rightarrow> string" where
  "canonical_time_value v = join_with '' '' (py_words (py_casefold (py_strip v)))"

text \<open>\<open>_add_time_value_mismatch\<close>: does an expected value differ from the executed one?\<close>

definition time_value_differs :: "string \<Rightarrow> string \<Rightarrow> bool" where
  "time_value_differs expected actual \<longleftrightarrow> py_strip expected \<noteq> []
     \<and> canonical_time_value (py_strip expected) \<noteq> canonical_time_value (py_strip actual)"

definition rolling_alias :: "string \<Rightarrow> string" where
  "rolling_alias k = (if k \<in> {''RELATIVE'', ''ROLLING'', ''RELATIVE_WINDOW'', ''ROLLING_WINDOW''} then ''ROLLING'' else k)"

definition time_range_kinds_equivalent :: "string \<Rightarrow> string \<Rightarrow> bool" where
  "time_range_kinds_equivalent expected actual =
     (let e = canonical_ascii_symbol expected; a = canonical_ascii_symbol actual
      in e = [] \<or> rolling_alias e = rolling_alias a)"

definition comparison_role :: "string \<Rightarrow> bool" where
  "comparison_role v = (let r = py_casefold (py_strip v)
     in r \<in> {''comparison'', ''baseline'', ''previous'', ''prior'', ''secondary''}
        \<or> list_ex (starts_with r) [''comparison_'', ''baseline_'', ''previous_'', ''prior_''])"

definition time_goals :: "question_goal list \<Rightarrow> time_window_goal list" where
  "time_goals gs = List.map_filter (\<lambda>g. case body g of TimeWindow w \<Rightarrow> Some w | _ \<Rightarrow> None) gs"

text \<open>\<open>ws\<close> are the time windows of the contract.\<close>

definition time_window_roles_equivalent :: "time_window_goal list \<Rightarrow> string \<Rightarrow> string \<Rightarrow> bool" where
  "time_window_roles_equivalent ws expected actual =
     (let e = canonical_time_value expected; a = canonical_time_value actual
      in if e = a then True else if a \<noteq> ''primary'' then False
         else if length ws = 1 then True
         else list_all (\<lambda>w. \<not> comparison_role (window_role w)) ws)"

definition time_own_issues ::
  "(coverage_code \<Rightarrow> string list \<Rightarrow> coverage_issue) \<Rightarrow> time_proof \<Rightarrow> coverage_issue list" where
  "time_own_issues add t =
     issue_if (tp_expression t = [] \<and> \<not> (tp_start t \<noteq> [] \<and> tp_end t \<noteq> [])) (add TIME_WINDOW_PROOF_BOUNDARY_MISSING []) @
     issue_if (\<not> tp_explicit t) (add TIME_WINDOW_PROOF_NOT_EXPLICIT []) @
     issue_if (tp_days t \<le> 0) (add TIME_WINDOW_PROOF_DAYS_INVALID [])"

definition time_mismatch_issues ::
  "(coverage_code \<Rightarrow> string list \<Rightarrow> coverage_issue) \<Rightarrow> time_window_goal list \<Rightarrow> time_window_goal \<Rightarrow> time_proof
    \<Rightarrow> coverage_issue list" where
  "time_mismatch_issues add ws w t =
     issue_if (time_value_differs (time_expression w) (if tp_expression t \<noteq> [] then tp_expression t else tp_label t))
       (add (TIME_WINDOW_PROOF_MISMATCH ''EXPRESSION'') []) @
     concat (map (\<lambda>(f, e, a). issue_if (time_value_differs e a)
         (add (TIME_WINDOW_PROOF_MISMATCH (canonical_ascii_symbol f)) []))
       [(''start'', tw_start w, tp_start t), (''end'', tw_end w, tp_end t), (''timezone'', tw_timezone w, tp_timezone t),
        (''calendarAnchorPolicy'', calendar_anchor_policy w, tp_calendar t),
        (''dataAsOfPolicy'', data_as_of_policy w, tp_as_of t)]) @
     issue_if (\<not> time_range_kinds_equivalent (time_range_kind w) (tp_kind t)
         \<and> time_value_differs (time_range_kind w) (tp_kind t)) (add (TIME_WINDOW_PROOF_MISMATCH ''TIMERANGEKIND'') []) @
     issue_if (\<not> time_window_roles_equivalent ws (window_role w) (tp_role t)
         \<and> time_value_differs (window_role w) (tp_role t)) (add (TIME_WINDOW_PROOF_MISMATCH ''WINDOWROLE'') []) @
     issue_if (0 < tw_days w \<and> tp_days t \<noteq> tw_days w) (add (TIME_WINDOW_PROOF_MISMATCH ''DAYS'') [])"

definition anomaly_type :: "string \<Rightarrow> bool" where
  "anomaly_type v = (let s = canonical_ascii_symbol v in s = ''ANOMALY'' \<or> starts_with s ''ANOMALY_'')"

definition anomaly_issues ::
  "(coverage_code \<Rightarrow> string list \<Rightarrow> coverage_issue) \<Rightarrow> string \<Rightarrow> derived_proof \<Rightarrow> coverage_issue list" where
  "anomaly_issues add goal_type d = (if anomaly_type goal_type \<or> anomaly_type (dp_type d)
     then issue_if (dp_baselines d = []) (add ANOMALY_PROOF_BASELINE_MISSING []) @
          issue_if (dp_normalization d = []) (add ANOMALY_PROOF_NORMALIZATION_MISSING [])
     else [])"

definition ranking_ref_matches ::
  "(string \<Rightarrow> question_goal option) \<Rightarrow> string \<Rightarrow> string list \<Rightarrow> bool \<Rightarrow> bool" where
  "ranking_ref_matches by_id ref gs unique =
     (let actual = canonical_semantic_ref ref
      in if actual = [] \<or> gs = [] then False
         else list_ex (\<lambda>i. case by_id i of None \<Rightarrow> False
                | Some g \<Rightarrow> actual \<in> set (canonical_semantic_refs (goal_semantic_refs g))) gs
              \<or> unique \<and> length gs = 1)"

definition unique_binding :: "goal_resolution \<Rightarrow> string \<Rightarrow> bool" where
  "unique_binding r k = (payload_text (rs_details r) k = ''UNIQUE_CONTRACT_BINDING'')"

definition ranking_proof_issues ::
  "(coverage_code \<Rightarrow> string list \<Rightarrow> coverage_issue) \<Rightarrow> (string \<Rightarrow> question_goal option) \<Rightarrow> goal_resolution
    \<Rightarrow> ranking_goal \<Rightarrow> ranking_proof \<Rightarrow> coverage_issue list" where
  "ranking_proof_issues add by_id res g p =
     issue_if (set (metric_goal_ids g) \<noteq> set (rp_order_by p))
       (add RANKING_PROOF_ORDER_GOAL_MISMATCH (sorted_set (metric_goal_ids g))) @
     issue_if (set (dimension_goal_ids g) \<noteq> set (rp_dimensions p))
       (add RANKING_PROOF_DIMENSION_GOAL_MISMATCH (sorted_set (dimension_goal_ids g))) @
     (if rp_metric_ref p = [] then [add RANKING_PROOF_METRIC_REF_MISSING []]
      else issue_if (\<not> ranking_ref_matches by_id (rp_metric_ref p) (rp_order_by p) (unique_binding res ''metricBindingMode''))
        (add RANKING_PROOF_METRIC_REF_MISMATCH [])) @
     (if dimension_goal_ids g \<noteq> [] \<and> rp_dimension_ref p = [] then [add RANKING_PROOF_DIMENSION_REF_MISSING []]
      else issue_if (rp_dimension_ref p \<noteq> [] \<and> \<not> ranking_ref_matches by_id (rp_dimension_ref p) (rp_dimensions p)
            (unique_binding res ''dimensionBindingMode'')) (add RANKING_PROOF_DIMENSION_REF_MISMATCH [])) @
     (if rp_direction p \<noteq> ''ASC'' \<and> rp_direction p \<noteq> ''DESC'' then [add RANKING_PROOF_DIRECTION_INVALID []]
      else issue_if (rp_direction p \<noteq> py_upper (direction g)) (add RANKING_PROOF_DIRECTION_MISMATCH [])) @
     (if rp_limit p \<le> 0 then [add RANKING_PROOF_LIMIT_INVALID []]
      else issue_if (rp_limit p \<noteq> rk_limit g) (add RANKING_PROOF_LIMIT_MISMATCH [])) @
     issue_if (rp_row_set p = []) (add RANKING_PROOF_ROW_SET_MISSING []) @
     issue_if (rp_scope p \<noteq> scope_text (population_scope g)) (add RANKING_PROOF_POPULATION_SCOPE_MISMATCH []) @
     issue_if (\<not> set (population_goal_ids g) \<subseteq> set (rp_population p))
       (add RANKING_PROOF_POPULATION_GOALS_MISSING (population_goal_ids g)) @
     issue_if (population_scope g \<noteq> ALL_MATCHING_ROWS \<and> rp_lineage p = []) (add RANKING_PROOF_POPULATION_LINEAGE_MISSING [])"

text \<open>
  The attributes of a goal that the checks read with a default, so that they also apply to a resolution
  of another kind than its goal's (which never gets here).
\<close>

fun comparison_operands :: "goal_body \<Rightarrow> string list" where
  "comparison_operands (Comparison _ ls rs) = ls @ rs"
| "comparison_operands _ = []"

fun analysis_inputs :: "goal_body \<Rightarrow> string list" where
  "analysis_inputs (Analysis _ is _) = is"
| "analysis_inputs _ = []"

fun derived_type :: "goal_body \<Rightarrow> string" where
  "derived_type (Comparison t _ _) = t"
| "derived_type (Analysis t _ _) = t"
| "derived_type _ = []"

definition detail_ref_issues ::
  "(coverage_code \<Rightarrow> string list \<Rightarrow> coverage_issue) \<Rightarrow> detail_goal \<Rightarrow> detail_proof \<Rightarrow> coverage_issue list" where
  "detail_ref_issues add g d =
     (let missing = sorted_set (filter (\<lambda>v. v \<notin> set (canonical_semantic_refs (dt_output_refs d)))
            (canonical_semantic_refs (required_field_ref_ids g)))
      in issue_if (missing \<noteq> []) (add DETAIL_PROOF_REQUIRED_FIELDS_MISSING missing))"

fun proof_issues ::
  "(coverage_code \<Rightarrow> string list \<Rightarrow> coverage_issue) \<Rightarrow> goal_contract \<Rightarrow> string list \<Rightarrow> goal_resolution
    \<Rightarrow> goal_body \<Rightarrow> proof_body \<Rightarrow> coverage_issue list" where
  "proof_issues add c known res gb (MetricProof rs vs) = issue_if (vs = []) (add METRIC_PROOF_VALUE_MISSING [])"
| "proof_issues add c known res gb (DimensionProof rs fs) = issue_if (fs = []) (add DIMENSION_PROOF_OUTPUT_MISSING [])"
| "proof_issues add c known res gb (TimeProof t) = time_own_issues add t @
     (case gb of TimeWindow w \<Rightarrow> time_mismatch_issues add (time_goals (goals c)) w t | _ \<Rightarrow> [])"
| "proof_issues add c known res gb (ComparisonProof d) =
     issue_if (\<not> set (comparison_operands gb) \<subseteq> set (dp_goals d))
       (add COMPARISON_PROOF_OPERANDS_INCOMPLETE (sorted_set (comparison_operands gb))) @
     issue_if (dp_method d = []) (add COMPARISON_PROOF_METHOD_MISSING []) @
     issue_if (dp_result d = []) (add COMPARISON_PROOF_RESULT_MISSING []) @
     anomaly_issues add (derived_type gb) d"
| "proof_issues add c known res gb (EntityProof rs fs s) =
     issue_if (s = [] \<and> fs = []) (add ENTITY_PROOF_IDENTITY_MISSING [])"
| "proof_issues add c known res gb (DependencyProof us ds ls) =
     issue_if (us = []) (add DEPENDENCY_PROOF_UPSTREAM_ARTIFACT_MISSING []) @
     issue_if (ds = []) (add DEPENDENCY_PROOF_DOWNSTREAM_ARTIFACT_MISSING []) @
     issue_if (ls = []) (add DEPENDENCY_PROOF_LINEAGE_MISSING []) @
     (let unknown = sorted_set (filter (\<lambda>a. a \<notin> set known) (us @ ds))
      in issue_if (unknown \<noteq> []) (add DEPENDENCY_PROOF_ARTIFACT_UNKNOWN unknown))"
| "proof_issues add c known res gb (RuleProof rs cs) =
     issue_if (cs = [] \<and> rs_evidence res = []) (add RULE_PROOF_CITATION_MISSING [])"
| "proof_issues add c known res gb (DetailProof d) =
     issue_if (dt_row_set d = []) (add DETAIL_PROOF_ROW_SET_MISSING []) @
     issue_if (dt_output_fields d = []) (add DETAIL_PROOF_FIELDS_MISSING []) @
     issue_if (case dt_row_count d of None \<Rightarrow> False | Some n \<Rightarrow> n < 0) (add DETAIL_PROOF_ROW_COUNT_INVALID []) @
     (case gb of Detail g \<Rightarrow> detail_ref_issues add g d | _ \<Rightarrow> [])"
| "proof_issues add c known res gb (RankingProof p) =
     (case gb of Ranking g \<Rightarrow> ranking_proof_issues add (goal_map c) res g p | _ \<Rightarrow> [])"
| "proof_issues add c known res gb (AnalysisProof d) =
     issue_if (\<not> set (analysis_inputs gb) \<subseteq> set (dp_goals d))
       (add ANALYSIS_PROOF_INPUTS_INCOMPLETE (sorted_set (analysis_inputs gb))) @
     issue_if (dp_method d = []) (add ANALYSIS_PROOF_METHOD_MISSING []) @
     issue_if (dp_result d = []) (add ANALYSIS_PROOF_RESULT_MISSING []) @
     anomaly_issues add (derived_type gb) d"

definition goal_resolution_issues ::
  "goal_contract \<Rightarrow> string list \<Rightarrow> string \<Rightarrow> question_goal \<Rightarrow> goal_resolution \<Rightarrow> coverage_issue list" where
  "goal_resolution_issues c known aid g r =
     (let add = (\<lambda>code refs. cissue code (goal_id g) aid refs)
      in case rs_status r of
           INSUFFICIENT_EVIDENCE \<Rightarrow> issue_if (rs_reason r = []) (add INSUFFICIENT_EVIDENCE_REASON_MISSING [])
         | PROVED \<Rightarrow> proof_issues add c known r (body g) (rs_body r))"

section \<open>Compatibility proofs of primitive goals\<close>

text \<open>What \<open>_artifact_time_window_payload\<close> reads: the executed time range and the hint of the binding.\<close>

record executed_range =
  er_execution_start_date :: string
  er_execution_start_value :: string
  er_start_date :: string
  er_execution_end_date :: string
  er_execution_end_value :: string
  er_end_date :: string
  er_label :: string
  er_expression_hint :: string
  er_timezone :: string
  er_granularity :: string
  er_days :: int
  er_explicit :: bool
  er_calendar :: string
  er_as_of :: string
  er_role :: string
  er_kind :: string

fun first_text :: "string list \<Rightarrow> string" where
  "first_text [] = []"
| "first_text (t # ts) = (if t \<noteq> [] then t else first_text ts)"

definition artifact_time_window :: "executed_range \<Rightarrow> time_proof" where
  "artifact_time_window e = \<lparr>
     tp_expression = py_strip (first_text [er_label e, er_expression_hint e]),
     tp_start = py_strip (first_text [er_execution_start_date e, er_execution_start_value e, er_start_date e]),
     tp_end = py_strip (first_text [er_execution_end_date e, er_execution_end_value e, er_end_date e]),
     tp_timezone = py_strip (er_timezone e), tp_granularity = py_strip (er_granularity e), tp_days = er_days e,
     tp_label = py_strip (er_label e), tp_explicit = er_explicit e, tp_calendar = py_strip (er_calendar e),
     tp_as_of = py_strip (er_as_of e), tp_role = py_strip (er_role e), tp_kind = py_strip (er_kind e)\<rparr>"

fun primitive_proof :: "string \<Rightarrow> executed_range option \<Rightarrow> string list \<Rightarrow> goal_body \<Rightarrow> proof_body option" where
  "primitive_proof ref win refs (Metric r _) =
     Some (MetricProof (normalized_string_list (r # refs)) [ref @ '':metric-value''])"
| "primitive_proof ref win refs (Dimension r _) =
     Some (DimensionProof (normalized_string_list (r # refs)) [if r \<noteq> [] then r else ref @ '':dimension-output''])"
| "primitive_proof ref win refs (TimeWindow _) = map_option (\<lambda>e. TimeProof (artifact_time_window e)) win"
| "primitive_proof ref win refs (Entity r i _ _) =
     Some (EntityProof (normalized_string_list (r # refs))
       [first_text [i, r, ref @ '':entity-identity'']] (ref @ '':entity-set''))"
| "primitive_proof ref win refs _ = None"

definition legacy_resolution ::
  "question_goal \<Rightarrow> string \<Rightarrow> string list \<Rightarrow> executed_range option \<Rightarrow> goal_resolution option" where
  "legacy_resolution g aid evidence win =
     map_option (\<lambda>b. \<lparr>rs_goal = goal_id g, rs_status = PROVED, rs_proof_type = ''KERNEL_VERIFIED_PRIMITIVE_RESULT'',
         rs_evidence = normalized_string_list evidence, rs_reason = [], rs_details = [], rs_body = b\<rparr>)
       (primitive_proof (''artifact:'' @ aid) win (semantic_ref_ids g) (body g))"

end
