(* ===== verification/Goal_Coverage.thy ===== *)
theory Goal_Coverage
  imports Goal_Proofs
begin

text \<open>
  The finalization gate over the artifact ledger (\<open>GoalCoverageVerifier\<close> of
  \<^verbatim>\<open>grounded_goal_contract.py\<close>): which declarations are accepted, which resolutions become
  candidates, the outcome of every goal, the two \<open>while True\<close> loops that take goals with unresolved
  prerequisites back, and the verdict. The loops are a \<open>partial_function\<close>, so \<open>None\<close> is a gate that
  never answers. The sets and dicts keyed by goal of the code are lists of pairs in insertion order.
\<close>

section \<open>Declarations of artifacts\<close>

text \<open>
  What the gate reads of an artifact, a sidecar or a kernel artifact alike. \<open>ac_range\<close> is the executed
  time range of its query contract (a sidecar has none).
\<close>

record artifact_coverage =
  ac_artifact :: string
  ac_fingerprint :: string
  ac_covered :: "string list"
  ac_passed :: bool
  ac_evidence :: "string list"
  ac_resolutions :: "goal_resolution list"
  ac_range :: "executed_range option"

definition coerce_coverage :: "artifact_coverage \<Rightarrow> goal_error + artifact_coverage" where
  "coerce_coverage a =
     bind_res (canonical_goal_id_list (ac_covered a)) (\<lambda>cs.
     bind_res (map_res normalize_resolution (ac_resolutions a)) (\<lambda>rs.
       Inr (a\<lparr>ac_artifact := py_strip (ac_artifact a), ac_fingerprint := py_strip (ac_fingerprint a),
         ac_covered := cs, ac_evidence := normalized_string_list (ac_evidence a), ac_resolutions := rs\<rparr>)))"

text \<open>The first loop: the declarations that parse, and an issue for every one that does not.\<close>

fun coerce_all :: "artifact_coverage list \<Rightarrow> coverage_issue list \<times> artifact_coverage list" where
  "coerce_all [] = ([], [])"
| "coerce_all (a # as) =
     (case coerce_coverage a of
        Inl e \<Rightarrow> (cissue ARTIFACT_GOAL_COVERAGE_INVALID [] [] [] # fst (coerce_all as), snd (coerce_all as))
      | Inr d \<Rightarrow> (fst (coerce_all as), d # snd (coerce_all as)))"

fun accept_loop ::
  "string \<Rightarrow> string list \<Rightarrow> artifact_coverage list \<Rightarrow> coverage_issue list \<times> artifact_coverage list" where
  "accept_loop fp seen [] = ([], [])"
| "accept_loop fp seen (d # ds) =
     (let i = ac_artifact d; reject = (\<lambda>c s. (case accept_loop fp s ds of (is, acc) \<Rightarrow> (cissue c [] i [] # is, acc)))
      in if i = [] then reject ARTIFACT_ID_MISSING seen
         else if i \<in> set seen then reject DUPLICATE_ARTIFACT_GOAL_COVERAGE seen
         else if \<not> ac_passed d then reject ARTIFACT_NOT_VERIFIED (i # seen)
         else if ac_fingerprint d \<noteq> fp then reject GOAL_CONTRACT_FINGERPRINT_MISMATCH (i # seen)
         else (case accept_loop fp (i # seen) ds of (is, acc) \<Rightarrow> (is, d # acc)))"

section \<open>Candidates\<close>

text \<open>What one step adds: issues, claimed goals, candidates as goal, artifact and resolution.\<close>

type_synonym candidate = "string \<times> string \<times> goal_resolution"

record gathered =
  ga_issues :: "coverage_issue list"
  ga_claimed :: "string list"
  ga_candidates :: "candidate list"

definition gather :: "gathered list \<Rightarrow> gathered" where
  "gather gs = \<lparr>ga_issues = concat (map ga_issues gs), ga_claimed = concat (map ga_claimed gs),
     ga_candidates = concat (map ga_candidates gs)\<rparr>"

definition gathered_of :: "coverage_issue list \<Rightarrow> string list \<Rightarrow> candidate list \<Rightarrow> gathered" where
  "gathered_of is cs ks = \<lparr>ga_issues = is, ga_claimed = cs, ga_candidates = ks\<rparr>"

text \<open>\<open>resolution_by_id\<close>: the first resolution of every goal, and an issue for every other one.\<close>

fun first_resolutions ::
  "string \<Rightarrow> string list \<Rightarrow> goal_resolution list \<Rightarrow> coverage_issue list \<times> goal_resolution list" where
  "first_resolutions aid seen [] = ([], [])"
| "first_resolutions aid seen (r # rs) =
     (if rs_goal r \<in> set seen
      then (case first_resolutions aid seen rs of
              (is, fs) \<Rightarrow> (cissue DUPLICATE_ARTIFACT_GOAL_RESOLUTION (rs_goal r) aid [] # is, fs))
      else (case first_resolutions aid (rs_goal r # seen) rs of (is, fs) \<Rightarrow> (is, r # fs)))"

definition covered_step :: "goal_contract \<Rightarrow> string \<Rightarrow> string \<Rightarrow> gathered" where
  "covered_step c aid i =
     (case goal_map c i of None \<Rightarrow> gathered_of [cissue UNKNOWN_COVERED_GOAL_ID i aid []] [] []
      | Some _ \<Rightarrow> gathered_of [] [i] [])"

definition checked_resolution ::
  "goal_contract \<Rightarrow> string list \<Rightarrow> artifact_coverage \<Rightarrow> question_goal \<Rightarrow> goal_resolution \<Rightarrow> gathered" where
  "checked_resolution c known d g r =
     (let is = goal_resolution_issues c known (ac_artifact d) g r;
          sem = (if rs_status r = PROVED
                 then semantic_evidence_issues g (ac_artifact d) (ac_evidence d) (rs_evidence r) else [])
      in if list_ex ci_blocking is then gathered_of is [] []
         else if sem \<noteq> [] then gathered_of (is @ sem) [] []
         else gathered_of is [] [(rs_goal r, ac_artifact d, r)])"

definition resolution_step ::
  "goal_contract \<Rightarrow> string list \<Rightarrow> artifact_coverage \<Rightarrow> goal_resolution \<Rightarrow> gathered" where
  "resolution_step c known d r =
     (let i = rs_goal r; aid = ac_artifact d
      in case goal_map c i of
           None \<Rightarrow> gathered_of [cissue UNKNOWN_GOAL_RESOLUTION_ID i aid []] [] []
         | Some g \<Rightarrow>
             if proof_kind_text (rs_body r) \<noteq> kind_text (body g)
             then gathered_of [cissue GOAL_RESOLUTION_KIND_MISMATCH i aid []] [] []
             else gather [
               (if rs_status r = PROVED then gathered_of [] [i] []
                else gathered_of (issue_if (i \<in> set (ac_covered d))
                       (cnote INSUFFICIENT_EVIDENCE_CANNOT_PROVE_GOAL i aid)) [] []),
               checked_resolution c known d g r])"

text \<open>\<open>arts\<close> are the artifacts as given: the compatibility proof reads the first of that identifier.\<close>

definition range_of_artifact :: "artifact_coverage list \<Rightarrow> string \<Rightarrow> executed_range option" where
  "range_of_artifact arts aid =
     (case find (\<lambda>a. py_strip (ac_artifact a) = aid) arts of None \<Rightarrow> None | Some a \<Rightarrow> ac_range a)"

definition legacy_step ::
  "goal_contract \<Rightarrow> artifact_coverage list \<Rightarrow> artifact_coverage \<Rightarrow> goal_resolution list \<Rightarrow> string \<Rightarrow> gathered" where
  "legacy_step c arts d typed i =
     (let aid = ac_artifact d
      in case goal_map c i of None \<Rightarrow> gathered_of [] [] []
         | Some g \<Rightarrow>
             if i \<in> rs_goal ` set typed then gathered_of [] [] []
             else (case legacy_resolution g aid (ac_evidence d) (range_of_artifact arts aid) of
                     None \<Rightarrow> gathered_of [cissue GOAL_TYPED_PROOF_REQUIRED i aid []] [] []
                   | Some r \<Rightarrow>
                       let sem = semantic_evidence_issues g aid (ac_evidence d) (rs_evidence r)
                       in if sem \<noteq> [] then gathered_of sem [] [] else gathered_of [] [] [(i, aid, r)]))"

definition declaration_step ::
  "goal_contract \<Rightarrow> artifact_coverage list \<Rightarrow> string list \<Rightarrow> artifact_coverage \<Rightarrow> gathered" where
  "declaration_step c arts known d =
     (case first_resolutions (ac_artifact d) [] (ac_resolutions d) of (dup, firsts) \<Rightarrow>
        gather (
          gathered_of (issue_if (ac_covered d = [] \<and> ac_resolutions d = [])
            (cnote ARTIFACT_COVERS_NO_GOALS [] (ac_artifact d))) [] [] #
          gathered_of dup [] [] #
          map (covered_step c (ac_artifact d)) (ac_covered d) @
          map (resolution_step c known d) firsts @
          map (legacy_step c arts d firsts) (ac_covered d)))"

section \<open>Outcomes\<close>

record goal_outcome =
  oc_status :: resolution_status
  oc_artifacts :: "string list"
  oc_evidence :: "string list"
  oc_types :: "string list"
  oc_reason :: "string option"

text \<open>The resolutions of one goal with their artifacts; a proof takes precedence.\<close>

definition with_status :: "resolution_status \<Rightarrow> (string \<times> goal_resolution) list \<Rightarrow> (string \<times> goal_resolution) list" where
  "with_status s ks = filter (\<lambda>(a, r). rs_status r = s) ks"

definition outcome_of :: "resolution_status \<Rightarrow> (string \<times> goal_resolution) list \<Rightarrow> string option \<Rightarrow> goal_outcome" where
  "outcome_of s ks reason = \<lparr>oc_status = s, oc_artifacts = fromkeys (map fst ks),
     oc_evidence = fromkeys (concat (map (rs_evidence \<circ> snd) ks)),
     oc_types = fromkeys (filter (\<lambda>t. t \<noteq> []) (map (rs_proof_type \<circ> snd) ks)), oc_reason = reason\<rparr>"

definition candidates_of :: "candidate list \<Rightarrow> string \<Rightarrow> (string \<times> goal_resolution) list" where
  "candidates_of ks i = map snd (filter (\<lambda>k. fst k = i) ks)"

definition goal_outcome_of :: "(string \<times> goal_resolution) list \<Rightarrow> goal_outcome option" where
  "goal_outcome_of ks =
     (let proved = with_status PROVED ks; insufficient = with_status INSUFFICIENT_EVIDENCE ks
      in if proved \<noteq> [] then Some (outcome_of PROVED proved None)
         else if insufficient \<noteq> [] then Some (outcome_of INSUFFICIENT_EVIDENCE insufficient
                (Some (first_text (map (rs_reason \<circ> snd) insufficient))))
         else None)"

definition conflict_notes :: "goal_contract \<Rightarrow> candidate list \<Rightarrow> coverage_issue list" where
  "conflict_notes c ks = concat (map (\<lambda>g.
     issue_if (with_status PROVED (candidates_of ks (goal_id g)) \<noteq> []
         \<and> with_status INSUFFICIENT_EVIDENCE (candidates_of ks (goal_id g)) \<noteq> [])
       (cnote CONFLICTING_GOAL_RESOLUTIONS (goal_id g) [])) (goals c))"

definition outcomes :: "goal_contract \<Rightarrow> candidate list \<Rightarrow> (string, goal_outcome) dict" where
  "outcomes c ks = List.map_filter (\<lambda>g.
     map_option (Pair (goal_id g)) (goal_outcome_of (candidates_of ks (goal_id g)))) (goals c)"

definition has_status :: "(string, goal_outcome) dict \<Rightarrow> resolution_status \<Rightarrow> string \<Rightarrow> bool" where
  "has_status os s i \<longleftrightarrow> map_option oc_status (map_of os i) = Some s"

section \<open>Prerequisites\<close>

text \<open>
  The body of both \<open>while True\<close> loops: the goals with a prerequisite outside the set leave it, until
  none does.
\<close>

definition invalid_in :: "'a digraph \<Rightarrow> 'a list \<Rightarrow> 'a list" where
  "invalid_in G S = filter (\<lambda>i. \<not> set (succs G i) \<subseteq> set S) S"

partial_function (option) prune_loop :: "'a digraph \<Rightarrow> 'a list \<Rightarrow> 'a list option" where
  "prune_loop G S =
     (let bad = invalid_in G S
      in if bad = [] then Some S else prune_loop G (filter (\<lambda>i. i \<notin> set bad) S))"

declare prune_loop.simps [code]

definition missing_prerequisites :: "string digraph \<Rightarrow> string list \<Rightarrow> string \<Rightarrow> string list" where
  "missing_prerequisites G S i = sorted_set (filter (\<lambda>d. d \<notin> set S) (succs G i))"

definition covered_dependency_issues ::
  "string digraph \<Rightarrow> string list \<Rightarrow> (string, goal_outcome) dict \<Rightarrow> string list \<Rightarrow> string list \<Rightarrow> coverage_issue list" where
  "covered_dependency_issues G ids os claimed covered =
     (let add = (\<lambda>i. cissue COVERED_GOAL_DEPENDENCY_UNCOVERED i [] (missing_prerequisites G covered i));
          taken_back = filter (\<lambda>i. has_status os PROVED i \<and> i \<notin> set covered) ids
      in map add taken_back @
         map add (filter (\<lambda>i. i \<in> set claimed \<and> i \<notin> set covered \<and> i \<notin> set taken_back
            \<and> succs G i \<noteq> [] \<and> \<not> set (succs G i) \<subseteq> set covered) ids))"

definition resolved_dependency_issues ::
  "string digraph \<Rightarrow> string list \<Rightarrow> (string, goal_outcome) dict \<Rightarrow> string list \<Rightarrow> string list \<Rightarrow> coverage_issue list" where
  "resolved_dependency_issues G ids os covered resolved =
     map (\<lambda>i. cissue RESOLVED_GOAL_DEPENDENCY_UNRESOLVED i [] (missing_prerequisites G resolved i))
       (filter (\<lambda>i. i \<in> fst ` set os \<and> i \<notin> set resolved \<and> i \<notin> set covered) ids)"

section \<open>The verdict\<close>

record coverage_result =
  cr_passed :: bool
  cr_finalization_allowed :: bool
  cr_fingerprint :: string
  cr_required :: "string list"
  cr_claimed :: "string list"
  cr_covered :: "string list"
  cr_resolved :: "string list"
  cr_insufficient :: "string list"
  cr_missing :: "string list"
  cr_unproved :: "string list"
  cr_optional_uncovered :: "string list"
  cr_artifacts :: "string list"
  cr_coverage :: "(string, string list) dict"
  cr_resolution :: "(string, resolution_status) dict"
  cr_proof_types :: "(string, string list) dict"
  cr_resolution_artifacts :: "(string, string list) dict"
  cr_resolution_evidence :: "(string, string list) dict"
  cr_reasons :: "(string, string) dict"
  cr_issues :: "coverage_issue list"

definition blocked_result :: "string list \<Rightarrow> coverage_issue list \<Rightarrow> coverage_result" where
  "blocked_result req is = \<lparr>cr_passed = False, cr_finalization_allowed = False, cr_fingerprint = [],
     cr_required = req, cr_claimed = [], cr_covered = [], cr_resolved = [], cr_insufficient = [],
     cr_missing = req, cr_unproved = [], cr_optional_uncovered = [], cr_artifacts = [], cr_coverage = [],
     cr_resolution = [], cr_proof_types = [], cr_resolution_artifacts = [], cr_resolution_evidence = [],
     cr_reasons = [], cr_issues = is\<rparr>"

definition outcome_dict ::
  "(string, goal_outcome) dict \<Rightarrow> (goal_outcome \<Rightarrow> 'b) \<Rightarrow> 'b \<Rightarrow> string list \<Rightarrow> (string, 'b) dict" where
  "outcome_dict os f z is = map (\<lambda>i. (i, case map_of os i of None \<Rightarrow> z | Some oc \<Rightarrow> f oc)) is"

text \<open>
  The part of \<open>verify\<close> after the loops: \<open>covered\<close> and \<open>resolved\<close> are what they leave, \<open>is\<close> the issues
  so far.
\<close>

definition coverage_verdict ::
  "goal_contract \<Rightarrow> string \<Rightarrow> string list \<Rightarrow> string list \<Rightarrow> (string, goal_outcome) dict \<Rightarrow> coverage_issue list
    \<Rightarrow> string list \<Rightarrow> string list \<Rightarrow> coverage_result" where
  "coverage_verdict c fp accepted claimed os is covered resolved =
     (let G = goal_dependency_graph c; ids = map goal_id (goals c); req = required_goal_ids c;
          missing = filter (\<lambda>i. i \<notin> set resolved) req;
          insufficient = filter (\<lambda>i. i \<in> set resolved \<and> has_status os INSUFFICIENT_EVIDENCE i) ids;
          unproved = filter (\<lambda>i. i \<notin> set covered) req;
          issues = is @ covered_dependency_issues G ids os claimed covered @
            resolved_dependency_issues G ids os covered resolved @
            map (\<lambda>i. cissue REQUIRED_GOAL_UNCOVERED i [] []) missing @
            map (\<lambda>i. cnote GOAL_RESOLVED_INSUFFICIENT_EVIDENCE i []) insufficient;
          allowed = (\<not> list_ex ci_blocking issues \<and> missing = []);
          final = filter (\<lambda>i. i \<in> set resolved) ids
      in \<lparr>cr_passed = (allowed \<and> unproved = []), cr_finalization_allowed = allowed, cr_fingerprint = fp,
          cr_required = req, cr_claimed = filter (\<lambda>i. i \<in> set claimed) ids,
          cr_covered = filter (\<lambda>i. i \<in> set covered) ids, cr_resolved = final, cr_insufficient = insufficient,
          cr_missing = missing, cr_unproved = unproved,
          cr_optional_uncovered = filter (\<lambda>i. i \<notin> set req \<and> i \<notin> set resolved) ids,
          cr_artifacts = accepted,
          cr_coverage = outcome_dict os oc_artifacts [] (filter (\<lambda>i. has_status os PROVED i \<and> i \<in> set covered) ids),
          cr_resolution = outcome_dict os oc_status PROVED final,
          cr_proof_types = outcome_dict os oc_types [] (filter (\<lambda>i. i \<in> set resolved) req),
          cr_resolution_artifacts = outcome_dict os oc_artifacts [] final,
          cr_resolution_evidence = outcome_dict os oc_evidence [] final,
          cr_reasons = List.map_filter (\<lambda>i. map_option (Pair i) (Option.bind (map_of os i) oc_reason)) final,
          cr_issues = issues\<rparr>)"

definition contract_coverage_issue :: "goal_issue \<Rightarrow> coverage_issue" where
  "contract_coverage_issue x = cissue (ContractIssue (gi_code x)) (gi_goal x) [] []"

text \<open>The two loops over the prerequisites, between the outcomes and the verdict.\<close>

definition close_goals ::
  "goal_contract \<Rightarrow> string \<Rightarrow> string list \<Rightarrow> string list \<Rightarrow> coverage_issue list \<Rightarrow> (string, goal_outcome) dict
    \<Rightarrow> coverage_result option" where
  "close_goals c fp known claimed is os =
     (case prune_loop (goal_dependency_graph c) (map fst (filter (\<lambda>(i, oc). oc_status oc = PROVED) os)) of
        None \<Rightarrow> None
      | Some covered \<Rightarrow>
          (case prune_loop (goal_dependency_graph c) (map fst os) of
             None \<Rightarrow> None
           | Some resolved \<Rightarrow> Some (coverage_verdict c fp known claimed os is covered resolved)))"

definition gate_answer ::
  "goal_contract \<Rightarrow> string \<Rightarrow> string list \<Rightarrow> coverage_issue list \<Rightarrow> gathered \<Rightarrow> coverage_result option" where
  "gate_answer c fp known is all = close_goals c fp known (ga_claimed all)
     (is @ ga_issues all @ conflict_notes c (ga_candidates all)) (outcomes c (ga_candidates all))"

text \<open>The gate on a valid contract, \<open>fp\<close> its fingerprint: the accepted declarations, then the whole.\<close>

fun gate_accepted ::
  "goal_contract \<Rightarrow> string \<Rightarrow> artifact_coverage list \<Rightarrow> coverage_issue list
    \<Rightarrow> coverage_issue list \<times> artifact_coverage list \<Rightarrow> coverage_result option" where
  "gate_accepted c fp arts is (is', acc) = gate_answer c fp (map ac_artifact acc) (is @ is')
     (gather (map (declaration_step c arts (map ac_artifact acc)) acc))"

definition verify_valid :: "goal_contract \<Rightarrow> string \<Rightarrow> artifact_coverage list \<Rightarrow> coverage_result option" where
  "verify_valid c fp arts =
     gate_accepted c fp arts (fst (coerce_all arts)) (accept_loop fp [] (snd (coerce_all arts)))"

definition verify_coverage ::
  "(string \<Rightarrow> string) \<Rightarrow> goal_contract \<Rightarrow> artifact_coverage list \<Rightarrow> coverage_result option" where
  "verify_coverage h c arts =
     (case validate_contract c of
        Inl e \<Rightarrow> Some (blocked_result [] [cissue (ContractSchemaInvalid e) [] [] []])
      | Inr (n, is) \<Rightarrow>
          if is \<noteq> [] then Some (blocked_result (required_goal_ids n) (map contract_coverage_issue is))
          else (case goal_contract_fingerprint h n of
                  Inl _ \<Rightarrow> None \<comment> \<open>it parses the contract again, which cannot fail\<close>
                | Inr fp \<Rightarrow> verify_valid n fp arts))"

text \<open>\<open>require_complete\<close>: the result, or \<open>GoalCoverageBlocked\<close> with it.\<close>

definition require_complete ::
  "(string \<Rightarrow> string) \<Rightarrow> goal_contract \<Rightarrow> artifact_coverage list \<Rightarrow> (coverage_result + coverage_result) option" where
  "require_complete h c arts =
     map_option (\<lambda>r. if cr_finalization_allowed r then Inr r else Inl r) (verify_coverage h c arts)"

text \<open>
  \<open>declare_verified_artifact_goal_coverage\<close>: the sidecar of a verified artifact, with a compatibility
  proof for every covered primitive goal that has no typed resolution.
\<close>

datatype declare_error = ArtifactIdMissing | ArtifactUnverified | DeclaredContract contract_error | DeclaredGoal goal_error

definition declare_coverage ::
  "(string \<Rightarrow> string) \<Rightarrow> goal_contract \<Rightarrow> string \<Rightarrow> bool \<Rightarrow> executed_range option \<Rightarrow> string list \<Rightarrow> string list
    \<Rightarrow> goal_resolution list \<Rightarrow> declare_error + artifact_coverage" where
  "declare_coverage h c artifact_id passed win covered evidence resolutions =
     (case parse_contract c of Inl e \<Rightarrow> Inl (DeclaredContract e) | Inr n \<Rightarrow>
        let aid = py_strip artifact_id
        in if aid = [] then Inl ArtifactIdMissing else if \<not> passed then Inl ArtifactUnverified
           else case canonical_goal_id_list covered of Inl e \<Rightarrow> Inl (DeclaredGoal e) | Inr cs \<Rightarrow>
             case map_res normalize_resolution resolutions of Inl e \<Rightarrow> Inl (DeclaredGoal e) | Inr rs \<Rightarrow>
               let legacy = List.map_filter (\<lambda>i. if i \<in> rs_goal ` set rs then None
                     else Option.bind (goal_map n i) (\<lambda>g. legacy_resolution g aid evidence win)) cs
               in case goal_contract_fingerprint h n of Inl e \<Rightarrow> Inl (DeclaredContract e)
                  | Inr fp \<Rightarrow> Inr \<lparr>ac_artifact = aid, ac_fingerprint = fp, ac_covered = cs, ac_passed = True,
                      ac_evidence = normalized_string_list evidence, ac_resolutions = rs @ legacy, ac_range = None\<rparr>)"

end
