(* ===== verification/Coverage_Laws.thy ===== *)
theory Coverage_Laws
  imports Goal_Coverage
begin

text \<open>
  Laws of the finalization gate: the prerequisite loops end with the greatest closed set, a candidate
  always has an accepted artifact and a resolution without issues behind it (but for the unchecked compatibility
  proof of a time window), and what the verdict then says of the goals of the contract.
\<close>

section \<open>The prerequisite loops\<close>

definition closed_part :: "'a digraph \<Rightarrow> 'a set \<Rightarrow> 'a set" where
  "closed_part G S = {i. (edges G)\<^sup>* `` {i} \<subseteq> S}"

lemma closed_part_subset: "closed_part G S \<subseteq> S"
  by (auto simp: closed_part_def)

lemma closed_part_closed:
  assumes "\<And>i j. i \<in> S \<Longrightarrow> (i, j) \<in> edges G \<Longrightarrow> j \<in> S"
  shows "closed_part G S = S"
proof -
  have "j \<in> S" if "(i, j) \<in> (edges G)\<^sup>*" "i \<in> S" for i j
    using that by (induction rule: rtrancl_induct) (auto intro: assms)
  then show ?thesis by (auto simp: closed_part_def)
qed

lemma closed_part_step:
  "closed_part G (S - {i. \<not> set (succs G i) \<subseteq> S}) = closed_part G S" (is "closed_part G ?S' = _")
proof (rule equalityI; rule subsetI)
  fix i assume "i \<in> closed_part G ?S'"
  then show "i \<in> closed_part G S" by (auto simp: closed_part_def)
next
  fix i assume i: "i \<in> closed_part G S"
  have "j \<in> ?S'" if "(i, j) \<in> (edges G)\<^sup>*" for j
  proof -
    have "k \<in> S" if "k \<in> set (succs G j)" for k
      using i \<open>(i, j) \<in> (edges G)\<^sup>*\<close> that rtrancl_into_rtrancl [of i j "edges G" k]
      by (auto simp: closed_part_def)
    moreover have "j \<in> S" using i that by (auto simp: closed_part_def)
    ultimately show ?thesis by blast
  qed
  then show "i \<in> closed_part G ?S'" by (auto simp: closed_part_def)
qed

lemma prune_loop_spec: "\<exists>T. prune_loop G S = Some T \<and> set T = closed_part G (set S)"
proof (induction "length S" arbitrary: S rule: less_induct)
  case less
  let ?bad = "invalid_in G S"
  have bad: "set ?bad = {i\<in>set S. \<not> set (succs G i) \<subseteq> set S}" by (auto simp: invalid_in_def)
  show ?case
  proof (cases "?bad = []")
    case True
    then have "closed_part G (set S) = set S"
      by (intro closed_part_closed) (auto simp: invalid_in_def filter_empty_conv)
    then show ?thesis using True by (simp add: prune_loop.simps)
  next
    case False
    let ?S = "filter (\<lambda>i. i \<notin> set ?bad) S"
    from False obtain x where x: "x \<in> set ?bad" by (cases ?bad) auto
    then have "x \<in> set S" by (auto simp: invalid_in_def)
    then have "length ?S < length S" using x by (intro length_filter_less [of x]) auto
    from less [OF this] obtain T where T: "prune_loop G ?S = Some T" "set T = closed_part G (set ?S)"
      by blast
    have "set ?S = set S - {i. \<not> set (succs G i) \<subseteq> set S}" using bad by auto
    with T have "set T = closed_part G (set S)" by (simp only: closed_part_step)
    with T(1) False show ?thesis by (simp add: prune_loop.simps [of G S] Let_def)
  qed
qed

section \<open>Accepted declarations\<close>

lemma coerce_all_in: "d \<in> set (snd (coerce_all arts)) \<Longrightarrow> \<exists>a\<in>set arts. coerce_coverage a = Inr d"
  by (induction arts) (auto split: sum.splits)

lemma accept_loop_Cons:
  "snd (accept_loop fp seen (d # ds)) =
    (if ac_artifact d = [] \<or> ac_artifact d \<in> set seen then snd (accept_loop fp seen ds)
     else if ac_passed d \<and> ac_fingerprint d = fp then d # snd (accept_loop fp (ac_artifact d # seen) ds)
     else snd (accept_loop fp (ac_artifact d # seen) ds))"
  by (simp add: Let_def split: prod.split)

lemma accept_loop_in:
  "d \<in> set (snd (accept_loop fp seen ds)) \<Longrightarrow>
    d \<in> set ds \<and> ac_passed d \<and> ac_fingerprint d = fp \<and> ac_artifact d \<noteq> [] \<and> ac_artifact d \<notin> set seen"
proof (induction ds arbitrary: seen)
  case (Cons x ds)
  show ?case
    using Cons.prems Cons.IH [of seen] Cons.IH [of "ac_artifact x # seen"]
    by (simp only: accept_loop_Cons) (auto split: if_splits)
qed simp

lemma accept_loop_distinct: "distinct (map ac_artifact (snd (accept_loop fp seen ds)))"
proof (induction ds arbitrary: seen)
  case (Cons x ds)
  have "ac_artifact x \<notin> ac_artifact ` set (snd (accept_loop fp (ac_artifact x # seen) ds))"
    using accept_loop_in [of _ fp "ac_artifact x # seen" ds] by fastforce
  with Cons.IH show ?case by (simp only: accept_loop_Cons) simp
qed simp

lemma coerce_coverage_Inr:
  assumes "coerce_coverage a = Inr d"
  obtains rs where "map_res normalize_resolution (ac_resolutions a) = Inr rs"
    "canonical_goal_id_list (ac_covered a) = Inr (ac_covered d)" "ac_resolutions d = rs"
    "ac_artifact d = py_strip (ac_artifact a)" "ac_fingerprint d = py_strip (ac_fingerprint a)"
    "ac_passed d = ac_passed a" "ac_evidence d = normalized_string_list (ac_evidence a)"
  using assms by (auto simp: coerce_coverage_def elim!: bind_res_InrE)

section \<open>Candidates\<close>

lemma gather_sel [simp]:
  "ga_issues (gather gs) = concat (map ga_issues gs)"
  "ga_claimed (gather gs) = concat (map ga_claimed gs)"
  "ga_candidates (gather gs) = concat (map ga_candidates gs)"
  by (simp_all add: gather_def)

lemma gathered_of_sel [simp]:
  "ga_issues (gathered_of is cs ks) = is"
  "ga_claimed (gathered_of is cs ks) = cs"
  "ga_candidates (gathered_of is cs ks) = ks"
  by (simp_all add: gathered_of_def)

lemma first_resolutions_in: "r \<in> set (snd (first_resolutions aid seen rs)) \<Longrightarrow> r \<in> set rs"
  by (induction aid seen rs rule: first_resolutions.induct) (auto split: if_splits prod.splits)

lemma first_resolutions_Cons:
  "snd (first_resolutions aid seen (r # rs)) = (if rs_goal r \<in> set seen then snd (first_resolutions aid seen rs)
     else r # snd (first_resolutions aid (rs_goal r # seen) rs))"
  by (simp split: prod.split)

lemma first_resolutions_goals:
  "rs_goal ` set (snd (first_resolutions aid seen rs)) = rs_goal ` set rs - set seen"
proof (induction rs arbitrary: seen)
  case (Cons r rs)
  show ?case
    using Cons.IH [of seen] Cons.IH [of "rs_goal r # seen"] unfolding first_resolutions_Cons by (simp, blast)
qed simp

lemma covered_step_candidates [simp]: "ga_candidates (covered_step c aid i) = []"
  by (simp add: covered_step_def split: option.splits)

lemma cissue_blocking [simp]: "ci_blocking (cissue k g a rs)"
  by (simp add: cissue_def)

lemma cnote_blocking [simp]: "\<not> ci_blocking (cnote k g a)"
  by (simp add: cnote_def)

lemma list_all_issue_if [simp]: "list_all P (issue_if b x) \<longleftrightarrow> (b \<longrightarrow> P x)"
  by (simp add: issue_if_def)

lemma list_all_concat_map: "list_all P (concat (map f xs)) \<longleftrightarrow> list_all (\<lambda>x. list_all P (f x)) xs"
  by (induction xs) auto

lemmas issue_list_simps = time_own_issues_def time_mismatch_issues_def anomaly_issues_def
  ranking_proof_issues_def detail_ref_issues_def Let_def

lemma proof_issues_blocking:
  "(\<And>k rs. ci_blocking (add k rs)) \<Longrightarrow> list_all ci_blocking (proof_issues add c known res gb b)"
  by (cases b; cases gb) (simp_all add: issue_list_simps)

lemma goal_resolution_issues_blocking: "list_all ci_blocking (goal_resolution_issues c known aid g r)"
  by (simp add: goal_resolution_issues_def Let_def proof_issues_blocking split: resolution_status.split)

text \<open>
  What stands behind a candidate: a verified artifact that declares this contract, with a resolution of the
  goal, of the goal's kind, whose check raises no issue: a typed one, or the compatibility proof of a goal
  the artifact covers and has no typed resolution for. The one proof that may have issues is the
  compatibility proof of a time window, which names the range the artifact executed whatever the window
  is. A proof has semantic evidence.
\<close>

definition goal_backed ::
  "goal_contract \<Rightarrow> string \<Rightarrow> artifact_coverage list \<Rightarrow> string list \<Rightarrow> question_goal \<Rightarrow> string \<Rightarrow> goal_resolution \<Rightarrow> bool" where
  "goal_backed c fp arts known g aid r \<longleftrightarrow>
     (\<exists>a\<in>set arts. \<exists>d. coerce_coverage a = Inr d \<and> ac_passed a \<and> ac_fingerprint d = fp
        \<and> ac_artifact d = aid \<and> aid \<noteq> []
        \<and> rs_goal r = goal_id g \<and> proof_kind_text (rs_body r) = kind_text (body g)
        \<and> (r \<in> set (ac_resolutions d) \<and> goal_resolution_issues c known aid g r = []
           \<or> goal_id g \<in> set (ac_covered d) \<and> goal_id g \<notin> rs_goal ` set (ac_resolutions d)
             \<and> legacy_resolution g aid (ac_evidence d) (range_of_artifact arts aid) = Some r
             \<and> (goal_resolution_issues c known aid g r = [] \<or> (\<exists>w. body g = TimeWindow w)))
        \<and> (rs_status r = PROVED \<longrightarrow> semantic_evidence_issues g aid (ac_evidence d) (rs_evidence r) = []))"

lemma checked_resolution_candidates:
  "ga_candidates (checked_resolution c known d g r) =
    (if goal_resolution_issues c known (ac_artifact d) g r = [] \<and>
        (rs_status r = PROVED \<longrightarrow> semantic_evidence_issues g (ac_artifact d) (ac_evidence d) (rs_evidence r) = [])
     then [(rs_goal r, ac_artifact d, r)] else [])"
proof -
  have "list_ex ci_blocking is \<longleftrightarrow> is \<noteq> []" if "list_all ci_blocking is" for "is"
    using that by (cases "is") auto
  from this [OF goal_resolution_issues_blocking] show ?thesis
    by (simp add: checked_resolution_def Let_def)
qed

lemma resolution_step_candidate:
  assumes "k \<in> set (ga_candidates (resolution_step c known d r))"
  obtains g where "k = (rs_goal r, ac_artifact d, r)" "goal_map c (rs_goal r) = Some g"
    "proof_kind_text (rs_body r) = kind_text (body g)" "goal_resolution_issues c known (ac_artifact d) g r = []"
    "rs_status r = PROVED \<longrightarrow> semantic_evidence_issues g (ac_artifact d) (ac_evidence d) (rs_evidence r) = []"
  using assms
  by (auto simp: resolution_step_def Let_def checked_resolution_candidates split: option.splits if_splits)

lemma legacy_step_candidate:
  assumes "k \<in> set (ga_candidates (legacy_step c arts d typed i))"
  obtains g r where "k = (i, ac_artifact d, r)" "goal_map c i = Some g" "i \<notin> rs_goal ` set typed"
    "legacy_resolution g (ac_artifact d) (ac_evidence d) (range_of_artifact arts (ac_artifact d)) = Some r"
    "semantic_evidence_issues g (ac_artifact d) (ac_evidence d) (rs_evidence r) = []"
  using assms by (auto simp: legacy_step_def Let_def split: option.splits if_splits)

text \<open>The compatibility proofs are proofs of the goal, and only that of a time window can have issues.\<close>

lemma legacy_resolution_proof:
  assumes "legacy_resolution g aid evidence win = Some r"
  shows "rs_goal r = goal_id g" "rs_status r = PROVED" "proof_kind_text (rs_body r) = kind_text (body g)"
    "goal_resolution_issues c known a g r = [] \<or> (\<exists>w. body g = TimeWindow w)"
  using assms
  by (cases "body g"; auto simp: legacy_resolution_def goal_resolution_issues_def issue_if_def Let_def)+

lemma goal_map_Some: "goal_map c i = Some g \<Longrightarrow> g \<in> set (goals c) \<and> goal_id g = i"
  by (auto simp: goal_map_def dest!: map_of_SomeD)

lemma declaration_step_candidate:
  assumes k: "(i, aid, r) \<in> set (ga_candidates (declaration_step c arts known d))"
    and d: "coerce_coverage a = Inr d" "a \<in> set arts" "ac_passed d" "ac_fingerprint d = fp" "ac_artifact d \<noteq> []"
  shows "\<exists>g. goal_map c i = Some g \<and> goal_backed c fp arts known g aid r"
proof -
  obtain dup firsts where f: "first_resolutions (ac_artifact d) [] (ac_resolutions d) = (dup, firsts)"
    by (rule prod.exhaust)
  have typed: "set firsts \<subseteq> set (ac_resolutions d)"
    using first_resolutions_in [of _ "ac_artifact d" "[]" "ac_resolutions d"] f by auto
  have p: "ac_passed a" using d by (auto elim: coerce_coverage_Inr)
  have bk: "goal_backed c fp arts known g aid r"
    if "ac_artifact d = aid"
      "rs_goal r = goal_id g \<and> proof_kind_text (rs_body r) = kind_text (body g)
        \<and> (r \<in> set (ac_resolutions d) \<and> goal_resolution_issues c known aid g r = []
           \<or> goal_id g \<in> set (ac_covered d) \<and> goal_id g \<notin> rs_goal ` set (ac_resolutions d)
             \<and> legacy_resolution g aid (ac_evidence d) (range_of_artifact arts aid) = Some r
             \<and> (goal_resolution_issues c known aid g r = [] \<or> (\<exists>w. body g = TimeWindow w)))"
      "rs_status r = PROVED \<longrightarrow> semantic_evidence_issues g aid (ac_evidence d) (rs_evidence r) = []" for g
    unfolding goal_backed_def using that d p by blast
  have ids: "rs_goal ` set firsts = rs_goal ` set (ac_resolutions d)"
    using first_resolutions_goals [of "ac_artifact d" "[]" "ac_resolutions d"] f by simp
  from k f consider
      (typed) x where "x \<in> set firsts" "(i, aid, r) \<in> set (ga_candidates (resolution_step c known d x))"
    | (legacy) x where "x \<in> set (ac_covered d)" "(i, aid, r) \<in> set (ga_candidates (legacy_step c arts d firsts x))"
    by (auto simp: declaration_step_def)
  then show ?thesis
  proof cases
    case typed': typed
    from typed'(2) obtain g where g: "(i, aid, r) = (rs_goal x, ac_artifact d, x)" "goal_map c (rs_goal x) = Some g"
      "proof_kind_text (rs_body x) = kind_text (body g)" "goal_resolution_issues c known (ac_artifact d) g x = []"
      "rs_status x = PROVED \<longrightarrow> semantic_evidence_issues g (ac_artifact d) (ac_evidence d) (rs_evidence x) = []"
      by (rule resolution_step_candidate)
    then have "goal_backed c fp arts known g aid r"
      using typed typed'(1) goal_map_Some [OF g(2)] by (intro bk) auto
    with g show ?thesis by auto
  next
    case legacy
    from legacy(2) obtain g r' where g: "(i, aid, r) = (x, ac_artifact d, r')" "goal_map c x = Some g" "x \<notin> rs_goal ` set firsts"
      "legacy_resolution g (ac_artifact d) (ac_evidence d) (range_of_artifact arts (ac_artifact d)) = Some r'"
      "semantic_evidence_issues g (ac_artifact d) (ac_evidence d) (rs_evidence r') = []"
      by (rule legacy_step_candidate)
    then have "goal_backed c fp arts known g aid r"
      using legacy(1) goal_map_Some [OF g(2)] legacy_resolution_proof [OF g(4)] unfolding ids by (intro bk) auto
    with g show ?thesis by auto
  qed
qed

section \<open>Outcomes\<close>

definition accepted :: "string \<Rightarrow> artifact_coverage list \<Rightarrow> artifact_coverage list" where
  "accepted fp arts = snd (accept_loop fp [] (snd (coerce_all arts)))"

text \<open>All candidates of the gate, and the goals with a proof among them.\<close>

definition gate_candidates :: "goal_contract \<Rightarrow> string \<Rightarrow> artifact_coverage list \<Rightarrow> candidate list" where
  "gate_candidates c fp arts = ga_candidates (gather
     (map (declaration_step c arts (map ac_artifact (accepted fp arts))) (accepted fp arts)))"

definition proved_goals :: "goal_contract \<Rightarrow> string \<Rightarrow> artifact_coverage list \<Rightarrow> string set" where
  "proved_goals c fp arts = {i. \<exists>a r. (i, a, r) \<in> set (gate_candidates c fp arts) \<and> rs_status r = PROVED}"

definition resolved_goals :: "goal_contract \<Rightarrow> string \<Rightarrow> artifact_coverage list \<Rightarrow> string set" where
  "resolved_goals c fp arts = fst ` set (gate_candidates c fp arts)"

lemma gate_candidate_backed:
  assumes "(i, aid, r) \<in> set (gate_candidates c fp arts)"
  shows "\<exists>g. goal_map c i = Some g \<and> goal_backed c fp arts (map ac_artifact (accepted fp arts)) g aid r"
proof -
  from assms obtain d where d: "d \<in> set (accepted fp arts)"
    "(i, aid, r) \<in> set (ga_candidates (declaration_step c arts (map ac_artifact (accepted fp arts)) d))"
    by (auto simp: gate_candidates_def)
  then obtain a where "a \<in> set arts" "coerce_coverage a = Inr d" "ac_passed d" "ac_fingerprint d = fp" "ac_artifact d \<noteq> []"
    using accept_loop_in [of d fp "[]"] coerce_all_in [of d arts] by (auto simp: accepted_def)
  with d(2) show ?thesis by (intro declaration_step_candidate)
qed

lemma candidates_of_in: "(a, r) \<in> set (candidates_of ks i) \<longleftrightarrow> (i, a, r) \<in> set ks"
  by (force simp: candidates_of_def)

lemma with_status_Nil: "with_status s ks = [] \<longleftrightarrow> (\<forall>(a, r)\<in>set ks. rs_status r \<noteq> s)"
  by (auto simp: with_status_def filter_empty_conv)

lemma goal_outcome_of_None: "goal_outcome_of ks = None \<longleftrightarrow> ks = []"
proof -
  have "ks = []" if "with_status PROVED ks = []" "with_status INSUFFICIENT_EVIDENCE ks = []"
  proof (cases ks)
    case (Cons k ks')
    with that show ?thesis by (cases k; cases "rs_status (snd k)") (auto simp: with_status_Nil)
  qed simp
  then show ?thesis by (auto simp: goal_outcome_of_def Let_def with_status_def)
qed

lemma goal_outcome_of_status:
  "map_option oc_status (goal_outcome_of ks) =
    (if with_status PROVED ks \<noteq> [] then Some PROVED else if ks \<noteq> [] then Some INSUFFICIENT_EVIDENCE else None)"
proof -
  have "with_status INSUFFICIENT_EVIDENCE ks \<noteq> []" if "with_status PROVED ks = []" "ks \<noteq> []"
    using goal_outcome_of_None [of ks] that by (auto simp: goal_outcome_of_def Let_def split: if_splits)
  then show ?thesis by (auto simp: goal_outcome_of_def Let_def outcome_of_def with_status_def)
qed

lemma map_of_outcomes:
  "map_of (outcomes c ks) i =
    (if i \<in> goal_id ` set (goals c) then goal_outcome_of (candidates_of ks i) else None)"
proof -
  have "map_of (List.map_filter (\<lambda>g. map_option (Pair (goal_id g)) (goal_outcome_of (candidates_of ks (goal_id g)))) gs) i =
      (if i \<in> goal_id ` set gs then goal_outcome_of (candidates_of ks i) else None)" for gs :: "question_goal list"
    by (induction gs) (auto simp: map_filter_simps split: option.splits)
  then show ?thesis by (simp add: outcomes_def)
qed

lemma set_outcomes:
  "(i, oc) \<in> set (outcomes c ks) \<longleftrightarrow>
    i \<in> goal_id ` set (goals c) \<and> goal_outcome_of (candidates_of ks i) = Some oc"
proof -
  have "(i, oc) \<in> set (List.map_filter (\<lambda>g. map_option (Pair (goal_id g)) (goal_outcome_of (candidates_of ks (goal_id g)))) gs) \<longleftrightarrow>
      i \<in> goal_id ` set gs \<and> goal_outcome_of (candidates_of ks i) = Some oc" for gs :: "question_goal list"
    by (induction gs) (auto simp: map_filter_simps split: option.splits)
  then show ?thesis by (simp add: outcomes_def)
qed

lemma gate_candidate_goal: "(i, a, r) \<in> set (gate_candidates c fp arts) \<Longrightarrow> i \<in> goal_id ` set (goals c)"
  using gate_candidate_backed goal_map_Some by blast

lemma set_resolved_keys: "fst ` set (outcomes c (gate_candidates c fp arts)) = resolved_goals c fp arts"
proof (rule set_eqI)
  fix i
  let ?ks = "gate_candidates c fp arts"
  have "i \<in> fst ` set (outcomes c ?ks) \<longleftrightarrow> i \<in> goal_id ` set (goals c) \<and> candidates_of ?ks i \<noteq> []"
  proof -
    have "i \<in> fst ` set (outcomes c ?ks) \<longleftrightarrow> (\<exists>oc. (i, oc) \<in> set (outcomes c ?ks))" by force
    then show ?thesis
      unfolding set_outcomes using goal_outcome_of_None [of "candidates_of ?ks i"] by (simp flip: not_None_eq)
  qed
  also have "candidates_of ?ks i \<noteq> [] \<longleftrightarrow> i \<in> resolved_goals c fp arts"
    by (force simp: candidates_of_def resolved_goals_def filter_empty_conv)
  also have "i \<in> goal_id ` set (goals c) \<and> i \<in> resolved_goals c fp arts \<longleftrightarrow> i \<in> resolved_goals c fp arts"
    using gate_candidate_goal by (force simp: resolved_goals_def)
  finally show "i \<in> fst ` set (outcomes c ?ks) \<longleftrightarrow> i \<in> resolved_goals c fp arts" .
qed

lemma has_status_outcomes:
  "has_status (outcomes c ks) s i \<longleftrightarrow>
    i \<in> goal_id ` set (goals c) \<and> map_option oc_status (goal_outcome_of (candidates_of ks i)) = Some s"
  by (simp add: has_status_def map_of_outcomes)

lemma has_status_proved:
  "has_status (outcomes c (gate_candidates c fp arts)) PROVED i \<longleftrightarrow> i \<in> proved_goals c fp arts"
proof -
  let ?ks = "gate_candidates c fp arts"
  have "map_option oc_status (goal_outcome_of (candidates_of ?ks i)) = Some PROVED \<longleftrightarrow>
      with_status PROVED (candidates_of ?ks i) \<noteq> []"
    by (simp add: goal_outcome_of_status)
  also have "\<dots> \<longleftrightarrow> i \<in> proved_goals c fp arts"
    by (auto simp: with_status_Nil candidates_of_in proved_goals_def)
  finally show ?thesis
    using gate_candidate_goal [of i _ _ c fp arts] by (auto simp: has_status_outcomes proved_goals_def)
qed

lemma set_proved_keys:
  "set (map fst (filter (\<lambda>(i, oc). oc_status oc = PROVED) (outcomes c (gate_candidates c fp arts)))) =
    proved_goals c fp arts"
proof (rule set_eqI)
  fix i
  let ?ks = "gate_candidates c fp arts"
  have "i \<in> set (map fst (filter (\<lambda>(i, oc). oc_status oc = PROVED) (outcomes c ?ks))) \<longleftrightarrow>
      has_status (outcomes c ?ks) PROVED i"
    by (force simp: set_outcomes has_status_outcomes image_iff)
  then show "i \<in> set (map fst (filter (\<lambda>(i, oc). oc_status oc = PROVED) (outcomes c ?ks))) \<longleftrightarrow>
      i \<in> proved_goals c fp arts" by (simp add: has_status_proved)
qed

section \<open>What the gate answers\<close>

lemma verify_valid_Some:
  "\<exists>claimed is covered resolved.
     verify_valid c fp arts = Some (coverage_verdict c fp (map ac_artifact (accepted fp arts)) claimed
       (outcomes c (gate_candidates c fp arts)) is covered resolved) \<and>
     set covered = closed_part (goal_dependency_graph c) (proved_goals c fp arts) \<and>
     set resolved = closed_part (goal_dependency_graph c) (resolved_goals c fp arts)"
proof -
  let ?G = "goal_dependency_graph c" and ?os = "outcomes c (gate_candidates c fp arts)"
  obtain is1 ds where 1: "coerce_all arts = (is1, ds)" by (rule prod.exhaust)
  obtain is2 acc where 2: "accept_loop fp [] ds = (is2, acc)" by (rule prod.exhaust)
  have acc: "acc = accepted fp arts" using 1 2 by (simp add: accepted_def)
  obtain cov where cov: "prune_loop ?G (map fst (filter (\<lambda>(i, oc). oc_status oc = PROVED) ?os)) = Some cov"
    "set cov = closed_part ?G (proved_goals c fp arts)"
    using prune_loop_spec [of ?G "map fst (filter (\<lambda>(i, oc). oc_status oc = PROVED) ?os)"]
    unfolding set_proved_keys by blast
  obtain res where res: "prune_loop ?G (map fst ?os) = Some res"
    "set res = closed_part ?G (resolved_goals c fp arts)"
    using prune_loop_spec [of ?G "map fst ?os"] unfolding set_map set_resolved_keys by blast
  have gc: "ga_candidates (gather (map (declaration_step c arts (map ac_artifact acc)) acc)) = gate_candidates c fp arts"
    by (simp only: gate_candidates_def acc)
  have "verify_valid c fp arts = Some (coverage_verdict c fp (map ac_artifact acc)
      (ga_claimed (gather (map (declaration_step c arts (map ac_artifact acc)) acc))) ?os
      (is1 @ is2 @ ga_issues (gather (map (declaration_step c arts (map ac_artifact acc)) acc)) @
       conflict_notes c (gate_candidates c fp arts)) cov res)"
    unfolding verify_valid_def 1 fst_conv snd_conv 2 gate_accepted.simps gate_answer_def close_goals_def gc cov(1) res(1) by simp
  with cov(2) res(2) acc show ?thesis by blast
qed

lemma valid_fingerprint:
  assumes "validate_contract c = Inr (n, [])"
  shows "\<exists>fp. goal_contract_fingerprint h n = Inr fp"
proof -
  from assms have n: "normalize_contract c = Inr n" "contract_issues n = []"
    by (auto simp: validate_contract_def elim!: bind_res_InrE)
  then have "parse_contract n = Inr n"
    using normalize_contract_idem [OF n(1)] by (simp add: parse_contract_def validate_contract_def)
  then show ?thesis by (simp add: goal_contract_fingerprint_def)
qed

lemma verify_coverage_valid:
  assumes "validate_contract c = Inr (n, [])" "verify_coverage h c arts = Some r" "goal_contract_fingerprint h n = Inr fp"
  shows "verify_valid n fp arts = Some r"
  using assms by (simp add: verify_coverage_def)

lemma closed_part_depends_on:
  assumes "validate_contract c = Inr (n, [])"
  shows "closed_part (goal_dependency_graph n) S = {i. \<forall>j. (i, j) \<in> (depends_on n)\<^sup>* \<longrightarrow> j \<in> S}"
proof -
  from assms have "distinct (map goal_id (goals n))"
    by (auto simp: validate_contract_def contract_issues_Nil_iff elim!: bind_res_InrE)
  then show ?thesis by (auto simp: closed_part_def edges_goal_dependency_graph)
qed

lemma verdict_sel [simp]:
  "cr_covered (coverage_verdict c fp kn cl os is cov res) = filter (\<lambda>i. i \<in> set cov) (map goal_id (goals c))"
  "cr_resolved (coverage_verdict c fp kn cl os is cov res) = filter (\<lambda>i. i \<in> set res) (map goal_id (goals c))"
  "cr_required (coverage_verdict c fp kn cl os is cov res) = required_goal_ids c"
  "cr_artifacts (coverage_verdict c fp kn cl os is cov res) = kn"
  "cr_fingerprint (coverage_verdict c fp kn cl os is cov res) = fp"
  "cr_missing (coverage_verdict c fp kn cl os is cov res) = filter (\<lambda>i. i \<notin> set res) (required_goal_ids c)"
  "cr_unproved (coverage_verdict c fp kn cl os is cov res) = filter (\<lambda>i. i \<notin> set cov) (required_goal_ids c)"
  by (simp_all add: coverage_verdict_def Let_def)

lemma verdict_allowed:
  "cr_finalization_allowed (coverage_verdict c fp kn cl os is cov res) \<longleftrightarrow>
    (\<forall>x\<in>set (cr_issues (coverage_verdict c fp kn cl os is cov res)). \<not> ci_blocking x) \<and>
    set (required_goal_ids c) \<subseteq> set res"
  by (auto simp: coverage_verdict_def Let_def list_ex_iff filter_empty_conv)

lemma verdict_passed:
  "cr_passed (coverage_verdict c fp kn cl os is cov res) \<longleftrightarrow>
    cr_finalization_allowed (coverage_verdict c fp kn cl os is cov res) \<and> set (required_goal_ids c) \<subseteq> set cov"
  by (auto simp: coverage_verdict_def Let_def filter_empty_conv)

section \<open>Correctness\<close>

text \<open>
  A week asked for, a month executed: the sample of this section. \<open>sample_artifact ts\<close> claims all goals and
  gives the typed resolutions \<open>ts\<close>.
\<close>

definition week_window :: time_window_goal where
  "week_window = \<lparr>time_expression = ''last 7 days'', tw_start = [], tw_end = [], tw_timezone = [],
     granularity = [], tw_days = 7, calendar_anchor_policy = [], data_as_of_policy = [], window_role = [],
     time_range_kind = ''rolling'', applies_to_goal_ids = [''gmv'']\<rparr>"

definition window_contract :: goal_contract where
  "window_contract = sample_contract\<lparr>goals :=
     [sample_goal ''gmv'' (Metric ''metric:gmv'' []), sample_goal ''win'' (TimeWindow week_window)]\<rparr>"

definition month_range :: executed_range where
  "month_range = \<lparr>er_execution_start_date = ''2026-06-21'', er_execution_start_value = [], er_start_date = [],
     er_execution_end_date = ''2026-07-20'', er_execution_end_value = [], er_end_date = [],
     er_label = ''last 30 days'', er_expression_hint = [], er_timezone = [], er_granularity = [], er_days = 30,
     er_explicit = True, er_calendar = [], er_as_of = [], er_role = [], er_kind = ''rolling''\<rparr>"

definition month_artifact :: "goal_resolution list \<Rightarrow> artifact_coverage" where
  "month_artifact ts = \<lparr>ac_artifact = ''a1'', ac_fingerprint = ''fp'', ac_covered = [''gmv'', ''win''],
     ac_passed = True, ac_evidence = [''metric:gmv''], ac_resolutions = ts, ac_range = Some month_range\<rparr>"

definition month_resolution :: goal_resolution where
  "month_resolution = \<lparr>rs_goal = ''win'', rs_status = PROVED, rs_proof_type = [], rs_evidence = [], rs_reason = [],
     rs_details = [], rs_body = TimeProof (artifact_time_window month_range)\<rparr>"

definition sample_gate :: "goal_resolution list \<Rightarrow> coverage_result option" where
  "sample_gate ts = verify_coverage (\<lambda>_. ''fp'') window_contract [month_artifact ts]"

lemma sample_goal_required [simp]: "required (sample_goal i b)"
  by (simp add: sample_goal_def)

text \<open>
  C22: The finalization gate always answers: for every contract and every list of artifacts both
  \<open>while True\<close> loops over the prerequisites come to an end.
\<close>

theorem coverage_gate_answers: "\<exists>r. verify_coverage h c arts = Some r"
proof (cases "validate_contract c")
  case (Inr v)
  then obtain n "is" where v: "validate_contract c = Inr (n, is)" by (cases v) auto
  show ?thesis
  proof (cases "is = []")
    case True
    with v obtain fp where "goal_contract_fingerprint h n = Inr fp" using valid_fingerprint by blast
    with v True verify_valid_Some [of n fp arts] show ?thesis by (auto simp: verify_coverage_def)
  qed (simp add: verify_coverage_def v)
qed (simp add: verify_coverage_def)

text \<open>
  C15: For a valid contract the gate reports as covered, in contract order, exactly the goals that are proved
  together with every goal they depend on through any number of dependencies, and as resolved exactly those
  that are resolved (proved or with explicitly insufficient evidence) together with all of theirs: what the
  two loops leave is the greatest dependency-closed set.
\<close>

theorem coverage_greatest_closed:
  assumes "validate_contract c = Inr (n, [])" and "goal_contract_fingerprint h n = Inr fp"
    and "verify_coverage h c arts = Some r"
  shows "cr_covered r = filter (\<lambda>i. \<forall>j. (i, j) \<in> (depends_on n)\<^sup>* \<longrightarrow> j \<in> proved_goals n fp arts) (map goal_id (goals n)) \<and>
    cr_resolved r = filter (\<lambda>i. \<forall>j. (i, j) \<in> (depends_on n)\<^sup>* \<longrightarrow> j \<in> resolved_goals n fp arts) (map goal_id (goals n))"
proof -
  have r: "verify_valid n fp arts = Some r" using assms by (intro verify_coverage_valid)
  from verify_valid_Some [of n fp arts] obtain cl "is" cov res
    where "r = coverage_verdict n fp (map ac_artifact (accepted fp arts)) cl
        (outcomes n (gate_candidates n fp arts)) is cov res"
      and "set cov = closed_part (goal_dependency_graph n) (proved_goals n fp arts)"
      and "set res = closed_part (goal_dependency_graph n) (resolved_goals n fp arts)"
    unfolding r by blast
  then show ?thesis by (simp add: closed_part_depends_on [OF assms(1)])
qed

lemma coverage_greatest_closed_witness:
  "\<exists>r. sample_gate [] = Some r \<and> cr_covered r = [''gmv'', ''win''] \<and>
     (\<forall>j. (''gmv'', j) \<in> (depends_on window_contract)\<^sup>* \<longrightarrow> j \<in> proved_goals window_contract ''fp'' [month_artifact []])"
proof -
  have v: "validate_contract window_contract = Inr (window_contract, [])"
    "goal_contract_fingerprint (\<lambda>_. ''fp'') window_contract = Inr ''fp''" by code_simp+
  have "map_option cr_covered (sample_gate []) = Some [''gmv'', ''win'']" by code_simp
  then obtain r where r: "verify_coverage (\<lambda>_. ''fp'') window_contract [month_artifact []] = Some r"
    "cr_covered r = [''gmv'', ''win'']" by (auto simp: sample_gate_def)
  from coverage_greatest_closed [OF v r(1)] r(2)
  have "''gmv'' \<in> set (filter (\<lambda>i. \<forall>j. (i, j) \<in> (depends_on window_contract)\<^sup>* \<longrightarrow>
      j \<in> proved_goals window_contract ''fp'' [month_artifact []]) (map goal_id (goals window_contract)))"
    by (metis list.set_intros(1))
  then show ?thesis using r by (simp add: sample_gate_def)
qed

lemma required_closed:
  assumes "validate_contract c = Inr (n, [])" "i \<in> set (required_goal_ids n)" "(i, j) \<in> (depends_on n)\<^sup>*"
  shows "j \<in> set (required_goal_ids n)"
proof -
  from assms(1) have "contract_issues n = []" by (auto simp: validate_contract_def elim!: bind_res_InrE)
  then have d: "distinct (map goal_id (goals n))"
    and refs: "\<forall>g\<in>set (goals n). reference_issues (map goal_id (goals n)) g = []"
    by (auto simp: contract_issues_Nil_iff goal_issues_def)
  from assms(2) obtain q g where q: "q \<in> set (goals n)" "required q" "(goal_id q, i) \<in> (depends_on n)\<^sup>*"
    "g \<in> set (goals n)" "i = goal_id g" by (auto simp: set_required_goal_ids [OF d])
  have "j \<in> goal_id ` set (goals n)"
    using assms(3)
  proof (cases rule: rtranclE)
    case (step k)
    then show ?thesis using depends_on_in_goals [OF refs] by blast
  qed (use q in auto)
  moreover have "(goal_id q, j) \<in> (depends_on n)\<^sup>*" using q(3) assms(3) by (rule rtrancl_trans)
  ultimately show ?thesis using q(1,2) by (auto simp: set_required_goal_ids [OF d])
qed

lemma required_subset_closed:
  assumes "validate_contract c = Inr (n, [])"
  shows "set (required_goal_ids n) \<subseteq> closed_part (goal_dependency_graph n) S \<longleftrightarrow> set (required_goal_ids n) \<subseteq> S"
  using required_closed [OF assms] unfolding closed_part_depends_on [OF assms] by blast

lemma proved_subset_resolved: "proved_goals c fp arts \<subseteq> resolved_goals c fp arts"
  by (force simp: proved_goals_def resolved_goals_def)

text \<open>
  C23: On a valid contract the gate passes exactly if no issue blocks and every required goal, those required
  through dependencies included, is proved; finalization is allowed exactly if no issue blocks and each of
  them is resolved, so a goal with explicitly insufficient evidence can finalize but never passes.
\<close>

theorem coverage_passed_iff:
  assumes "validate_contract c = Inr (n, [])" and "goal_contract_fingerprint h n = Inr fp"
    and "verify_coverage h c arts = Some r"
  shows "(cr_passed r \<longleftrightarrow> list_all (Not \<circ> ci_blocking) (cr_issues r) \<and> set (required_goal_ids n) \<subseteq> proved_goals n fp arts) \<and>
    (cr_finalization_allowed r \<longleftrightarrow>
       list_all (Not \<circ> ci_blocking) (cr_issues r) \<and> set (required_goal_ids n) \<subseteq> resolved_goals n fp arts)"
proof -
  have "verify_valid n fp arts = Some r" using assms by (intro verify_coverage_valid)
  with verify_valid_Some [of n fp arts] obtain cl "is" cov res
    where r: "r = coverage_verdict n fp (map ac_artifact (accepted fp arts)) cl
        (outcomes n (gate_candidates n fp arts)) is cov res"
      and cov: "set cov = closed_part (goal_dependency_graph n) (proved_goals n fp arts)"
      and res: "set res = closed_part (goal_dependency_graph n) (resolved_goals n fp arts)"
    by (metis option.inject)
  have "cr_finalization_allowed r \<longleftrightarrow>
      list_all (Not \<circ> ci_blocking) (cr_issues r) \<and> set (required_goal_ids n) \<subseteq> resolved_goals n fp arts"
    unfolding r verdict_allowed by (simp only: list_all_iff comp_def res required_subset_closed [OF assms(1)])
  moreover have "cr_passed r \<longleftrightarrow> cr_finalization_allowed r \<and> set (required_goal_ids n) \<subseteq> proved_goals n fp arts"
    unfolding r verdict_passed by (simp only: cov required_subset_closed [OF assms(1)])
  ultimately show ?thesis using proved_subset_resolved [of n fp arts] by blast
qed

lemma coverage_passed_iff_witness:
  "\<exists>r. sample_gate [] = Some r \<and> cr_passed r \<and>
     {''gmv'', ''win''} \<subseteq> proved_goals window_contract ''fp'' [month_artifact []]"
proof -
  have v: "validate_contract window_contract = Inr (window_contract, [])"
    "goal_contract_fingerprint (\<lambda>_. ''fp'') window_contract = Inr ''fp''" by code_simp+
  have "map_option cr_passed (sample_gate []) = Some True" by code_simp
  then obtain r where r: "verify_coverage (\<lambda>_. ''fp'') window_contract [month_artifact []] = Some r" "cr_passed r"
    by (auto simp: sample_gate_def)
  have "required_goal_ids window_contract = [''gmv'', ''win'']" by code_simp
  with coverage_passed_iff [OF v r(1)] r show ?thesis by (simp add: sample_gate_def)
qed

text \<open>
  C2: If the gate passes, the contract is valid and behind every required goal and everything it depends on
  stands an artifact whose evidence was verified, declared for this very contract, with a proof of the goal,
  of the goal's kind, which its check finds nothing wrong with: a typed resolution, or the compatibility
  proof of a primitive goal the artifact covers without one; and the proof's evidence names one of the
  goal's semantic references, if it has any. There is one exception, which C28 shows to occur: the
  compatibility proof of a time window is not checked against the window.
\<close>

theorem coverage_passed_sound:
  assumes "verify_coverage h c arts = Some r" and "cr_passed r"
  shows "\<exists>n fp. validate_contract c = Inr (n, []) \<and> goal_contract_fingerprint h n = Inr fp \<and>
    (\<forall>q\<in>set (goals n). \<forall>g\<in>set (goals n). required q \<longrightarrow> (goal_id q, goal_id g) \<in> (depends_on n)\<^sup>* \<longrightarrow>
       (\<exists>aid p. rs_status p = PROVED \<and> goal_backed n fp arts (cr_artifacts r) g aid p))"
proof -
  have "\<not> cr_passed (blocked_result req is)" for req "is" by (simp add: blocked_result_def)
  with assms obtain n where v: "validate_contract c = Inr (n, [])"
    by (auto simp: verify_coverage_def split: sum.splits prod.splits if_splits)
  then obtain fp where fp: "goal_contract_fingerprint h n = Inr fp" using valid_fingerprint by blast
  have d: "distinct (map goal_id (goals n))"
    using v by (auto simp: validate_contract_def contract_issues_Nil_iff elim!: bind_res_InrE)
  have kn: "cr_artifacts r = map ac_artifact (accepted fp arts)"
    using verify_valid_Some [of n fp arts] verify_coverage_valid [OF v assms(1) fp] by fastforce
  have req: "set (required_goal_ids n) \<subseteq> proved_goals n fp arts"
    using coverage_passed_iff [OF v fp assms(1)] assms(2) by blast
  have "\<exists>aid p. rs_status p = PROVED \<and> goal_backed n fp arts (cr_artifacts r) g aid p"
    if q: "q \<in> set (goals n)" "g \<in> set (goals n)" "required q" "(goal_id q, goal_id g) \<in> (depends_on n)\<^sup>*" for q g
  proof -
    have "goal_id g \<in> set (required_goal_ids n)" using q by (auto simp: set_required_goal_ids [OF d])
    then obtain a p where p: "(goal_id g, a, p) \<in> set (gate_candidates n fp arts)" "rs_status p = PROVED"
      using req by (auto simp: proved_goals_def)
    from gate_candidate_backed [OF p(1)] obtain g' where g': "goal_map n (goal_id g) = Some g'"
      "goal_backed n fp arts (cr_artifacts r) g' a p" unfolding kn by blast
    then have "g' = g" using goal_map_Some [OF g'(1)] d q(2) by (auto simp: distinct_map dest: inj_onD)
    with g' p(2) show ?thesis by blast
  qed
  with v fp show ?thesis by blast
qed

lemma coverage_passed_sound_witness:
  "\<exists>r. sample_gate [] = Some r \<and> cr_passed r \<and>
     (\<exists>n fp g aid p. goal_id g = ''gmv'' \<and> rs_status p = PROVED \<and> goal_backed n fp [month_artifact []] (cr_artifacts r) g aid p)"
proof -
  have "map_option cr_passed (sample_gate []) = Some True" by code_simp
  then obtain r where r: "verify_coverage (\<lambda>_. ''fp'') window_contract [month_artifact []] = Some r" "cr_passed r"
    by (auto simp: sample_gate_def)
  have "validate_contract window_contract = Inr (window_contract, [])" by code_simp
  with coverage_passed_sound [OF r]
  have "\<exists>fp. \<forall>q\<in>set (goals window_contract). \<forall>g\<in>set (goals window_contract). required q \<longrightarrow>
      (goal_id q, goal_id g) \<in> (depends_on window_contract)\<^sup>* \<longrightarrow>
      (\<exists>aid p. rs_status p = PROVED \<and> goal_backed window_contract fp [month_artifact []] (cr_artifacts r) g aid p)" by auto
  moreover have "sample_goal ''gmv'' (Metric ''metric:gmv'' []) \<in> set (goals window_contract)"
    by (simp add: window_contract_def)
  ultimately have "\<exists>fp aid p. rs_status p = PROVED \<and>
      goal_backed window_contract fp [month_artifact []] (cr_artifacts r) (sample_goal ''gmv'' (Metric ''metric:gmv'' [])) aid p"
    by (meson rtrancl.rtrancl_refl sample_goal_required)
  moreover have "goal_id (sample_goal ''gmv'' (Metric ''metric:gmv'' [])) = ''gmv''" by (simp add: sample_goal_def)
  moreover have "sample_gate [] = Some r" using r by (simp add: sample_gate_def)
  ultimately show ?thesis using r(2) by blast
qed

text \<open>
  C28: A time window without semantic references of its own, which an artifact only lists among its covered
  goals, is proved by whatever range the artifact executed: the compatibility proof becomes a candidate without an issue, although the very same
  proof as a typed resolution blocks because its days are not the days asked for. So a gate that is given
  the kernel artifact itself passes a week's question on a month's query.
\<close>

theorem legacy_window_unchecked:
  assumes "goal_map c i = Some g" and "body g = TimeWindow w" and "semantic_ref_ids g = []"
    and "range_of_artifact arts (ac_artifact d) = Some e" and "0 < tw_days w" and "er_days e \<noteq> tw_days w"
    and "i \<notin> rs_goal ` set typed"
  shows "\<exists>p. legacy_step c arts d typed i = gathered_of [] [] [(i, ac_artifact d, p)] \<and> rs_status p = PROVED \<and>
    cissue (TIME_WINDOW_PROOF_MISMATCH ''DAYS'') (goal_id g) (ac_artifact d) []
      \<in> set (goal_resolution_issues c known (ac_artifact d) g p)"
proof -
  let ?p = "\<lparr>rs_goal = goal_id g, rs_status = PROVED, rs_proof_type = ''KERNEL_VERIFIED_PRIMITIVE_RESULT'',
    rs_evidence = normalized_string_list (ac_evidence d), rs_reason = [], rs_details = [],
    rs_body = TimeProof (artifact_time_window e)\<rparr>"
  have l: "legacy_resolution g (ac_artifact d) (ac_evidence d) (Some e) = Some ?p"
    using assms(2) by (simp add: legacy_resolution_def)
  have "canonical_semantic_refs (goal_semantic_refs g) = []"
    using assms(2,3) by (simp add: goal_semantic_refs_def canonical_semantic_refs_def)
  then have "semantic_evidence_issues g (ac_artifact d) (ac_evidence d) rs = []" for rs
    by (simp add: semantic_evidence_issues_def)
  then have "legacy_step c arts d typed i = gathered_of [] [] [(i, ac_artifact d, ?p)]"
    using assms(1,4,7) l by (simp add: legacy_step_def)
  moreover have "tp_days (artifact_time_window e) = er_days e" by (simp add: artifact_time_window_def)
  then have "cissue (TIME_WINDOW_PROOF_MISMATCH ''DAYS'') (goal_id g) (ac_artifact d) []
      \<in> set (goal_resolution_issues c known (ac_artifact d) g ?p)"
    using assms(2,5,6) by (simp add: goal_resolution_issues_def time_mismatch_issues_def)
  ultimately show ?thesis by (intro exI [of _ ?p]) simp
qed

lemma legacy_window_unchecked_witness:
  "ga_candidates (legacy_step window_contract [month_artifact []] (month_artifact []) [] ''win'') \<noteq> [] \<and>
   map_option cr_passed (sample_gate []) = Some True \<and>
   map_option cr_finalization_allowed (sample_gate [month_resolution]) = Some False"
proof -
  have g: "goal_map window_contract ''win'' = Some (sample_goal ''win'' (TimeWindow week_window))" by code_simp
  have w: "body (sample_goal ''win'' (TimeWindow week_window)) = TimeWindow week_window"
    "semantic_ref_ids (sample_goal ''win'' (TimeWindow week_window)) = []" by (simp_all add: sample_goal_def)
  have e: "range_of_artifact [month_artifact []] (ac_artifact (month_artifact [])) = Some month_range" by code_simp
  have n: "0 < tw_days week_window" "er_days month_range \<noteq> tw_days week_window" "''win'' \<notin> rs_goal ` set []"
    by (simp_all add: week_window_def month_range_def)
  have gates: "map_option cr_passed (sample_gate []) = Some True"
    "map_option cr_finalization_allowed (sample_gate [month_resolution]) = Some False" by code_simp+
  from legacy_window_unchecked [OF g w e n, of "[]"] show ?thesis using gates by auto
qed

end
