(* ===== verification/Outcome_Completion.thy ===== *)
theory Outcome_Completion
  imports Goal_Contract Py_Text
begin

text \<open>
  The deterministic half of final-answer completion (\<^verbatim>\<open>grounded_outcome_completion.py\<close>): the checks of every
  claim the completion model makes about the answer, the attestation of the answer, and how the runtime
  puts both together. The decision of the model is an input.

  An issue is its code, the outcome and the identifiers in its details; messages are left out. The title
  of the section of gaps, which is not Latin-1, is a parameter.
\<close>

section \<open>Decisions and results\<close>

datatype completion_status = SATISFIED | PARTIAL | EVIDENCE_INSUFFICIENT | NEEDS_USER_INPUT

datatype evidence_kind = DATA | RULE | DATA_AND_RULE | NO_EVIDENCE

record outcome_assessment =
  oa_id :: string
  oa_requirement :: string
  oa_spans :: "string list"
  oa_status :: completion_status
  oa_kind :: evidence_kind
  oa_queries :: "string list"
  oa_rules :: "string list"
  oa_evidence :: "string list"
  oa_missing :: string

record completion_decision =
  cd_overall :: completion_status
  cd_outcomes :: "outcome_assessment list"
  cd_missing :: "string list"
  cd_input_reason :: string
  cd_summary :: string

datatype completion_code =
    FINAL_ANSWER_MARKDOWN_REQUIRED
  | ANSWER_CLAIM_VERIFICATION_REQUIRED
  | USER_OUTCOME_ASSESSMENT_REQUIRED
  | OUTCOME_ID_INVALID
  | OUTCOME_ARTIFACT_REFERENCE_INVALID
  | OUTCOME_EVIDENCE_REFERENCE_INVALID
  | SATISFIED_OUTCOME_EVIDENCE_KIND_REQUIRED
  | SATISFIED_DATA_OUTCOME_ARTIFACT_REQUIRED
  | SATISFIED_RULE_OUTCOME_ARTIFACT_REQUIRED
  | OUTCOME_MISSING_REASON_REQUIRED
  | OUTCOME_STATUS_INCONSISTENT
  | VERIFIED_QUERY_ARTIFACT_REQUIRED
  | VERIFIED_RULE_ARTIFACT_REQUIRED
  | USER_INPUT_REQUIRED
  | USER_OUTCOME_INCOMPLETE

record completion_issue =
  oi_code :: completion_code
  oi_outcome :: string
  oi_refs :: "string list"

record completion_result =
  cp_passed :: bool
  cp_allowed :: bool
  cp_partial :: bool
  cp_needs_input :: bool
  cp_fingerprint :: string
  cp_source :: string
  cp_evaluator_used :: bool
  cp_overall :: completion_status
  cp_outcomes :: "outcome_assessment list"
  cp_missing :: "string list"
  cp_queries :: "string list"
  cp_rules :: "string list"
  cp_evidence :: "string list"
  cp_issues :: "completion_issue list"

text \<open>What the caller knows: the evidence of the verified artifacts, what the question needs.\<close>

record completion_facts =
  cf_queries :: "(string, string list) dict"
  cf_rules :: "(string, string list) dict"
  cf_data_required :: bool
  cf_rule_required :: bool
  cf_claims_verified :: bool
  cf_allow_partial :: bool

definition completion_issue_of :: "completion_code \<Rightarrow> string \<Rightarrow> string list \<Rightarrow> completion_issue" where
  "completion_issue_of c i rs = \<lparr>oi_code = c, oi_outcome = i, oi_refs = rs\<rparr>"

section \<open>Checks\<close>

text \<open>The evidence references an outcome may cite: those of the artifacts it cites.\<close>

definition allowed_refs :: "completion_facts \<Rightarrow> outcome_assessment \<Rightarrow> string list" where
  "allowed_refs f x =
     (let refs = (\<lambda>d i. filter (\<lambda>r. r \<noteq> []) (map py_strip (dict_get d i [])))
      in concat (map (refs (cf_queries f)) (normalized_string_list (oa_queries x))) @
         concat (map (refs (cf_rules f)) (normalized_string_list (oa_rules x))))"

definition satisfied_issues :: "completion_facts \<Rightarrow> string \<Rightarrow> outcome_assessment \<Rightarrow> completion_issue list" where
  "satisfied_issues f i x =
     issue_if (oa_kind x = NO_EVIDENCE \<and> (cf_data_required f \<or> cf_rule_required f))
       (completion_issue_of SATISFIED_OUTCOME_EVIDENCE_KIND_REQUIRED i []) @
     issue_if (oa_kind x \<in> {DATA, DATA_AND_RULE} \<and> normalized_string_list (oa_queries x) = [])
       (completion_issue_of SATISFIED_DATA_OUTCOME_ARTIFACT_REQUIRED i []) @
     issue_if (oa_kind x \<in> {RULE, DATA_AND_RULE} \<and> normalized_string_list (oa_rules x) = [])
       (completion_issue_of SATISFIED_RULE_OUTCOME_ARTIFACT_REQUIRED i [])"

text \<open>The body of the loop over the outcomes; \<open>seen\<close> are the identifiers before this one.\<close>

definition outcome_issues :: "completion_facts \<Rightarrow> string list \<Rightarrow> outcome_assessment \<Rightarrow> completion_issue list" where
  "outcome_issues f seen x =
     (let i = py_strip (oa_id x);
          unknown_queries = filter (\<lambda>a. a \<notin> fst ` set (cf_queries f)) (normalized_string_list (oa_queries x));
          unknown_rules = filter (\<lambda>a. a \<notin> fst ` set (cf_rules f)) (normalized_string_list (oa_rules x));
          unknown_refs = filter (\<lambda>r. r \<notin> set (allowed_refs f x)) (normalized_string_list (oa_evidence x))
      in issue_if (i = [] \<or> i \<in> set seen) (completion_issue_of OUTCOME_ID_INVALID i []) @
         issue_if (unknown_queries \<noteq> [] \<or> unknown_rules \<noteq> [])
           (completion_issue_of OUTCOME_ARTIFACT_REFERENCE_INVALID i (unknown_queries @ unknown_rules)) @
         issue_if (unknown_refs \<noteq> []) (completion_issue_of OUTCOME_EVIDENCE_REFERENCE_INVALID i unknown_refs) @
         (if oa_status x = SATISFIED then satisfied_issues f i x
          else issue_if (py_strip (oa_missing x) = []) (completion_issue_of OUTCOME_MISSING_REASON_REQUIRED i [])))"

fun outcome_loop :: "completion_facts \<Rightarrow> string list \<Rightarrow> outcome_assessment list \<Rightarrow> completion_issue list" where
  "outcome_loop f seen [] = []"
| "outcome_loop f seen (x # xs) = outcome_issues f seen x @ outcome_loop f (py_strip (oa_id x) # seen) xs"

definition referenced_queries :: "completion_decision \<Rightarrow> string list" where
  "referenced_queries d = normalized_string_list (concat (map (\<lambda>x. normalized_string_list (oa_queries x)) (cd_outcomes d)))"

definition referenced_rules :: "completion_decision \<Rightarrow> string list" where
  "referenced_rules d = normalized_string_list (concat (map (\<lambda>x. normalized_string_list (oa_rules x)) (cd_outcomes d)))"

definition satisfied_count :: "completion_decision \<Rightarrow> nat" where
  "satisfied_count d = length (filter (\<lambda>x. oa_status x = SATISFIED) (cd_outcomes d))"

definition unsatisfied_count :: "completion_decision \<Rightarrow> nat" where
  "unsatisfied_count d = length (filter (\<lambda>x. oa_status x \<noteq> SATISFIED) (cd_outcomes d))"

definition overall_issues :: "completion_facts \<Rightarrow> completion_decision \<Rightarrow> completion_issue list" where
  "overall_issues f d =
     (case cd_overall d of
        SATISFIED \<Rightarrow>
          issue_if (0 < unsatisfied_count d \<or> cd_missing d \<noteq> []) (completion_issue_of OUTCOME_STATUS_INCONSISTENT [] []) @
          issue_if (cf_data_required f \<and> referenced_queries d = []) (completion_issue_of VERIFIED_QUERY_ARTIFACT_REQUIRED [] []) @
          issue_if (cf_rule_required f \<and> referenced_rules d = []) (completion_issue_of VERIFIED_RULE_ARTIFACT_REQUIRED [] [])
      | PARTIAL \<Rightarrow>
          issue_if (satisfied_count d = 0 \<or> \<not> (0 < unsatisfied_count d \<or> cd_missing d \<noteq> []))
            (completion_issue_of OUTCOME_STATUS_INCONSISTENT [] [])
      | _ \<Rightarrow> [])"

definition authority_issues :: "completion_facts \<Rightarrow> string \<Rightarrow> completion_decision \<Rightarrow> completion_issue list" where
  "authority_issues f answer d =
     issue_if (answer = []) (completion_issue_of FINAL_ANSWER_MARKDOWN_REQUIRED [] []) @
     issue_if (\<not> cf_claims_verified f) (completion_issue_of ANSWER_CLAIM_VERIFICATION_REQUIRED [] []) @
     issue_if (cd_outcomes d = []) (completion_issue_of USER_OUTCOME_ASSESSMENT_REQUIRED [] []) @
     outcome_loop f [] (cd_outcomes d) @ overall_issues f d"

definition needs_input :: "completion_decision \<Rightarrow> bool" where
  "needs_input d \<longleftrightarrow> list_ex (\<lambda>x. oa_status x = NEEDS_USER_INPUT) (cd_outcomes d) \<or> cd_overall d = NEEDS_USER_INPUT"

definition completion_allowed :: "completion_facts \<Rightarrow> string \<Rightarrow> completion_decision \<Rightarrow> bool" where
  "completion_allowed f answer d \<longleftrightarrow> authority_issues f answer d = []
     \<and> (cd_overall d = SATISFIED
        \<or> cd_overall d = PARTIAL \<and> cf_allow_partial f \<and> 0 < satisfied_count d \<and> \<not> needs_input d)"

text \<open>\<open>h\<close> is the SHA-256 of the answer.\<close>

definition verify_completion ::
  "(string \<Rightarrow> string) \<Rightarrow> completion_facts \<Rightarrow> string \<Rightarrow> completion_decision \<Rightarrow> completion_result" where
  "verify_completion h f markdown d =
     (let answer = py_strip markdown; issues = authority_issues f answer d; ok = completion_allowed f answer d
      in \<lparr>cp_passed = ok, cp_allowed = ok, cp_partial = (ok \<and> cd_overall d = PARTIAL), cp_needs_input = needs_input d,
          cp_fingerprint = h answer, cp_source = ''compose_verified_answer'', cp_evaluator_used = True,
          cp_overall = cd_overall d, cp_outcomes = cd_outcomes d,
          cp_missing = normalized_string_list (cd_missing d @
            map oa_missing (filter (\<lambda>x. oa_status x \<noteq> SATISFIED) (cd_outcomes d))),
          cp_queries = referenced_queries d, cp_rules = referenced_rules d,
          cp_evidence = normalized_string_list (concat (map (\<lambda>x. normalized_string_list (oa_evidence x)) (cd_outcomes d))),
          cp_issues = issues @ issue_if (\<not> ok \<and> issues = [])
            (completion_issue_of (if needs_input d then USER_INPUT_REQUIRED else USER_OUTCOME_INCOMPLETE) [] [])\<rparr>)"

definition outcome_attestation_matches :: "(string \<Rightarrow> string) \<Rightarrow> string \<Rightarrow> completion_result option \<Rightarrow> bool" where
  "outcome_attestation_matches h markdown r =
     (case r of None \<Rightarrow> False
      | Some p \<Rightarrow> cp_passed p \<and> cp_allowed p \<and> cp_source p = ''compose_verified_answer''
          \<and> cp_fingerprint p \<noteq> [] \<and> cp_fingerprint p = h markdown)"

definition newline :: string where
  "newline = [CHR 0x0A]"

definition render_partial_outcome_gaps :: "string \<Rightarrow> string \<Rightarrow> string list \<Rightarrow> string" where
  "render_partial_outcome_gaps title markdown missing =
     (let ms = normalized_string_list missing; answer = py_strip markdown
      in if ms = [] then answer
         else let part = title @ newline @ newline @ join_with newline (map (\<lambda>m. ''- '' @ m) (take 6 ms))
              in join_with (newline @ newline) (filter (\<lambda>t. t \<noteq> []) [answer, part]))"

text \<open>
  How the runtime finishes (\<^verbatim>\<open>grounded_deep_agent_runtime.py\<close>): the answer it returns and the result it
  records; a partial answer gets the gaps appended and is checked again.
\<close>

definition complete_answer ::
  "(string \<Rightarrow> string) \<Rightarrow> string \<Rightarrow> completion_facts \<Rightarrow> string \<Rightarrow> completion_decision \<Rightarrow> string \<times> completion_result" where
  "complete_answer h title f candidate d =
     (let r = verify_completion h f candidate d; answer = py_strip candidate
      in if cp_partial r
         then let answer' = render_partial_outcome_gaps title answer (cp_missing r)
              in (answer', verify_completion h (f\<lparr>cf_allow_partial := True\<rparr>) answer' d)
         else (answer, r))"

section \<open>When completion is allowed\<close>

text \<open>What must hold of one outcome, as a statement about what it cites.\<close>

definition outcome_grounded :: "completion_facts \<Rightarrow> outcome_assessment \<Rightarrow> bool" where
  "outcome_grounded f x \<longleftrightarrow>
     set (normalized_string_list (oa_queries x)) \<subseteq> fst ` set (cf_queries f) \<and>
     set (normalized_string_list (oa_rules x)) \<subseteq> fst ` set (cf_rules f) \<and>
     set (normalized_string_list (oa_evidence x)) \<subseteq> set (allowed_refs f x) \<and>
     (if oa_status x = SATISFIED
      then (oa_kind x = NO_EVIDENCE \<longrightarrow> \<not> cf_data_required f \<and> \<not> cf_rule_required f) \<and>
           (oa_kind x \<in> {DATA, DATA_AND_RULE} \<longrightarrow> normalized_string_list (oa_queries x) \<noteq> []) \<and>
           (oa_kind x \<in> {RULE, DATA_AND_RULE} \<longrightarrow> normalized_string_list (oa_rules x) \<noteq> [])
      else py_strip (oa_missing x) \<noteq> [])"

lemma outcome_issues_Nil:
  "outcome_issues f seen x = [] \<longleftrightarrow>
    py_strip (oa_id x) \<noteq> [] \<and> py_strip (oa_id x) \<notin> set seen \<and> outcome_grounded f x"
  by (cases "oa_status x")
    (auto simp: outcome_issues_def satisfied_issues_def outcome_grounded_def Let_def filter_empty_conv)

lemma outcome_loop_Nil:
  "outcome_loop f seen xs = [] \<longleftrightarrow>
    distinct (map (py_strip \<circ> oa_id) xs) \<and> (\<forall>x\<in>set xs. py_strip (oa_id x) \<noteq> [] \<and> py_strip (oa_id x) \<notin> set seen \<and>
      outcome_grounded f x)"
  by (induction f seen xs rule: outcome_loop.induct) (auto simp: outcome_issues_Nil image_iff)

lemma unsatisfied_zero: "unsatisfied_count d = 0 \<longleftrightarrow> list_all (\<lambda>x. oa_status x = SATISFIED) (cd_outcomes d)"
  by (auto simp: unsatisfied_count_def filter_empty_conv list_all_iff)

lemma satisfied_zero:
  "satisfied_count d = 0 \<longleftrightarrow> \<not> list_ex (\<lambda>x. oa_status x = SATISFIED) (cd_outcomes d)"
  "0 < satisfied_count d \<longleftrightarrow> list_ex (\<lambda>x. oa_status x = SATISFIED) (cd_outcomes d)"
  by (auto simp: satisfied_count_def filter_empty_conv list_ex_iff)

text \<open>
  C39: An answer is complete exactly if it is not empty, its claims were verified, the model assessed at least
  one outcome, under distinct identifiers, every outcome cites only verified artifacts and their evidence
  (and at least one of the kind it claims to rest on, if it is satisfied), and either all outcomes are
  satisfied with nothing missing and the artifacts the question needs cited, or a partial answer was asked
  for, some outcome is satisfied, some is not, and none waits for the user.
\<close>

theorem completion_allowed_iff:
  "cp_passed (verify_completion h f markdown d) \<longleftrightarrow>
     py_strip markdown \<noteq> [] \<and> cf_claims_verified f \<and> cd_outcomes d \<noteq> [] \<and>
     distinct (map (py_strip \<circ> oa_id) (cd_outcomes d)) \<and> list_all (\<lambda>x. py_strip (oa_id x) \<noteq> []) (cd_outcomes d) \<and>
     list_all (outcome_grounded f) (cd_outcomes d) \<and>
     (cd_overall d = SATISFIED \<and> list_all (\<lambda>x. oa_status x = SATISFIED) (cd_outcomes d) \<and> cd_missing d = [] \<and>
        (if cf_data_required f then referenced_queries d \<noteq> [] else True) \<and>
        (if cf_rule_required f then referenced_rules d \<noteq> [] else True)
      \<or> cd_overall d = PARTIAL \<and> cf_allow_partial f \<and> list_ex (\<lambda>x. oa_status x = SATISFIED) (cd_outcomes d) \<and>
        (list_ex (\<lambda>x. oa_status x \<noteq> SATISFIED) (cd_outcomes d) \<or> cd_missing d \<noteq> []) \<and>
        list_all (\<lambda>x. oa_status x \<noteq> NEEDS_USER_INPUT) (cd_outcomes d))"
proof -
  have u: "0 < unsatisfied_count d \<longleftrightarrow> list_ex (\<lambda>x. oa_status x \<noteq> SATISFIED) (cd_outcomes d)"
    using unsatisfied_zero [of d] by (auto simp: list_ex_iff list_all_iff)
  have a: "authority_issues f (py_strip markdown) d = [] \<longleftrightarrow>
      py_strip markdown \<noteq> [] \<and> cf_claims_verified f \<and> cd_outcomes d \<noteq> [] \<and>
      distinct (map (py_strip \<circ> oa_id) (cd_outcomes d)) \<and> list_all (\<lambda>x. py_strip (oa_id x) \<noteq> []) (cd_outcomes d) \<and>
      list_all (outcome_grounded f) (cd_outcomes d) \<and> overall_issues f d = []"
    by (auto simp: authority_issues_def outcome_loop_Nil list_all_iff)
  have p: "cp_passed (verify_completion h f markdown d) \<longleftrightarrow> completion_allowed f (py_strip markdown) d"
    by (simp add: verify_completion_def Let_def)
  show ?thesis
    unfolding p completion_allowed_def a
    by (cases "cd_overall d")
      (auto simp: overall_issues_def u satisfied_zero needs_input_def list_all_iff list_ex_iff split: if_splits)
qed

lemma normalized_string_list_strip: "m \<in> set (normalized_string_list ms) \<Longrightarrow> py_strip m = m \<and> m \<noteq> []"
  by (auto simp: normalized_string_list_def)

lemma strip_fixed_last: "py_strip m = m \<Longrightarrow> m \<noteq> [] \<Longrightarrow> \<not> py_isspace (last m)"
  using rstrip_of_last [of py_isspace "lstrip_of py_isspace m"] by (simp add: py_strip_def strip_of_def)

lemma strip_fixed_hd: "py_strip m = m \<Longrightarrow> m \<noteq> [] \<Longrightarrow> \<not> py_isspace (hd m)"
  using strip_of_hd [of py_isspace m] by (simp add: py_strip_def)

lemma strip_id: "t = [] \<or> \<not> py_isspace (hd t) \<and> \<not> py_isspace (last t) \<Longrightarrow> py_strip t = t"
  using lstrip_of_id [of t py_isspace] rstrip_of_id [of t py_isspace] by (auto simp: py_strip_def strip_of_def)

lemma join_with_last: "\<exists>u. join_with sep (xs @ [x]) = u @ x"
proof (induction xs)
  case (Cons y ys)
  then obtain u where "join_with sep (ys @ [x]) = u @ x" by blast
  then have "join_with sep ((y # ys) @ [x]) = (y @ sep @ u) @ x" by (cases "ys @ [x]") auto
  then show ?case by blast
qed simp

lemma render_stripped:
  assumes "title \<noteq> []" "\<not> py_isspace (hd title)"
  shows "py_strip (render_partial_outcome_gaps title markdown missing) = render_partial_outcome_gaps title markdown missing"
proof (cases "normalized_string_list missing = []")
  case True
  then show ?thesis by (simp add: render_partial_outcome_gaps_def)
next
  case False
  define ms where "ms = take 6 (normalized_string_list missing)"
  define part where "part = title @ newline @ newline @ join_with newline (map (\<lambda>m. ''- '' @ m) ms)"
  have ms: "ms \<noteq> []" "\<And>m. m \<in> set ms \<Longrightarrow> py_strip m = m \<and> m \<noteq> []"
    using False normalized_string_list_strip [of _ missing] by (auto simp: ms_def dest: in_set_takeD)
  have "map (\<lambda>m. ''- '' @ m) ms = map (\<lambda>m. ''- '' @ m) (butlast ms) @ [''- '' @ last ms]"
    using ms(1) by (metis append_butlast_last_id list.simps(8,9) map_append)
  then obtain u where "join_with newline (map (\<lambda>m. ''- '' @ m) ms) = u @ ''- '' @ last ms"
    using join_with_last [of newline "map (\<lambda>m. ''- '' @ m) (butlast ms)" "''- '' @ last ms"] by auto
  then have "part = (title @ newline @ newline @ u @ ''- '') @ last ms" by (simp add: part_def)
  then have "last part = last (last ms)" "hd part = hd title" "part \<noteq> []"
    using ms(1) ms(2) [of "last ms"] assms(1) by auto
  then have l: "\<not> py_isspace (last part)" and h: "\<not> py_isspace (hd part)" and ne: "part \<noteq> []"
    using strip_fixed_last [of "last ms"] ms(1) ms(2) [of "last ms"] assms(2) by auto
  have r: "render_partial_outcome_gaps title markdown missing =
      (if py_strip markdown = [] then part else py_strip markdown @ newline @ newline @ part)"
  proof -
    have "render_partial_outcome_gaps title markdown missing =
        join_with (newline @ newline) (filter (\<lambda>t. t \<noteq> []) [py_strip markdown, part])"
      unfolding render_partial_outcome_gaps_def Let_def part_def ms_def using False by (simp only: if_False)
    then show ?thesis using ne by simp
  qed
  show ?thesis
    using strip_fixed_hd [of "py_strip markdown"] l h ne unfolding r by (intro strip_id) auto
qed

text \<open>
  C40: Whatever the model decided, if the result the runtime records with its answer passed, then the
  attestation of that very answer matches, also when the gaps of a partial answer were appended and the
  answer was checked again; and appending them never turns a passed check into a failed one.
\<close>

theorem completed_answer_attested:
  assumes "complete_answer h title f candidate d = (answer, r)" and "title \<noteq> []" and "\<not> py_isspace (hd title)"
    and "\<forall>t. h t \<noteq> []"
  shows "outcome_attestation_matches h answer (Some r) \<longleftrightarrow> cp_passed (verify_completion h f candidate d)"
proof -
  have fp: "cp_fingerprint (verify_completion h f' m d) = h (py_strip m)"
    "cp_allowed (verify_completion h f' m d) = cp_passed (verify_completion h f' m d)"
    "cp_source (verify_completion h f' m d) = ''compose_verified_answer''" for f' m
    by (simp_all add: verify_completion_def Let_def)
  have part: "cp_partial (verify_completion h f candidate d) \<longleftrightarrow>
      cp_passed (verify_completion h f candidate d) \<and> cd_overall d = PARTIAL"
    by (simp add: verify_completion_def Let_def)
  show ?thesis
  proof (cases "cp_partial (verify_completion h f candidate d)")
    case False
    then have "answer = py_strip candidate" "r = verify_completion h f candidate d"
      using assms(1) by (simp_all add: complete_answer_def Let_def)
    then show ?thesis using assms(4) by (simp add: outcome_attestation_matches_def fp)
  next
    case True
    let ?r = "verify_completion h f candidate d"
    let ?a = "render_partial_outcome_gaps title (py_strip candidate) (cp_missing ?r)"
    let ?f = "f\<lparr>cf_allow_partial := True\<rparr>"
    have "complete_answer h title f candidate d = (?a, verify_completion h ?f ?a d)"
      using True by (simp add: complete_answer_def Let_def)
    then have a: "answer = ?a" "r = verify_completion h ?f ?a d" using assms(1) by simp_all
    have s: "py_strip answer = answer" unfolding a(1) by (rule render_stripped [OF assms(2,3)])
    have pass: "cp_passed ?r" using True part by blast
    then have "py_strip candidate \<noteq> []" by (simp add: completion_allowed_iff)
    then have "answer \<noteq> []"
      unfolding a(1) render_partial_outcome_gaps_def by (auto simp: Let_def)
    moreover have "outcome_grounded ?f = outcome_grounded f"
      by (simp add: outcome_grounded_def fun_eq_iff allowed_refs_def)
    ultimately have "cp_passed r"
      using pass s True part unfolding a(2) a(1) [symmetric] by (auto simp: completion_allowed_iff)
    then show ?thesis
      using pass s assms(4) unfolding outcome_attestation_matches_def a(2) a(1) [symmetric] by (simp add: fp)
  qed
qed

definition sample_outcomes :: "outcome_assessment list" where
  "sample_outcomes =
     [\<lparr>oa_id = ''o1'', oa_requirement = ''gmv'', oa_spans = [], oa_status = SATISFIED, oa_kind = DATA,
       oa_queries = [''a1''], oa_rules = [], oa_evidence = [''e1''], oa_missing = []\<rparr>,
      \<lparr>oa_id = ''o2'', oa_requirement = ''refunds'', oa_spans = [], oa_status = PARTIAL, oa_kind = NO_EVIDENCE,
       oa_queries = [], oa_rules = [], oa_evidence = [], oa_missing = ''no refund data''\<rparr>]"

definition sample_decision :: completion_decision where
  "sample_decision = \<lparr>cd_overall = PARTIAL, cd_outcomes = sample_outcomes, cd_missing = [], cd_input_reason = [],
     cd_summary = []\<rparr>"

definition sample_facts :: completion_facts where
  "sample_facts = \<lparr>cf_queries = [(''a1'', [''e1''])], cf_rules = [], cf_data_required = True,
     cf_rule_required = False, cf_claims_verified = True, cf_allow_partial = True\<rparr>"

lemma completion_allowed_iff_witness:
  "cp_passed (verify_completion (\<lambda>t. ''h'' @ t) sample_facts '' gmv is 7 '' sample_decision) \<and>
   list_all (outcome_grounded sample_facts) (cd_outcomes sample_decision)"
proof -
  have "cp_passed (verify_completion (\<lambda>t. ''h'' @ t) sample_facts '' gmv is 7 '' sample_decision)" by code_simp
  with completion_allowed_iff [of "\<lambda>t. ''h'' @ t" sample_facts "'' gmv is 7 ''" sample_decision]
  show ?thesis by blast
qed

lemma completed_answer_attested_witness:
  "outcome_attestation_matches (\<lambda>t. ''h'' @ t)
     (fst (complete_answer (\<lambda>t. ''h'' @ t) ''### open'' sample_facts '' gmv is 7 '' sample_decision))
     (Some (snd (complete_answer (\<lambda>t. ''h'' @ t) ''### open'' sample_facts '' gmv is 7 '' sample_decision)))"
proof -
  have "cp_passed (verify_completion (\<lambda>t. ''h'' @ t) sample_facts '' gmv is 7 '' sample_decision)" by code_simp
  moreover have "\<not> py_isspace (hd ''### open'')" by code_simp
  ultimately show ?thesis
    using completed_answer_attested [of "\<lambda>t. ''h'' @ t" "''### open''" sample_facts "'' gmv is 7 ''" sample_decision]
    by (simp add: prod_eq_iff)
qed

end
