(* ===== verification/Access_Control.thy ===== *)
theory Access_Control
  imports Json_Python Py_Text
begin

text \<open>
  The table and column access control of query execution (\<^verbatim>\<open>access_control.py\<close>): loading the
  policy file, deciding on a contract and its SQL, and the audit log.

  The SQL parser and tokenizer are parameters: \<open>parse\<close> gives the names of the column references of a
  statement, or fails with a parse error or a token error; \<open>tokenize\<close> gives its tokens, or fails. The code
  catches the parse errors of the parser, but not its token errors, so an authorization may end in an
  exception. The policy file is the JSON value it holds, or missing, or unreadable. The digest of the SQL
  text is a parameter; times are left out of the audit entries. \<open>casefold\<close> is that of the Latin-1
  characters, without the micro sign.
\<close>

section \<open>The policy\<close>

datatype policy_error =
    PolicyFileMissing | PolicyUnreadable | PolicyRootNotObject | SchemaVersionRequired
  | SchemaVersionUnsupported | DefaultEffectNotDeny | NotStringList string | TablesNotObject
  | BlankTableKey | TablePolicyNotObject | TableRolesNotList | TableColumnsNotList | ColumnsNotObject
  | BlankColumnKey | ColumnPolicyNotObject | ColumnRolesNotList

type_synonym json_object = "(string, json) dict"

datatype policy_file = NoFile | UnreadableFile | PolicyJson json

definition get_or :: "json_object \<Rightarrow> string \<Rightarrow> json \<Rightarrow> json" where
  "get_or d k v = (case map_of d k of None \<Rightarrow> v | Some j \<Rightarrow> j)"

fun is_string_list :: "json \<Rightarrow> bool" where
  "is_string_list (JArr js) = list_all (\<lambda>j. case j of JStr s \<Rightarrow> py_strip s \<noteq> [] | _ \<Rightarrow> False) js"
| "is_string_list _ = False"

fun first_error :: "'e option list \<Rightarrow> 'e option" where
  "first_error [] = None"
| "first_error (None # es) = first_error es"
| "first_error (Some e # es) = Some e"

definition error_if :: "bool \<Rightarrow> 'e \<Rightarrow> 'e option" where
  "error_if b e = (if b then Some e else None)"

definition column_policy_error :: "string \<times> json \<Rightarrow> policy_error option" where
  "column_policy_error kv = (case kv of (k, v) \<Rightarrow>
     if py_strip k = [] then Some BlankColumnKey
     else (case v of
       JObj p \<Rightarrow> error_if (map_of p ''allowedRoles'' \<noteq> None \<and> \<not> is_string_list (get_or p ''allowedRoles'' JNull))
         ColumnRolesNotList
     | _ \<Rightarrow> Some ColumnPolicyNotObject))"

definition table_policy_error :: "string \<times> json \<Rightarrow> policy_error option" where
  "table_policy_error kv = (case kv of (k, v) \<Rightarrow>
     if py_strip k = [] then Some BlankTableKey
     else (case v of
       JObj p \<Rightarrow>
         if \<not> is_string_list (get_or p ''allowedRoles'' (JArr [])) then Some TableRolesNotList
         else if map_of p ''allowedColumns'' \<noteq> None \<and> \<not> is_string_list (get_or p ''allowedColumns'' JNull)
         then Some TableColumnsNotList
         else (case get_or p ''columns'' (JObj []) of
           JObj cs \<Rightarrow> first_error (map column_policy_error cs)
         | _ \<Rightarrow> Some ColumnsNotObject)
     | _ \<Rightarrow> Some TablePolicyNotObject))"

definition policy_validation_error :: "json_object \<Rightarrow> policy_error option" where
  "policy_validation_error policy =
     (case first_error (map (\<lambda>f. error_if (\<not> is_string_list (get_or policy f (JArr []))) (NotStringList f))
         [''allowedMerchantIds'', ''allowedTables'', ''deniedTables'']) of
        Some e \<Rightarrow> Some e
      | None \<Rightarrow> (case get_or policy ''tables'' (JObj []) of
          JObj ts \<Rightarrow> first_error (map table_policy_error ts)
        | _ \<Rightarrow> Some TablesNotObject))"

definition load_policy :: "policy_file \<Rightarrow> policy_error + json_object" where
  "load_policy f = (case f of
     NoFile \<Rightarrow> Inl PolicyFileMissing
   | UnreadableFile \<Rightarrow> Inl PolicyUnreadable
   | PolicyJson (JObj policy) \<Rightarrow>
       (case map_of policy ''schemaVersion'' of
          Some (JInt v) \<Rightarrow>
            if v \<noteq> 1 then Inl SchemaVersionUnsupported
            else if map_of policy ''defaultEffect'' \<noteq> Some (JStr ''DENY'') then Inl DefaultEffectNotDeny
            else (case policy_validation_error policy of Some e \<Rightarrow> Inl e | None \<Rightarrow> Inr policy)
        | _ \<Rightarrow> Inl SchemaVersionRequired)
   | PolicyJson _ \<Rightarrow> Inl PolicyRootNotObject)"

text \<open>\<open>_string_set\<close>, as a list of the distinct members.\<close>

definition string_set :: "json option \<Rightarrow> string list" where
  "string_set v = (case v of
     Some (JArr js) \<Rightarrow> remdups (filter (\<lambda>s. s \<noteq> []) (map (\<lambda>j. py_strip (py_str j)) js))
   | _ \<Rightarrow> [])"

definition object_or_empty :: "json option \<Rightarrow> json_object" where
  "object_or_empty v = (case v of Some (JObj d) \<Rightarrow> d | _ \<Rightarrow> [])"

definition table_policy :: "json_object \<Rightarrow> string \<Rightarrow> json_object" where
  "table_policy policy tbl = object_or_empty (map_of (object_or_empty (map_of policy ''tables'')) tbl)"

section \<open>Columns of a statement\<close>

datatype token_type = MOD | VAR | OtherToken

record sql_token =
  tk_type :: token_type
  tk_text :: string
  tk_start :: nat
  tk_end :: nat

text \<open>The spans of \<open>%s\<close>: a \<open>%\<close> token directly followed by the variable \<open>s\<close>.\<close>

fun parameter_spans :: "sql_token list \<Rightarrow> (nat \<times> nat) list" where
  "parameter_spans (t # t' # ts) =
     (if tk_type t = MOD \<and> tk_text t = ''%'' \<and> tk_type t' = VAR \<and> tk_text t' = ''s'' \<and> tk_start t' = tk_end t + 1
      then [(tk_start t, tk_end t' + 1)] else []) @ parameter_spans (t' # ts)"
| "parameter_spans ts = []"

definition slice :: "string \<Rightarrow> nat \<Rightarrow> nat \<Rightarrow> string" where
  "slice s i j = take (j - i) (drop i s)"

fun replace_spans :: "string \<Rightarrow> nat \<Rightarrow> (nat \<times> nat) list \<Rightarrow> string" where
  "replace_spans sql cursor [] = drop cursor sql"
| "replace_spans sql cursor ((a, z) # spans) = slice sql cursor a @ ''?'' @ replace_spans sql z spans"

definition normalize_parameters :: "(string \<Rightarrow> sql_token list option) \<Rightarrow> string \<Rightarrow> string" where
  "normalize_parameters tokenize sql = (case tokenize sql of
     None \<Rightarrow> sql
   | Some ts \<Rightarrow> (let spans = parameter_spans ts in if spans = [] then sql else replace_spans sql 0 spans))"

text \<open>
  What \<open>parse_one\<close> does: the columns of the parsed statement; one of the exceptions its callers catch
  (\<open>ParseError\<close>, \<open>ValueError\<close>, \<open>TypeError\<close>); or a \<open>TokenError\<close>, which they do not catch.
\<close>

datatype parse_answer = ParsedColumns "string list" | ParseRefused | TokenRefused

text \<open>
  \<open>_columns_from_sql\<close>: the contract's spelling of the columns the statement refers to. It raises a
  \<open>ValueError\<close> of its own when the statement does not parse, and lets a token error through.
\<close>

datatype sql_failure = SqlValueError | SqlTokenError

definition columns_from_sql ::
  "(string \<Rightarrow> parse_answer) \<Rightarrow> (string \<Rightarrow> sql_token list option) \<Rightarrow> string \<Rightarrow> string list \<Rightarrow> sql_failure + string list" where
  "columns_from_sql parse tokenize sql allowed =
     (if sql = [] then Inr []
      else let parsed = (case parse sql of
             ParsedColumns cs \<Rightarrow> Inr cs
           | TokenRefused \<Rightarrow> Inl SqlTokenError
           | ParseRefused \<Rightarrow> (let normalized = normalize_parameters tokenize sql
               in if normalized = sql then Inl SqlValueError
                  else (case parse normalized of ParsedColumns cs \<Rightarrow> Inr cs | ParseRefused \<Rightarrow> Inl SqlValueError
                    | TokenRefused \<Rightarrow> Inl SqlTokenError)));
           spelled = rev (map (\<lambda>c. (py_casefold (py_strip c), py_strip c)) (filter (\<lambda>c. py_strip c \<noteq> []) allowed))
         in bind_res parsed (\<lambda>cs. Inr (remdups (List.map_filter (\<lambda>c. map_of spelled (py_casefold (py_strip c))) cs))))"

section \<open>The decision\<close>

record access_contract =
  ac_task_id :: string
  ac_table :: string
  ac_role :: string
  ac_merchant :: string
  ac_user :: string
  ac_region :: string
  ac_stores :: "string list"
  ac_allowed :: "string list"
  ac_required :: "string list"
  ac_visible :: "string list"
  ac_internal :: "string list"
  ac_masked :: "(string, string) dict"

datatype access_code =
    AllowedByAcl
  | ACL_POLICY_UNAVAILABLE policy_error
  | MERCHANT_SCOPE_DENIED
  | TABLE_DENIED
  | TABLE_NOT_ALLOWED
  | TABLE_ROLE_DENIED
  | COLUMN_DENIED
  | ACL_SQL_PARSE_FAILED

record audit_entry =
  au_run_id :: string
  au_task_id :: string
  au_merchant :: string
  au_user :: string
  au_region :: string
  au_stores :: "string list"
  au_role :: string
  au_table :: string
  au_checked :: "string list"
  au_denied :: "string list"
  au_masked :: "string list"
  au_status :: string
  au_code :: access_code
  au_sql_hash :: string
  au_row_count :: "int option"
  au_write_error :: "string option"

record access_decision =
  ad_allowed :: bool
  ad_code :: access_code
  ad_table :: string
  ad_checked :: "string list"
  ad_denied :: "string list"
  ad_masked :: "(string, string) dict"
  ad_audit :: audit_entry

definition audit_payload ::
  "(string \<Rightarrow> string) \<Rightarrow> access_contract \<Rightarrow> string \<Rightarrow> string \<Rightarrow> string \<Rightarrow> access_code \<Rightarrow> string list \<Rightarrow> string list
    \<Rightarrow> (string, string) dict \<Rightarrow> audit_entry" where
  "audit_payload digest c sql run_id st ac checked denied masked = \<lparr>au_run_id = run_id, au_task_id = ac_task_id c,
     au_merchant = ac_merchant c, au_user = ac_user c, au_region = ac_region c, au_stores = ac_stores c,
     au_role = ac_role c, au_table = ac_table c, au_checked = checked, au_denied = denied,
     au_masked = sort (map fst masked), au_status = st, au_code = ac,
     au_sql_hash = (if sql = [] then [] else take 16 (digest sql)), au_row_count = None, au_write_error = None\<rparr>"

text \<open>\<open>record_query_audit\<close>: one more line of the log; \<open>fails\<close> is the error the storage raises, if any.\<close>

definition record_query_audit ::
  "string option \<Rightarrow> access_decision \<Rightarrow> int \<Rightarrow> string \<Rightarrow> audit_entry list \<Rightarrow> string option \<times> audit_entry list" where
  "record_query_audit fails d rows st log =
     (let entry = (ad_audit d)\<lparr>au_row_count := Some rows,
        au_status := (if st \<noteq> [] then st else if ad_allowed d then ''allowed'' else ''denied'')\<rparr>
      in case fails of Some e \<Rightarrow> (Some e, log) | None \<Rightarrow> (None, log @ [entry]))"

definition audit_summary :: "int \<Rightarrow> audit_entry list \<Rightarrow> audit_entry list" where
  "audit_summary n log = take_last (nat (max 1 n)) log"

definition access_deny ::
  "(string \<Rightarrow> string) \<Rightarrow> string option \<Rightarrow> access_code \<Rightarrow> access_contract \<Rightarrow> string \<Rightarrow> string \<Rightarrow> string list
    \<Rightarrow> string list \<Rightarrow> audit_entry list \<Rightarrow> access_decision \<times> audit_entry list" where
  "access_deny digest fails ac c sql run_id checked denied_columns log =
     (let denied = sort denied_columns;
          d = \<lparr>ad_allowed = False, ad_code = ac, ad_table = ac_table c, ad_checked = checked, ad_denied = denied,
            ad_masked = ac_masked c,
            ad_audit = audit_payload digest c sql run_id ''denied'' ac checked denied (ac_masked c)\<rparr>
      in case record_query_audit fails d 0 ''denied'' log of
           (None, log') \<Rightarrow> (d, log')
         | (Some e, log') \<Rightarrow> (d\<lparr>ad_audit := (ad_audit d)\<lparr>au_write_error := Some e\<rparr>\<rparr>, log'))"

definition access_allow ::
  "(string \<Rightarrow> string) \<Rightarrow> access_contract \<Rightarrow> string \<Rightarrow> string \<Rightarrow> string list \<Rightarrow> (string, string) dict \<Rightarrow> access_decision" where
  "access_allow digest c sql run_id checked masked = \<lparr>ad_allowed = True, ad_code = AllowedByAcl,
     ad_table = ac_table c, ad_checked = checked, ad_denied = [], ad_masked = masked,
     ad_audit = audit_payload digest c sql run_id ''allowed'' AllowedByAcl checked [] masked\<rparr>"

text \<open>What the policy says of one column: \<open>None\<close> denies it, otherwise the masking strategy or nothing.\<close>

definition column_mask :: "json_object \<Rightarrow> string" where
  "column_mask p = (let m = payload_text p ''mask'' in if m \<noteq> [] then m else payload_text p ''maskingStrategy'')"

definition column_verdict :: "json_object \<Rightarrow> access_contract \<Rightarrow> string \<Rightarrow> string \<Rightarrow> string option option" where
  "column_verdict tp c role column =
     (let allow = map_of tp ''allowedColumns''
      in if (case allow of Some (JArr js) \<Rightarrow> column \<notin> set (string_set allow) | _ \<Rightarrow> False) then None
         else if column \<in> set (ac_internal c) \<and> column \<notin> set (ac_required c) then None
         else (case map_of (object_or_empty (map_of tp ''columns'')) column of
           Some (JObj p) \<Rightarrow>
             if truthy (get_or p ''denied'' JNull) then None
             else (let roles = string_set (map_of p ''allowedRoles'')
               in if roles \<noteq> [] \<and> role \<notin> set roles then None
                  else let strategy = column_mask p
                    in Some (if strategy \<noteq> [] \<and> strategy \<noteq> ''none'' then Some strategy else None))
         | _ \<Rightarrow> Some None))"

definition masks_of :: "json_object \<Rightarrow> access_contract \<Rightarrow> string \<Rightarrow> string list \<Rightarrow> (string, string) dict" where
  "masks_of tp c role checked = fold (\<lambda>column m. case column_verdict tp c role column of
     Some (Some s) \<Rightarrow> AList.update column s m | _ \<Rightarrow> m) checked (ac_masked c)"

text \<open>
  The columns to check: those given, or those of the statement, or else those of the contract. The
  \<open>ValueError\<close> of a statement that does not parse is caught (\<open>ParseFailed\<close>), a token error is not (\<open>TokenRaised\<close>).
\<close>

datatype column_choice = Checked "string list" | OutOfContract "string list" "string list" | ParseFailed | TokenRaised

definition columns_to_check ::
  "(string \<Rightarrow> parse_answer) \<Rightarrow> (string \<Rightarrow> sql_token list option) \<Rightarrow> access_contract \<Rightarrow> string
    \<Rightarrow> string list option \<Rightarrow> column_choice" where
  "columns_to_check parse tokenize c sql override = (case override of
     Some cols \<Rightarrow>
       (let given = remdups (filter (\<lambda>s. s \<noteq> []) (map py_strip cols));
            outside = sort (filter (\<lambda>s. s \<notin> set (ac_allowed c)) given)
        in if outside \<noteq> [] then OutOfContract (sort given) outside else Checked (sort given))
   | None \<Rightarrow> (case columns_from_sql parse tokenize sql (ac_allowed c) of
       Inl SqlValueError \<Rightarrow> ParseFailed
     | Inl SqlTokenError \<Rightarrow> TokenRaised
     | Inr cols \<Rightarrow> Checked (sorted_set (if cols \<noteq> [] then cols
         else if ac_required c \<noteq> [] then ac_required c else ac_visible c))))"

text \<open>\<open>authorize_contract\<close>: the decision, or the token error that leaves it, and the audit log after it.\<close>

definition authorize_contract ::
  "(string \<Rightarrow> string) \<Rightarrow> (string \<Rightarrow> parse_answer) \<Rightarrow> (string \<Rightarrow> sql_token list option) \<Rightarrow> policy_file
    \<Rightarrow> string option \<Rightarrow> access_contract \<Rightarrow> string \<Rightarrow> string \<Rightarrow> string list option \<Rightarrow> audit_entry list
    \<Rightarrow> (sql_failure + access_decision) \<times> audit_entry list" where
  "authorize_contract digest parse tokenize pf fails c sql run_id override log =
     (let deny = (\<lambda>ac checked denied. apfst Inr (access_deny digest fails ac c sql run_id checked denied log)) in
      case load_policy pf of
        Inl e \<Rightarrow> deny (ACL_POLICY_UNAVAILABLE e) [] []
      | Inr policy \<Rightarrow>
          (let tbl = ac_table c; role = py_strip (ac_role c); merchant = py_strip (ac_merchant c);
               tp = table_policy policy tbl
           in if merchant \<notin> set (string_set (map_of policy ''allowedMerchantIds'')) then deny MERCHANT_SCOPE_DENIED [] []
              else if tbl \<in> set (string_set (map_of policy ''deniedTables'')) then deny TABLE_DENIED [] []
              else if tbl \<notin> set (string_set (map_of policy ''allowedTables''))
                \<and> map_of (object_or_empty (map_of policy ''tables'')) tbl = None then deny TABLE_NOT_ALLOWED [] []
              else if role \<notin> set (string_set (map_of tp ''allowedRoles'')) then deny TABLE_ROLE_DENIED [] []
              else (case columns_to_check parse tokenize c sql override of
                ParseFailed \<Rightarrow> deny ACL_SQL_PARSE_FAILED [] []
              | TokenRaised \<Rightarrow> (Inl SqlTokenError, log)
              | OutOfContract given outside \<Rightarrow> deny COLUMN_DENIED given outside
              | Checked checked \<Rightarrow>
                  (let denied = filter (\<lambda>column. column_verdict tp c role column = None) checked
                   in if denied \<noteq> [] then deny COLUMN_DENIED checked denied
                      else (Inr (access_allow digest c sql run_id checked (masks_of tp c role checked)), log)))))"

end
