(* ===== verification/Access_Laws.thy ===== *)
theory Access_Laws
  imports Access_Control "HOL-Library.Multiset"
begin

text \<open>
  What the access control guarantees: what an allowed decision means in terms of the policy, and that
  every other case is a denial that is logged, or the exception for a statement that does not split into tokens.
\<close>

section \<open>Loading\<close>

lemma load_policy_Inr:
  "load_policy pf = Inr policy \<longleftrightarrow> pf = PolicyJson (JObj policy) \<and> map_of policy ''schemaVersion'' = Some (JInt 1)
     \<and> map_of policy ''defaultEffect'' = Some (JStr ''DENY'') \<and> policy_validation_error policy = None"
  by (auto simp: load_policy_def split: policy_file.splits json.splits option.splits if_splits)

lemma first_error_None: "first_error es = None \<longleftrightarrow> (\<forall>e\<in>set es. e = None)"
  by (induction es rule: first_error.induct) auto

lemma string_set_nonblank: "s \<in> set (string_set v) \<Longrightarrow> s \<noteq> [] \<and> py_strip s = s"
  by (auto simp: string_set_def split: option.splits json.splits)

section \<open>Permitted columns\<close>

text \<open>The policy of a table permits a column to a role, for a contract.\<close>

definition column_permitted :: "json_object \<Rightarrow> access_contract \<Rightarrow> string \<Rightarrow> string \<Rightarrow> bool" where
  "column_permitted tp c role column \<longleftrightarrow>
     (\<forall>js. map_of tp ''allowedColumns'' = Some (JArr js) \<longrightarrow> column \<in> set (string_set (Some (JArr js))))
     \<and> (column \<in> set (ac_internal c) \<longrightarrow> column \<in> set (ac_required c))
     \<and> (\<forall>p. map_of (object_or_empty (map_of tp ''columns'')) column = Some (JObj p) \<longrightarrow>
          \<not> truthy (get_or p ''denied'' JNull)
          \<and> (string_set (map_of p ''allowedRoles'') = [] \<or> role \<in> set (string_set (map_of p ''allowedRoles''))))"

definition column_strategy :: "json_object \<Rightarrow> string \<Rightarrow> string option" where
  "column_strategy tp column = (case map_of (object_or_empty (map_of tp ''columns'')) column of
     Some (JObj p) \<Rightarrow> (let s = column_mask p in if s \<noteq> [] \<and> s \<noteq> ''none'' then Some s else None)
   | _ \<Rightarrow> None)"

lemma column_verdict_iff:
  "column_verdict tp c role column =
     (if column_permitted tp c role column then Some (column_strategy tp column) else None)"
  by (auto simp: column_verdict_def column_permitted_def column_strategy_def Let_def
      split: option.splits json.splits)

lemma masks_of_strategy:
  "map_of (fold (\<lambda>column m. case column_verdict tp c role column of
     Some (Some s) \<Rightarrow> AList.update column s m | _ \<Rightarrow> m) cols m0) column =
   (if column \<in> set cols \<and> (\<exists>s. column_verdict tp c role column = Some (Some s))
    then the (column_verdict tp c role column) else map_of m0 column)"
proof (induction cols arbitrary: m0)
  case (Cons x xs)
  show ?case
  proof (cases "column_verdict tp c role x")
    case None
    then show ?thesis using Cons by auto
  next
    case (Some v)
    then show ?thesis using Cons by (cases v) auto
  qed
qed simp

section \<open>The decision\<close>

definition table_granted :: "json_object \<Rightarrow> access_contract \<Rightarrow> bool" where
  "table_granted policy c \<longleftrightarrow>
     py_strip (ac_merchant c) \<in> set (string_set (map_of policy ''allowedMerchantIds''))
     \<and> ac_table c \<notin> set (string_set (map_of policy ''deniedTables''))
     \<and> (ac_table c \<in> set (string_set (map_of policy ''allowedTables''))
        \<or> map_of (object_or_empty (map_of policy ''tables'')) (ac_table c) \<noteq> None)
     \<and> py_strip (ac_role c) \<in> set (string_set (map_of (table_policy policy (ac_table c)) ''allowedRoles''))"

lemma deny_denied:
  "access_deny digest fails ac c sql run_id checked denied log = (d, log') \<Longrightarrow>
     \<not> ad_allowed d \<and> ad_code d = ac \<and> ad_masked d = ac_masked c \<and> ad_table d = ac_table c
     \<and> au_status (ad_audit d) = ''denied'' \<and> au_code (ad_audit d) = ac
     \<and> (case fails of None \<Rightarrow> log' = log @ [(ad_audit d)\<lparr>au_row_count := Some 0\<rparr>] \<and> au_write_error (ad_audit d) = None
         | Some e \<Rightarrow> log' = log \<and> au_write_error (ad_audit d) = Some e)"
  by (cases fails) (auto simp: access_deny_def record_query_audit_def Let_def audit_payload_def)

lemma authorize_cases:
  assumes "authorize_contract digest parse tokenize pf fails c sql run_id override log = (res, log')"
  obtains (denied) d ac checked out where "res = Inr d" and "access_deny digest fails ac c sql run_id checked out log = (d, log')"
      and "ac \<noteq> AllowedByAcl"
      and "\<not> (\<exists>policy checked. load_policy pf = Inr policy \<and> table_granted policy c
        \<and> columns_to_check parse tokenize c sql override = Checked checked
        \<and> (\<forall>x\<in>set checked. column_permitted (table_policy policy (ac_table c)) c (py_strip (ac_role c)) x))"
      and "\<not> (\<exists>policy. load_policy pf = Inr policy \<and> table_granted policy c
        \<and> columns_to_check parse tokenize c sql override = TokenRaised)"
  | (raised) policy where "res = Inl SqlTokenError" and "log' = log" and "load_policy pf = Inr policy" and "table_granted policy c"
      and "columns_to_check parse tokenize c sql override = TokenRaised"
  | (allowed) policy checked d where "res = Inr d" and "load_policy pf = Inr policy" and "table_granted policy c"
      and "columns_to_check parse tokenize c sql override = Checked checked"
      and "\<forall>x\<in>set checked. column_permitted (table_policy policy (ac_table c)) c (py_strip (ac_role c)) x"
      and "d = access_allow digest c sql run_id checked
        (masks_of (table_policy policy (ac_table c)) c (py_strip (ac_role c)) checked)" and "log' = log"
proof (cases "load_policy pf")
  case (Inl e)
  then show ?thesis using assms denied by (auto simp: authorize_contract_def Let_def apfst_def map_prod_def split: prod.splits)
next
  case (Inr policy)
  let ?tp = "table_policy policy (ac_table c)"
  show ?thesis
  proof (cases "table_granted policy c")
    case False
    then show ?thesis using assms denied Inr
      by (auto simp: authorize_contract_def Let_def table_granted_def apfst_def map_prod_def split: if_splits prod.splits)
  next
    case True
    have a: "authorize_contract digest parse tokenize pf fails c sql run_id override log =
      (case columns_to_check parse tokenize c sql override of
                ParseFailed \<Rightarrow> apfst Inr (access_deny digest fails ACL_SQL_PARSE_FAILED c sql run_id [] [] log)
              | TokenRaised \<Rightarrow> (Inl SqlTokenError, log)
              | OutOfContract given outside \<Rightarrow> apfst Inr (access_deny digest fails COLUMN_DENIED c sql run_id given outside log)
              | Checked checked \<Rightarrow>
                  (let denied = filter (\<lambda>column. column_verdict ?tp c (py_strip (ac_role c)) column = None) checked
                   in if denied \<noteq> [] then apfst Inr (access_deny digest fails COLUMN_DENIED c sql run_id checked denied log)
                      else (Inr (access_allow digest c sql run_id checked (masks_of ?tp c (py_strip (ac_role c)) checked)), log)))"
      using True Inr by (auto simp: authorize_contract_def Let_def table_granted_def)
    have deny: thesis
      if "apfst Inr (access_deny digest fails ac c sql run_id checked out log) = (res, log')" and "ac \<noteq> AllowedByAcl"
        and "columns_to_check parse tokenize c sql override \<noteq> TokenRaised"
        and "\<And>checked. columns_to_check parse tokenize c sql override = Checked checked \<Longrightarrow>
          \<not> (\<forall>x\<in>set checked. column_permitted ?tp c (py_strip (ac_role c)) x)" for ac checked out
    proof -
      obtain d l where d: "access_deny digest fails ac c sql run_id checked out log = (d, l)" by (rule prod.exhaust)
      with that(1) have "res = Inr d" "l = log'" by simp_all
      then show thesis using denied [of d ac checked out] d that(2,3,4) Inr by auto
    qed
    show ?thesis
    proof (cases "columns_to_check parse tokenize c sql override")
      case (Checked checked)
      show ?thesis
      proof (cases "\<forall>x\<in>set checked. column_permitted ?tp c (py_strip (ac_role c)) x")
        case True
        then have f: "filter (\<lambda>column. column_verdict ?tp c (py_strip (ac_role c)) column = None) checked = []"
          by (simp add: column_verdict_iff filter_empty_conv)
        from assms a Checked f have "res = Inr (access_allow digest c sql run_id checked (masks_of ?tp c (py_strip (ac_role c)) checked))"
          "log' = log" by (simp_all add: Let_def)
        with allowed [OF _ Inr \<open>table_granted policy c\<close> Checked True] show ?thesis by blast
      next
        case False
        then have f: "filter (\<lambda>column. column_verdict ?tp c (py_strip (ac_role c)) column = None) checked \<noteq> []"
          by (auto simp: column_verdict_iff filter_empty_conv)
        with assms a Checked have "apfst Inr (access_deny digest fails COLUMN_DENIED c sql run_id checked
            (filter (\<lambda>column. column_verdict ?tp c (py_strip (ac_role c)) column = None) checked) log) = (res, log')"
          by (simp add: Let_def)
        then show ?thesis using False Checked by (intro deny) auto
      qed
    next
      case (OutOfContract given outside)
      then show ?thesis using assms a by (intro deny) auto
    next
      case ParseFailed
      then show ?thesis using assms a by (intro deny) auto
    next
      case TokenRaised
      then show ?thesis using assms a raised Inr True by auto
    qed
  qed
qed


lemma allow_fields:
  "ad_allowed (access_allow digest c sql run_id checked masked)"
  "ad_checked (access_allow digest c sql run_id checked masked) = checked"
  "ad_masked (access_allow digest c sql run_id checked masked) = masked"
  "ad_denied (access_allow digest c sql run_id checked masked) = []"
  by (simp_all add: access_allow_def)

lemma granted_caller_named:
  "table_granted policy c \<Longrightarrow> py_strip (ac_merchant c) \<noteq> [] \<and> py_strip (ac_role c) \<noteq> []"
  unfolding table_granted_def by (blast dest: string_set_nonblank)

lemma sort_eq_Nil: "sort xs = [] \<longleftrightarrow> xs = []"
  by (metis set_sort set_empty)

lemma override_checked:
  assumes "columns_to_check parse tokenize c sql (Some cols) = Checked checked"
  shows "set checked = {py_strip x | x. x \<in> set cols \<and> py_strip x \<noteq> []} \<and> set checked \<subseteq> set (ac_allowed c)"
  using assms by (auto simp: columns_to_check_def Let_def sort_eq_Nil filter_empty_conv split: if_splits)

text \<open>The mask of a checked column that the policy permits.\<close>

definition final_mask :: "json_object \<Rightarrow> access_contract \<Rightarrow> string list \<Rightarrow> string \<Rightarrow> string option" where
  "final_mask tp c checked column =
     (if column \<in> set checked \<and> column_strategy tp column \<noteq> None then column_strategy tp column
      else map_of (ac_masked c) column)"

lemma masks_of_permitted:
  assumes "\<forall>x\<in>set checked. column_permitted tp c role x"
  shows "map_of (masks_of tp c role checked) column = final_mask tp c checked column"
proof -
  have "column_verdict tp c role column = Some (column_strategy tp column)" if "column \<in> set checked"
    using assms that by (simp add: column_verdict_iff)
  then show ?thesis by (auto simp: masks_of_def masks_of_strategy final_mask_def)
qed

section \<open>Properties\<close>

text \<open>
  C5: a query is authorized exactly when the policy file holds a valid deny-by-default policy that
  grants the contract's merchant, table and role, the columns of the query could be determined, and
  the policy permits every one of them; then merchant and role are not blank, the decision lists the
  checked columns, and each has the mask the policy asks for, or else the contract's own. Columns given
  by the caller are all checked, and all lie within the contract. An exception authorizes nothing.
\<close>

theorem access_allowed_iff:
  assumes "authorize_contract digest parse tokenize pf fails c sql run_id override log = (res, log')"
  shows "((\<exists>d. res = Inr d \<and> ad_allowed d) \<longleftrightarrow> (\<exists>policy checked. load_policy pf = Inr policy \<and> table_granted policy c
            \<and> columns_to_check parse tokenize c sql override = Checked checked
            \<and> (\<forall>x\<in>set checked. column_permitted (table_policy policy (ac_table c)) c (py_strip (ac_role c)) x)))
    \<and> (\<forall>d. res = Inr d \<and> ad_allowed d \<longrightarrow> (\<exists>policy. load_policy pf = Inr policy
            \<and> py_strip (ac_merchant c) \<noteq> [] \<and> py_strip (ac_role c) \<noteq> []
            \<and> columns_to_check parse tokenize c sql override = Checked (ad_checked d)
            \<and> (\<forall>x. map_of (ad_masked d) x = final_mask (table_policy policy (ac_table c)) c (ad_checked d) x)))
    \<and> (\<forall>d cols. res = Inr d \<and> ad_allowed d \<and> override = Some cols \<longrightarrow>
          set (ad_checked d) = {py_strip x | x. x \<in> set cols \<and> py_strip x \<noteq> []} \<and> set (ad_checked d) \<subseteq> set (ac_allowed c))"
  using assms
proof (cases rule: authorize_cases)
  case (denied d ac checked out)
  then show ?thesis using deny_denied [OF denied(2)] by blast
next
  case (raised policy)
  then show ?thesis by simp
next
  case (allowed policy checked d)
  then show ?thesis
    using granted_caller_named [OF allowed(3)] masks_of_permitted [OF allowed(5)] override_checked
    by (simp add: allow_fields) blast
qed

definition sample_policy :: json_object where
  "sample_policy = [(''schemaVersion'', JInt 1), (''defaultEffect'', JStr ''DENY''),
     (''allowedMerchantIds'', JArr [JStr ''m1'']),
     (''tables'', JObj [(''orders'', JObj [(''allowedRoles'', JArr [JStr ''analyst'']),
        (''columns'', JObj [(''phone'', JObj [(''mask'', JStr ''hash'')]), (''cost'', JObj [(''denied'', JBool True)])])])])]"

definition sample_access :: access_contract where
  "sample_access = \<lparr>ac_task_id = ''t'', ac_table = ''orders'', ac_role = ''analyst'', ac_merchant = '' m1'', ac_user = ''u'',
     ac_region = [], ac_stores = [], ac_allowed = [''amount'', ''phone'', ''cost''], ac_required = [''amount''],
     ac_visible = [], ac_internal = [], ac_masked = [(''amount'', ''round'')]\<rparr>"

definition sample_authorize :: "parse_answer \<Rightarrow> (sql_failure + access_decision) \<times> audit_entry list" where
  "sample_authorize answer = authorize_contract (\<lambda>_. ''00'') (\<lambda>_. answer) (\<lambda>_. None) (PolicyJson (JObj sample_policy)) None
     sample_access ''select'' ''r'' None []"

theorem access_allowed_iff_witness:
  "\<exists>d. fst (sample_authorize (ParsedColumns [''AMOUNT'', ''phone''])) = Inr d \<and> ad_allowed d
     \<and> map_of (ad_masked d) ''phone'' = Some ''hash'' \<and> map_of (ad_masked d) ''amount'' = Some ''round''
     \<and> \<not> (\<exists>d'. fst (sample_authorize (ParsedColumns [''amount'', ''cost''])) = Inr d' \<and> ad_allowed d')"
proof -
  let ?tp = "table_policy sample_policy ''orders''"
  obtain res log' where r: "sample_authorize (ParsedColumns [''AMOUNT'', ''phone'']) = (res, log')" by (rule prod.exhaust)
  obtain res2 log2 where r2: "sample_authorize (ParsedColumns [''amount'', ''cost'']) = (res2, log2)" by (rule prod.exhaust)
  have p: "load_policy (PolicyJson (JObj sample_policy)) = Inr sample_policy" by code_simp
  have t: "ac_table sample_access = ''orders''" "py_strip (ac_role sample_access) = ''analyst''" by code_simp+
  have g: "table_granted sample_policy sample_access" by code_simp
  have c: "columns_to_check (\<lambda>_. ParsedColumns [''AMOUNT'', ''phone'']) (\<lambda>_. None) sample_access ''select'' None
      = Checked [''amount'', ''phone'']"
    "columns_to_check (\<lambda>_. ParsedColumns [''amount'', ''cost'']) (\<lambda>_. None) sample_access ''select'' None
      = Checked [''amount'', ''cost'']" by code_simp+
  have ok: "\<forall>x\<in>set [''amount'', ''phone'']. column_permitted ?tp sample_access ''analyst'' x"
    and not_ok: "\<not> column_permitted ?tp sample_access ''analyst'' ''cost''"
    by (simp_all add: column_permitted_def sample_policy_def sample_access_def table_policy_def object_or_empty_def
        string_set_def get_or_def)
  note a = access_allowed_iff [OF r [unfolded sample_authorize_def]] and a2 = access_allowed_iff [OF r2 [unfolded sample_authorize_def]]
  from a obtain d where d: "res = Inr d" "ad_allowed d" using p t g c ok by auto
  with a p c t have "map_of (ad_masked d) x = final_mask ?tp sample_access [''amount'', ''phone''] x" for x by auto
  moreover have "final_mask ?tp sample_access [''amount'', ''phone''] ''phone'' = Some ''hash''"
    "final_mask ?tp sample_access [''amount'', ''phone''] ''amount'' = Some ''round''" by code_simp+
  moreover have "\<not> (\<exists>d'. res2 = Inr d' \<and> ad_allowed d')" using a2 p t c not_ok by auto
  ultimately show ?thesis using r r2 d by simp
qed

text \<open>When a statement is left to the tokenizer's own exception: its text, or the text with the parameters
  rewritten after the parser refused it, does not even split into tokens.\<close>

definition token_error_escapes ::
  "(string \<Rightarrow> parse_answer) \<Rightarrow> (string \<Rightarrow> sql_token list option) \<Rightarrow> string \<Rightarrow> bool" where
  "token_error_escapes parse tokenize sql \<longleftrightarrow> sql \<noteq> []
     \<and> (parse sql = TokenRefused
        \<or> parse sql = ParseRefused \<and> normalize_parameters tokenize sql \<noteq> sql
          \<and> parse (normalize_parameters tokenize sql) = TokenRefused)"

lemma token_raised_iff:
  "columns_to_check parse tokenize c sql override = TokenRaised \<longleftrightarrow> override = None \<and> token_error_escapes parse tokenize sql"
  by (auto simp: columns_to_check_def columns_from_sql_def token_error_escapes_def Let_def bind_res_def
      split: option.splits sum.splits parse_answer.splits sql_failure.splits if_splits)

text \<open>
  C27: the outcomes of an authorization that does not allow the query. A denial is closed: the decision
  keeps the contract's own masks, and either it is one more line of the audit
  log, with its code, or the decision itself records that the line could not be written. An authorized
  query leaves the log as it is, and without a usable policy every query is denied. The one way out
  without a decision is the tokenizer's exception: it leaves the call exactly when the policy grants
  the table, no columns were given, and the statement does not split into tokens, and then not even
  the audit log has a line of the attempt.
\<close>

theorem access_fails_closed:
  assumes "authorize_contract digest parse tokenize pf fails c sql run_id override log = (res, log')"
  shows "(\<forall>d. res = Inr d \<and> ad_allowed d \<longrightarrow> log' = log \<and> ad_denied d = [])
    \<and> (\<forall>e. load_policy pf = Inl e \<longrightarrow> (\<exists>d. res = Inr d \<and> \<not> ad_allowed d))
    \<and> (\<forall>d. res = Inr d \<and> \<not> ad_allowed d \<longrightarrow> ad_code d \<noteq> AllowedByAcl \<and> ad_masked d = ac_masked c
         \<and> (fails = None \<longrightarrow> log' = log @ [(ad_audit d)\<lparr>au_row_count := Some 0\<rparr>]
              \<and> au_status (ad_audit d) = ''denied'' \<and> au_code (ad_audit d) = ad_code d)
         \<and> (\<forall>e. fails = Some e \<longrightarrow> log' = log \<and> au_write_error (ad_audit d) = Some e))
    \<and> ((\<exists>e. res = Inl e) \<longleftrightarrow> (\<exists>policy. load_policy pf = Inr policy \<and> table_granted policy c)
         \<and> override = None \<and> token_error_escapes parse tokenize sql)
    \<and> (\<forall>e. res = Inl e \<longrightarrow> e = SqlTokenError \<and> log' = log)"
  using assms
proof (cases rule: authorize_cases)
  case (denied d ac checked out)
  then show ?thesis using deny_denied [OF denied(2)] by (auto simp: token_raised_iff)
next
  case (raised policy)
  then show ?thesis by (auto simp: token_raised_iff)
next
  case (allowed policy checked d)
  moreover from allowed have "\<not> (override = None \<and> token_error_escapes parse tokenize sql)"
    unfolding token_raised_iff [of parse tokenize c sql override, symmetric] by simp
  ultimately show ?thesis by (auto simp: allow_fields)
qed

text \<open>A denial whose audit line cannot be written, a denial that is logged, and an unclosed quote.\<close>

theorem access_fails_closed_witness:
  "(\<exists>d log'. authorize_contract (\<lambda>_. ''00'') (\<lambda>_. ParsedColumns []) (\<lambda>_. None) NoFile (Some ''OSError'') sample_access [] ''r'' None []
       = (Inr d, log') \<and> \<not> ad_allowed d \<and> log' = [] \<and> au_write_error (ad_audit d) = Some ''OSError'')
   \<and> (\<exists>d line. authorize_contract (\<lambda>_. ''00'') (\<lambda>_. ParsedColumns []) (\<lambda>_. None) NoFile None sample_access [] ''r'' None []
       = (Inr d, [line]) \<and> \<not> ad_allowed d \<and> au_status line = ''denied'' \<and> au_code line = ad_code d)
   \<and> sample_authorize TokenRefused = (Inl SqlTokenError, [])"
proof -
  have none: "load_policy NoFile = Inl PolicyFileMissing" by (simp add: load_policy_def)
  obtain res log' where a: "authorize_contract (\<lambda>_. ''00'') (\<lambda>_. ParsedColumns []) (\<lambda>_. None) NoFile (Some ''OSError'')
      sample_access [] ''r'' None [] = (res, log')" by (rule prod.exhaust)
  obtain res2 log2 where b: "authorize_contract (\<lambda>_. ''00'') (\<lambda>_. ParsedColumns []) (\<lambda>_. None) NoFile None
      sample_access [] ''r'' None [] = (res2, log2)" by (rule prod.exhaust)
  obtain res3 log3 where r: "sample_authorize TokenRefused = (res3, log3)" by (rule prod.exhaust)
  have p: "load_policy (PolicyJson (JObj sample_policy)) = Inr sample_policy" and g: "table_granted sample_policy sample_access"
    and e: "token_error_escapes (\<lambda>_. TokenRefused) (\<lambda>_. None) ''select''" by code_simp+
  from access_fails_closed [OF r [unfolded sample_authorize_def]] p g e have "\<exists>e. res3 = Inl e" by blast
  with access_fails_closed [OF r [unfolded sample_authorize_def]] have "res3 = Inl SqlTokenError \<and> log3 = []" by blast
  moreover from access_fails_closed [OF a] none obtain d where "res = Inr d" "\<not> ad_allowed d" by blast
  moreover from access_fails_closed [OF a] this have "log' = []" "au_write_error (ad_audit d) = Some ''OSError''" by blast+
  moreover from access_fails_closed [OF b] none obtain d2 where "res2 = Inr d2" "\<not> ad_allowed d2" by blast
  moreover from access_fails_closed [OF b] this have "log2 = [] @ [(ad_audit d2)\<lparr>au_row_count := Some 0\<rparr>]"
    "au_status (ad_audit d2) = ''denied''" "au_code (ad_audit d2) = ad_code d2" by blast+
  ultimately show ?thesis using a b r by auto
qed

end
