(* ===== verification/Execution_Graph.thy ===== *)
theory Execution_Graph
  imports Goal_Contract "HOL-Library.Product_Lexorder" "HOL-Library.Multiset"
begin

text \<open>
  The execution graph of \<^verbatim>\<open>grounded_execution_graph.py\<close>: the nodes and edges Core proposes, their
  fingerprints, \<open>validate_grounded_execution_graph\<close> and the receipt of an accepted graph.
  Revisions of an active graph are in \<open>Graph_Revision\<close>.

  The issues keep their code, node, edge index and the details dictionary; the messages are not
  modelled. A set of the source that only feeds a loop is a list without repetitions.
\<close>

section \<open>Nodes, edges, proposals\<close>

datatype dependency_mode = CONTRACT_SCOPE | VERIFIED_ARTIFACT

record node_spec =
  client_key :: string
  objective :: string
  node_goal_ids :: "string list"
  topic_scope :: "string list"
  evidence_ref_ids :: "string list"

record edge_spec =
  source_client_key :: string
  target_client_key :: string
  dependency_mode :: dependency_mode
  artifact_kind :: string
  target_binding_ref :: string

record graph_proposal =
  graph_version :: string
  base_version :: int
  goal_contract_fp :: string
  discovery_snapshot_fp :: string
  nodes :: "node_spec list"
  edge_list :: "edge_spec list"

text \<open>One entry of the discovery ledger; a missing field reads as the empty text.\<close>

record evidence_item =
  ref_id :: string
  content_hash :: string
  topic :: string

datatype client_key_error = ClientKeyInvalid

text \<open>The validators pydantic runs when a node or an edge is built.\<close>

definition validate_client_key :: "node_spec \<Rightarrow> client_key_error + node_spec" where
  "validate_client_key n =
     (let key = py_strip (client_key n)
      in if key = [] \<or> 128 < length key \<or>
            list_ex (\<lambda>c. \<not> (ascii_alnum c \<or> c = CHR ''_'' \<or> c = CHR ''-'')) key
         then Inl ClientKeyInvalid else Inr (n\<lparr>client_key := key\<rparr>))"

definition normalize_identifiers :: "edge_spec \<Rightarrow> edge_spec" where
  "normalize_identifiers e =
     e\<lparr>source_client_key := py_strip (source_client_key e),
       target_client_key := py_strip (target_client_key e),
       artifact_kind := py_strip (artifact_kind e),
       target_binding_ref := py_strip (target_binding_ref e)\<rparr>"

section \<open>Fingerprints\<close>

fun mode_text :: "dependency_mode \<Rightarrow> string" where
  "mode_text CONTRACT_SCOPE = ''CONTRACT_SCOPE''"
| "mode_text VERIFIED_ARTIFACT = ''VERIFIED_ARTIFACT''"

definition node_json :: "node_spec \<Rightarrow> json" where
  "node_json n = JObj
     [(''clientKey'', JStr (client_key n)), (''objective'', JStr (objective n)),
      (''goalIds'', strings_json (node_goal_ids n)), (''topicScope'', strings_json (topic_scope n)),
      (''evidenceRefIds'', strings_json (evidence_ref_ids n))]"

definition edge_json :: "edge_spec \<Rightarrow> json" where
  "edge_json e = JObj
     [(''sourceClientKey'', JStr (source_client_key e)),
      (''targetClientKey'', JStr (target_client_key e)),
      (''dependencyMode'', JStr (mode_text (dependency_mode e))),
      (''artifactKind'', JStr (artifact_kind e)),
      (''targetBindingRef'', JStr (target_binding_ref e))]"

definition proposal_json :: "graph_proposal \<Rightarrow> json" where
  "proposal_json p = JObj
     [(''graphVersion'', JStr (graph_version p)), (''baseVersion'', JInt (base_version p)),
      (''goalContractFingerprint'', JStr (goal_contract_fp p)),
      (''discoverySnapshotFingerprint'', JStr (discovery_snapshot_fp p)),
      (''nodes'', JArr (map node_json (nodes p))), (''edges'', JArr (map edge_json (edge_list p)))]"

definition execution_graph_fingerprint :: "(string \<Rightarrow> string) \<Rightarrow> graph_proposal \<Rightarrow> string" where
  "execution_graph_fingerprint h p = stable_fingerprint h (proposal_json p)"

definition node_spec_fingerprint :: "(string \<Rightarrow> string) \<Rightarrow> node_spec \<Rightarrow> string" where
  "node_spec_fingerprint h n = stable_fingerprint h (node_json n)"

definition snapshot_entries :: "evidence_item list \<Rightarrow> (string \<times> string \<times> string) list" where
  "snapshot_entries evidence =
     sort (map (\<lambda>i. (ref_id i, content_hash i, topic i)) (filter (\<lambda>i. ref_id i \<noteq> []) evidence))"

definition evidence_snapshot_fingerprint :: "(string \<Rightarrow> string) \<Rightarrow> evidence_item list \<Rightarrow> string" where
  "evidence_snapshot_fingerprint h evidence =
     stable_fingerprint h (JArr (map (\<lambda>(r, c, t). JArr [JStr r, JStr c, JStr t])
       (snapshot_entries evidence)))"

lemma mode_text_inj [simp]: "mode_text a = mode_text b \<longleftrightarrow> a = b"
  by (cases a; cases b) auto

lemma node_json_inj:
  assumes "canon (node_json m) = canon (node_json (n :: node_spec))"
  shows "m = n"
proof -
  have "distinct [''clientKey'', ''objective'', ''goalIds'', ''topicScope'', ''evidenceRefIds'']"
    by code_simp
  with canon_eq_values [OF assms [unfolded node_json_def]] show ?thesis by simp
qed

lemma edge_json_inj:
  assumes "canon (edge_json d) = canon (edge_json (e :: edge_spec))"
  shows "d = e"
proof -
  have "distinct [''sourceClientKey'', ''targetClientKey'', ''dependencyMode'', ''artifactKind'',
      ''targetBindingRef'']"
    by code_simp
  with canon_eq_values [OF assms [unfolded edge_json_def]] show ?thesis by simp
qed

lemma proposal_json_inj:
  assumes "canon (proposal_json p) = canon (proposal_json (q :: graph_proposal))"
  shows "p = q"
proof -
  have "distinct [''graphVersion'', ''baseVersion'', ''goalContractFingerprint'',
      ''discoverySnapshotFingerprint'', ''nodes'', ''edges'']"
    by code_simp
  with canon_eq_values [OF assms [unfolded proposal_json_def]]
  have eqs: "graph_version p = graph_version q" "base_version p = base_version q"
    "goal_contract_fp p = goal_contract_fp q" "discovery_snapshot_fp p = discovery_snapshot_fp q"
    "map (canon \<circ> node_json) (nodes p) = map (canon \<circ> node_json) (nodes q)"
    "map (canon \<circ> edge_json) (edge_list p) = map (canon \<circ> edge_json) (edge_list q)"
    by simp_all
  have "nodes p = nodes q"
    using eqs(5) by (rule map_injective) (rule injI, rule node_json_inj, simp)
  moreover have "edge_list p = edge_list q"
    using eqs(6) by (rule map_injective) (rule injI, rule edge_json_inj, simp)
  ultimately show ?thesis using eqs by simp
qed

lemma execution_graph_fingerprint_eq_iff:
  "inj h \<Longrightarrow> execution_graph_fingerprint h p = execution_graph_fingerprint h q \<longleftrightarrow> p = q"
  by (auto simp: execution_graph_fingerprint_def stable_fingerprint_eq_iff proposal_json_inj)

lemma node_spec_fingerprint_eq_iff:
  "inj h \<Longrightarrow> node_spec_fingerprint h m = node_spec_fingerprint h n \<longleftrightarrow> m = n"
  by (auto simp: node_spec_fingerprint_def stable_fingerprint_eq_iff node_json_inj)

lemma evidence_snapshot_fingerprint_eq_iff:
  "inj h \<Longrightarrow> evidence_snapshot_fingerprint h e = evidence_snapshot_fingerprint h f \<longleftrightarrow>
     snapshot_entries e = snapshot_entries f"
proof -
  assume h: "inj h"
  let ?f = "\<lambda>(r, c, t). JArr [JStr r, JStr c, JStr t]"
  have c: "canon (JArr (map ?f l)) = JArr (map ?f l)" for l by (simp add: map_idI case_prod_unfold)
  have "inj ?f" by (auto intro!: injI)
  then have "map ?f l = map ?f m \<longleftrightarrow> l = m" for l m by (metis map_injective)
  then show ?thesis
    by (simp only: evidence_snapshot_fingerprint_def stable_fingerprint_eq_iff [OF h] c json.inject)
qed

section \<open>Validation\<close>

datatype graph_issue_code =
    VERSION_CONFLICT
  | GOAL_FINGERPRINT_MISMATCH
  | DISCOVERY_SNAPSHOT_STALE
  | NODE_REQUIRED
  | NODE_DUPLICATE
  | EVIDENCE_REF_AMBIGUOUS
  | NODE_GOALS_REQUIRED
  | GOAL_UNKNOWN
  | TOPIC_SCOPE_INVALID
  | NODE_EVIDENCE_REQUIRED
  | EVIDENCE_NOT_READ
  | EVIDENCE_TOPIC_MISMATCH
  | REQUIRED_GOALS_UNASSIGNED
  | EDGE_ENDPOINT_INVALID
  | ARTIFACT_KIND_INVALID
  | ARTIFACT_TARGET_BINDING_REQUIRED
  | REQUIRED_RELATION_MISSING
  | CYCLE_FORBIDDEN

record graph_issue =
  g_code :: graph_issue_code
  g_node :: string
  g_edge :: int
  g_details :: "(string \<times> json) list"

definition gissue :: "graph_issue_code \<Rightarrow> string \<Rightarrow> int \<Rightarrow> (string \<times> json) list \<Rightarrow> graph_issue" where
  "gissue c n e d = \<lparr>g_code = c, g_node = n, g_edge = e, g_details = d\<rparr>"

definition artifact_kinds :: "string list" where
  "artifact_kinds = [''VERIFIED_ENTITY_SET'', ''VERIFIED_RESULT_ARTIFACT'', ''VERIFIED_SCALAR'',
     ''VERIFIED_BASELINE'']"

fun is_query_kind :: "goal_body \<Rightarrow> bool" where
  "is_query_kind (Metric _ _) = True"
| "is_query_kind (Dimension _ _) = True"
| "is_query_kind (TimeWindow _) = True"
| "is_query_kind (Entity _ _ _ _) = True"
| "is_query_kind (Detail _) = True"
| "is_query_kind (Ranking _) = True"
| "is_query_kind _ = False"

text \<open>\<open>node_by_key\<close>: the first node of each key is kept, every later one is an issue.\<close>

fun duplicate_node_issues :: "string list \<Rightarrow> node_spec list \<Rightarrow> graph_issue list" where
  "duplicate_node_issues seen [] = []"
| "duplicate_node_issues seen (n # ns) =
     (if client_key n \<in> set seen
      then gissue NODE_DUPLICATE (client_key n) (-1) [] # duplicate_node_issues seen ns
      else duplicate_node_issues (client_key n # seen) ns)"

definition node_keys :: "graph_proposal \<Rightarrow> string list" where
  "node_keys p = fromkeys (map client_key (nodes p))"

text \<open>\<open>evidence_by_ref\<close>: a reference that occurs twice is ambiguous and taken out again.\<close>

definition evidence_refs :: "evidence_item list \<Rightarrow> string list" where
  "evidence_refs evidence = filter (\<lambda>r. r \<noteq> []) (map (\<lambda>i. py_strip (ref_id i)) evidence)"

definition ambiguous_refs :: "evidence_item list \<Rightarrow> string list" where
  "ambiguous_refs evidence =
     sorted_set (filter (\<lambda>r. 1 < count_list (evidence_refs evidence) r) (evidence_refs evidence))"

definition evidence_by_ref :: "evidence_item list \<Rightarrow> string \<Rightarrow> evidence_item option" where
  "evidence_by_ref evidence r =
     (if r \<in> set (ambiguous_refs evidence) then None
      else find (\<lambda>i. py_strip (ref_id i) = r \<and> r \<noteq> []) evidence)"

definition node_issues ::
  "goal_contract \<Rightarrow> evidence_item list \<Rightarrow> string list \<Rightarrow> node_spec \<Rightarrow> graph_issue list" where
  "node_issues contract evidence routed n =
     (let key = client_key n in
      issue_if (node_goal_ids n = []) (gissue NODE_GOALS_REQUIRED key (-1) []) @
      concat (map (\<lambda>g. issue_if (goal_map contract g = None)
        (gissue GOAL_UNKNOWN key (-1) [(''goalId'', JStr g)])) (node_goal_ids n)) @
      issue_if (topic_scope n = [] \<or> list_ex (\<lambda>t. t \<notin> set routed) (topic_scope n))
        (gissue TOPIC_SCOPE_INVALID key (-1) []) @
      issue_if (evidence_ref_ids n = []) (gissue NODE_EVIDENCE_REQUIRED key (-1) []) @
      concat (map (\<lambda>r. case evidence_by_ref evidence r of
          None \<Rightarrow> [gissue EVIDENCE_NOT_READ key (-1) [(''refId'', JStr r)]]
        | Some e \<Rightarrow> issue_if (topic e = [] \<or> topic e \<notin> set (topic_scope n))
            (gissue EVIDENCE_TOPIC_MISMATCH key (-1)
              [(''refId'', JStr r), (''topic'', JStr (topic e))]))
        (evidence_ref_ids n)))"

definition assigned_goal_ids :: "goal_contract \<Rightarrow> graph_proposal \<Rightarrow> string list" where
  "assigned_goal_ids contract p =
     filter (\<lambda>g. goal_map contract g \<noteq> None) (concat (map node_goal_ids (nodes p)))"

definition missing_query_goals :: "goal_contract \<Rightarrow> graph_proposal \<Rightarrow> string list" where
  "missing_query_goals contract p =
     sorted_set (filter (\<lambda>i. i \<notin> set (assigned_goal_ids contract p))
       (map goal_id (filter (\<lambda>g. required g \<and> is_query_kind (body g)) (goals contract))))"

text \<open>
  The loop over the edges: issues, the adjacency sets, the in-degrees. An edge whose
  endpoints are not two distinct nodes is skipped.
\<close>

definition edge_ok :: "string list \<Rightarrow> edge_spec \<Rightarrow> bool" where
  "edge_ok keys e = (source_client_key e \<in> set keys \<and> target_client_key e \<in> set keys \<and>
     source_client_key e \<noteq> target_client_key e)"

definition edge_issues :: "string list \<Rightarrow> int \<Rightarrow> edge_spec \<Rightarrow> graph_issue list" where
  "edge_issues keys i e =
     (if \<not> edge_ok keys e then [gissue EDGE_ENDPOINT_INVALID [] i []]
      else if dependency_mode e = VERIFIED_ARTIFACT then
        issue_if (artifact_kind e \<notin> set artifact_kinds) (gissue ARTIFACT_KIND_INVALID [] i []) @
        issue_if (target_binding_ref e = []) (gissue ARTIFACT_TARGET_BINDING_REQUIRED [] i [])
      else [])"

fun edge_loop :: "string list \<Rightarrow> int \<Rightarrow> edge_spec list \<Rightarrow> string digraph \<Rightarrow> (string \<Rightarrow> int)
    \<Rightarrow> graph_issue list \<times> string digraph \<times> (string \<Rightarrow> int)" where
  "edge_loop keys i [] adj indegree = ([], adj, indegree)"
| "edge_loop keys i (e # es) adj indegree =
     (let s = source_client_key e; t = target_client_key e;
          fresh = (edge_ok keys e \<and> t \<notin> set (succs adj s));
          adj' = (if fresh then AList.update s (succs adj s @ [t]) adj else adj);
          indegree' = (if fresh then indegree(t := indegree t + 1) else indegree);
          (issues, adj'', indegree'') = edge_loop keys (i + 1) es adj' indegree'
      in (edge_issues keys i e @ issues, adj'', indegree''))"

text \<open>Relations between goals that the graph has to realise.\<close>

datatype relation_kind = RANKING_POPULATION | DEPENDENCY_GOAL

definition required_relations :: "goal_contract \<Rightarrow> (string \<times> string \<times> relation_kind) list" where
  "required_relations contract = concat (map (\<lambda>g.
     (case body g of
        Ranking r \<Rightarrow>
          (if population_scope r \<noteq> ALL_MATCHING_ROWS
           then map (\<lambda>p. (p, goal_id g, RANKING_POPULATION)) (population_goal_ids r) else [])
      | Dependency _ us ds _ \<Rightarrow>
          concat (map (\<lambda>u. map (\<lambda>d. (u, d, DEPENDENCY_GOAL)) ds) us)
      | _ \<Rightarrow> [])) (goals contract))"

definition nodes_of_goal :: "graph_proposal \<Rightarrow> string \<Rightarrow> string list" where
  "nodes_of_goal p g = fromkeys (map client_key (filter (\<lambda>n. g \<in> set (node_goal_ids n)) (nodes p)))"

fun relation_text :: "relation_kind \<Rightarrow> string" where
  "relation_text RANKING_POPULATION = ''RANKING_POPULATION''"
| "relation_text DEPENDENCY_GOAL = ''DEPENDENCY_GOAL''"

definition missing_relations ::
  "graph_proposal \<Rightarrow> string digraph \<Rightarrow> goal_contract \<Rightarrow> (string \<times> string \<times> string \<times> relation_kind) list"
where
  "missing_relations p adj contract = fromkeys (concat (map (\<lambda>(sg, tg, k).
     map (\<lambda>t. (sg, tg, t, k))
       (filter (\<lambda>t. t \<notin> set (nodes_of_goal p sg) \<and>
            \<not> list_ex (\<lambda>s. has_graph_path adj s t) (nodes_of_goal p sg))
          (nodes_of_goal p tg)))
     (required_relations contract)))"

definition relation_issue :: "graph_proposal \<Rightarrow> string \<times> string \<times> string \<times> relation_kind \<Rightarrow> graph_issue" where
  "relation_issue p = (\<lambda>(sg, tg, t, k). gissue REQUIRED_RELATION_MISSING t (-1)
     [(''relationKind'', JStr (relation_text k)), (''sourceGoalId'', JStr sg),
      (''targetGoalId'', JStr tg),
      (''sourceNodeKeys'', strings_json (sorted_set (nodes_of_goal p sg))),
      (''targetNodeKey'', JStr t)])"

definition header_issues ::
  "(string \<Rightarrow> string) \<Rightarrow> string \<Rightarrow> graph_proposal \<Rightarrow> evidence_item list \<Rightarrow> int \<Rightarrow> graph_issue list" where
  "header_issues h goal_fp p evidence current_version =
     issue_if (base_version p \<noteq> current_version)
       (gissue VERSION_CONFLICT [] (-1)
         [(''expected'', JInt current_version), (''actual'', JInt (base_version p))]) @
     issue_if (goal_contract_fp p \<noteq> goal_fp) (gissue GOAL_FINGERPRINT_MISMATCH [] (-1) []) @
     issue_if (discovery_snapshot_fp p \<noteq> evidence_snapshot_fingerprint h evidence)
       (gissue DISCOVERY_SNAPSHOT_STALE [] (-1)
         [(''expected'', JStr (evidence_snapshot_fingerprint h evidence))])"

definition graph_issues ::
  "goal_contract \<Rightarrow> graph_proposal \<Rightarrow> evidence_item list \<Rightarrow> string list \<Rightarrow> graph_issue list" where
  "graph_issues contract p evidence routed =
     (let keys = node_keys p;
          missing = missing_query_goals contract p;
          (eissues, adj, indegree) =
             edge_loop keys 0 (edge_list p) (map (\<lambda>k. (k, [])) keys) (\<lambda>_. 0);
          ready = sort (filter (\<lambda>k. indegree k = 0) keys)
      in duplicate_node_issues [] (nodes p) @
         map (\<lambda>r. gissue EVIDENCE_REF_AMBIGUOUS [] (-1) [(''refId'', JStr r)]) (ambiguous_refs evidence) @
         concat (map (node_issues contract evidence routed) (nodes p)) @
         issue_if (missing \<noteq> [])
           (gissue REQUIRED_GOALS_UNASSIGNED [] (-1) [(''goalIds'', strings_json missing)]) @
         eissues @
         map (relation_issue p) (missing_relations p adj contract) @
         issue_if (kahn adj indegree ready 0 \<noteq> length keys) (gissue CYCLE_FORBIDDEN [] (-1) []))"

text \<open>
  \<open>validate_grounded_execution_graph\<close>: the issues found, or the error the fingerprint of an invalid
  goal contract raises. The graph is valid when there is no issue.
\<close>

definition validate_execution_graph ::
  "(string \<Rightarrow> string) \<Rightarrow> graph_proposal \<Rightarrow> goal_contract \<Rightarrow> evidence_item list \<Rightarrow> string list \<Rightarrow> int
    \<Rightarrow> contract_error + graph_issue list" where
  "validate_execution_graph h p contract evidence routed current_version =
     bind_res (goal_contract_fingerprint h contract) (\<lambda>goal_fp.
       let first = header_issues h goal_fp p evidence current_version
       in Inr (if nodes p = [] then first @ [gissue NODE_REQUIRED [] (-1) []]
               else first @ graph_issues contract p evidence routed))"


section \<open>The loop over the edges\<close>

text \<open>
  While the edges are read, the adjacency sets have the node keys as keys, stay inside them,
  repeat nothing, and the in-degrees count them.
\<close>

definition adj_inv :: "string list \<Rightarrow> string digraph \<Rightarrow> (string \<Rightarrow> int) \<Rightarrow> bool" where
  "adj_inv keys adj indegree \<longleftrightarrow>
     map fst adj = keys \<and> (\<forall>u. distinct (succs adj u) \<and> set (succs adj u) \<subseteq> set keys) \<and>
     (\<forall>t. indegree t = int (card {s \<in> set keys. t \<in> set (succs adj s)}))"

lemma no_succs [simp]: "succs (map (\<lambda>k. (k, [])) keys) u = []"
  by (induction keys) (auto simp: succs_def)

lemma adj_inv_start: "distinct keys \<Longrightarrow> adj_inv keys (map (\<lambda>k. (k, [])) keys) (\<lambda>_. 0)"
  by (simp add: adj_inv_def comp_def)

lemma adj_inv_step:
  assumes inv: "adj_inv keys adj indegree" and s: "s \<in> set keys" and t: "t \<in> set keys"
    and new: "t \<notin> set (succs adj s)"
  shows "adj_inv keys (AList.update s (succs adj s @ [t]) adj) (indegree(t := indegree t + 1))"
proof -
  let ?A = "\<lambda>v. {u \<in> set keys. v \<in> set (succs adj u)}"
  let ?B = "\<lambda>v. {u \<in> set keys. v \<in> set (succs (AList.update s (succs adj s @ [t]) adj) u)}"
  have "map fst (AList.update s ds adj) = keys" for ds
    using inv s by (auto simp: adj_inv_def update_keys)
  moreover have "?B v = (if v = t then insert s (?A t) else ?A v)" for v
    using s by (auto simp: succs_update)
  moreover have "s \<notin> ?A t" and "finite (?A t)" using new by auto
  ultimately show ?thesis
    using inv s t new by (auto simp: adj_inv_def succs_update)
qed

lemma edge_loop_spec:
  assumes "edge_loop keys i es adj indegree = (issues, adj', indegree')"
    and "adj_inv keys adj indegree"
  shows "adj_inv keys adj' indegree'"
    and "edges adj' = edges adj \<union>
      {(source_client_key e, target_client_key e) | e. e \<in> set es \<and> edge_ok keys e}"
    and "issues = [] \<longleftrightarrow> (\<forall>e\<in>set es. edge_issues keys 0 e = [])"
  using assms
proof (induction keys i es adj indegree arbitrary: issues rule: edge_loop.induct)
  case (1 keys i adj indegree)
  { case 1 then show ?case by simp next case 2 then show ?case by simp next case 3 then show ?case by simp }
next
  case (2 keys i e es adj indegree)
  let ?s = "source_client_key e" and ?t = "target_client_key e"
  define fresh where "fresh = (edge_ok keys e \<and> ?t \<notin> set (succs adj ?s))"
  define adj1 where "adj1 = (if fresh then AList.update ?s (succs adj ?s @ [?t]) adj else adj)"
  define deg1 where "deg1 = (if fresh then indegree(?t := indegree ?t + 1) else indegree)"
  obtain issues1 adj2 deg2 where rec: "edge_loop keys (i + 1) es adj1 deg1 = (issues1, adj2, deg2)"
    by (metis prod_cases3)
  have unf: "edge_loop keys i (e # es) adj indegree = (edge_issues keys i e @ issues1, adj2, deg2)"
    using rec by (simp add: Let_def fresh_def adj1_def deg1_def)
  note IH = 2(1-3) [OF refl refl fresh_def adj1_def deg1_def]
  have inv1: "adj_inv keys adj1 deg1" if "adj_inv keys adj indegree"
    using adj_inv_step [OF that, of ?s ?t] that
    by (auto simp: adj1_def deg1_def fresh_def edge_ok_def)
  have edges1: "edges adj1 = edges adj \<union> (if edge_ok keys e then {(?s, ?t)} else {})"
    by (auto simp: adj1_def fresh_def succs_update split: if_splits)
  have same: "edge_issues keys i e = [] \<longleftrightarrow> edge_issues keys 0 e = []"
    by (auto simp: edge_issues_def)
  { case 1 with unf rec inv1 IH(1) show ?case by auto
  next
    case 2
    with unf rec inv1 IH(2) have "edges adj' = edges adj1 \<union>
        {(source_client_key e, target_client_key e) | e. e \<in> set es \<and> edge_ok keys e}" by auto
    then show ?case unfolding edges1 by auto
  next
    case 3 with unf rec inv1 IH(3) same show ?case by auto }
qed

text \<open>The dependencies between the nodes, as the proposal states them.\<close>

definition node_dependencies :: "graph_proposal \<Rightarrow> (string \<times> string) set" where
  "node_dependencies p =
     {(source_client_key e, target_client_key e) | e. e \<in> set (edge_list p)}"


section \<open>What an accepted graph is\<close>

definition must_follow :: "goal_contract \<Rightarrow> (string \<times> string) set" where
  "must_follow contract = {(u, d). \<exists>g\<in>set (goals contract).
     (\<exists>r. body g = Ranking r \<and> population_scope r \<noteq> ALL_MATCHING_ROWS \<and>
        u \<in> set (population_goal_ids r) \<and> d = goal_id g) \<or>
     (\<exists>i us ds c. body g = Dependency i us ds c \<and> u \<in> set us \<and> d \<in> set ds)}"

definition node_spec_ok ::
  "goal_contract \<Rightarrow> evidence_item list \<Rightarrow> string list \<Rightarrow> node_spec \<Rightarrow> bool" where
  "node_spec_ok contract evidence routed n \<longleftrightarrow>
     node_goal_ids n \<noteq> [] \<and> set (node_goal_ids n) \<subseteq> goal_id ` set (goals contract) \<and>
     topic_scope n \<noteq> [] \<and> set (topic_scope n) \<subseteq> set routed \<and>
     evidence_ref_ids n \<noteq> [] \<and>
     (\<forall>r\<in>set (evidence_ref_ids n). r \<noteq> [] \<and>
        (\<exists>e\<in>set evidence. py_strip (ref_id e) = r \<and> topic e \<noteq> [] \<and> topic e \<in> set (topic_scope n)))"

definition edge_spec_ok :: "graph_proposal \<Rightarrow> edge_spec \<Rightarrow> bool" where
  "edge_spec_ok p e \<longleftrightarrow>
     source_client_key e \<in> client_key ` set (nodes p) \<and>
     target_client_key e \<in> client_key ` set (nodes p) \<and>
     source_client_key e \<noteq> target_client_key e \<and>
     (dependency_mode e = VERIFIED_ARTIFACT \<longrightarrow>
        artifact_kind e \<in> set artifact_kinds \<and> target_binding_ref e \<noteq> [])"

text \<open>
  The specification: bound to the version, the goals and the evidence that were read; one node
  per key, each inside the goals, topics and evidence; every required query goal covered; the
  dependencies acyclic and realising the relations the goals ask for.
\<close>

definition graph_body_ok ::
  "graph_proposal \<Rightarrow> goal_contract \<Rightarrow> evidence_item list \<Rightarrow> string list \<Rightarrow> bool" where
  "graph_body_ok p contract evidence routed \<longleftrightarrow>
     distinct (map client_key (nodes p)) \<and> distinct (evidence_refs evidence) \<and>
     (\<forall>n\<in>set (nodes p). node_spec_ok contract evidence routed n) \<and>
     (\<forall>g\<in>set (goals contract). required g \<and> is_query_kind (body g) \<longrightarrow>
        (\<exists>n\<in>set (nodes p). goal_id g \<in> set (node_goal_ids n))) \<and>
     (\<forall>e\<in>set (edge_list p). edge_spec_ok p e) \<and>
     (\<forall>(sg, tg)\<in>must_follow contract. \<forall>t\<in>set (nodes p).
        tg \<in> set (node_goal_ids t) \<and> sg \<notin> set (node_goal_ids t) \<longrightarrow>
        (\<exists>s\<in>set (nodes p). sg \<in> set (node_goal_ids s) \<and>
           (client_key s, client_key t) \<in> (node_dependencies p)\<^sup>+)) \<and>
     acyclic (node_dependencies p)"

lemma ambiguous_refs_Nil_iff: "ambiguous_refs evidence = [] \<longleftrightarrow> distinct (evidence_refs evidence)"
proof -
  have "distinct xs \<longleftrightarrow> (\<forall>x\<in>set xs. count_list xs x \<le> 1)" for xs :: "string list"
    by (induction xs) (auto simp: count_list_0_iff)
  then show ?thesis by (auto simp: ambiguous_refs_def filter_empty_conv not_less)
qed

lemma evidence_by_ref_distinct:
  assumes "distinct (evidence_refs evidence)"
  shows "evidence_by_ref evidence r = Some e \<longleftrightarrow>
    e \<in> set evidence \<and> py_strip (ref_id e) = r \<and> r \<noteq> []"
proof -
  have "find (\<lambda>i. py_strip (ref_id i) = r \<and> r \<noteq> []) evidence = Some e \<longleftrightarrow>
      e \<in> set evidence \<and> py_strip (ref_id e) = r \<and> r \<noteq> []"
    using assms
  proof (induction evidence)
    case (Cons i es)
    have "py_strip (ref_id d) \<in> set (evidence_refs es)"
      if "d \<in> set es" "py_strip (ref_id d) \<noteq> []" for d
      using that by (auto simp: evidence_refs_def)
    with Cons show ?case by (auto simp: evidence_refs_def split: if_splits)
  qed simp
  moreover have "ambiguous_refs evidence = []" using assms by (simp add: ambiguous_refs_Nil_iff)
  ultimately show ?thesis by (simp add: evidence_by_ref_def)
qed

lemma goal_map_None_iff: "goal_map contract g = None \<longleftrightarrow> g \<notin> goal_id ` set (goals contract)"
  by (simp add: goal_map_def map_of_eq_None_iff image_image)

lemma node_issues_Nil_iff:
  assumes "distinct (evidence_refs evidence)"
  shows "node_issues contract evidence routed n = [] \<longleftrightarrow> node_spec_ok contract evidence routed n"
proof -
  have ref: "(case evidence_by_ref evidence r of None \<Rightarrow> [a]
       | Some e \<Rightarrow> issue_if (topic e = [] \<or> topic e \<notin> set (topic_scope n)) (b e)) = [] \<longleftrightarrow>
      r \<noteq> [] \<and> (\<exists>e\<in>set evidence. py_strip (ref_id e) = r \<and> topic e \<noteq> [] \<and> topic e \<in> set (topic_scope n))"
    for r and a :: graph_issue and b
  proof (cases "evidence_by_ref evidence r")
    case None
    with evidence_by_ref_distinct [OF assms, of r] show ?thesis by auto
  next
    case (Some d)
    with evidence_by_ref_distinct [OF assms, of r]
    have d: "e \<in> set evidence \<and> py_strip (ref_id e) = r \<and> r \<noteq> [] \<longleftrightarrow> d = e" for e by simp
    with Some show ?thesis unfolding bex_simps(1) by (simp only: option.case issue_if_Nil) (metis (no_types))
  qed
  show ?thesis
    unfolding node_issues_def Let_def node_spec_ok_def append_is_Nil_conv issue_if_Nil
      concat_map_Nil_iff ref goal_map_None_iff
    by (auto simp: list_ex_iff)
qed

lemma duplicate_node_issues_Nil_iff:
  "duplicate_node_issues seen ns = [] \<longleftrightarrow>
     distinct (map client_key ns) \<and> set seen \<inter> client_key ` set ns = {}"
  by (induction seen ns rule: duplicate_node_issues.induct) auto

lemma missing_query_goals_Nil_iff:
  "missing_query_goals contract p = [] \<longleftrightarrow>
     (\<forall>g\<in>set (goals contract). required g \<and> is_query_kind (body g) \<longrightarrow>
        (\<exists>n\<in>set (nodes p). goal_id g \<in> set (node_goal_ids n)))"
  by (fastforce simp: missing_query_goals_def assigned_goal_ids_def filter_empty_conv goal_map_None_iff)

lemma set_required_relations:
  "(\<lambda>(s, t, k). (s, t)) ` set (required_relations contract) = must_follow contract"
proof -
  let ?pair = "\<lambda>(s :: string, t :: string, k :: relation_kind). (s, t)"
  have each: "?pair ` set (case body g of
        Ranking r \<Rightarrow> (if population_scope r \<noteq> ALL_MATCHING_ROWS
           then map (\<lambda>p. (p, goal_id g, RANKING_POPULATION)) (population_goal_ids r) else [])
      | Dependency _ us ds _ \<Rightarrow> concat (map (\<lambda>u. map (\<lambda>d. (u, d, DEPENDENCY_GOAL)) ds) us)
      | _ \<Rightarrow> []) = {(u, d).
     (\<exists>r. body g = Ranking r \<and> population_scope r \<noteq> ALL_MATCHING_ROWS \<and>
        u \<in> set (population_goal_ids r) \<and> d = goal_id g) \<or>
     (\<exists>i us ds c. body g = Dependency i us ds c \<and> u \<in> set us \<and> d \<in> set ds)}" (is "_ ` set (?rel g) = ?pairs g") for g
  proof (cases "body g")
    case (Dependency i us ds c)
    have "?pair ` (\<Union>u\<in>set us. (\<lambda>d. (u, d, DEPENDENCY_GOAL)) ` set ds) = set us \<times> set ds"
      by (auto simp: image_UN image_image)
    with Dependency show ?thesis by auto
  next
    case (Ranking r)
    have "?pair ` (\<lambda>p. (p, goal_id g, RANKING_POPULATION)) ` A = A \<times> {goal_id g}" for A
      by (auto simp: image_image)
    with Ranking show ?thesis by auto
  qed simp_all
  have "?pair ` set (required_relations contract) = (\<Union>g\<in>set (goals contract). ?pairs g)"
    unfolding required_relations_def set_concat set_map image_UN image_image
    by (rule SUP_cong [OF refl], rule each)
  then show ?thesis by (simp only: must_follow_def) blast
qed

lemma set_nodes_of_goal:
  "set (nodes_of_goal p g) = {client_key n | n. n \<in> set (nodes p) \<and> g \<in> set (node_goal_ids n)}"
  by (auto simp: nodes_of_goal_def)

lemma edge_issues_Nil_iff:
  "edge_issues (node_keys p) 0 e = [] \<longleftrightarrow> edge_spec_ok p e"
  by (auto simp: edge_issues_def edge_ok_def edge_spec_ok_def node_keys_def)

lemma same_key_same_node:
  "distinct (map client_key (nodes p)) \<Longrightarrow> m \<in> set (nodes p) \<Longrightarrow> n \<in> set (nodes p)
    \<Longrightarrow> client_key m = client_key n \<Longrightarrow> m = n"
  by (auto simp: distinct_map dest: inj_onD)

lemma missing_relations_Nil_iff:
  assumes dist: "distinct (map client_key (nodes p))" and adj: "edges adj = node_dependencies p"
  shows "missing_relations p adj contract = [] \<longleftrightarrow>
    (\<forall>(sg, tg)\<in>must_follow contract. \<forall>t\<in>set (nodes p).
        tg \<in> set (node_goal_ids t) \<and> sg \<notin> set (node_goal_ids t) \<longrightarrow>
        (\<exists>s\<in>set (nodes p). sg \<in> set (node_goal_ids s) \<and>
           (client_key s, client_key t) \<in> (node_dependencies p)\<^sup>+))"
proof -
  have own: "client_key n \<in> set (nodes_of_goal p g) \<longleftrightarrow> g \<in> set (node_goal_ids n)"
    if "n \<in> set (nodes p)" for n g
    using that same_key_same_node [OF dist] by (auto simp: set_nodes_of_goal)
  have one: "filter (\<lambda>t. t \<notin> set (nodes_of_goal p sg) \<and>
            \<not> list_ex (\<lambda>s. has_graph_path adj s t) (nodes_of_goal p sg)) (nodes_of_goal p tg) = []
      \<longleftrightarrow> (\<forall>t\<in>set (nodes p).
        tg \<in> set (node_goal_ids t) \<and> sg \<notin> set (node_goal_ids t) \<longrightarrow>
        (\<exists>s\<in>set (nodes p). sg \<in> set (node_goal_ids s) \<and>
           (client_key s, client_key t) \<in> (node_dependencies p)\<^sup>+))" (is "_ \<longleftrightarrow> ?all sg tg") for sg tg
    unfolding filter_empty_conv list_ex_iff has_graph_path_iff adj using own
    by (auto simp: set_nodes_of_goal) blast+
  have "missing_relations p adj contract = [] \<longleftrightarrow>
      (\<forall>x\<in>set (required_relations contract). case x of (sg, tg, k) \<Rightarrow> ?all sg tg)"
    unfolding missing_relations_def fromkeys_Nil_iff concat_map_Nil_iff case_prod_unfold map_is_Nil_conv
    by (simp only: one)
  also have "\<dots> \<longleftrightarrow> (\<forall>x\<in>(\<lambda>(s, t, k). (s, t)) ` set (required_relations contract).
      case x of (sg, tg) \<Rightarrow> ?all sg tg)"
    by (simp add: case_prod_unfold)
  finally show ?thesis by (simp only: set_required_relations)
qed

lemma graph_issues_Nil_iff:
  "graph_issues contract p evidence routed = [] \<longleftrightarrow> graph_body_ok p contract evidence routed"
proof -
  let ?keys = "node_keys p"
  obtain eissues adj indegree where loop:
    "edge_loop ?keys 0 (edge_list p) (map (\<lambda>k. (k, [])) ?keys) (\<lambda>_. 0) = (eissues, adj, indegree)"
    by (metis prod_cases3)
  let ?ready = "sort (filter (\<lambda>k. indegree k = 0) ?keys)"
  have keys: "distinct ?keys" by (simp add: node_keys_def)
  note spec = edge_loop_spec [OF loop adj_inv_start [OF keys]]
  have start: "edges (map (\<lambda>k. (k, [])) ?keys) = {}"
    by (auto simp: edges_def)
  have inv: "map fst adj = ?keys" "distinct (succs adj u)" "set (succs adj u) \<subseteq> set ?keys"
    "indegree u = int (card {s \<in> set ?keys. u \<in> set (succs adj s)})" for u
    using spec(1) by (auto simp: adj_inv_def)
  have "targets_of adj \<subseteq> set ?keys"
  proof
    fix t assume "t \<in> targets_of adj"
    then obtain k ds where "(k, ds) \<in> set adj" "t \<in> set ds" by (auto simp: targets_of_def)
    moreover from this(1) have "succs adj k = ds" using inv(1) keys by (simp add: succs_def)
    ultimately show "t \<in> set ?keys" using inv(3) by blast
  qed
  moreover have "fst ` set adj = set ?keys" using inv(1) by (metis list.set_map)
  ultimately have "graph_on adj (set ?keys)"
    using inv(2) by (simp add: graph_on_def)
  then have kahn: "kahn adj indegree ?ready 0 = length ?keys \<longleftrightarrow> acyclic (edges adj)"
    using kahn_all_iff_acyclic [of adj "set ?keys" ?ready indegree] inv(4) keys
    by (simp add: distinct_card)
  have issues: "eissues = [] \<longleftrightarrow> (\<forall>e\<in>set (edge_list p). edge_spec_ok p e)"
    using spec(3) by (simp add: edge_issues_Nil_iff)
  have deps: "edges adj = node_dependencies p" if "\<forall>e\<in>set (edge_list p). edge_spec_ok p e"
    unfolding spec(2) start using that
    by (auto simp: node_dependencies_def edge_ok_def edge_spec_ok_def node_keys_def)
  show ?thesis
  proof (cases "distinct (map client_key (nodes p)) \<and> distinct (evidence_refs evidence) \<and>
      (\<forall>e\<in>set (edge_list p). edge_spec_ok p e)")
    case True
    then show ?thesis
      by (simp add: graph_issues_def Let_def loop graph_body_ok_def duplicate_node_issues_Nil_iff
          ambiguous_refs_Nil_iff concat_map_Nil_iff node_issues_Nil_iff missing_query_goals_Nil_iff
          issues missing_relations_Nil_iff deps kahn) blast
  next
    case False
    then show ?thesis
      by (auto simp: graph_issues_def Let_def loop graph_body_ok_def duplicate_node_issues_Nil_iff
          ambiguous_refs_Nil_iff issues)
  qed
qed

text \<open>
  C7: \<open>validate_grounded_execution_graph\<close> accepts a proposal exactly when the goal contract is
  valid, the proposal is bound to its fingerprint, to the active version and to the evidence that
  was read, it has a node, and \<open>graph_body_ok\<close> holds: unique keys, every node inside the goals,
  topics and evidence, every required query goal covered, well-formed edges, every relation the
  goals ask for realised by a path, and no cycle.
\<close>

theorem execution_graph_valid_iff:
  "validate_execution_graph h p contract evidence routed current_version = Inr [] \<longleftrightarrow>
     goal_contract_fingerprint h contract = Inr (goal_contract_fp p) \<and>
     base_version p = current_version \<and>
     discovery_snapshot_fp p = evidence_snapshot_fingerprint h evidence \<and>
     nodes p \<noteq> [] \<and> graph_body_ok p contract evidence routed"
  by (cases "goal_contract_fingerprint h contract")
    (auto simp: validate_execution_graph_def Let_def header_issues_def graph_issues_Nil_iff)

section \<open>The receipt of an accepted graph\<close>

record graph_receipt =
  graph_id :: string
  receipt_version :: int
  receipt_fp :: string
  receipt_snapshot_fp :: string
  node_ids :: "(string, string) dict"
  parallel_frontier :: "string list"
  waiting_artifact_nodes :: "string list"
  semantic_activation_fp :: string
  semantic_activation_seal_fp :: string
  semantic_activation_topics :: "string list"
  parent_graph_id :: string
  parent_version :: int
  parent_fp :: string
  replan_evidence_fp :: string
  replan_evidence_fps :: "string list"
  carried_forward_node_ids :: "string list"
  retired_node_ids :: "string list"
  revision_fp :: string

datatype receipt_error = NodeKeyMissing string

definition fresh_node_id :: "(string \<Rightarrow> string) \<Rightarrow> string \<Rightarrow> string \<Rightarrow> string" where
  "fresh_node_id h fp key = ''node_'' @ take 16 (h (fp @ '':'' @ key))"

definition node_ids_of ::
  "(string \<Rightarrow> string) \<Rightarrow> graph_proposal \<Rightarrow> (string, string) dict \<Rightarrow> (string, string) dict" where
  "node_ids_of h p preserved =
     (let fp = execution_graph_fingerprint h p
      in fold (\<lambda>n. AList.update (client_key n) (dict_get preserved (client_key n)
           (fresh_node_id h fp (client_key n)))) (nodes p) [])"

definition lookup_node :: "(string, string) dict \<Rightarrow> string \<Rightarrow> receipt_error + string" where
  "lookup_node ids key = (case map_of ids key of None \<Rightarrow> Inl (NodeKeyMissing key) | Some i \<Rightarrow> Inr i)"

definition waiting_keys :: "graph_proposal \<Rightarrow> string list" where
  "waiting_keys p =
     map target_client_key (filter (\<lambda>e. dependency_mode e = VERIFIED_ARTIFACT) (edge_list p))"

definition stripped_texts :: "string list \<Rightarrow> string list" where
  "stripped_texts xs = filter (\<lambda>t. t \<noteq> []) (map py_strip xs)"

definition revision_json :: "graph_receipt \<Rightarrow> string \<Rightarrow> int \<Rightarrow> string \<Rightarrow> string list \<Rightarrow> string list
    \<Rightarrow> string list \<Rightarrow> json" where
  "revision_json parent fp version replan_fp replan_fps carried retired = JObj
     [(''parentGraphId'', JStr (graph_id parent)), (''parentVersion'', JInt (receipt_version parent)),
      (''parentFingerprint'', JStr (receipt_fp parent)), (''graphFingerprint'', JStr fp),
      (''graphVersion'', JInt version), (''replanEvidenceFingerprint'', JStr replan_fp),
      (''replanEvidenceFingerprints'', strings_json replan_fps),
      (''carriedForwardNodeIds'', strings_json carried), (''retiredNodeIds'', strings_json retired)]"

record receipt_request =
  rq_version :: int
  rq_activation_fp :: string
  rq_activation_seal_fp :: string
  rq_activation_topics :: "string list"
  rq_parent :: "graph_receipt option"
  rq_replan_fp :: string
  rq_replan_fps :: "string list"
  rq_preserved :: "(string, string) dict"
  rq_retired :: "string list"

definition build_receipt ::
  "(string \<Rightarrow> string) \<Rightarrow> graph_proposal \<Rightarrow> receipt_request \<Rightarrow> receipt_error + graph_receipt" where
  "build_receipt h p q =
     (let fp = execution_graph_fingerprint h p;
          ids = node_ids_of h p (rq_preserved q);
          waiting = waiting_keys p;
          carried = sort (map (\<lambda>k. dict_get ids k [])
            (filter (\<lambda>k. k \<in> fst ` set ids) (map fst (rq_preserved q))));
          replan_fps = sorted_set (stripped_texts (rq_replan_fps q));
          retired = sort (stripped_texts (rq_retired q))
      in bind_res (map_res (lookup_node ids)
             (map client_key (filter (\<lambda>n. client_key n \<notin> set waiting) (nodes p)))) (\<lambda>frontier.
         bind_res (map_res (lookup_node ids) (sorted_set waiting)) (\<lambda>waiting_nodes.
           Inr \<lparr>graph_id = ''graph_'' @ take 16 fp, receipt_version = rq_version q, receipt_fp = fp,
             receipt_snapshot_fp = discovery_snapshot_fp p, node_ids = ids,
             parallel_frontier = frontier, waiting_artifact_nodes = waiting_nodes,
             semantic_activation_fp = rq_activation_fp q,
             semantic_activation_seal_fp = rq_activation_seal_fp q,
             semantic_activation_topics = rq_activation_topics q,
             parent_graph_id = (case rq_parent q of None \<Rightarrow> [] | Some r \<Rightarrow> graph_id r),
             parent_version = (case rq_parent q of None \<Rightarrow> 0 | Some r \<Rightarrow> receipt_version r),
             parent_fp = (case rq_parent q of None \<Rightarrow> [] | Some r \<Rightarrow> receipt_fp r),
             replan_evidence_fp = rq_replan_fp q, replan_evidence_fps = replan_fps,
             carried_forward_node_ids = carried, retired_node_ids = retired,
             revision_fp = (case rq_parent q of None \<Rightarrow> []
               | Some r \<Rightarrow> stable_fingerprint h (revision_json r fp (rq_version q) (rq_replan_fp q)
                   replan_fps carried retired))\<rparr>)))"

lemma map_of_fold_update:
  "map_of (fold (\<lambda>n. AList.update (f n) (g (f n))) xs d) k =
     (if k \<in> f ` set xs then Some (g k) else map_of d k)"
  by (induction xs arbitrary: d) auto

lemma keys_fold_update:
  "distinct (map fst d @ map f xs) \<Longrightarrow>
     map fst (fold (\<lambda>n. AList.update (f n) (g n)) xs d) = map fst d @ map f xs"
proof (induction xs arbitrary: d)
  case (Cons x xs)
  have keys: "map fst (AList.update (f x) (g x) d) = map fst d @ [f x]"
    using Cons.prems by (auto simp: update_keys)
  with Cons.prems have "distinct (map fst (AList.update (f x) (g x) d) @ map f xs)" by auto
  from Cons.IH [OF this] show ?case by (simp add: keys)
qed simp

lemma map_of_node_ids:
  "map_of (node_ids_of h p preserved) k = (if k \<in> client_key ` set (nodes p)
     then Some (dict_get preserved k (fresh_node_id h (execution_graph_fingerprint h p) k)) else None)"
  unfolding node_ids_of_def Let_def by (subst map_of_fold_update) simp

lemma keys_node_ids:
  "distinct (map client_key (nodes p)) \<Longrightarrow>
     map fst (node_ids_of h p preserved) = map client_key (nodes p)"
  unfolding node_ids_of_def Let_def by (subst keys_fold_update) auto

text \<open>A finite acyclic graph has a node nothing leads to.\<close>

lemma acyclic_has_source:
  assumes "finite r" "acyclic r" "x \<in> N"
  obtains y where "y \<in> N" "\<And>z. z \<in> N \<Longrightarrow> (z, y) \<notin> r"
proof -
  have "wf r" using assms by (simp add: finite_acyclic_wf)
  with assms(3) show ?thesis using that by (metis wfE_min)
qed

lemma finite_node_dependencies [simp]: "finite (node_dependencies p)"
proof -
  have "node_dependencies p = (\<lambda>e. (source_client_key e, target_client_key e)) ` set (edge_list p)"
    by (auto simp: node_dependencies_def)
  then show ?thesis by simp
qed

text \<open>
  C16: The receipt of an accepted graph exists (no key is missing), gives every node one id in
  the order of the proposal, and splits these ids into the parallel frontier and the nodes that
  wait for an artifact; the frontier is never empty, so there is always a node to start with.
\<close>

theorem receipt_of_valid_graph:
  assumes "graph_body_ok p contract evidence routed" and "nodes p \<noteq> []"
  shows "\<exists>r. build_receipt h p q = Inr r \<and>
    map fst (node_ids r) = map client_key (nodes p) \<and>
    mset (parallel_frontier r @ waiting_artifact_nodes r) = mset (map snd (node_ids r)) \<and>
    set (waiting_artifact_nodes r) = {i. \<exists>e\<in>set (edge_list p).
      dependency_mode e = VERIFIED_ARTIFACT \<and> map_of (node_ids r) (target_client_key e) = Some i} \<and>
    parallel_frontier r \<noteq> []"
proof -
  let ?ids = "node_ids_of h p (rq_preserved q)" and ?keys = "map client_key (nodes p)"
  let ?front = "filter (\<lambda>k. k \<notin> set (waiting_keys p)) ?keys" and ?wait = "sorted_set (waiting_keys p)"
  let ?id = "\<lambda>k. dict_get (rq_preserved q) k (fresh_node_id h (execution_graph_fingerprint h p) k)"
  have dist: "distinct ?keys" and edges: "\<And>e. e \<in> set (edge_list p) \<Longrightarrow> edge_spec_ok p e"
    and acyc: "acyclic (node_dependencies p)"
    using assms(1) by (auto simp: graph_body_ok_def)
  have ids: "map_of ?ids k = (if k \<in> set ?keys then Some (?id k) else None)" for k
    by (simp add: map_of_node_ids)
  have keys: "map fst ?ids = ?keys" using dist by (rule keys_node_ids)
  have vals: "map snd ?ids = map ?id ?keys"
    using dict_values_by_key [of ?ids ?id] ids unfolding keys by (simp add: dist)
  have wait: "set (waiting_keys p) \<subseteq> set ?keys"
    using edges by (auto simp: waiting_keys_def edge_spec_ok_def)
  have res: "map_res (lookup_node ?ids) ks = Inr (map ?id ks)" if "set ks \<subseteq> set ?keys" for ks
    using that by (induction ks) (auto simp: lookup_node_def ids)
  have frontier: "map_res (lookup_node ?ids)
      (map client_key (filter (\<lambda>n. client_key n \<notin> set (waiting_keys p)) (nodes p))) = Inr (map ?id ?front)"
  proof -
    have "set ?front \<subseteq> set ?keys" by auto
    from res [OF this] show ?thesis by (simp add: filter_map comp_def)
  qed
  obtain r where r: "build_receipt h p q = Inr r" "node_ids r = ?ids"
    "parallel_frontier r = map ?id ?front" "waiting_artifact_nodes r = map ?id ?wait"
    using frontier res [of ?wait] wait by (simp add: build_receipt_def Let_def)
  have "distinct (?front @ ?wait)" and "set (?front @ ?wait) = set ?keys"
    using dist wait by auto
  then have "mset (?front @ ?wait) = mset ?keys"
    using dist by (metis set_eq_iff_mset_eq_distinct)
  then have "mset (map ?id (?front @ ?wait)) = mset (map ?id ?keys)"
    unfolding mset_map [of ?id] by (rule arg_cong)
  note mset_ids = this
  have ids_set: "set (map ?id ?wait) = {i. \<exists>e\<in>set (edge_list p).
      dependency_mode e = VERIFIED_ARTIFACT \<and> map_of ?ids (target_client_key e) = Some i}"
    using edges by (auto simp: waiting_keys_def ids edge_spec_ok_def image_iff)
  obtain k where k: "k \<in> set ?keys" "\<And>z. z \<in> set ?keys \<Longrightarrow> (z, k) \<notin> node_dependencies p"
    using acyclic_has_source [OF finite_node_dependencies acyc, of "client_key (hd (nodes p))" "set ?keys"]
      assms(2) by auto
  have "target_client_key e \<noteq> k" if "e \<in> set (edge_list p)" for e
    using edges [OF that] that k(2) [of "source_client_key e"]
    by (auto simp: node_dependencies_def edge_spec_ok_def)
  then have "k \<notin> set (waiting_keys p)" by (auto simp: waiting_keys_def)
  with k(1) have "k \<in> set ?front" by simp
  then have "?front \<noteq> []" by (metis empty_iff list.set(1))
  show ?thesis
    by (intro exI [of _ r] conjI) (simp_all only: r keys vals ids_set mset_ids map_append [symmetric]
        map_is_Nil_conv \<open>?front \<noteq> []\<close> not_False_eq_True)
qed

definition sample_evidence :: "evidence_item list" where
  "sample_evidence = [\<lparr>ref_id = ''orders.gmv'', content_hash = ''c1'', topic = ''trade''\<rparr>,
     \<lparr>ref_id = ''goods.name'', content_hash = ''c2'', topic = ''goods''\<rparr>]"

definition sample_node :: "string \<Rightarrow> string list \<Rightarrow> string \<Rightarrow> string \<Rightarrow> node_spec" where
  "sample_node k gs t r = \<lparr>client_key = k, objective = k, node_goal_ids = gs, topic_scope = [t],
     evidence_ref_ids = [r]\<rparr>"

definition sample_edge :: "string \<Rightarrow> string \<Rightarrow> edge_spec" where
  "sample_edge s t = \<lparr>source_client_key = s, target_client_key = t,
     dependency_mode = VERIFIED_ARTIFACT, artifact_kind = ''VERIFIED_ENTITY_SET'',
     target_binding_ref = ''goods.id''\<rparr>"

definition sample_graph :: graph_proposal where
  "sample_graph = \<lparr>graph_version = ''v1'', base_version = 0, goal_contract_fp = [],
     discovery_snapshot_fp = [],
     nodes = [sample_node ''rank'' [''gmv'', ''top''] ''trade'' ''orders.gmv'',
       sample_node ''names'' [''goods''] ''goods'' ''goods.name''],
     edge_list = [sample_edge ''rank'' ''names'']\<rparr>"

definition first_request :: receipt_request where
  "first_request = \<lparr>rq_version = 1, rq_activation_fp = [], rq_activation_seal_fp = [],
     rq_activation_topics = [], rq_parent = None, rq_replan_fp = [], rq_replan_fps = [],
     rq_preserved = [], rq_retired = []\<rparr>"

lemma sample_graph_ok: "graph_body_ok sample_graph sample_contract sample_evidence [''trade'', ''goods'']"
proof -
  have "graph_issues sample_contract sample_graph sample_evidence [''trade'', ''goods''] = []"
    by code_simp
  then show ?thesis by (simp only: graph_issues_Nil_iff)
qed

lemma receipt_of_valid_graph_witness:
  "\<exists>r. build_receipt (\<lambda>s. rev s) sample_graph first_request = Inr r \<and>
     length (parallel_frontier r @ waiting_artifact_nodes r) = 2"
proof -
  have "nodes sample_graph \<noteq> []" by (simp add: sample_graph_def)
  from receipt_of_valid_graph [OF sample_graph_ok this, of "\<lambda>s. rev s" first_request]
  obtain r where r: "build_receipt (\<lambda>s. rev s) sample_graph first_request = Inr r"
    "map fst (node_ids r) = map client_key (nodes sample_graph)"
    "mset (parallel_frontier r @ waiting_artifact_nodes r) = mset (map snd (node_ids r))" by blast
  have "length (node_ids r) = 2"
    using arg_cong [OF r(2), of length] by (simp add: sample_graph_def)
  with mset_eq_length [OF r(3)] r(1) show ?thesis by simp
qed

end
