(* ===== verification/Graph_Revision.thy ===== *)
theory Graph_Revision
  imports Execution_Graph
begin

text \<open>
  Revisions of an active execution graph (the second half of \<^verbatim>\<open>grounded_execution_graph.py\<close>): the
  sealed replan evidence, the binding of a revision proposal to its triggers, and
  \<open>validate_grounded_execution_graph_revision\<close>. The main result: an accepted revision leaves every
  node that has already been authorised or published as it was, with the same inputs.

  The details of an evidence item are a JSON object, of the values \<open>Canonical_Json\<close> models.
\<close>

section \<open>Replan evidence\<close>

datatype trigger_kind = DATA_GAP | TABLE_DELAY | EXECUTION_ERROR

datatype source_stage = STAGE_CONTRACT | STAGE_DATASOURCE | STAGE_EXECUTION

record replan_evidence =
  evidence_version :: string
  evidence_id :: string
  trigger_kind :: trigger_kind
  source_stage :: source_stage
  source_query_node_id :: string
  ev_code :: string
  ev_graph_id :: string
  ev_graph_version :: int
  ev_graph_fp :: string
  details :: "(string \<times> json) list"
  details_fp :: string
  evidence_fp :: string

datatype node_lifecycle = UNEXECUTED | PRE_AUTHORIZED | PUBLISHED | EXECUTION_FAILED

record node_runtime_state =
  st_client_key :: string
  query_node_id :: string
  lifecycle :: node_lifecycle

record trigger_binding =
  tb_evidence_id :: string
  tb_evidence_fp :: string

record revision_proposal =
  revision_version :: string
  base_graph_id :: string
  rev_base_version :: int
  base_fp :: string
  trigger_evidence_id :: string
  trigger_evidence_fp :: string
  trigger_evidence_set :: "trigger_binding list"
  replace_unexecuted_keys :: "string list"
  rev_graph :: graph_proposal

datatype revision_error =
    FieldEmpty string
  | GraphVersionTooSmall
  | TriggerBindingRequired
  | LegacyTriggerConflict
  | TriggerIdsNotUnique
  | TriggerFingerprintsNotUnique
  | ReplanEvidenceRequired
  | ReplanIdsNotUnique
  | ReplanFingerprintsNotUnique

fun trigger_text :: "trigger_kind \<Rightarrow> string" where
  "trigger_text DATA_GAP = ''DATA_GAP''"
| "trigger_text TABLE_DELAY = ''TABLE_DELAY''"
| "trigger_text EXECUTION_ERROR = ''EXECUTION_ERROR''"

fun stage_text :: "source_stage \<Rightarrow> string" where
  "stage_text STAGE_CONTRACT = ''CONTRACT''"
| "stage_text STAGE_DATASOURCE = ''DATASOURCE''"
| "stage_text STAGE_EXECUTION = ''EXECUTION''"

fun required_fields :: "(string \<times> string) list \<Rightarrow> revision_error + unit" where
  "required_fields [] = Inr ()"
| "required_fields ((name, v) # fs) =
     (if py_strip v = [] then Inl (FieldEmpty name) else required_fields fs)"

definition validate_evidence :: "replan_evidence \<Rightarrow> revision_error + replan_evidence" where
  "validate_evidence e =
     (if ev_graph_version e < 1 then Inl GraphVersionTooSmall
      else bind_res (required_fields
        [(''evidence_id'', evidence_id e), (''source_query_node_id'', source_query_node_id e),
         (''code'', ev_code e), (''graph_id'', ev_graph_id e), (''graph_fingerprint'', ev_graph_fp e),
         (''details_fingerprint'', details_fp e)]) (\<lambda>_. Inr e))"

definition validate_binding :: "trigger_binding \<Rightarrow> revision_error + trigger_binding" where
  "validate_binding b = bind_res (required_fields
     [(''evidenceId'', tb_evidence_id b), (''evidenceFingerprint'', tb_evidence_fp b)]) (\<lambda>_. Inr b)"

text \<open>\<open>validate_trigger_binding\<close>: the legacy pair becomes the only binding, or has to agree with it.\<close>

definition trigger_bindings :: "revision_proposal \<Rightarrow> revision_error + trigger_binding list" where
  "trigger_bindings r =
     (let bindings = trigger_evidence_set r;
          legacy_id = py_strip (trigger_evidence_id r);
          legacy_fp = py_strip (trigger_evidence_fp r)
      in if bindings = [] then
           (if legacy_id = [] \<or> legacy_fp = [] then Inl TriggerBindingRequired
            else Inr [\<lparr>tb_evidence_id = legacy_id, tb_evidence_fp = legacy_fp\<rparr>])
         else if (legacy_id \<noteq> [] \<or> legacy_fp \<noteq> []) \<and>
             (length bindings \<noteq> 1 \<or> tb_evidence_id (hd bindings) \<noteq> legacy_id \<or>
              tb_evidence_fp (hd bindings) \<noteq> legacy_fp)
           then Inl LegacyTriggerConflict
         else Inr bindings)"

definition validate_trigger_binding :: "revision_proposal \<Rightarrow> revision_error + revision_proposal" where
  "validate_trigger_binding r =
     bind_res (trigger_bindings r) (\<lambda>bindings.
       bind_res (require (distinct (map tb_evidence_id bindings)) TriggerIdsNotUnique) (\<lambda>_.
       bind_res (require (distinct (map tb_evidence_fp bindings)) TriggerFingerprintsNotUnique) (\<lambda>_.
         Inr (r\<lparr>trigger_evidence_set := bindings\<rparr>))))"

definition evidence_json :: "replan_evidence \<Rightarrow> string \<Rightarrow> json" where
  "evidence_json e fp = JObj
     [(''evidenceVersion'', JStr (evidence_version e)), (''evidenceId'', JStr (evidence_id e)),
      (''triggerKind'', JStr (trigger_text (trigger_kind e))),
      (''sourceStage'', JStr (stage_text (source_stage e))),
      (''sourceQueryNodeId'', JStr (source_query_node_id e)), (''code'', JStr (ev_code e)),
      (''graphId'', JStr (ev_graph_id e)), (''graphVersion'', JInt (ev_graph_version e)),
      (''graphFingerprint'', JStr (ev_graph_fp e)), (''details'', JObj (details e)),
      (''detailsFingerprint'', JStr (details_fp e)), (''evidenceFingerprint'', JStr fp)]"

definition replan_evidence_fingerprint :: "(string \<Rightarrow> string) \<Rightarrow> replan_evidence \<Rightarrow> string" where
  "replan_evidence_fingerprint h e = stable_fingerprint h (evidence_json e [])"

definition seal_evidence :: "(string \<Rightarrow> string) \<Rightarrow> replan_evidence \<Rightarrow> replan_evidence" where
  "seal_evidence h e = e\<lparr>evidence_fp := replan_evidence_fingerprint h e\<rparr>"

definition sealed :: "(string \<Rightarrow> string) \<Rightarrow> replan_evidence \<Rightarrow> bool" where
  "sealed h e = (evidence_fp e \<noteq> [] \<and> evidence_fp e = replan_evidence_fingerprint h e \<and>
     details_fp e = stable_fingerprint h (JObj (details e)))"

text \<open>\<open>json.loads(json.dumps(details, sort_keys=True))\<close>: the details with their keys in order.\<close>

definition copy_details :: "(string \<times> json) list \<Rightarrow> (string \<times> json) list" where
  "copy_details ds = (case canon (JObj ds) of JObj kvs \<Rightarrow> kvs | _ \<Rightarrow> [])"

definition build_replan_evidence ::
  "(string \<Rightarrow> string) \<Rightarrow> trigger_kind \<Rightarrow> source_stage \<Rightarrow> string \<Rightarrow> string \<Rightarrow> graph_receipt
    \<Rightarrow> (string \<times> json) list \<Rightarrow> revision_error + replan_evidence" where
  "build_replan_evidence h trig stage node code receipt ds =
     (let eid = ''graph_replan_evidence_'' @ take 24 (stable_fingerprint h (JObj
            [(''triggerKind'', JStr (trigger_text trig)), (''sourceStage'', JStr (stage_text stage)),
             (''sourceQueryNodeId'', JStr node), (''code'', JStr code),
             (''graphId'', JStr (graph_id receipt)), (''graphVersion'', JInt (receipt_version receipt)),
             (''graphFingerprint'', JStr (receipt_fp receipt))]))
      in bind_res (validate_evidence
           \<lparr>evidence_version = ''grounded_execution_graph_replan_evidence.v1'', evidence_id = eid,
            trigger_kind = trig, source_stage = stage, source_query_node_id = node,
            ev_code = py_strip code, ev_graph_id = graph_id receipt,
            ev_graph_version = receipt_version receipt, ev_graph_fp = receipt_fp receipt,
            details = copy_details ds, details_fp = stable_fingerprint h (JObj (copy_details ds)),
            evidence_fp = []\<rparr>)
         (\<lambda>e. Inr (seal_evidence h e)))"

definition evidence_entry :: "replan_evidence \<Rightarrow> string \<times> string \<times> string \<times> int \<times> string" where
  "evidence_entry e =
     (evidence_id e, evidence_fp e, ev_graph_id e, ev_graph_version e, ev_graph_fp e)"

definition entry_json :: "string \<times> string \<times> string \<times> int \<times> string \<Rightarrow> json" where
  "entry_json = (\<lambda>(i, f, g, v, gf). JArr [JStr i, JStr f, JStr g, JInt v, JStr gf])"

definition evidence_set_fingerprint ::
  "(string \<Rightarrow> string) \<Rightarrow> replan_evidence list \<Rightarrow> revision_error + string" where
  "evidence_set_fingerprint h es =
     (let normalized = sort (map evidence_entry es) in
      bind_res (require (normalized \<noteq> []) ReplanEvidenceRequired) (\<lambda>_.
      bind_res (require (distinct (map fst normalized)) ReplanIdsNotUnique) (\<lambda>_.
      bind_res (require (distinct (map (\<lambda>x. fst (snd x)) normalized)) ReplanFingerprintsNotUnique) (\<lambda>_.
        Inr (stable_fingerprint h (JObj
          [(''evidenceSetVersion'', JStr ''grounded_execution_graph_replan_evidence_set.v1''),
           (''evidences'', JArr (map entry_json normalized))]))))))"

section \<open>The checks of a revision\<close>

datatype replan_issue_code =
    REPLAN_EVIDENCE_REQUIRED
  | REPLAN_BUDGET_EXHAUSTED
  | REPLAN_EVIDENCE_SET_DUPLICATE
  | REPLAN_EVIDENCE_INVALID
  | REPLAN_TRIGGER_REPLAYED
  | REPLAN_TRIGGER_MISMATCH
  | REPLAN_CAS_CONFLICT
  | REPLAN_EVIDENCE_STALE
  | ACTIVE_PROPOSAL_INVALID
  | NODE_STATE_DUPLICATE
  | NODE_STATE_IDENTITY_MISMATCH
  | NODE_STATE_INCOMPLETE
  | REPLACEMENT_DUPLICATE
  | REPLACEMENT_UNKNOWN
  | EXECUTED_NODE_REPLACEMENT_FORBIDDEN
  | REPLAN_SOURCE_NODE_UNKNOWN
  | REPLACEMENT_NOT_DOWNSTREAM
  | NODE_REMOVAL_FORBIDDEN
  | FAILED_TRIGGER_SET_RETIREMENT_REQUIRED
  | NODE_MUTATION_FORBIDDEN
  | REPLACEMENT_NO_CHANGE
  | INPUT_LINEAGE_MUTATION_FORBIDDEN
  | ADDED_NODE_TRIGGER_SCOPE_MISMATCH
  | ADDED_NODE_LINEAGE_OUTSIDE_TRIGGER_SCOPE
  | FAILED_NODE_RECOVERY_REQUIRED
  | REPLAN_NO_CHANGE

text \<open>An issue of the graph check the revision contains, or one of the revision's own.\<close>

datatype revision_issue =
    GraphIssue graph_issue
  | ReplanIssue replan_issue_code string "(string \<times> json) list"

record revision_result =
  rv_issues :: "revision_issue list"
  carried_forward_keys :: "string list"
  replaced_keys :: "string list"
  added_keys :: "string list"
  retired_failed_keys :: "string list"

record revision_context =
  active_proposal :: graph_proposal
  active_receipt :: graph_receipt
  trigger_evidences :: "replan_evidence list"
  node_states :: "node_runtime_state list"
  rc_contract :: goal_contract
  rc_evidence :: "evidence_item list"
  rc_topics :: "string list"
  used_fps :: "string list"
  completed_count :: int
  max_count :: int

definition rissue :: "replan_issue_code \<Rightarrow> string \<Rightarrow> (string \<times> json) list \<Rightarrow> revision_issue" where
  "rissue c k d = ReplanIssue c k d"

text \<open>\<open>{node.client_key: node for node in ..}\<close>: the last node of a key counts.\<close>

definition node_map :: "graph_proposal \<Rightarrow> string \<Rightarrow> node_spec option" where
  "node_map p = map_of (rev (map (\<lambda>n. (client_key n, n)) (nodes p)))"

definition active_identity :: "revision_context \<Rightarrow> string \<times> int \<times> string" where
  "active_identity c = (graph_id (active_receipt c), receipt_version (active_receipt c),
     receipt_fp (active_receipt c))"

text \<open>A dictionary built from pairs is compared as a map: the last pair of a key counts.\<close>

definition same_dict :: "(string \<times> string) list \<Rightarrow> (string \<times> string) list \<Rightarrow> bool" where
  "same_dict xs ys = list_all (\<lambda>k. map_of (rev xs) k = map_of (rev ys) k) (map fst xs @ map fst ys)"

definition trigger_set_issues ::
  "(string \<Rightarrow> string) \<Rightarrow> revision_proposal \<Rightarrow> revision_context \<Rightarrow> revision_issue list" where
  "trigger_set_issues h r c =
     (let es = trigger_evidences c in
      issue_if (es = []) (rissue REPLAN_EVIDENCE_REQUIRED [] []) @
      issue_if (max 1 (max_count c) \<le> completed_count c) (rissue REPLAN_BUDGET_EXHAUSTED [] []) @
      issue_if (\<not> distinct (map evidence_id es) \<or> \<not> distinct (map evidence_fp es))
        (rissue REPLAN_EVIDENCE_SET_DUPLICATE [] []) @
      concat (map (\<lambda>e.
        issue_if (\<not> sealed h e)
          (rissue REPLAN_EVIDENCE_INVALID [] [(''evidenceId'', JStr (evidence_id e))]) @
        issue_if (evidence_fp e \<in> set (used_fps c))
          (rissue REPLAN_TRIGGER_REPLAYED [] [(''evidenceId'', JStr (evidence_id e))])) es) @
      issue_if (\<not> same_dict (map (\<lambda>b. (tb_evidence_id b, tb_evidence_fp b)) (trigger_evidence_set r))
          (map (\<lambda>e. (evidence_id e, evidence_fp e)) es))
        (rissue REPLAN_TRIGGER_MISMATCH [] []))"

definition identity_issues ::
  "(string \<Rightarrow> string) \<Rightarrow> revision_proposal \<Rightarrow> revision_context \<Rightarrow> revision_issue list" where
  "identity_issues h r c =
     issue_if ((base_graph_id r, rev_base_version r, base_fp r) \<noteq> active_identity c)
       (rissue REPLAN_CAS_CONFLICT [] [(''activeGraphId'', JStr (graph_id (active_receipt c))),
          (''activeVersion'', JInt (receipt_version (active_receipt c)))]) @
     concat (map (\<lambda>e.
       issue_if ((ev_graph_id e, ev_graph_version e, ev_graph_fp e) \<noteq> active_identity c)
         (rissue REPLAN_EVIDENCE_STALE [] [(''evidenceId'', JStr (evidence_id e))]))
       (trigger_evidences c)) @
     issue_if (execution_graph_fingerprint h (active_proposal c) \<noteq> receipt_fp (active_receipt c))
       (rissue ACTIVE_PROPOSAL_INVALID [] [])"

text \<open>The first state of a key is kept; a later one is an issue and is not looked at.\<close>

definition state_of :: "revision_context \<Rightarrow> string \<Rightarrow> node_runtime_state option" where
  "state_of c = map_of (map (\<lambda>s. (st_client_key s, s)) (node_states c))"

fun state_loop :: "(string, string) dict \<Rightarrow> string list \<Rightarrow> node_runtime_state list \<Rightarrow> revision_issue list"
where
  "state_loop ids seen [] = []"
| "state_loop ids seen (s # ss) =
     (if st_client_key s \<in> set seen
      then rissue NODE_STATE_DUPLICATE (st_client_key s) [] # state_loop ids seen ss
      else issue_if (map_of ids (st_client_key s) \<noteq> Some (query_node_id s))
          (rissue NODE_STATE_IDENTITY_MISMATCH (st_client_key s) []) @
        state_loop ids (st_client_key s # seen) ss)"

definition state_issues :: "revision_context \<Rightarrow> revision_issue list" where
  "state_issues c =
     (let missing = sorted_set (filter (\<lambda>k. state_of c k = None) (node_keys (active_proposal c)))
      in state_loop (node_ids (active_receipt c)) [] (node_states c) @
         issue_if (missing \<noteq> [])
           (rissue NODE_STATE_INCOMPLETE [] [(''clientKeys'', strings_json missing)]))"

definition has_lifecycle :: "revision_context \<Rightarrow> string \<Rightarrow> node_lifecycle \<Rightarrow> bool" where
  "has_lifecycle c k l = (case state_of c k of None \<Rightarrow> False | Some s \<Rightarrow> lifecycle s = l)"

definition replacement_issues :: "revision_proposal \<Rightarrow> revision_context \<Rightarrow> revision_issue list" where
  "replacement_issues r c =
     (let repl = replace_unexecuted_keys r; old = node_keys (active_proposal c);
          unknown = sorted_set (filter (\<lambda>k. k \<notin> set old) repl)
      in issue_if (\<not> distinct repl) (rissue REPLACEMENT_DUPLICATE [] []) @
         issue_if (unknown \<noteq> [])
           (rissue REPLACEMENT_UNKNOWN [] [(''clientKeys'', strings_json unknown)]) @
         concat (map (\<lambda>k. issue_if (\<not> has_lifecycle c k UNEXECUTED)
             (rissue EXECUTED_NODE_REPLACEMENT_FORBIDDEN k []))
           (sorted_set (filter (\<lambda>k. state_of c k \<noteq> None) repl))))"

text \<open>
  \<open>client_key_by_query_id\<close> inverts the receipt's node ids; a source that maps to no key (or to the
  empty key) is unknown.
\<close>

definition source_key :: "revision_context \<Rightarrow> replan_evidence \<Rightarrow> string" where
  "source_key c e = dict_get (rev (map (\<lambda>(k, i). (i, k)) (node_ids (active_receipt c))))
     (source_query_node_id e) []"

definition source_keys :: "revision_context \<Rightarrow> string list" where
  "source_keys c = fromkeys (filter (\<lambda>k. k \<noteq> []) (map (source_key c) (trigger_evidences c)))"

definition source_issues :: "revision_context \<Rightarrow> revision_issue list" where
  "source_issues c = concat (map (\<lambda>e. issue_if (source_key c e = [])
     (rissue REPLAN_SOURCE_NODE_UNKNOWN [] [(''evidenceId'', JStr (evidence_id e))]))
     (trigger_evidences c))"

definition active_graph :: "graph_proposal \<Rightarrow> string digraph" where
  "active_graph p = fold (\<lambda>e. add_deps (source_client_key e) [target_client_key e]) (edge_list p)
     (map (\<lambda>k. (k, [])) (node_keys p))"

definition in_trigger_scope :: "revision_context \<Rightarrow> string \<Rightarrow> bool" where
  "in_trigger_scope c k =
     list_ex (\<lambda>s. is_downstream (active_graph (active_proposal c)) s k) (source_keys c)"

definition downstream_issues :: "revision_proposal \<Rightarrow> revision_context \<Rightarrow> revision_issue list" where
  "downstream_issues r c =
     concat (map (\<lambda>k. issue_if (source_keys c \<noteq> [] \<and> \<not> in_trigger_scope c k)
       (rissue REPLACEMENT_NOT_DOWNSTREAM k [])) (sorted_set (replace_unexecuted_keys r)))"

section \<open>What a revision removes, changes, keeps and adds\<close>

definition removed_keys :: "revision_proposal \<Rightarrow> revision_context \<Rightarrow> string list" where
  "removed_keys r c = filter (\<lambda>k. k \<notin> set (node_keys (rev_graph r))) (node_keys (active_proposal c))"

definition same_node :: "(string \<Rightarrow> string) \<Rightarrow> revision_proposal \<Rightarrow> revision_context \<Rightarrow> string \<Rightarrow> bool" where
  "same_node h r c k = (map_option (node_spec_fingerprint h) (node_map (active_proposal c) k)
     = map_option (node_spec_fingerprint h) (node_map (rev_graph r) k))"

definition shared_keys :: "revision_proposal \<Rightarrow> revision_context \<Rightarrow> string list" where
  "shared_keys r c = filter (\<lambda>k. k \<in> set (node_keys (rev_graph r))) (node_keys (active_proposal c))"

definition changed_keys :: "(string \<Rightarrow> string) \<Rightarrow> revision_proposal \<Rightarrow> revision_context \<Rightarrow> string list" where
  "changed_keys h r c = filter (\<lambda>k. \<not> same_node h r c k) (shared_keys r c)"

definition retained_keys :: "(string \<Rightarrow> string) \<Rightarrow> revision_proposal \<Rightarrow> revision_context \<Rightarrow> string list" where
  "retained_keys h r c = filter (same_node h r c) (shared_keys r c)"

definition new_keys :: "revision_proposal \<Rightarrow> revision_context \<Rightarrow> string list" where
  "new_keys r c = filter (\<lambda>k. k \<notin> set (node_keys (active_proposal c))) (node_keys (rev_graph r))"

definition failed_source :: "revision_context \<Rightarrow> string \<Rightarrow> bool" where
  "failed_source c k = (has_lifecycle c k EXECUTION_FAILED \<and> k \<in> set (source_keys c))"

definition failed_retirements :: "revision_proposal \<Rightarrow> revision_context \<Rightarrow> string list" where
  "failed_retirements r c = filter (failed_source c) (removed_keys r c)"

definition goals_of_key :: "graph_proposal \<Rightarrow> string \<Rightarrow> string list" where
  "goals_of_key p k = (case node_map p k of None \<Rightarrow> [] | Some n \<Rightarrow> node_goal_ids n)"

definition edges_into :: "graph_proposal \<Rightarrow> string \<Rightarrow> edge_spec list" where
  "edges_into p k = filter (\<lambda>e. target_client_key e = k) (edge_list p)"

definition change_issues ::
  "(string \<Rightarrow> string) \<Rightarrow> revision_proposal \<Rightarrow> revision_context \<Rightarrow> revision_issue list" where
  "change_issues h r c =
     (let repl = replace_unexecuted_keys r; failed = failed_retirements r c;
          unretired = sorted_set (filter (\<lambda>k. has_lifecycle c k EXECUTION_FAILED \<and> k \<notin> set failed)
            (source_keys c));
          ineffective = sorted_set (filter (\<lambda>k. k \<notin> set (removed_keys r c) \<and>
            k \<notin> set (changed_keys h r c)) repl)
      in concat (map (\<lambda>k. issue_if (k \<notin> set failed \<and> k \<notin> set repl)
             (rissue NODE_REMOVAL_FORBIDDEN k [])) (sorted_set (removed_keys r c))) @
         issue_if (unretired \<noteq> []) (rissue FAILED_TRIGGER_SET_RETIREMENT_REQUIRED []
           [(''clientKeys'', strings_json unretired)]) @
         map (\<lambda>k. rissue NODE_MUTATION_FORBIDDEN k [])
           (sorted_set (filter (\<lambda>k. k \<notin> set repl) (changed_keys h r c))) @
         issue_if (ineffective \<noteq> [])
           (rissue REPLACEMENT_NO_CHANGE [] [(''clientKeys'', strings_json ineffective)]) @
         concat (map (\<lambda>k. issue_if (set (edges_into (active_proposal c) k) \<noteq> set (edges_into (rev_graph r) k))
             (rissue INPUT_LINEAGE_MUTATION_FORBIDDEN k [])) (sorted_set (retained_keys h r c))))"

definition addition_issues ::
  "(string \<Rightarrow> string) \<Rightarrow> revision_proposal \<Rightarrow> revision_context \<Rightarrow> revision_issue list" where
  "addition_issues h r c =
     (let old = active_proposal c; new = rev_graph r; added = new_keys r c;
          related = concat (map (goals_of_key old) (filter (in_trigger_scope c) (node_keys old)));
          recovered = concat (map (goals_of_key new) added)
      in concat (map (\<lambda>k. let unrelated = sorted_set (filter (\<lambda>g. g \<notin> set related) (goals_of_key new k))
             in issue_if (unrelated \<noteq> []) (rissue ADDED_NODE_TRIGGER_SCOPE_MISMATCH k
               [(''unrelatedGoalIds'', strings_json unrelated)])) (sorted_set added)) @
         concat (map (\<lambda>e. let source_goals = goals_of_key old (source_client_key e);
               target_goals = goals_of_key new (target_client_key e);
               allowed = goal_dependency_closure (rc_contract c) target_goals
             in issue_if (e \<notin> set (edge_list old) \<and> target_client_key e \<in> set added \<and>
                 source_client_key e \<in> set (retained_keys h r c) \<and>
                 \<not> set source_goals \<subseteq> set allowed)
               (rissue ADDED_NODE_LINEAGE_OUTSIDE_TRIGGER_SCOPE (target_client_key e)
                 [(''sourceClientKey'', JStr (source_client_key e)),
                  (''sourceGoalIds'', strings_json (sorted_set source_goals)),
                  (''targetGoalIds'', strings_json (sorted_set target_goals)),
                  (''allowedSourceGoalIds'', strings_json (sorted_set allowed))])) (edge_list new)) @
         concat (map (\<lambda>k. let lost = sorted_set (filter (\<lambda>g. g \<notin> set recovered) (goals_of_key old k))
             in issue_if (lost \<noteq> []) (rissue FAILED_NODE_RECOVERY_REQUIRED k
               [(''missingGoalIds'', strings_json lost)])) (sorted_set (failed_retirements r c))) @
         issue_if (added = [] \<and> removed_keys r c = [] \<and> changed_keys h r c = [] \<and>
             set (edge_list old) = set (edge_list new))
           (rissue REPLAN_NO_CHANGE [] []))"

definition revision_issues ::
  "(string \<Rightarrow> string) \<Rightarrow> revision_proposal \<Rightarrow> revision_context \<Rightarrow> graph_issue list \<Rightarrow> revision_issue list" where
  "revision_issues h r c base =
     trigger_set_issues h r c @ identity_issues h r c @ map GraphIssue base @ state_issues c @
     replacement_issues r c @ source_issues c @ downstream_issues r c @ change_issues h r c @
     addition_issues h r c"

definition validate_revision ::
  "(string \<Rightarrow> string) \<Rightarrow> revision_proposal \<Rightarrow> revision_context \<Rightarrow> contract_error + revision_result" where
  "validate_revision h r c =
     bind_res (validate_execution_graph h (rev_graph r) (rc_contract c) (rc_evidence c) (rc_topics c)
       (receipt_version (active_receipt c))) (\<lambda>base.
       Inr \<lparr>rv_issues = revision_issues h r c base,
            carried_forward_keys = sorted_set (retained_keys h r c),
            replaced_keys = sorted_set (replace_unexecuted_keys r),
            added_keys = sorted_set (new_keys r c),
            retired_failed_keys = sorted_set (failed_retirements r c)\<rparr>)"

section \<open>Facts about an accepted revision\<close>

definition accepted :: "(string \<Rightarrow> string) \<Rightarrow> revision_proposal \<Rightarrow> revision_context \<Rightarrow> revision_result \<Rightarrow> bool"
where
  "accepted h r c res \<longleftrightarrow> validate_revision h r c = Inr res \<and> rv_issues res = []"

lemma accepted_parts:
  assumes "accepted h r c res"
  shows "validate_execution_graph h (rev_graph r) (rc_contract c) (rc_evidence c) (rc_topics c)
      (receipt_version (active_receipt c)) = Inr []"
    and "trigger_set_issues h r c = []" and "identity_issues h r c = []" and "state_issues c = []"
    and "replacement_issues r c = []" and "source_issues c = []" and "downstream_issues r c = []"
    and "change_issues h r c = []" and "addition_issues h r c = []"
    and "carried_forward_keys res = sorted_set (retained_keys h r c)"
  using assms
  by (auto simp: accepted_def validate_revision_def revision_issues_def elim!: bind_res_InrE)

lemma set_node_keys [simp]: "set (node_keys p) = client_key ` set (nodes p)"
  by (simp add: node_keys_def)

lemma node_map_distinct:
  assumes "distinct (map client_key (nodes p))"
  shows "node_map p k = Some n \<longleftrightarrow> n \<in> set (nodes p) \<and> client_key n = k"
proof -
  have "distinct (map fst (rev (map (\<lambda>n. (client_key n, n)) (nodes p))))"
    using assms by (simp add: rev_map [symmetric] comp_def)
  then show ?thesis by (auto simp: node_map_def)
qed

lemma node_map_Some_key: "node_map p k = Some n \<Longrightarrow> k \<in> client_key ` set (nodes p)"
  by (auto simp: node_map_def dest!: map_of_SomeD)

lemma edges_active_graph: "edges (active_graph p) = node_dependencies p"
proof -
  have "edges (fold (\<lambda>e. add_deps (source_client_key e) [target_client_key e]) es G)
      = edges G \<union> (\<lambda>e. (source_client_key e, target_client_key e)) ` set es" for es G
    by (induction es arbitrary: G) auto
  moreover have "edges (map (\<lambda>k. (k, [])) ks) = {}" for ks :: "string list"
    by (auto simp: edges_def)
  ultimately show ?thesis by (auto simp: active_graph_def node_dependencies_def)
qed

lemma in_trigger_scope_iff:
  "in_trigger_scope c k \<longleftrightarrow> (\<exists>s\<in>set (source_keys c). (s, k) \<in> (node_dependencies (active_proposal c))\<^sup>*)"
  by (simp add: in_trigger_scope_def list_ex_iff is_downstream_iff edges_active_graph)

lemma has_lifecycle_unique: "has_lifecycle c k l \<Longrightarrow> has_lifecycle c k m \<longleftrightarrow> l = m"
  by (auto simp: has_lifecycle_def split: option.splits)

lemma state_known:
  assumes "state_issues c = []" "k \<in> client_key ` set (nodes (active_proposal c))"
  obtains l where "has_lifecycle c k l"
proof -
  have "\<forall>k\<in>set (node_keys (active_proposal c)). state_of c k \<noteq> None"
    using assms(1) by (simp add: state_issues_def Let_def filter_empty_conv)
  with assms(2) obtain s where "state_of c k = Some s" by auto
  with that show ?thesis by (simp add: has_lifecycle_def)
qed

lemma replacement_unexecuted:
  assumes "replacement_issues r c = []" "state_issues c = []" "k \<in> set (replace_unexecuted_keys r)"
  shows "has_lifecycle c k UNEXECUTED"
proof -
  have old: "k \<in> client_key ` set (nodes (active_proposal c))"
    and unexec: "state_of c k \<noteq> None \<Longrightarrow> has_lifecycle c k UNEXECUTED"
    using assms(1,3) by (auto simp: replacement_issues_def Let_def filter_empty_conv concat_map_Nil_iff)
  obtain l where "has_lifecycle c k l" using state_known [OF assms(2) old] .
  then have "state_of c k \<noteq> None" by (auto simp: has_lifecycle_def split: option.splits)
  then show ?thesis by (rule unexec)
qed

lemma change_issues_Nil:
  assumes "change_issues h r c = []"
  shows "k \<in> set (removed_keys r c) \<Longrightarrow> failed_source c k \<or> k \<in> set (replace_unexecuted_keys r)"
    and "k \<in> set (changed_keys h r c) \<Longrightarrow> k \<in> set (replace_unexecuted_keys r)"
    and "k \<in> set (retained_keys h r c) \<Longrightarrow>
      set (edges_into (active_proposal c) k) = set (edges_into (rev_graph r) k)"
    and "failed_source c k \<Longrightarrow> k \<in> set (removed_keys r c)"
    and "k \<in> set (replace_unexecuted_keys r) \<Longrightarrow> k \<in> set (removed_keys r c) \<or> k \<in> set (changed_keys h r c)"
  using assms
  by (auto simp: change_issues_def Let_def concat_map_Nil_iff filter_empty_conv failed_retirements_def
      failed_source_def)

lemma addition_issues_Nil:
  assumes "addition_issues h r c = []"
  shows "a \<in> set (new_keys r c) \<Longrightarrow> g \<in> set (goals_of_key (rev_graph r) a) \<Longrightarrow>
      \<exists>k. in_trigger_scope c k \<and> g \<in> set (goals_of_key (active_proposal c) k)"
    and "k \<in> set (failed_retirements r c) \<Longrightarrow> g \<in> set (goals_of_key (active_proposal c) k) \<Longrightarrow>
      \<exists>a\<in>set (new_keys r c). g \<in> set (goals_of_key (rev_graph r) a)"
proof -
  have "\<forall>a\<in>set (new_keys r c). \<forall>g\<in>set (goals_of_key (rev_graph r) a).
      \<exists>k\<in>set (nodes (active_proposal c)). in_trigger_scope c (client_key k) \<and>
        g \<in> set (goals_of_key (active_proposal c) (client_key k))"
    and "\<forall>k\<in>set (failed_retirements r c). \<forall>g\<in>set (goals_of_key (active_proposal c) k).
      \<exists>a\<in>set (new_keys r c). g \<in> set (goals_of_key (rev_graph r) a)"
    using assms by (simp_all add: addition_issues_def Let_def concat_map_Nil_iff filter_empty_conv)
  then show "a \<in> set (new_keys r c) \<Longrightarrow> g \<in> set (goals_of_key (rev_graph r) a) \<Longrightarrow>
      \<exists>k. in_trigger_scope c k \<and> g \<in> set (goals_of_key (active_proposal c) k)"
    and "k \<in> set (failed_retirements r c) \<Longrightarrow> g \<in> set (goals_of_key (active_proposal c) k) \<Longrightarrow>
      \<exists>a\<in>set (new_keys r c). g \<in> set (goals_of_key (rev_graph r) a)"
    by blast+
qed

section \<open>A revision that is accepted\<close>

text \<open>
  The failed node \<open>names\<close> of the sample graph triggers a revision that retires it and adds \<open>names2\<close>;
  the published node \<open>rank\<close> stays.
\<close>

definition receipt_with :: "string \<Rightarrow> graph_receipt" where
  "receipt_with fp = \<lparr>graph_id = ''g1'', receipt_version = 1,
     receipt_fp = fp, receipt_snapshot_fp = [],
     node_ids = [(''rank'', ''q1''), (''names'', ''q2'')], parallel_frontier = [''q1''],
     waiting_artifact_nodes = [''q2''], semantic_activation_fp = [], semantic_activation_seal_fp = [],
     semantic_activation_topics = [], parent_graph_id = [], parent_version = 0, parent_fp = [],
     replan_evidence_fp = [], replan_evidence_fps = [], carried_forward_node_ids = [],
     retired_node_ids = [], revision_fp = []\<rparr>"

definition trigger_with :: "string \<Rightarrow> string \<Rightarrow> replan_evidence" where
  "trigger_with graph_fp fp = \<lparr>evidence_version = ''v1'', evidence_id = ''e1'',
     trigger_kind = EXECUTION_ERROR, source_stage = STAGE_EXECUTION, source_query_node_id = ''q2'',
     ev_code = ''SQL_ERROR'', ev_graph_id = ''g1'', ev_graph_version = 1, ev_graph_fp = graph_fp,
     details = [], details_fp = stable_fingerprint id (JObj []), evidence_fp = fp\<rparr>"

definition context_with :: "string \<Rightarrow> string \<Rightarrow> revision_context" where
  "context_with graph_fp fp = \<lparr>active_proposal = sample_graph, active_receipt = receipt_with graph_fp,
     trigger_evidences = [trigger_with graph_fp fp],
     node_states = [\<lparr>st_client_key = ''rank'', query_node_id = ''q1'', lifecycle = PUBLISHED\<rparr>,
       \<lparr>st_client_key = ''names'', query_node_id = ''q2'', lifecycle = EXECUTION_FAILED\<rparr>],
     rc_contract = sample_contract, rc_evidence = sample_evidence,
     rc_topics = [''trade'', ''goods''], used_fps = [], completed_count = 0, max_count = 2\<rparr>"

definition revision_with :: "string \<Rightarrow> string \<Rightarrow> string \<Rightarrow> string \<Rightarrow> revision_proposal" where
  "revision_with graph_fp fp goal_fp snapshot_fp = \<lparr>revision_version = ''v1'', base_graph_id = ''g1'',
     rev_base_version = 1, base_fp = graph_fp, trigger_evidence_id = [], trigger_evidence_fp = [],
     trigger_evidence_set = [\<lparr>tb_evidence_id = ''e1'', tb_evidence_fp = fp\<rparr>],
     replace_unexecuted_keys = [],
     rev_graph = sample_graph\<lparr>base_version := 1, goal_contract_fp := goal_fp,
       discovery_snapshot_fp := snapshot_fp,
       nodes := [sample_node ''rank'' [''gmv'', ''top''] ''trade'' ''orders.gmv'',
         sample_node ''names2'' [''goods''] ''goods'' ''goods.name''],
       edge_list := []\<rparr>\<rparr>"

definition sample_graph_fp :: string where
  "sample_graph_fp = execution_graph_fingerprint id sample_graph"

definition sample_trigger :: replan_evidence where
  "sample_trigger = seal_evidence id (trigger_with sample_graph_fp [])"

definition sample_context :: revision_context where
  "sample_context = context_with sample_graph_fp (evidence_fp sample_trigger)"

definition sample_revision :: revision_proposal where
  "sample_revision = revision_with sample_graph_fp (evidence_fp sample_trigger)
     (stable_fingerprint id (contract_json sample_contract)) (evidence_snapshot_fingerprint id sample_evidence)"

lemma sealed_seal_evidence:
  assumes "details_fp e = stable_fingerprint h (JObj (details e))" and "replan_evidence_fingerprint h e \<noteq> []"
  shows "sealed h (seal_evidence h e)"
proof -
  have "evidence_json (seal_evidence h e) = evidence_json e"
    by (simp add: seal_evidence_def evidence_json_def fun_eq_iff)
  with assms show ?thesis
    by (simp add: sealed_def seal_evidence_def replan_evidence_fingerprint_def)
qed

lemma sample_context_sealed: "sealed id sample_trigger"
  unfolding sample_trigger_def
  by (rule sealed_seal_evidence)
    (simp_all add: trigger_with_def replan_evidence_fingerprint_def evidence_json_def stable_fingerprint_def)

lemma sample_trigger_with: "trigger_with sample_graph_fp (evidence_fp sample_trigger) = sample_trigger"
  by (simp add: sample_trigger_def seal_evidence_def trigger_with_def)

lemma sample_goal_fp:
  "goal_contract_fingerprint id sample_contract = Inr (stable_fingerprint id (contract_json sample_contract))"
proof -
  have "parse_contract sample_contract = Inr sample_contract" by code_simp
  then show ?thesis by (simp add: goal_contract_fingerprint_def)
qed

lemma sample_checks:
  "state_issues (context_with g e) = []"
  "replacement_issues (revision_with g e c d) (context_with g e) = []"
  "source_issues (context_with g e) = []"
  "downstream_issues (revision_with g e c d) (context_with g e) = []"
  "change_issues id (revision_with g e c d) (context_with g e) = []"
  "addition_issues id (revision_with g e c d) (context_with g e) = []"
  "graph_issues sample_contract (rev_graph (revision_with g e c d)) sample_evidence
     [''trade'', ''goods''] = []"
  by code_simp+

lemma sample_facts:
  "distinct (map client_key (nodes (active_proposal (context_with g e))))"
  "sample_node ''rank'' [''gmv'', ''top''] ''trade'' ''orders.gmv''
     \<in> set (nodes (active_proposal (context_with g e)))"
  "\<not> has_lifecycle (context_with g e)
     (client_key (sample_node ''rank'' [''gmv'', ''top''] ''trade'' ''orders.gmv'')) UNEXECUTED"
  "\<not> failed_source (context_with g e)
     (client_key (sample_node ''rank'' [''gmv'', ''top''] ''trade'' ''orders.gmv''))"
  "failed_source (context_with g e) ''names''"
  "''goods'' \<in> set (goals_of_key (active_proposal (context_with g e)) ''names'')"
  "''names2'' \<in> set (new_keys (revision_with g e c d) (context_with g e))"
  "''goods'' \<in> set (goals_of_key (rev_graph (revision_with g e c d)) ''names2'')"
  by code_simp+

lemma sample_revision_accepted: "\<exists>res. accepted id sample_revision sample_context res"
proof -
  have "trigger_set_issues id sample_revision sample_context = []"
    using sample_context_sealed
    by (simp add: trigger_set_issues_def sample_context_def sample_revision_def context_with_def
        revision_with_def sample_trigger_with same_dict_def)
      (simp add: sample_trigger_def seal_evidence_def trigger_with_def)
  moreover have "identity_issues id sample_revision sample_context = []"
    by (simp add: identity_issues_def sample_context_def sample_revision_def context_with_def
        revision_with_def active_identity_def receipt_with_def trigger_with_def sample_graph_fp_def)
  moreover have "validate_execution_graph id (rev_graph sample_revision) sample_contract sample_evidence
      [''trade'', ''goods''] 1 = Inr []"
    using sample_checks(7) unfolding execution_graph_valid_iff graph_issues_Nil_iff
    by (simp add: sample_revision_def revision_with_def sample_goal_fp sample_graph_def)
  ultimately show ?thesis
    using sample_checks
    by (simp add: accepted_def validate_revision_def revision_issues_def sample_context_def
        sample_revision_def context_with_def receipt_with_def)
qed

text \<open>
  C1: An accepted revision is safe for what has already run: a node of the active graph whose
  runtime state is not \<open>UNEXECUTED\<close>, and which is not a failed node some trigger names, is in the
  new graph with the very same specification and the very same incoming edges, and is reported
  as carried forward.
\<close>

theorem revision_keeps_executed:
  assumes h: "inj h" and acc: "accepted h r c res"
    and dist: "distinct (map client_key (nodes (active_proposal c)))"
    and n: "n \<in> set (nodes (active_proposal c))"
    and exec: "\<not> has_lifecycle c (client_key n) UNEXECUTED"
    and not_failed: "\<not> failed_source c (client_key n)"
  shows "n \<in> set (nodes (rev_graph r)) \<and>
    set (edges_into (rev_graph r) (client_key n)) = set (edges_into (active_proposal c) (client_key n)) \<and>
    client_key n \<in> set (carried_forward_keys res)"
proof -
  let ?k = "client_key n"
  note parts = accepted_parts [OF acc]
  have not_repl: "?k \<notin> set (replace_unexecuted_keys r)"
    using replacement_unexecuted [OF parts(5,4)] exec by blast
  then have shared: "?k \<in> set (shared_keys r c)"
    using change_issues_Nil(1) [OF parts(8)] not_failed n
    by (auto simp: removed_keys_def shared_keys_def)
  moreover have same: "same_node h r c ?k"
    using change_issues_Nil(2) [OF parts(8)] not_repl shared by (auto simp: changed_keys_def)
  ultimately have kept: "?k \<in> set (retained_keys h r c)" by (simp add: retained_keys_def)
  have new: "distinct (map client_key (nodes (rev_graph r)))"
    using parts(1) by (simp add: execution_graph_valid_iff graph_body_ok_def)
  have "node_map (active_proposal c) ?k = Some n" using node_map_distinct [OF dist] n by blast
  with same obtain m where "node_map (rev_graph r) ?k = Some m"
    "node_spec_fingerprint h m = node_spec_fingerprint h n"
    by (cases "node_map (rev_graph r) ?k") (auto simp: same_node_def)
  then have "n \<in> set (nodes (rev_graph r))"
    using node_spec_fingerprint_eq_iff [OF h, of m n] node_map_distinct [OF new, of ?k n] by simp
  with kept change_issues_Nil(3) [OF parts(8) kept] parts(10) show ?thesis by simp
qed

lemma revision_keeps_executed_witness:
  "\<exists>res. accepted id sample_revision sample_context res \<and> ''rank'' \<in> set (carried_forward_keys res)"
proof -
  let ?n = "sample_node ''rank'' [''gmv'', ''top''] ''trade'' ''orders.gmv''"
  obtain res where res: "accepted id sample_revision sample_context res"
    using sample_revision_accepted by blast
  from revision_keeps_executed [OF inj_on_id res, of ?n] sample_facts(1-4) res show ?thesis
    by (auto simp: sample_node_def sample_context_def)
qed

text \<open>
  An accepted revision answers its triggers: there is at least one; each is sealed (not
  tampered with), was never used before and belongs to the active graph; the revision is based
  on the active receipt, stays inside the revision budget, and its graph is itself a valid
  execution graph for the next version.
\<close>

theorem revision_trigger_binding:
  assumes "accepted h r c res"
  shows "trigger_evidences c \<noteq> [] \<and>
    (\<forall>e\<in>set (trigger_evidences c). sealed h e \<and> evidence_fp e \<notin> set (used_fps c) \<and>
       (ev_graph_id e, ev_graph_version e, ev_graph_fp e) = active_identity c) \<and>
    distinct (map evidence_id (trigger_evidences c)) \<and>
    (base_graph_id r, rev_base_version r, base_fp r) = active_identity c \<and>
    execution_graph_fingerprint h (active_proposal c) = receipt_fp (active_receipt c) \<and>
    completed_count c < max 1 (max_count c) \<and>
    graph_body_ok (rev_graph r) (rc_contract c) (rc_evidence c) (rc_topics c)"
  using accepted_parts(1-3) [OF assms]
  by (auto simp: trigger_set_issues_def identity_issues_def Let_def concat_map_Nil_iff
      execution_graph_valid_iff)

lemma revision_trigger_binding_witness:
  "\<exists>res. accepted id sample_revision sample_context res \<and> sealed id sample_trigger"
proof -
  obtain res where res: "accepted id sample_revision sample_context res"
    using sample_revision_accepted by blast
  from revision_trigger_binding [OF res] res show ?thesis
    by (auto simp: sample_context_def context_with_def sample_trigger_with)
qed

text \<open>
  C30: An accepted revision retires every failed node its triggers name, and covers each goal of
  such a node again by a node it adds.
\<close>

theorem revision_recovers_failed:
  assumes acc: "accepted h r c res" and failed: "failed_source c k"
    and g: "g \<in> set (goals_of_key (active_proposal c) k)"
  shows "k \<notin> client_key ` set (nodes (rev_graph r)) \<and>
    (\<exists>m\<in>set (nodes (rev_graph r)). g \<in> set (node_goal_ids m) \<and>
       client_key m \<notin> client_key ` set (nodes (active_proposal c)))"
proof -
  note parts = accepted_parts [OF acc]
  have gone: "k \<in> set (removed_keys r c)" by (rule change_issues_Nil(4) [OF parts(8) failed])
  have new: "distinct (map client_key (nodes (rev_graph r)))"
    using parts(1) by (simp add: execution_graph_valid_iff graph_body_ok_def)
  have "k \<in> set (failed_retirements r c)" using gone failed by (simp add: failed_retirements_def)
  from addition_issues_Nil(2) [OF parts(9) this g] obtain a where a: "a \<in> set (new_keys r c)" "g \<in> set (goals_of_key (rev_graph r) a)" by blast
  from a(2) obtain m where "node_map (rev_graph r) a = Some m" "g \<in> set (node_goal_ids m)"
    by (cases "node_map (rev_graph r) a") (auto simp: goals_of_key_def)
  moreover from this(1) have "m \<in> set (nodes (rev_graph r))" "client_key m = a"
    using node_map_distinct [OF new, of a m] by simp_all
  ultimately show ?thesis using a(1) gone by (auto simp: new_keys_def removed_keys_def)
qed

lemma revision_recovers_failed_witness:
  "\<exists>m\<in>set (nodes (rev_graph sample_revision)). ''goods'' \<in> set (node_goal_ids m) \<and>
     client_key m \<notin> client_key ` set (nodes (active_proposal sample_context))"
proof -
  obtain res where res: "accepted id sample_revision sample_context res"
    using sample_revision_accepted by blast
  show ?thesis
    by (rule revision_recovers_failed [OF res, of "''names''", THEN conjunct2])
      (simp_all only: sample_context_def sample_facts)
qed

text \<open>
  What an accepted revision may touch is bounded by its triggers: every replaced node and,
  through its goals, every added node lies at or downstream of a trigger source in the active
  graph.
\<close>

theorem revision_stays_in_scope:
  assumes acc: "accepted h r c res"
  shows "(\<forall>k\<in>set (replace_unexecuted_keys r). \<exists>s\<in>set (source_keys c).
       (s, k) \<in> (node_dependencies (active_proposal c))\<^sup>*) \<and>
    (\<forall>a\<in>set (new_keys r c). \<forall>g\<in>set (goals_of_key (rev_graph r) a).
       \<exists>k s. s \<in> set (source_keys c) \<and> (s, k) \<in> (node_dependencies (active_proposal c))\<^sup>* \<and>
         g \<in> set (goals_of_key (active_proposal c) k))"
proof -
  note parts = accepted_parts [OF acc]
  have "trigger_evidences c \<noteq> []" "\<forall>e\<in>set (trigger_evidences c). source_key c e \<noteq> []"
    using parts(2,6) by (auto simp: trigger_set_issues_def source_issues_def Let_def concat_map_Nil_iff)
  then have some: "source_keys c \<noteq> []"
    by (cases "trigger_evidences c") (auto simp: source_keys_def fromkeys_Nil_iff)
  have "\<forall>k\<in>set (replace_unexecuted_keys r). in_trigger_scope c k"
    using parts(7) some by (simp add: downstream_issues_def concat_map_Nil_iff)
  moreover have "\<exists>k. in_trigger_scope c k \<and> g \<in> set (goals_of_key (active_proposal c) k)"
    if "a \<in> set (new_keys r c)" "g \<in> set (goals_of_key (rev_graph r) a)" for a g
    using addition_issues_Nil(1) [OF parts(9) that] .
  ultimately show ?thesis unfolding in_trigger_scope_iff by blast
qed

lemma revision_stays_in_scope_witness:
  "\<exists>k s. s \<in> set (source_keys sample_context) \<and>
     (s, k) \<in> (node_dependencies (active_proposal sample_context))\<^sup>* \<and>
     ''goods'' \<in> set (goals_of_key (active_proposal sample_context) k)"
proof -
  obtain res where res: "accepted id sample_revision sample_context res"
    using sample_revision_accepted by blast
  have "''names2'' \<in> set (new_keys sample_revision sample_context)"
    and "''goods'' \<in> set (goals_of_key (rev_graph sample_revision) ''names2'')"
    by (simp_all only: sample_context_def sample_revision_def sample_facts)
  with revision_stays_in_scope [OF res] show ?thesis by blast
qed

section \<open>What the seals of replan evidence identify\<close>

lemma trigger_text_inj [simp]: "trigger_text a = trigger_text b \<longleftrightarrow> a = b"
  by (cases a; cases b) auto

lemma stage_text_inj [simp]: "stage_text a = stage_text b \<longleftrightarrow> a = b"
  by (cases a; cases b) auto

lemma evidence_json_inj:
  assumes "canon (evidence_json e x) = canon (evidence_json f y)"
  shows "e\<lparr>details := [], evidence_fp := []\<rparr> = f\<lparr>details := [], evidence_fp := []\<rparr> \<and>
    canon (JObj (details e)) = canon (JObj (details f)) \<and> x = y"
proof -
  have "distinct [''evidenceVersion'', ''evidenceId'', ''triggerKind'', ''sourceStage'',
      ''sourceQueryNodeId'', ''code'', ''graphId'', ''graphVersion'', ''graphFingerprint'',
      ''details'', ''detailsFingerprint'', ''evidenceFingerprint'']"
    by code_simp
  with canon_eq_values [OF assms [unfolded evidence_json_def]] show ?thesis
    by (simp del: canon.simps(6)) simp
qed

text \<open>
  A seal determines the evidence: with a digest that does not collide, two sealed items with
  the same fingerprint agree in every field, their details up to the order of the keys.
\<close>

theorem sealed_evidence_identified:
  assumes "inj h" and "sealed h e" and "sealed h f" and "evidence_fp e = evidence_fp f"
  shows "e\<lparr>details := []\<rparr> = f\<lparr>details := []\<rparr> \<and> canon (JObj (details e)) = canon (JObj (details f))"
proof -
  have "replan_evidence_fingerprint h e = replan_evidence_fingerprint h f"
    using assms(2-4) by (simp add: sealed_def)
  then have "canon (evidence_json e []) = canon (evidence_json f [])"
    by (simp add: replan_evidence_fingerprint_def stable_fingerprint_eq_iff [OF assms(1)])
  from evidence_json_inj [OF this] assms(4) show ?thesis by (cases e; cases f) auto
qed

lemma sealed_evidence_identified_witness:
  "sealed id sample_trigger \<and> canon (JObj (details sample_trigger)) = canon (JObj [])"
  using sealed_evidence_identified [OF inj_on_id sample_context_sealed sample_context_sealed refl]
    sample_context_sealed by (simp add: sample_trigger_def seal_evidence_def trigger_with_def)

text \<open>
  \<open>build_grounded_execution_graph_replan_evidence\<close> returns sealed evidence bound to the given
  receipt and query node, and sealing it again changes nothing.
\<close>

theorem built_evidence_sealed:
  assumes "\<And>s. h s \<noteq> []" and "build_replan_evidence h k st node code receipt ds = Inr e"
  shows "sealed h e \<and> seal_evidence h e = e \<and>
    (ev_graph_id e, ev_graph_version e, ev_graph_fp e) =
      (graph_id receipt, receipt_version receipt, receipt_fp receipt) \<and>
    source_query_node_id e = node \<and> canon (JObj (details e)) = canon (JObj ds) \<and>
    py_strip node \<noteq> [] \<and> py_strip code \<noteq> [] \<and> 1 \<le> receipt_version receipt"
proof -
  obtain e0 where e: "e = seal_evidence h e0" and e0: "details_fp e0 = stable_fingerprint h (JObj (details e0))"
      "details e0 = copy_details ds" "evidence_fp e0 = []"
      "(ev_graph_id e0, ev_graph_version e0, ev_graph_fp e0) =
        (graph_id receipt, receipt_version receipt, receipt_fp receipt)"
      "source_query_node_id e0 = node"
    and strict: "py_strip node \<noteq> []" "py_strip code \<noteq> []" "1 \<le> receipt_version receipt"
    using assms(2)
    by (auto simp: build_replan_evidence_def Let_def validate_evidence_def split: if_splits)
  have "replan_evidence_fingerprint h e0 \<noteq> []"
    using assms(1) by (simp add: replan_evidence_fingerprint_def stable_fingerprint_def)
  with e0(1) have "sealed h e" unfolding e by (rule sealed_seal_evidence)
  moreover have "evidence_json e = evidence_json e0"
    by (simp add: e seal_evidence_def evidence_json_def fun_eq_iff)
  then have "seal_evidence h e = e"
    by (simp add: seal_evidence_def replan_evidence_fingerprint_def) (simp add: e seal_evidence_def
      replan_evidence_fingerprint_def)
  moreover have "canon (JObj (copy_details ds)) = canon (JObj ds)"
    using canon_idem [of "JObj ds"] by (simp add: copy_details_def)
  ultimately show ?thesis using e e0 strict by (simp add: seal_evidence_def)
qed

lemma built_evidence_sealed_witness:
  "\<exists>e. build_replan_evidence (\<lambda>s. CHR ''x'' # s) DATA_GAP STAGE_DATASOURCE ''q1'' ''NO_ROWS''
      (receipt_with ''fp'') [(''rows'', JInt 0)] = Inr e \<and> sealed (\<lambda>s. CHR ''x'' # s) e"
proof -
  let ?h = "\<lambda>s :: string. CHR ''x'' # s"
  have "isl (build_replan_evidence ?h DATA_GAP STAGE_DATASOURCE ''q1'' ''NO_ROWS''
      (receipt_with ''fp'') [(''rows'', JInt 0)]) = False" by code_simp
  then obtain e where e: "build_replan_evidence ?h DATA_GAP STAGE_DATASOURCE ''q1'' ''NO_ROWS''
      (receipt_with ''fp'') [(''rows'', JInt 0)] = Inr e" by (metis isl_def sum.exhaust)
  from built_evidence_sealed [OF _ e] e show ?thesis by blast
qed

lemma entry_json_inj: "inj entry_json"
  by (auto intro!: injI simp: entry_json_def)

lemma canon_entry [simp]: "canon (entry_json x) = entry_json x"
  by (simp add: entry_json_def split: prod.splits)

lemma sort_eq_iff_mset: "sort xs = sort ys \<longleftrightarrow> mset xs = mset ys"
proof
  assume "sort xs = sort ys"
  from arg_cong [OF this, of mset] show "mset xs = mset ys" by simp
next
  assume "mset xs = mset ys"
  then show "sort xs = sort ys" by (intro properties_for_sort) simp_all
qed

lemma distinct_map_sort: "distinct (map f (sort xs)) \<longleftrightarrow> distinct (map f xs)"
  by (rule mset_eq_imp_distinct_iff) simp

lemma evidence_set_fingerprint_ok:
  assumes "es \<noteq> []" "distinct (map evidence_id es)" "distinct (map evidence_fp es)"
  shows "\<exists>f. evidence_set_fingerprint h es = Inr f"
proof -
  have "map fst (map evidence_entry es) = map evidence_id es"
    and "map (\<lambda>x. fst (snd x)) (map evidence_entry es) = map evidence_fp es"
    by (simp_all add: evidence_entry_def)
  then have "distinct (map fst (sort (map evidence_entry es)))"
    and "distinct (map (\<lambda>x. fst (snd x)) (sort (map evidence_entry es)))"
    unfolding distinct_map_sort using assms(2,3) by metis+
  moreover have "sort (map evidence_entry es) \<noteq> []"
    using assms(1) by (metis length_0_conv length_map length_sort)
  ultimately show ?thesis by (simp only: evidence_set_fingerprint_def Let_def bind_require if_True not_False_eq_True) blast
qed

text \<open>
  The fingerprint of a set of triggers does not depend on their order, and, with a digest
  that does not collide, tells two sets with different items apart.
\<close>

theorem evidence_set_fingerprint_identifies:
  assumes "inj h" and "evidence_set_fingerprint h es = Inr f" and "evidence_set_fingerprint h gs = Inr f'"
  shows "f = f' \<longleftrightarrow> mset (map evidence_entry es) = mset (map evidence_entry gs)"
proof -
  let ?body = "\<lambda>l. JObj
     [(''evidenceSetVersion'', JStr ''grounded_execution_graph_replan_evidence_set.v1''),
      (''evidences'', JArr (map entry_json (sort (map evidence_entry l))))]"
  have f: "f = stable_fingerprint h (?body es)" "f' = stable_fingerprint h (?body gs)"
    using assms(2,3) by (auto simp: evidence_set_fingerprint_def Let_def split: if_splits)
  have unchanged: "canon \<circ> entry_json = entry_json" by (simp add: fun_eq_iff)
  have "canon (?body es) = canon (?body gs) \<longleftrightarrow>
      map entry_json (sort (map evidence_entry es)) = map entry_json (sort (map evidence_entry gs))"
    by (simp add: unchanged)
  also have "\<dots> \<longleftrightarrow> sort (map evidence_entry es) = sort (map evidence_entry gs)"
    using inj_map_eq_map [OF entry_json_inj] .
  also have "\<dots> \<longleftrightarrow> mset (map evidence_entry es) = mset (map evidence_entry gs)"
    by (rule sort_eq_iff_mset)
  finally show ?thesis unfolding f stable_fingerprint_eq_iff [OF assms(1)] .
qed

lemma evidence_set_fingerprint_identifies_witness:
  "evidence_set_fingerprint id [trigger_with ''g'' ''a'', (trigger_with ''g'' ''b'')\<lparr>evidence_id := ''e2''\<rparr>]
   = evidence_set_fingerprint id [(trigger_with ''g'' ''b'')\<lparr>evidence_id := ''e2''\<rparr>, trigger_with ''g'' ''a'']"
  (is "evidence_set_fingerprint id ?es = evidence_set_fingerprint id ?fs")
proof -
  have "\<exists>f. evidence_set_fingerprint id ?es = Inr f"
    by (rule evidence_set_fingerprint_ok) (simp_all add: trigger_with_def)
  then obtain f where f: "evidence_set_fingerprint id ?es = Inr f" by (rule exE)
  have "\<exists>f. evidence_set_fingerprint id ?fs = Inr f"
    by (rule evidence_set_fingerprint_ok) (simp_all add: trigger_with_def)
  then obtain f' where f': "evidence_set_fingerprint id ?fs = Inr f'" by (rule exE)
  have "mset (map evidence_entry ?es) = mset (map evidence_entry ?fs)"
    by (simp only: list.map mset.simps add_mset_commute)
  with evidence_set_fingerprint_identifies [OF inj_on_id f f'] show ?thesis unfolding f f' by simp
qed

end
