(* ===== verification/Population_Receipt.thy ===== *)
theory Population_Receipt
  imports Graph_Revision
begin

text \<open>
  The receipt of the dynamic graph (\<open>PopulationDynamicGraphReceipt\<close> of
  \<^verbatim>\<open>grounded_population_gate_coordinator.py\<close>): the active query nodes with their goals and edges, which
  the population gate and the revision journal both bind what they keep to.
\<close>

record population_edge =
  pe_source :: string
  pe_target :: string
  pe_mode :: dependency_mode
  pe_artifact :: string

record population_receipt =
  pr_graph_id :: string
  pr_graph_version :: int
  pr_graph_fp :: string
  pr_nodes :: "(string \<times> string list) list"        \<comment> \<open>\<open>query_node_id\<close>, \<open>consumer_goal_ids\<close>\<close>
  pr_edges :: "population_edge list"
  pr_parent_fp :: string
  pr_evidence_fp :: string
  pr_carried :: "string list"
  pr_retired :: "string list"
  pr_fp :: string

text \<open>The validators of the receipt, its nodes and its edges.\<close>

definition unique_texts :: "string list \<Rightarrow> bool" where
  "unique_texts vs \<longleftrightarrow> list_all (\<lambda>v. v \<noteq> []) (map py_strip vs) \<and> distinct (map py_strip vs)"

definition population_node_ok :: "string \<times> string list \<Rightarrow> bool" where
  "population_node_ok n \<longleftrightarrow> py_strip (fst n) \<noteq> [] \<and> snd n \<noteq> [] \<and> unique_texts (snd n)"

definition population_edge_ok :: "population_edge \<Rightarrow> bool" where
  "population_edge_ok e \<longleftrightarrow> py_strip (pe_source e) \<noteq> [] \<and> py_strip (pe_target e) \<noteq> [] \<and> pe_source e \<noteq> pe_target e"

definition population_receipt_ok :: "population_receipt \<Rightarrow> bool" where
  "population_receipt_ok r \<longleftrightarrow>
     list_all population_node_ok (pr_nodes r) \<and> list_all population_edge_ok (pr_edges r) \<and> 1 \<le> pr_graph_version r \<and>
     py_strip (pr_graph_id r) \<noteq> [] \<and> py_strip (pr_graph_fp r) \<noteq> [] \<and> pr_nodes r \<noteq> [] \<and>
     unique_texts (map fst (pr_nodes r)) \<and> unique_texts (pr_carried r) \<and> unique_texts (pr_retired r) \<and>
     set (pr_carried r) \<subseteq> set (map fst (pr_nodes r)) \<and> set (pr_retired r) \<inter> set (map fst (pr_nodes r)) = {} \<and>
     (pr_parent_fp r \<noteq> [] \<longrightarrow> pr_evidence_fp r \<noteq> []) \<and>
     list_all (\<lambda>e. pe_source e \<in> set (map fst (pr_nodes r)) \<and> pe_target e \<in> set (map fst (pr_nodes r))) (pr_edges r)"

definition population_json :: "population_receipt \<Rightarrow> json" where
  "population_json r = JObj
     [(''receiptVersion'', JStr ''population_dynamic_graph_receipt.v1''), (''graphId'', JStr (pr_graph_id r)),
      (''graphVersion'', JInt (pr_graph_version r)), (''graphFingerprint'', JStr (pr_graph_fp r)),
      (''nodes'', JArr (map (\<lambda>(i, gs). JObj [(''queryNodeId'', JStr i), (''consumerGoalIds'', strings_json gs)]) (pr_nodes r))),
      (''edges'', JArr (map (\<lambda>e. JObj
         [(''sourceQueryNodeId'', JStr (pe_source e)), (''targetQueryNodeId'', JStr (pe_target e)),
          (''dependencyMode'', JStr (mode_text (pe_mode e))), (''artifactKind'', JStr (pe_artifact e))]) (pr_edges r))),
      (''parentReceiptFingerprint'', JStr (pr_parent_fp r)), (''revisionEvidenceFingerprint'', JStr (pr_evidence_fp r)),
      (''carriedForwardQueryNodeIds'', strings_json (pr_carried r)),
      (''retiredQueryNodeIds'', strings_json (pr_retired r)), (''receiptFingerprint'', JStr (pr_fp r))]"

definition population_receipt_fingerprint :: "(string \<Rightarrow> string) \<Rightarrow> population_receipt \<Rightarrow> string" where
  "population_receipt_fingerprint h r = stable_fingerprint h (population_json (r\<lparr>pr_fp := []\<rparr>))"

definition seal_population_receipt :: "(string \<Rightarrow> string) \<Rightarrow> population_receipt \<Rightarrow> population_receipt" where
  "seal_population_receipt h r = r\<lparr>pr_fp := population_receipt_fingerprint h r\<rparr>"

end
