(* ===== verification/Revision_Payload.thy ===== *)
theory Revision_Payload
  imports Population_Receipt
begin

text \<open>
  What a graph revision leaves behind for recovery (the first half of
  \<^verbatim>\<open>grounded_graph_revision_journal.py\<close>): the declarations of the revised nodes, bound to the execution
  graph, its receipt and the population receipt, sealed by a fingerprint.

  The dictionaries of the source hold dumps of typed models; they are those models here, and parsing one
  is the check of its validator. An error is the code of the exception.
\<close>

section \<open>Errors\<close>

datatype journal_error =
    PopulationReceiptMalformed
  | RecordMalformed
  | ClientKeyMalformed
  | EdgeKeyMissing                                      \<comment> \<open>a \<open>KeyError\<close>\<close>
  | GRAPH_REVISION_NODE_DECLARATION_INVALID
  | GRAPH_REVISION_BASE_SESSION_REFERENCE_INVALID
  | GRAPH_REVISION_EXECUTION_RECEIPT_INVALID
  | GRAPH_REVISION_POPULATION_RECEIPT_INVALID
  | GRAPH_REVISION_NODE_DECLARATION_SET_INVALID
  | GRAPH_REVISION_NODE_DECLARATION_MISMATCH
  | GRAPH_REVISION_RECOVERY_PAYLOAD_UNSEALED
  | GRAPH_REVISION_TRANSACTION_ID_REQUIRED
  | GRAPH_REVISION_FINGERPRINT_INVALID
  | GRAPH_REVISION_EXECUTION_BINDING_MISMATCH
  | GRAPH_REVISION_POPULATION_BINDING_MISMATCH
  | GRAPH_REVISION_TRANSACTION_BINDING_MISMATCH
  | GRAPH_REVISION_INITIAL_RECORD_INVALID
  | GRAPH_REVISION_PARENT_RECORD_REQUIRED
  | GRAPH_REVISION_RECORD_UNSEALED
  | GRAPH_REVISION_TRANSACTION_CONFLICT
  | GRAPH_REVISION_TRANSACTION_NOT_FOUND
  | TransactionDirectoryMissing                         \<comment> \<open>a \<open>FileNotFoundError\<close>\<close>
  | GRAPH_REVISION_JOURNAL_CAS_CONFLICT
  | GRAPH_REVISION_STATUS_JUMP_FORBIDDEN
  | GRAPH_REVISION_JOURNAL_DIRECTORY_INVALID
  | GRAPH_REVISION_BASE_ALREADY_CLAIMED
  | GRAPH_REVISION_BASE_CLAIM_CONFLICT
  | GRAPH_REVISION_BASE_CLAIM_TOO_LARGE
  | GRAPH_REVISION_BASE_CLAIM_INVALID
  | GRAPH_REVISION_BASE_CLAIM_BINDING_INVALID
  | GRAPH_REVISION_JOURNAL_HEAD_TOO_LARGE
  | GRAPH_REVISION_JOURNAL_HEAD_INVALID
  | GRAPH_REVISION_JOURNAL_HEAD_BINDING_INVALID
  | GRAPH_REVISION_JOURNAL_RECORD_MISSING
  | GRAPH_REVISION_JOURNAL_RECORD_INTEGRITY_FAILED
  | GRAPH_REVISION_JOURNAL_RECORD_INVALID
  | GRAPH_REVISION_JOURNAL_RECORD_BINDING_INVALID
  | GRAPH_REVISION_JOURNAL_RECORD_TOO_LARGE
  | GRAPH_REVISION_JOURNAL_HISTORY_INVALID
  | GRAPH_REVISION_JOURNAL_IMMUTABLE_RECORD_CONFLICT
  | GRAPH_REVISION_JOURNAL_RECORD_CREATE_FAILED

section \<open>Declarations and the payload\<close>

datatype initial_status = DECLARED | WAITING_VERIFIED_ENTITY_SET

record node_declaration =
  nd_key :: string
  nd_node :: string
  nd_objective :: string
  nd_goals :: "string list"
  nd_topics :: "string list"
  nd_evidence :: "string list"
  nd_depends :: "string list"
  nd_scopes :: "string list"
  nd_status :: initial_status

definition texts_ok :: "string list \<Rightarrow> bool" where
  "texts_ok vs \<longleftrightarrow> distinct vs \<and> list_all (\<lambda>v. py_strip v \<noteq> []) vs"

definition declaration_ok :: "node_declaration \<Rightarrow> bool" where
  "declaration_ok d \<longleftrightarrow> py_strip (nd_key d) \<noteq> [] \<and> py_strip (nd_node d) \<noteq> [] \<and>
     list_all texts_ok [nd_goals d, nd_topics d, nd_evidence d, nd_depends d, nd_scopes d]"

record base_reference =
  br_checkpoint_fp :: string
  br_sha256 :: string
  br_bytes :: int

definition valid_fingerprint :: "string \<Rightarrow> bool" where
  "valid_fingerprint v \<longleftrightarrow>
     (let n = py_strip v in length n = 64 \<and> list_all (\<lambda>c. ascii_digit c \<or> c \<in> set ''abcdef'') n)"

definition reference_ok :: "base_reference \<Rightarrow> bool" where
  "reference_ok b \<longleftrightarrow> 1 \<le> br_bytes b \<and> valid_fingerprint (br_checkpoint_fp b) \<and> valid_fingerprint (br_sha256 b)"

record recovery_payload =
  rp_proposal :: graph_proposal
  rp_receipt :: graph_receipt
  rp_population :: population_receipt
  rp_base :: base_reference
  rp_declarations :: "node_declaration list"
  rp_fp :: string

definition receipt_json :: "graph_receipt \<Rightarrow> json" where
  "receipt_json r = JObj
     [(''graphId'', JStr (graph_id r)), (''version'', JInt (receipt_version r)), (''fingerprint'', JStr (receipt_fp r)),
      (''discoverySnapshotFingerprint'', JStr (receipt_snapshot_fp r)),
      (''nodeIds'', JObj (map (\<lambda>(k, v). (k, JStr v)) (node_ids r))),
      (''parallelFrontier'', strings_json (parallel_frontier r)),
      (''waitingArtifactNodes'', strings_json (waiting_artifact_nodes r)),
      (''semanticActivationFingerprint'', JStr (semantic_activation_fp r)),
      (''semanticActivationSealFingerprint'', JStr (semantic_activation_seal_fp r)),
      (''semanticActivationTopics'', strings_json (semantic_activation_topics r)),
      (''parentGraphId'', JStr (parent_graph_id r)), (''parentVersion'', JInt (parent_version r)),
      (''parentFingerprint'', JStr (parent_fp r)), (''replanEvidenceFingerprint'', JStr (replan_evidence_fp r)),
      (''replanEvidenceFingerprints'', strings_json (replan_evidence_fps r)),
      (''carriedForwardNodeIds'', strings_json (carried_forward_node_ids r)),
      (''retiredNodeIds'', strings_json (retired_node_ids r)), (''revisionFingerprint'', JStr (revision_fp r))]"

fun status_text :: "initial_status \<Rightarrow> string" where
  "status_text DECLARED = ''DECLARED''"
| "status_text WAITING_VERIFIED_ENTITY_SET = ''WAITING_VERIFIED_ENTITY_SET''"

definition declaration_json :: "node_declaration \<Rightarrow> json" where
  "declaration_json d = JObj
     [(''clientKey'', JStr (nd_key d)), (''queryNodeId'', JStr (nd_node d)), (''objective'', JStr (nd_objective d)),
      (''goalIds'', strings_json (nd_goals d)), (''topicScope'', strings_json (nd_topics d)),
      (''evidenceRefIds'', strings_json (nd_evidence d)), (''dependencyQueryNodeIds'', strings_json (nd_depends d)),
      (''contractScopeQueryNodeIds'', strings_json (nd_scopes d)), (''initialStatus'', JStr (status_text (nd_status d)))]"

definition payload_json :: "recovery_payload \<Rightarrow> json" where
  "payload_json p = JObj
     [(''payloadVersion'', JStr ''grounded_graph_revision_recovery.v1''),
      (''executionProposal'', proposal_json (rp_proposal p)), (''executionReceipt'', receipt_json (rp_receipt p)),
      (''populationReceipt'', population_json (rp_population p)),
      (''baseSessionCheckpoint'', JObj
         [(''checkpointFingerprint'', JStr (br_checkpoint_fp (rp_base p))),
          (''contentSha256'', JStr (br_sha256 (rp_base p))), (''byteCount'', JInt (br_bytes (rp_base p)))]),
      (''candidateNodeDeclarations'', JArr (map declaration_json (rp_declarations p))),
      (''payloadFingerprint'', JStr (rp_fp p))]"

definition payload_fingerprint :: "(string \<Rightarrow> string) \<Rightarrow> recovery_payload \<Rightarrow> string" where
  "payload_fingerprint h p = stable_fingerprint h (payload_json (p\<lparr>rp_fp := []\<rparr>))"

section \<open>Validation\<close>

text \<open>\<open>GroundedExecutionGraphProposal.model_validate\<close>.\<close>

definition parse_proposal :: "graph_proposal \<Rightarrow> journal_error + graph_proposal" where
  "parse_proposal p =
     (case map_res validate_client_key (nodes p) of
        Inl _ \<Rightarrow> Inl ClientKeyMalformed
      | Inr ns \<Rightarrow> Inr (p\<lparr>nodes := ns, edge_list := map normalize_identifiers (edge_list p)\<rparr>))"

text \<open>The query nodes a node takes artifacts from, or shares a contract with.\<close>

definition incoming :: "graph_receipt \<Rightarrow> graph_proposal \<Rightarrow> dependency_mode \<Rightarrow> string \<Rightarrow> string list" where
  "incoming r p m k = fromkeys (map (\<lambda>e. dict_get (node_ids r) (source_client_key e) [])
     (filter (\<lambda>e. dependency_mode e = m \<and> target_client_key e = k) (edge_list p)))"

text \<open>Every key the loop over the edges looks up.\<close>

definition edge_keys_ok :: "graph_receipt \<Rightarrow> graph_proposal \<Rightarrow> bool" where
  "edge_keys_ok r p \<longleftrightarrow> list_all (\<lambda>e. source_client_key e \<in> fst ` set (node_ids r)
     \<and> target_client_key e \<in> client_key ` set (nodes p)) (edge_list p)"

definition initial_status_of :: "string list \<Rightarrow> initial_status" where
  "initial_status_of artifacts = (if artifacts \<noteq> [] then WAITING_VERIFIED_ENTITY_SET else DECLARED)"

definition declaration_matches ::
  "graph_proposal \<Rightarrow> graph_receipt \<Rightarrow> population_receipt \<Rightarrow> node_spec \<Rightarrow> node_declaration \<Rightarrow> bool" where
  "declaration_matches p r pop n d \<longleftrightarrow>
     nd_node d = dict_get (node_ids r) (client_key n) [] \<and> nd_objective d = objective n \<and>
     set (node_goal_ids n) \<subseteq> set (nd_goals d) \<and> nd_goals d = dict_get (rev (pr_nodes pop)) (nd_node d) [] \<and>
     nd_topics d = topic_scope n \<and> nd_evidence d = evidence_ref_ids n \<and>
     set (nd_depends d) = set (incoming r p VERIFIED_ARTIFACT (client_key n)) \<and>
     set (nd_scopes d) = set (incoming r p CONTRACT_SCOPE (client_key n)) \<and>
     nd_status d = initial_status_of (incoming r p VERIFIED_ARTIFACT (client_key n))"

text \<open>Of two nodes with one key the later one counts: \<open>proposal_nodes\<close> is a dictionary.\<close>

definition node_of_key :: "graph_proposal \<Rightarrow> string \<Rightarrow> node_spec option" where
  "node_of_key p k = map_of (rev (map (\<lambda>n. (client_key n, n)) (nodes p))) k"

definition population_bound :: "(string \<Rightarrow> string) \<Rightarrow> graph_receipt \<Rightarrow> population_receipt \<Rightarrow> bool" where
  "population_bound h r pop \<longleftrightarrow> pr_fp pop = population_receipt_fingerprint h pop \<and> pr_graph_id pop = graph_id r
     \<and> pr_graph_version pop = receipt_version r \<and> pr_graph_fp pop = receipt_fp r"

definition declaration_set_ok :: "graph_proposal \<Rightarrow> graph_receipt \<Rightarrow> node_declaration list \<Rightarrow> bool" where
  "declaration_set_ok p r ds \<longleftrightarrow> distinct (map nd_key ds) \<and> nd_key ` set ds = client_key ` set (nodes p)
     \<and> fst ` set (node_ids r) = client_key ` set (nodes p)"

definition validate_payload :: "(string \<Rightarrow> string) \<Rightarrow> recovery_payload \<Rightarrow> journal_error + unit" where
  "validate_payload h pl =
     (if \<not> reference_ok (rp_base pl) then Inl GRAPH_REVISION_BASE_SESSION_REFERENCE_INVALID
      else if \<not> list_all declaration_ok (rp_declarations pl) then Inl GRAPH_REVISION_NODE_DECLARATION_INVALID
      else case parse_proposal (rp_proposal pl) of Inl e \<Rightarrow> Inl e | Inr p \<Rightarrow>
        let r = rp_receipt pl; pop = rp_population pl; ds = rp_declarations pl
        in if \<not> population_receipt_ok pop then Inl PopulationReceiptMalformed
           else if receipt_fp r \<noteq> execution_graph_fingerprint h p then Inl GRAPH_REVISION_EXECUTION_RECEIPT_INVALID
           else if \<not> population_bound h r pop then Inl GRAPH_REVISION_POPULATION_RECEIPT_INVALID
           else if \<not> declaration_set_ok p r ds then Inl GRAPH_REVISION_NODE_DECLARATION_SET_INVALID
           else if \<not> edge_keys_ok r p then Inl EdgeKeyMissing
           else if \<not> list_all (\<lambda>d. case node_of_key p (nd_key d) of None \<Rightarrow> False
                  | Some n \<Rightarrow> declaration_matches p r pop n d) ds then Inl GRAPH_REVISION_NODE_DECLARATION_MISMATCH
           else if rp_fp pl \<noteq> [] \<and> rp_fp pl \<noteq> payload_fingerprint h pl then Inl GRAPH_REVISION_RECOVERY_PAYLOAD_UNSEALED
           else Inr ())"

definition seal_payload :: "(string \<Rightarrow> string) \<Rightarrow> recovery_payload \<Rightarrow> journal_error + recovery_payload" where
  "seal_payload h pl =
     (let sealed = pl\<lparr>rp_fp := payload_fingerprint h pl\<rparr>
      in bind_res (validate_payload h sealed) (\<lambda>_. Inr sealed))"

text \<open>\<open>build_grounded_graph_revision_recovery_payload\<close>; \<open>assigned\<close> is empty when it is not given.\<close>

definition declaration_of ::
  "graph_proposal \<Rightarrow> graph_receipt \<Rightarrow> (string, string list) dict \<Rightarrow> node_spec \<Rightarrow> node_declaration" where
  "declaration_of p r assigned n = \<lparr>nd_key = client_key n, nd_node = dict_get (node_ids r) (client_key n) [],
     nd_objective = objective n, nd_goals = dict_get assigned (client_key n) (node_goal_ids n),
     nd_topics = topic_scope n, nd_evidence = evidence_ref_ids n,
     nd_depends = incoming r p VERIFIED_ARTIFACT (client_key n), nd_scopes = incoming r p CONTRACT_SCOPE (client_key n),
     nd_status = initial_status_of (incoming r p VERIFIED_ARTIFACT (client_key n))\<rparr>"

definition build_payload ::
  "(string \<Rightarrow> string) \<Rightarrow> graph_proposal \<Rightarrow> graph_receipt \<Rightarrow> population_receipt \<Rightarrow> base_reference
    \<Rightarrow> (string, string list) dict \<Rightarrow> journal_error + recovery_payload" where
  "build_payload h p0 r pop base assigned =
     bind_res (parse_proposal p0) (\<lambda>p.
       if \<not> edge_keys_ok r p \<or> \<not> client_key ` set (nodes p) \<subseteq> fst ` set (node_ids r) then Inl EdgeKeyMissing
       else let ds = map (declaration_of p r assigned) (nodes p)
            in if \<not> list_all declaration_ok ds then Inl GRAPH_REVISION_NODE_DECLARATION_INVALID
               else if \<not> population_receipt_ok pop then Inl PopulationReceiptMalformed
               else let pl = \<lparr>rp_proposal = p, rp_receipt = r, rp_population = pop, rp_base = base,
                      rp_declarations = ds, rp_fp = []\<rparr>
                    in bind_res (validate_payload h pl) (\<lambda>_. seal_payload h pl))"

end
