(* ===== verification/Revision_Journal.thy ===== *)
theory Revision_Journal
  imports Revision_Payload Py_Text
begin

text \<open>
  The transaction journal of graph revisions (the second half of \<^verbatim>\<open>grounded_graph_revision_journal.py\<close>): one
  directory per transaction, holding one immutable file per record and a head that names the current one,
  and one claim file per base, created before the transaction.

  A file is the model that was written to it, or a text no model parses. Its bytes are the canonical JSON
  text. Creating and replacing a file is atomic (\<open>os.link\<close>, \<open>os.replace\<close>). A process may die, or a write
  fail, at any time: every operation has a number \<open>left\<close> of writes that still reach the disk, and ends as
  \<open>Died\<close> at the first one past it. What a locked section reads and writes is one step for the other
  processes, but the claim is made outside the lock, before it.
\<close>

section \<open>Records\<close>

datatype revision_status = PREPARED | POPULATION_COMMITTED | EXECUTION_COMMITTED

fun status_ordinal :: "revision_status \<Rightarrow> int" where
  "status_ordinal PREPARED = 1"
| "status_ordinal POPULATION_COMMITTED = 2"
| "status_ordinal EXECUTION_COMMITTED = 3"

fun revision_status_text :: "revision_status \<Rightarrow> string" where
  "revision_status_text PREPARED = ''PREPARED''"
| "revision_status_text POPULATION_COMMITTED = ''POPULATION_COMMITTED''"
| "revision_status_text EXECUTION_COMMITTED = ''EXECUTION_COMMITTED''"

text \<open>The receipts a transaction goes between, and the evidence for it.\<close>

record revision_binding =
  rb_owner :: string
  rb_authority :: string
  rb_base_execution :: string
  rb_new_execution :: string
  rb_base_population :: string
  rb_new_population :: string
  rb_evidence :: string

record journal_record =
  jr_transaction :: string
  jr_revision :: int
  jr_status :: revision_status
  jr_binding :: revision_binding
  jr_payload :: recovery_payload
  jr_parent :: string
  jr_fp :: string

definition record_json :: "journal_record \<Rightarrow> json" where
  "record_json r = (let b = jr_binding r in JObj
     [(''recordVersion'', JStr ''grounded_graph_revision_journal_record.v1''),
      (''transactionId'', JStr (jr_transaction r)), (''revision'', JInt (jr_revision r)),
      (''status'', JStr (revision_status_text (jr_status r))), (''ownerFingerprint'', JStr (rb_owner b)),
      (''runAuthorityFingerprint'', JStr (rb_authority b)),
      (''baseExecutionReceiptFingerprint'', JStr (rb_base_execution b)),
      (''newExecutionReceiptFingerprint'', JStr (rb_new_execution b)),
      (''basePopulationReceiptFingerprint'', JStr (rb_base_population b)),
      (''newPopulationReceiptFingerprint'', JStr (rb_new_population b)),
      (''evidenceSetFingerprint'', JStr (rb_evidence b)), (''recoveryPayload'', payload_json (jr_payload r)),
      (''parentRecordFingerprint'', JStr (jr_parent r)), (''recordFingerprint'', JStr (jr_fp r))])"

definition record_fingerprint :: "(string \<Rightarrow> string) \<Rightarrow> journal_record \<Rightarrow> string" where
  "record_fingerprint h r = stable_fingerprint h (record_json (r\<lparr>jr_fp := []\<rparr>))"

definition seal_record :: "(string \<Rightarrow> string) \<Rightarrow> journal_record \<Rightarrow> journal_record" where
  "seal_record h r = r\<lparr>jr_fp := record_fingerprint h r\<rparr>"

definition transaction_id :: "(string \<Rightarrow> string) \<Rightarrow> revision_binding \<Rightarrow> string \<Rightarrow> string" where
  "transaction_id h b payload_fp = ''graph_revision_txn_'' @ take 32 (stable_fingerprint h (JObj
     [(''ownerFingerprint'', JStr (rb_owner b)), (''runAuthorityFingerprint'', JStr (rb_authority b)),
      (''baseExecutionReceiptFingerprint'', JStr (rb_base_execution b)),
      (''newExecutionReceiptFingerprint'', JStr (rb_new_execution b)),
      (''basePopulationReceiptFingerprint'', JStr (rb_base_population b)),
      (''newPopulationReceiptFingerprint'', JStr (rb_new_population b)),
      (''evidenceSetFingerprint'', JStr (rb_evidence b)), (''recoveryPayloadFingerprint'', JStr payload_fp)]))"

definition binding_fingerprints :: "revision_binding \<Rightarrow> string list" where
  "binding_fingerprints b = [rb_owner b, rb_authority b, rb_base_execution b, rb_new_execution b,
     rb_base_population b, rb_new_population b, rb_evidence b]"

definition validate_record :: "(string \<Rightarrow> string) \<Rightarrow> journal_record \<Rightarrow> journal_error + unit" where
  "validate_record h r =
     bind_res (validate_payload h (jr_payload r)) (\<lambda>_.
       if jr_revision r < 1 then Inl RecordMalformed
       else if py_strip (jr_transaction r) = [] then Inl GRAPH_REVISION_TRANSACTION_ID_REQUIRED
       else if \<not> list_all valid_fingerprint (binding_fingerprints (jr_binding r) @ [rp_fp (jr_payload r)])
       then Inl GRAPH_REVISION_FINGERPRINT_INVALID
       else if receipt_fp (rp_receipt (jr_payload r)) \<noteq> rb_new_execution (jr_binding r)
       then Inl GRAPH_REVISION_EXECUTION_BINDING_MISMATCH
       else if pr_fp (rp_population (jr_payload r)) \<noteq> rb_new_population (jr_binding r)
       then Inl GRAPH_REVISION_POPULATION_BINDING_MISMATCH
       else if jr_transaction r \<noteq> transaction_id h (jr_binding r) (rp_fp (jr_payload r))
       then Inl GRAPH_REVISION_TRANSACTION_BINDING_MISMATCH
       else if jr_revision r = 1 \<and> (jr_status r \<noteq> PREPARED \<or> jr_parent r \<noteq> [])
       then Inl GRAPH_REVISION_INITIAL_RECORD_INVALID
       else if jr_revision r \<noteq> 1 \<and> \<not> valid_fingerprint (jr_parent r) then Inl GRAPH_REVISION_PARENT_RECORD_REQUIRED
       else if jr_fp r \<noteq> record_fingerprint h r then Inl GRAPH_REVISION_RECORD_UNSEALED
       else Inr ())"

definition same_transaction :: "journal_record \<Rightarrow> journal_record \<Rightarrow> bool" where
  "same_transaction l r \<longleftrightarrow> jr_transaction l = jr_transaction r \<and> jr_binding l = jr_binding r
     \<and> rp_fp (jr_payload l) = rp_fp (jr_payload r)"

record journal_head =
  jh_transaction :: string
  jh_owner :: string
  jh_authority :: string
  jh_revision :: int
  jh_status :: revision_status
  jh_record_fp :: string
  jh_record_sha :: string
  jh_fp :: string

definition head_json :: "journal_head \<Rightarrow> json" where
  "head_json k = JObj
     [(''headVersion'', JStr ''grounded_graph_revision_journal_head.v1''), (''transactionId'', JStr (jh_transaction k)),
      (''ownerFingerprint'', JStr (jh_owner k)), (''runAuthorityFingerprint'', JStr (jh_authority k)),
      (''revision'', JInt (jh_revision k)), (''status'', JStr (revision_status_text (jh_status k))),
      (''recordFingerprint'', JStr (jh_record_fp k)), (''recordSha256'', JStr (jh_record_sha k)),
      (''headFingerprint'', JStr (jh_fp k))]"

definition head_fingerprint :: "(string \<Rightarrow> string) \<Rightarrow> journal_head \<Rightarrow> string" where
  "head_fingerprint h k = stable_fingerprint h (head_json (k\<lparr>jh_fp := []\<rparr>))"

section \<open>Files\<close>

datatype 'a stored = Holds 'a | Damaged string

fun stored_text :: "('a \<Rightarrow> json) \<Rightarrow> 'a stored \<Rightarrow> string" where
  "stored_text js (Holds x) = dumps (js x)"
| "stored_text js (Damaged t) = t"

text \<open>The length in bytes of the UTF-8 text.\<close>

definition utf8_length :: "string \<Rightarrow> nat" where
  "utf8_length s = length s + length (filter (\<lambda>c. 128 \<le> py_ord c) s)"

definition max_record_bytes :: nat where
  "max_record_bytes = 4 * 1024 * 1024"

definition max_head_bytes :: nat where
  "max_head_bytes = 64 * 1024"

record transaction_dir =
  td_records :: "(string, journal_record stored) dict"
  td_head :: "journal_head stored option"

text \<open>Claims and transaction directories, by their file names.\<close>

record revision_journal =
  rj_claims :: "(string, journal_record stored) dict"
  rj_transactions :: "(string, transaction_dir) dict"

record journal_env =
  je_hash :: "string \<Rightarrow> string"
  je_owner :: string
  je_authority :: string

datatype 'a journal_outcome = Returned 'a | Raised journal_error | Died

text \<open>\<open>_record_name\<close>, \<open>_transaction_component\<close>, \<open>_base_claim_name\<close>.\<close>

definition record_name :: "int \<Rightarrow> string \<Rightarrow> string" where
  "record_name n fp = ''record_'' @ int_text n @ ''_'' @ fp @ ''.json''"

definition transaction_component :: "journal_env \<Rightarrow> string \<Rightarrow> string" where
  "transaction_component env t = je_hash env (py_strip t)"

definition base_claim_name :: "journal_env \<Rightarrow> revision_binding \<Rightarrow> string" where
  "base_claim_name env b = ''base_claim_'' @ stable_fingerprint (je_hash env) (JObj
     [(''ownerFingerprint'', JStr (rb_owner b)), (''runAuthorityFingerprint'', JStr (rb_authority b)),
      (''baseExecutionReceiptFingerprint'', JStr (rb_base_execution b)),
      (''basePopulationReceiptFingerprint'', JStr (rb_base_population b))]) @ ''.json''"

definition valid_base_claim_component :: "string \<Rightarrow> bool" where
  "valid_base_claim_component name \<longleftrightarrow> starts_with name ''base_claim_'' \<and> ends_with name ''.json'' \<and>
     (let fp = take (length name - 11 - 5) (drop 11 name)
      in length fp = 64 \<and> list_all (\<lambda>c. ascii_digit c \<or> c \<in> set ''abcdef'') fp)"

definition owns :: "journal_env \<Rightarrow> string \<Rightarrow> string \<Rightarrow> bool" where
  "owns env owner authority \<longleftrightarrow> owner = je_owner env \<and> authority = je_authority env"

section \<open>The locked section of one transaction\<close>

text \<open>\<open>_load_locked\<close>.\<close>

definition read_record ::
  "journal_env \<Rightarrow> transaction_dir \<Rightarrow> string \<Rightarrow> journal_head \<Rightarrow> journal_error + journal_record" where
  "read_record env d t k =
     (case map_of (td_records d) (record_name (jh_revision k) (jh_record_fp k)) of
        None \<Rightarrow> Inl GRAPH_REVISION_JOURNAL_RECORD_MISSING
      | Some s \<Rightarrow>
          if max_record_bytes < utf8_length (stored_text record_json s)
             \<or> je_hash env (stored_text record_json s) \<noteq> jh_record_sha k
          then Inl GRAPH_REVISION_JOURNAL_RECORD_INTEGRITY_FAILED
          else case s of Damaged _ \<Rightarrow> Inl GRAPH_REVISION_JOURNAL_RECORD_INVALID
          | Holds r \<Rightarrow>
              if validate_record (je_hash env) r \<noteq> Inr () then Inl GRAPH_REVISION_JOURNAL_RECORD_INVALID
              else if jr_transaction r \<noteq> t \<or> jr_revision r \<noteq> jh_revision k \<or> jr_status r \<noteq> jh_status k
                \<or> jr_fp r \<noteq> jh_record_fp k \<or> \<not> owns env (rb_owner (jr_binding r)) (rb_authority (jr_binding r))
              then Inl GRAPH_REVISION_JOURNAL_RECORD_BINDING_INVALID
              else Inr r)"

definition load_locked :: "journal_env \<Rightarrow> transaction_dir \<Rightarrow> string \<Rightarrow> journal_error + journal_record option" where
  "load_locked env d t =
     (case td_head d of None \<Rightarrow> Inr None
      | Some s \<Rightarrow>
          if max_head_bytes < utf8_length (stored_text head_json s) then Inl GRAPH_REVISION_JOURNAL_HEAD_TOO_LARGE
          else case s of Damaged _ \<Rightarrow> Inl GRAPH_REVISION_JOURNAL_HEAD_INVALID
          | Holds k \<Rightarrow>
              if jh_revision k < 1 then Inl GRAPH_REVISION_JOURNAL_HEAD_INVALID
              else if jh_transaction k \<noteq> t \<or> \<not> owns env (jh_owner k) (jh_authority k)
                \<or> jh_fp k \<noteq> head_fingerprint (je_hash env) k \<or> \<not> valid_fingerprint (jh_record_fp k)
                \<or> \<not> valid_fingerprint (jh_record_sha k)
              then Inl GRAPH_REVISION_JOURNAL_HEAD_BINDING_INVALID
              else bind_res (read_record env d t k) (\<lambda>r. Inr (Some r)))"

definition load_historical ::
  "journal_env \<Rightarrow> transaction_dir \<Rightarrow> string \<Rightarrow> int \<Rightarrow> string \<Rightarrow> journal_error + journal_record" where
  "load_historical env d t n fp =
     (if n < 1 \<or> \<not> valid_fingerprint fp then Inl GRAPH_REVISION_JOURNAL_HISTORY_INVALID
      else case map_of (td_records d) (record_name n (py_strip fp)) of
        None \<Rightarrow> Inl GRAPH_REVISION_JOURNAL_RECORD_MISSING
      | Some s \<Rightarrow>
          if max_record_bytes < utf8_length (stored_text record_json s) then Inl GRAPH_REVISION_JOURNAL_RECORD_TOO_LARGE
          else case s of Damaged _ \<Rightarrow> Inl GRAPH_REVISION_JOURNAL_RECORD_INVALID
          | Holds r \<Rightarrow>
              if validate_record (je_hash env) r \<noteq> Inr () then Inl GRAPH_REVISION_JOURNAL_RECORD_INVALID
              else if jr_transaction r \<noteq> t \<or> jr_revision r \<noteq> n \<or> jr_fp r \<noteq> py_strip fp
                \<or> \<not> owns env (rb_owner (jr_binding r)) (rb_authority (jr_binding r))
              then Inl GRAPH_REVISION_JOURNAL_RECORD_BINDING_INVALID
              else Inr r)"

definition head_of :: "journal_env \<Rightarrow> journal_record \<Rightarrow> journal_head" where
  "head_of env r =
     (let k = \<lparr>jh_transaction = jr_transaction r, jh_owner = rb_owner (jr_binding r),
         jh_authority = rb_authority (jr_binding r), jh_revision = jr_revision r, jh_status = jr_status r,
         jh_record_fp = jr_fp r, jh_record_sha = je_hash env (dumps (record_json r)), jh_fp = []\<rparr>
      in k\<lparr>jh_fp := head_fingerprint (je_hash env) k\<rparr>)"

text \<open>
  \<open>_publish_record_locked\<close>: the record first, then the head that names it. It returns the number of
  writes that are left.
\<close>

definition write_head :: "journal_env \<Rightarrow> nat \<Rightarrow> journal_record \<Rightarrow> transaction_dir \<Rightarrow> nat journal_outcome \<times> transaction_dir" where
  "write_head env left r d =
     (if left = 0 then (Died, d) else (Returned (left - 1), d\<lparr>td_head := Some (Holds (head_of env r))\<rparr>))"

definition publish_record ::
  "journal_env \<Rightarrow> nat \<Rightarrow> journal_record \<Rightarrow> transaction_dir \<Rightarrow> nat journal_outcome \<times> transaction_dir" where
  "publish_record env left r d =
     (let name = record_name (jr_revision r) (jr_fp r)
      in if max_record_bytes < utf8_length (dumps (record_json r)) then (Raised GRAPH_REVISION_JOURNAL_RECORD_TOO_LARGE, d)
         else case map_of (td_records d) name of
           Some s \<Rightarrow>
             if stored_text record_json s = [] then (Raised GRAPH_REVISION_JOURNAL_RECORD_CREATE_FAILED, d)
             else if stored_text record_json s \<noteq> dumps (record_json r)
             then (Raised GRAPH_REVISION_JOURNAL_IMMUTABLE_RECORD_CONFLICT, d)
             else write_head env left r d
         | None \<Rightarrow>
             if left = 0 then (Died, d)
             else write_head env (left - 1) r (d\<lparr>td_records := AList.update name (Holds r) (td_records d)\<rparr>))"

text \<open>A locked section on the directory of transaction \<open>t\<close>, which is created if \<open>create\<close>.\<close>

definition no_records :: transaction_dir where
  "no_records = \<lparr>td_records = [], td_head = None\<rparr>"

definition in_transaction ::
  "journal_env \<Rightarrow> bool \<Rightarrow> string \<Rightarrow> (transaction_dir \<Rightarrow> 'a journal_outcome \<times> transaction_dir) \<Rightarrow> revision_journal
    \<Rightarrow> 'a journal_outcome \<times> revision_journal" where
  "in_transaction env create t act j =
     (if py_strip t = [] then (Raised GRAPH_REVISION_TRANSACTION_ID_REQUIRED, j)
      else let c = transaction_component env t
      in case (map_of (rj_transactions j) c, create) of
           (None, False) \<Rightarrow> (Raised TransactionDirectoryMissing, j)
         | (d, _) \<Rightarrow>
             (case act (case d of None \<Rightarrow> no_records | Some d' \<Rightarrow> d') of
                (res, d') \<Rightarrow> (res, j\<lparr>rj_transactions := AList.update c d' (rj_transactions j)\<rparr>)))"

fun bind_outcome :: "'a journal_outcome \<times> 's \<Rightarrow> ('a \<Rightarrow> 's \<Rightarrow> 'b journal_outcome \<times> 's) \<Rightarrow> 'b journal_outcome \<times> 's" where
  "bind_outcome (Returned x, s) f = f x s"
| "bind_outcome (Raised e, s) f = (Raised e, s)"
| "bind_outcome (Died, s) f = (Died, s)"

section \<open>Operations\<close>

record journal_result =
  jo_record :: journal_record
  jo_committed :: bool
  jo_idempotent :: bool

text \<open>\<open>_validate_base_claim\<close>.\<close>

definition validate_base_claim ::
  "journal_env \<Rightarrow> string \<Rightarrow> journal_record stored \<Rightarrow> journal_error + journal_record" where
  "validate_base_claim env name s =
     (if max_record_bytes < utf8_length (stored_text record_json s) then Inl GRAPH_REVISION_BASE_CLAIM_TOO_LARGE
      else case s of Damaged _ \<Rightarrow> Inl GRAPH_REVISION_BASE_CLAIM_INVALID
      | Holds r \<Rightarrow>
          if validate_record (je_hash env) r \<noteq> Inr () then Inl GRAPH_REVISION_BASE_CLAIM_INVALID
          else if jr_revision r \<noteq> 1 \<or> jr_status r \<noteq> PREPARED
            \<or> \<not> owns env (rb_owner (jr_binding r)) (rb_authority (jr_binding r)) \<or> name \<noteq> base_claim_name env (jr_binding r)
          then Inl GRAPH_REVISION_BASE_CLAIM_BINDING_INVALID
          else Inr r)"

text \<open>\<open>_claim_base\<close>: the claim is created, or the one that is there must be the same.\<close>

definition claim_base ::
  "journal_env \<Rightarrow> nat \<Rightarrow> journal_record \<Rightarrow> revision_journal \<Rightarrow> nat journal_outcome \<times> revision_journal" where
  "claim_base env left c j =
     (let name = base_claim_name env (jr_binding c)
      in case map_of (rj_claims j) name of
           None \<Rightarrow> if left = 0 then (Died, j)
                   else (Returned (left - 1), j\<lparr>rj_claims := AList.update name (Holds c) (rj_claims j)\<rparr>)
         | Some s \<Rightarrow>
             (case validate_base_claim env name s of Inl e \<Rightarrow> (Raised e, j)
              | Inr existing \<Rightarrow>
                  if jr_transaction existing \<noteq> jr_transaction c then (Raised GRAPH_REVISION_BASE_ALREADY_CLAIMED, j)
                  else if existing \<noteq> c then (Raised GRAPH_REVISION_BASE_CLAIM_CONFLICT, j)
                  else (Returned left, j)))"

text \<open>
  The locked part of \<open>prepare\<close> and of \<open>_materialize_claim\<close>: the current record, or the claimed one
  published, with what is left of the writes.
\<close>

definition publish_first ::
  "journal_env \<Rightarrow> nat \<Rightarrow> journal_record \<Rightarrow> transaction_dir \<Rightarrow> (nat \<times> journal_result) journal_outcome \<times> transaction_dir" where
  "publish_first env left c d =
     (case load_locked env d (jr_transaction c) of Inl e \<Rightarrow> (Raised e, d)
      | Inr (Some r) \<Rightarrow>
          if \<not> same_transaction r c then (Raised GRAPH_REVISION_TRANSACTION_CONFLICT, d)
          else (Returned (left, \<lparr>jo_record = r, jo_committed = False, jo_idempotent = True\<rparr>), d)
      | Inr None \<Rightarrow> bind_outcome (publish_record env left c d) (\<lambda>left' d'.
          (Returned (left', \<lparr>jo_record = c, jo_committed = True, jo_idempotent = False\<rparr>), d')))"

definition materialize_claim ::
  "journal_env \<Rightarrow> nat \<Rightarrow> journal_record \<Rightarrow> revision_journal \<Rightarrow> (nat \<times> journal_result) journal_outcome \<times> revision_journal" where
  "materialize_claim env left c j = in_transaction env True (jr_transaction c) (publish_first env left c) j"

text \<open>The candidate of \<open>prepare\<close>; owner and authority are those of the workspace.\<close>

definition candidate_record :: "journal_env \<Rightarrow> revision_binding \<Rightarrow> recovery_payload \<Rightarrow> journal_record" where
  "candidate_record env b pl =
     (let b' = b\<lparr>rb_owner := je_owner env, rb_authority := je_authority env\<rparr>
      in seal_record (je_hash env) \<lparr>jr_transaction = transaction_id (je_hash env) b' (rp_fp pl), jr_revision = 1,
           jr_status = PREPARED, jr_binding = b', jr_payload = pl, jr_parent = [], jr_fp = []\<rparr>)"

definition prepare ::
  "journal_env \<Rightarrow> nat \<Rightarrow> revision_binding \<Rightarrow> recovery_payload \<Rightarrow> revision_journal
    \<Rightarrow> (nat \<times> journal_result) journal_outcome \<times> revision_journal" where
  "prepare env left b pl j =
     (let c = candidate_record env b pl
      in case validate_payload (je_hash env) pl of Inl e \<Rightarrow> (Raised e, j)
         | Inr _ \<Rightarrow>
             if rp_fp pl = [] \<or> rp_fp pl \<noteq> payload_fingerprint (je_hash env) pl
             then (Raised GRAPH_REVISION_RECOVERY_PAYLOAD_UNSEALED, j)
             else (case validate_record (je_hash env) c of Inl e \<Rightarrow> (Raised e, j)
                   | Inr _ \<Rightarrow> bind_outcome (claim_base env left c j) (\<lambda>left' j'. materialize_claim env left' c j')))"

text \<open>The \<open>while\<close> loop of \<open>advance\<close>: back to the record that reached the target.\<close>

lemma load_historical_revision: "load_historical env d t n fp = Inr r \<Longrightarrow> jr_revision r = n \<and> 1 \<le> n"
  by (auto simp: load_historical_def split: if_splits option.splits stored.splits)

function rewind ::
  "journal_env \<Rightarrow> transaction_dir \<Rightarrow> string \<Rightarrow> revision_status \<Rightarrow> journal_record \<Rightarrow> journal_error + journal_record" where
  "rewind env d t target r =
     (if status_ordinal (jr_status r) \<le> status_ordinal target then Inr r
      else case load_historical env d t (jr_revision r - 1) (jr_parent r) of
        Inl e \<Rightarrow> Inl e
      | Inr r' \<Rightarrow> rewind env d t target r')"
  by pat_completeness auto
termination
  by (relation "measure (\<lambda>(env, d, t, target, r). nat (jr_revision r))") (auto dest!: load_historical_revision)

definition next_record :: "(string \<Rightarrow> string) \<Rightarrow> revision_status \<Rightarrow> journal_record \<Rightarrow> journal_record" where
  "next_record h target r = seal_record h (r\<lparr>jr_revision := jr_revision r + 1, jr_status := target, jr_parent := jr_fp r, jr_fp := []\<rparr>)"

definition advance_locked ::
  "journal_env \<Rightarrow> nat \<Rightarrow> string \<Rightarrow> revision_status \<Rightarrow> int \<Rightarrow> string \<Rightarrow> transaction_dir
    \<Rightarrow> (nat \<times> journal_result) journal_outcome \<times> transaction_dir" where
  "advance_locked env left t target expected fp d =
     (case load_locked env d t of Inl e \<Rightarrow> (Raised e, d)
      | Inr None \<Rightarrow> (Raised GRAPH_REVISION_TRANSACTION_NOT_FOUND, d)
      | Inr (Some r) \<Rightarrow>
          if status_ordinal target \<le> status_ordinal (jr_status r)
          then (case rewind env d t target r of Inl e \<Rightarrow> (Raised e, d)
            | Inr r' \<Rightarrow>
                if jr_status r' \<noteq> target \<or> jr_revision r' \<noteq> expected + 1 \<or> jr_parent r' \<noteq> py_strip fp
                then (Raised GRAPH_REVISION_JOURNAL_CAS_CONFLICT, d)
                else (Returned (left, \<lparr>jo_record = r, jo_committed = False, jo_idempotent = True\<rparr>), d))
          else if status_ordinal target \<noteq> status_ordinal (jr_status r) + 1 then (Raised GRAPH_REVISION_STATUS_JUMP_FORBIDDEN, d)
          else if jr_revision r \<noteq> expected \<or> jr_fp r \<noteq> py_strip fp then (Raised GRAPH_REVISION_JOURNAL_CAS_CONFLICT, d)
          else (let n = next_record (je_hash env) target r
            in case validate_record (je_hash env) n of Inl e \<Rightarrow> (Raised e, d)
               | Inr _ \<Rightarrow> bind_outcome (publish_record env left n d) (\<lambda>left' d'.
                   (Returned (left', \<lparr>jo_record = n, jo_committed = True, jo_idempotent = False\<rparr>), d'))))"

definition advance ::
  "journal_env \<Rightarrow> nat \<Rightarrow> string \<Rightarrow> revision_status \<Rightarrow> int \<Rightarrow> string \<Rightarrow> revision_journal
    \<Rightarrow> (nat \<times> journal_result) journal_outcome \<times> revision_journal" where
  "advance env left t target expected fp j = in_transaction env False t (advance_locked env left t target expected fp) j"

definition load_record :: "journal_env \<Rightarrow> string \<Rightarrow> revision_journal \<Rightarrow> journal_error + journal_record option" where
  "load_record env t j =
     (if py_strip t = [] then Inl GRAPH_REVISION_TRANSACTION_ID_REQUIRED
      else case map_of (rj_transactions j) (transaction_component env t) of
        None \<Rightarrow> Inr None
      | Some d \<Rightarrow> load_locked env d t)"

datatype next_action = COMMIT_POPULATION | COMMIT_EXECUTION | COMPLETE

fun next_action_of :: "revision_status \<Rightarrow> next_action" where
  "next_action_of PREPARED = COMMIT_POPULATION"
| "next_action_of POPULATION_COMMITTED = COMMIT_EXECUTION"
| "next_action_of EXECUTION_COMMITTED = COMPLETE"

record revision_recovery =
  rr_action :: next_action
  rr_roll_forward :: bool
  rr_record :: journal_record

definition recovery_of :: "journal_record \<Rightarrow> revision_recovery" where
  "recovery_of r = \<lparr>rr_action = next_action_of (jr_status r), rr_roll_forward = (jr_status r \<noteq> EXECUTION_COMMITTED),
     rr_record = r\<rparr>"

definition load_recovery :: "journal_env \<Rightarrow> string \<Rightarrow> revision_journal \<Rightarrow> journal_error + revision_recovery option" where
  "load_recovery env t j = bind_res (load_record env t j) (\<lambda>r. Inr (map_option recovery_of r))"

text \<open>\<open>discover_pending\<close>: the loop over the sorted names of the claims.\<close>

fun discover_loop ::
  "journal_env \<Rightarrow> nat \<Rightarrow> string list \<Rightarrow> revision_recovery list \<Rightarrow> revision_journal
    \<Rightarrow> (nat \<times> revision_recovery list) journal_outcome \<times> revision_journal" where
  "discover_loop env left [] found j = (Returned (left, found), j)"
| "discover_loop env left (name # names) found j =
     (if \<not> starts_with name ''base_claim_'' then discover_loop env left names found j
      else if \<not> valid_base_claim_component name then (Raised GRAPH_REVISION_JOURNAL_DIRECTORY_INVALID, j)
      else case map_of (rj_claims j) name of None \<Rightarrow> (Raised GRAPH_REVISION_JOURNAL_DIRECTORY_INVALID, j)
      | Some s \<Rightarrow>
          (case validate_base_claim env name s of Inl e \<Rightarrow> (Raised e, j)
           | Inr c \<Rightarrow> bind_outcome (materialize_claim env left c j) (\<lambda>(left', res) j'.
               if jr_status (jo_record res) = EXECUTION_COMMITTED then discover_loop env left' names found j'
               else discover_loop env left' names (found @ [recovery_of (jo_record res)]) j')))"

definition discover_pending ::
  "journal_env \<Rightarrow> nat \<Rightarrow> revision_journal \<Rightarrow> (nat \<times> revision_recovery list) journal_outcome \<times> revision_journal" where
  "discover_pending env left j = discover_loop env left (sort (map fst (rj_claims j))) [] j"

end
