(* ===== verification/Base_Checkpoint.thy ===== *)
theory Base_Checkpoint
  imports Revision_Journal Json_Python
begin

text \<open>
  The checkpoint of the session a graph revision starts from (\<open>GroundedGraphRevisionBaseSessionCheckpoint\<close> of
  \<^verbatim>\<open>grounded_graph_revision_journal.py\<close>): its validation against the goal contract, the active graph and the
  evidence, its seal, and the file it is kept in, named by the digest of its content.

  Dumps of typed models are those models; dictionaries the checkpoint only carries are JSON objects. Creating
  a file is atomic, so a process that dies has created it or not.
\<close>

section \<open>Data\<close>

type_synonym jobject = "(string, json) dict"

datatype checkpoint_error =
    GRAPH_REVISION_BASE_BRANCH_CLIENT_KEY_REQUIRED
  | GRAPH_REVISION_BASE_BRANCH_QUERY_ID_REQUIRED
  | GRAPH_REVISION_BASE_BRANCH_STATUS_REQUIRED
  | GRAPH_REVISION_BASE_BRANCH_DECLARATION_INVALID
  | GRAPH_REVISION_BASE_PUBLISHED_BRANCH_INVALID
  | CheckpointMalformed                                  \<comment> \<open>a bound of a field\<close>
  | CheckpointContract contract_error
  | CheckpointGraph journal_error                        \<comment> \<open>the proposal, the receipts, or an unknown node key\<close>
  | GRAPH_REVISION_BASE_EXECUTION_BINDING_INVALID
  | GRAPH_REVISION_BASE_POPULATION_BINDING_INVALID
  | GRAPH_REVISION_BASE_BRANCH_SET_INVALID
  | GRAPH_REVISION_BASE_SEMANTIC_EVIDENCE_INVALID
  | GRAPH_REVISION_BASE_BRANCH_BINDING_INVALID
  | GRAPH_REVISION_BASE_QUERY_ARTIFACT_SET_INVALID
  | GRAPH_REVISION_BASE_ARTIFACT_GOAL_BINDING_INVALID
  | GRAPH_REVISION_BASE_ARTIFACT_NODE_BINDING_INVALID
  | GRAPH_REVISION_BASE_PRE_REFERENCE_SET_INVALID
  | GRAPH_REVISION_BASE_SESSION_CHECKPOINT_UNSEALED
  | GRAPH_REVISION_BASE_SESSION_CHECKPOINT_TOO_LARGE
  | GRAPH_REVISION_BASE_SESSION_CHECKPOINT_CONFLICT
  | GRAPH_REVISION_BASE_SESSION_CHECKPOINT_MISSING
  | GRAPH_REVISION_BASE_SESSION_CHECKPOINT_INTEGRITY_FAILED
  | GRAPH_REVISION_BASE_SESSION_CHECKPOINT_INVALID
  | GRAPH_REVISION_BASE_SESSION_CHECKPOINT_BINDING_INVALID
  | BaseSessionReferenceInvalid

record base_branch =
  bb_key :: string
  bb_node :: string
  bb_objective :: string
  bb_goals :: "string list"
  bb_topics :: "string list"
  bb_evidence :: "string list"
  bb_depends :: "string list"
  bb_scopes :: "string list"
  bb_opened :: "string list"
  bb_lifecycle :: node_lifecycle
  bb_status :: string
  bb_artifacts :: "string list"
  bb_gaps :: "jobject list"

record base_checkpoint =
  cp_question :: string
  cp_contract :: goal_contract
  cp_proposal :: graph_proposal
  cp_receipt :: graph_receipt
  cp_population :: population_receipt
  cp_evidence :: "jobject list"
  cp_branches :: "base_branch list"
  cp_runtime :: jobject
  cp_query_artifacts :: "jobject list"
  cp_entity_sets :: "jobject list"
  cp_rule_artifacts :: "jobject list"
  cp_artifact_goals :: "(string, string list) dict"
  cp_pre_references :: "(string, jobject) dict"
  cp_post_results :: "(string, jobject) dict"
  cp_artifact_nodes :: "(string, string) dict"
  cp_goal_gate_id :: string
  cp_goal_gate_result :: jobject
  cp_goal_attestation :: jobject
  cp_data_snapshot :: jobject
  cp_revision_count :: int
  cp_max_revision_count :: int
  cp_opened :: "string list"
  cp_fp :: string

section \<open>The dump and its fingerprint\<close>

text \<open>\<open>to_camel\<close> of \<^verbatim>\<open>merchant_ai/models.py\<close>, the alias of every field; the goal contract is dumped by alias here.\<close>

fun camel_from :: "bool \<Rightarrow> string \<Rightarrow> string" where
  "camel_from up [] = []"
| "camel_from up (c # s) =
     (if c = CHR ''_'' then camel_from True s else (if up then py_upper [c] else [c]) @ camel_from False s)"

definition to_camel :: "string \<Rightarrow> string" where
  "to_camel s = camel_from False s"

fun camel_json :: "json \<Rightarrow> json" where
  "camel_json (JArr js) = JArr (map camel_json js)"
| "camel_json (JObj kvs) = JObj (map (\<lambda>(k, v). (to_camel k, camel_json v)) kvs)"
| "camel_json j = j"

fun lifecycle_text :: "node_lifecycle \<Rightarrow> string" where
  "lifecycle_text UNEXECUTED = ''UNEXECUTED''"
| "lifecycle_text PRE_AUTHORIZED = ''PRE_AUTHORIZED''"
| "lifecycle_text PUBLISHED = ''PUBLISHED''"
| "lifecycle_text EXECUTION_FAILED = ''EXECUTION_FAILED''"

definition branch_json :: "base_branch \<Rightarrow> json" where
  "branch_json b = JObj
     [(''clientKey'', JStr (bb_key b)), (''queryNodeId'', JStr (bb_node b)), (''objective'', JStr (bb_objective b)),
      (''goalIds'', strings_json (bb_goals b)), (''topicScope'', strings_json (bb_topics b)),
      (''evidenceRefIds'', strings_json (bb_evidence b)), (''dependencyQueryNodeIds'', strings_json (bb_depends b)),
      (''contractScopeQueryNodeIds'', strings_json (bb_scopes b)), (''openedTopics'', strings_json (bb_opened b)),
      (''lifecycle'', JStr (lifecycle_text (bb_lifecycle b))), (''status'', JStr (bb_status b)),
      (''verifiedArtifactIds'', strings_json (bb_artifacts b)), (''lastGaps'', JArr (map JObj (bb_gaps b)))]"

definition checkpoint_json :: "base_checkpoint \<Rightarrow> json" where
  "checkpoint_json c = JObj
     [(''checkpointVersion'', JStr ''grounded_graph_revision_base_session.v1''), (''question'', JStr (cp_question c)),
      (''goalContract'', camel_json (contract_json (cp_contract c))), (''executionProposal'', proposal_json (cp_proposal c)),
      (''executionReceipt'', receipt_json (cp_receipt c)), (''populationReceipt'', population_json (cp_population c)),
      (''semanticEvidence'', JArr (map JObj (cp_evidence c))), (''branches'', JArr (map branch_json (cp_branches c))),
      (''runtimeState'', JObj (cp_runtime c)), (''verifiedQueryArtifacts'', JArr (map JObj (cp_query_artifacts c))),
      (''verifiedEntitySets'', JArr (map JObj (cp_entity_sets c))),
      (''verifiedRuleArtifacts'', JArr (map JObj (cp_rule_artifacts c))),
      (''artifactGoalIds'', JObj (map (\<lambda>(k, v). (k, strings_json v)) (cp_artifact_goals c))),
      (''populationPreExecutionReferences'', JObj (map (\<lambda>(k, v). (k, JObj v)) (cp_pre_references c))),
      (''populationPostGateResults'', JObj (map (\<lambda>(k, v). (k, JObj v)) (cp_post_results c))),
      (''populationArtifactQueryNodeIds'', JObj (map (\<lambda>(k, v). (k, JStr v)) (cp_artifact_nodes c))),
      (''populationGoalGateId'', JStr (cp_goal_gate_id c)), (''populationGoalGateResult'', JObj (cp_goal_gate_result c)),
      (''populationGoalAttestation'', JObj (cp_goal_attestation c)),
      (''executionGraphDataSnapshot'', JObj (cp_data_snapshot c)),
      (''executionGraphRevisionCount'', JInt (cp_revision_count c)),
      (''executionGraphMaxRevisionCount'', JInt (cp_max_revision_count c)), (''openedTopics'', strings_json (cp_opened c)),
      (''checkpointFingerprint'', JStr (cp_fp c))]"

definition checkpoint_fingerprint :: "(string \<Rightarrow> string) \<Rightarrow> base_checkpoint \<Rightarrow> string" where
  "checkpoint_fingerprint h c = stable_fingerprint h (checkpoint_json (c\<lparr>cp_fp := []\<rparr>))"

section \<open>Validation\<close>

definition validate_branch :: "base_branch \<Rightarrow> checkpoint_error + unit" where
  "validate_branch b =
     (if py_strip (bb_key b) = [] then Inl GRAPH_REVISION_BASE_BRANCH_CLIENT_KEY_REQUIRED
      else if py_strip (bb_node b) = [] then Inl GRAPH_REVISION_BASE_BRANCH_QUERY_ID_REQUIRED
      else if py_strip (bb_status b) = [] then Inl GRAPH_REVISION_BASE_BRANCH_STATUS_REQUIRED
      else if \<not> list_all texts_ok [bb_goals b, bb_topics b, bb_evidence b, bb_depends b, bb_scopes b, bb_opened b, bb_artifacts b]
      then Inl GRAPH_REVISION_BASE_BRANCH_DECLARATION_INVALID
      else if bb_lifecycle b = PUBLISHED \<and> (bb_artifacts b = [] \<or> bb_status b \<noteq> ''VERIFIED'')
      then Inl GRAPH_REVISION_BASE_PUBLISHED_BRANCH_INVALID
      else Inr ())"

definition evidence_of :: "jobject \<Rightarrow> evidence_item" where
  "evidence_of d = \<lparr>ref_id = payload_text d ''refId'', content_hash = payload_text d ''contentHash'',
     topic = payload_text d ''topic''\<rparr>"

definition execution_bound ::
  "(string \<Rightarrow> string) \<Rightarrow> base_checkpoint \<Rightarrow> goal_contract \<Rightarrow> string \<Rightarrow> graph_proposal \<Rightarrow> bool" where
  "execution_bound h c contract goal_fp p \<longleftrightarrow> py_strip (cp_question c) = py_strip (question contract)
     \<and> goal_contract_fp p = goal_fp \<and> receipt_fp (cp_receipt c) = execution_graph_fingerprint h p
     \<and> receipt_snapshot_fp (cp_receipt c) = discovery_snapshot_fp p
     \<and> discovery_snapshot_fp p = evidence_snapshot_fingerprint h (map evidence_of (cp_evidence c))"

definition branch_set_ok :: "graph_proposal \<Rightarrow> graph_receipt \<Rightarrow> base_branch list \<Rightarrow> bool" where
  "branch_set_ok p r bs \<longleftrightarrow> distinct (map bb_key bs) \<and> bb_key ` set bs = client_key ` set (nodes p)
     \<and> fst ` set (node_ids r) = client_key ` set (nodes p)"

definition branch_matches :: "graph_proposal \<Rightarrow> graph_receipt \<Rightarrow> string list \<Rightarrow> node_spec \<Rightarrow> base_branch \<Rightarrow> bool" where
  "branch_matches p r refs n b \<longleftrightarrow>
     bb_node b = dict_get (node_ids r) (client_key n) [] \<and> bb_objective b = objective n \<and>
     bb_goals b = node_goal_ids n \<and> bb_topics b = topic_scope n \<and> bb_evidence b = evidence_ref_ids n \<and>
     set (bb_evidence b) \<subseteq> set refs \<and>
     set (bb_depends b) = set (incoming r p VERIFIED_ARTIFACT (client_key n)) \<and>
     set (bb_scopes b) = set (incoming r p CONTRACT_SCOPE (client_key n))"

definition evidence_refs :: "base_checkpoint \<Rightarrow> string list" where
  "evidence_refs c = remdups (filter (\<lambda>t. t \<noteq> []) (map (\<lambda>d. py_strip (payload_text d ''refId'')) (cp_evidence c)))"

definition artifact_ids :: "base_checkpoint \<Rightarrow> string list" where
  "artifact_ids c = map (\<lambda>d. py_strip (payload_text d ''artifactId'')) (cp_query_artifacts c)"

text \<open>The checks on what the branches have produced, and the seal.\<close>

definition artifact_checks ::
  "(string \<Rightarrow> string) \<Rightarrow> base_checkpoint \<Rightarrow> string list \<Rightarrow> string list \<Rightarrow> checkpoint_error + unit" where
  "artifact_checks h c known_goals query_nodes =
     (let ids = artifact_ids c
      in if [] \<in> set ids \<or> \<not> distinct ids then Inl GRAPH_REVISION_BASE_QUERY_ARTIFACT_SET_INVALID
         else if list_ex (\<lambda>(a, gs). a \<notin> set ids \<or> gs = [] \<or> \<not> set gs \<subseteq> set known_goals) (cp_artifact_goals c)
         then Inl GRAPH_REVISION_BASE_ARTIFACT_GOAL_BINDING_INVALID
         else if list_ex (\<lambda>(a, q). a \<notin> set ids \<or> q \<notin> set query_nodes) (cp_artifact_nodes c)
         then Inl GRAPH_REVISION_BASE_ARTIFACT_NODE_BINDING_INVALID
         else if list_ex (\<lambda>(q, _). q \<notin> set query_nodes) (cp_pre_references c)
         then Inl GRAPH_REVISION_BASE_PRE_REFERENCE_SET_INVALID
         else if cp_fp c \<noteq> [] \<and> cp_fp c \<noteq> checkpoint_fingerprint h c then Inl GRAPH_REVISION_BASE_SESSION_CHECKPOINT_UNSEALED
         else Inr ())"

definition graph_checks ::
  "(string \<Rightarrow> string) \<Rightarrow> base_checkpoint \<Rightarrow> goal_contract \<Rightarrow> graph_proposal \<Rightarrow> string \<Rightarrow> checkpoint_error + unit" where
  "graph_checks h c contract p goal_fp =
     (let r = cp_receipt c
      in if \<not> execution_bound h c contract goal_fp p then Inl GRAPH_REVISION_BASE_EXECUTION_BINDING_INVALID
         else if \<not> population_bound h r (cp_population c) then Inl GRAPH_REVISION_BASE_POPULATION_BINDING_INVALID
         else if \<not> branch_set_ok p r (cp_branches c) then Inl GRAPH_REVISION_BASE_BRANCH_SET_INVALID
         else if \<not> edge_keys_ok r p then Inl (CheckpointGraph EdgeKeyMissing)
         else if length (evidence_refs c) \<noteq> length (cp_evidence c) then Inl GRAPH_REVISION_BASE_SEMANTIC_EVIDENCE_INVALID
         else if \<not> list_all (\<lambda>b. case node_of_key p (bb_key b) of None \<Rightarrow> False
                | Some n \<Rightarrow> branch_matches p r (evidence_refs c) n b) (cp_branches c)
         then Inl GRAPH_REVISION_BASE_BRANCH_BINDING_INVALID
         else artifact_checks h c (map goal_id (goals contract)) (map snd (node_ids r)))"

definition validate_checkpoint :: "(string \<Rightarrow> string) \<Rightarrow> base_checkpoint \<Rightarrow> checkpoint_error + unit" where
  "validate_checkpoint h c =
     bind_res (map_res validate_branch (cp_branches c)) (\<lambda>_.
       if cp_revision_count c < 0 \<or> cp_max_revision_count c < 1 then Inl CheckpointMalformed
       else case normalize_contract (cp_contract c) of Inl e \<Rightarrow> Inl (CheckpointContract (SchemaInvalid e))
       | Inr contract \<Rightarrow>
           (case parse_proposal (cp_proposal c) of Inl e \<Rightarrow> Inl (CheckpointGraph e)
            | Inr p \<Rightarrow>
                if \<not> population_receipt_ok (cp_population c) then Inl (CheckpointGraph PopulationReceiptMalformed)
                else case goal_contract_fingerprint h contract of Inl e \<Rightarrow> Inl (CheckpointContract e)
                | Inr goal_fp \<Rightarrow> graph_checks h c contract p goal_fp))"

definition seal_checkpoint :: "(string \<Rightarrow> string) \<Rightarrow> base_checkpoint \<Rightarrow> checkpoint_error + base_checkpoint" where
  "seal_checkpoint h c =
     (let sealed = c\<lparr>cp_fp := checkpoint_fingerprint h c\<rparr>
      in bind_res (validate_checkpoint h sealed) (\<lambda>_. Inr sealed))"

section \<open>The files\<close>

definition max_base_session_bytes :: nat where
  "max_base_session_bytes = 64 * 1024 * 1024"

definition base_session_component :: "string \<Rightarrow> string" where
  "base_session_component sha = ''checkpoint_'' @ py_strip sha @ ''.json''"

type_synonym session_files = "(string, base_checkpoint stored) dict"

definition persist_base_session ::
  "(string \<Rightarrow> string) \<Rightarrow> base_checkpoint \<Rightarrow> session_files \<Rightarrow> (checkpoint_error + base_reference) \<times> session_files" where
  "persist_base_session h c s =
     (case validate_checkpoint h c of Inl e \<Rightarrow> (Inl e, s)
      | Inr _ \<Rightarrow>
          let text = dumps (checkpoint_json c); name = base_session_component (h text);
              reference = \<lparr>br_checkpoint_fp = cp_fp c, br_sha256 = h text, br_bytes = int (utf8_length text)\<rparr>
          in if cp_fp c = [] \<or> cp_fp c \<noteq> checkpoint_fingerprint h c
             then (Inl GRAPH_REVISION_BASE_SESSION_CHECKPOINT_UNSEALED, s)
             else if max_base_session_bytes < utf8_length text
             then (Inl GRAPH_REVISION_BASE_SESSION_CHECKPOINT_TOO_LARGE, s)
             else (case map_of s name of None \<Rightarrow> (Inr reference, AList.update name (Holds c) s)
               | Some existing \<Rightarrow>
                   if stored_text checkpoint_json existing \<noteq> text
                   then (Inl GRAPH_REVISION_BASE_SESSION_CHECKPOINT_CONFLICT, s)
                   else (Inr reference, s)))"

definition load_base_session ::
  "(string \<Rightarrow> string) \<Rightarrow> base_reference \<Rightarrow> session_files \<Rightarrow> checkpoint_error + base_checkpoint" where
  "load_base_session h b s =
     (if \<not> reference_ok b then Inl BaseSessionReferenceInvalid
      else if int max_base_session_bytes < br_bytes b then Inl GRAPH_REVISION_BASE_SESSION_CHECKPOINT_TOO_LARGE
      else case map_of s (base_session_component (br_sha256 b)) of
        None \<Rightarrow> Inl GRAPH_REVISION_BASE_SESSION_CHECKPOINT_MISSING
      | Some f \<Rightarrow>
          let text = stored_text checkpoint_json f
          in if int (utf8_length text) \<noteq> br_bytes b \<or> max_base_session_bytes < utf8_length text \<or> h text \<noteq> br_sha256 b
             then Inl GRAPH_REVISION_BASE_SESSION_CHECKPOINT_INTEGRITY_FAILED
             else (case f of Damaged _ \<Rightarrow> Inl GRAPH_REVISION_BASE_SESSION_CHECKPOINT_INVALID
               | Holds c \<Rightarrow>
                   if validate_checkpoint h c \<noteq> Inr () then Inl GRAPH_REVISION_BASE_SESSION_CHECKPOINT_INVALID
                   else if cp_fp c \<noteq> br_checkpoint_fp b
                   then Inl GRAPH_REVISION_BASE_SESSION_CHECKPOINT_BINDING_INVALID
                   else Inr c))"

section \<open>What is kept\<close>

inductive persist_step :: "journal_env \<Rightarrow> session_files \<Rightarrow> session_files \<Rightarrow> bool" for env where
  persists: "persist_step env s (snd (persist_base_session (je_hash env) c s))"

definition kept_file :: "(string \<Rightarrow> string) \<Rightarrow> string \<Rightarrow> base_checkpoint stored \<Rightarrow> bool" where
  "kept_file h name f \<longleftrightarrow> (\<exists>c. f = Holds c \<and> validate_checkpoint h c = Inr () \<and> cp_fp c = checkpoint_fingerprint h c)"

definition files_ok :: "(string \<Rightarrow> string) \<Rightarrow> session_files \<Rightarrow> bool" where
  "files_ok h s \<longleftrightarrow> (\<forall>name f. map_of s name = Some f \<longrightarrow> kept_file h name f)"

lemma persist_ok: "files_ok h s \<Longrightarrow> files_ok h (snd (persist_base_session h c s))"
  by (auto simp: persist_base_session_def files_ok_def kept_file_def Let_def split: sum.splits option.splits if_splits)

lemma persist_keeps: "map_of s name = Some f \<Longrightarrow> map_of (snd (persist_base_session h c s)) name = Some f"
  by (auto simp: persist_base_session_def Let_def split: sum.splits option.splits if_splits)

lemma persist_steps_ok: "(persist_step env)\<^sup>*\<^sup>* s s' \<Longrightarrow> files_ok (je_hash env) s \<Longrightarrow> files_ok (je_hash env) s'"
  by (induction rule: rtranclp_induct) (auto elim!: persist_step.cases intro: persist_ok)

lemma persist_steps_keep: "(persist_step env)\<^sup>*\<^sup>* s s' \<Longrightarrow> map_of s name = Some f \<Longrightarrow> map_of s' name = Some f"
  by (induction rule: rtranclp_induct) (auto elim!: persist_step.cases intro: persist_keeps)

lemma checkpoint_json_fp:
  assumes "canon (checkpoint_json c) = canon (checkpoint_json d)"
  shows "cp_fp c = cp_fp d"
proof -
  have "distinct (map fst kvs) \<and> map_of kvs ''checkpointFingerprint'' = Some (JStr (cp_fp x))"
    if "checkpoint_json x = JObj kvs" for x kvs
    using that unfolding checkpoint_json_def json.inject by auto
  note field = this
  obtain kc kd where k: "checkpoint_json c = JObj kc" "checkpoint_json d = JObj kd" unfolding checkpoint_json_def by blast
  have "map_option canon (map_of kc ''checkpointFingerprint'') = map_option canon (map_of kd ''checkpointFingerprint'')"
    using assms field [OF k(1)] field [OF k(2)] unfolding k by (intro canon_eq_field) blast+
  then show ?thesis using field [OF k(1)] field [OF k(2)] by simp
qed

lemma persisted_file:
  assumes "files_ok h s" "persist_base_session h c s = (Inr b, s')"
  shows "\<exists>d. map_of s' (base_session_component (br_sha256 b)) = Some (Holds d) \<and> validate_checkpoint h d = Inr ()
    \<and> canon (checkpoint_json d) = canon (checkpoint_json c) \<and> cp_fp d = br_checkpoint_fp b
    \<and> br_sha256 b = h (dumps (checkpoint_json d)) \<and> br_bytes b = int (utf8_length (dumps (checkpoint_json d)))
    \<and> utf8_length (dumps (checkpoint_json d)) \<le> max_base_session_bytes
    \<and> cp_fp c = checkpoint_fingerprint h c"
proof -
  let ?text = "dumps (checkpoint_json c)"
  have v: "validate_checkpoint h c = Inr ()" "cp_fp c = checkpoint_fingerprint h c" "utf8_length ?text \<le> max_base_session_bytes"
    and b: "b = \<lparr>br_checkpoint_fp = cp_fp c, br_sha256 = h ?text, br_bytes = int (utf8_length ?text)\<rparr>"
    using assms(2) by (auto simp: persist_base_session_def Let_def split: sum.splits option.splits if_splits)
  show ?thesis
  proof (cases "map_of s (base_session_component (h ?text))")
    case None
    then have "s' = AList.update (base_session_component (h ?text)) (Holds c) s"
      using assms(2) v by (auto simp: persist_base_session_def Let_def split: if_splits)
    then show ?thesis using v b by (intro exI [of _ c]) simp
  next
    case (Some f)
    then have s': "s' = s" "stored_text checkpoint_json f = ?text"
      using assms(2) v by (auto simp: persist_base_session_def Let_def split: if_splits)
    obtain d where d: "f = Holds d" "validate_checkpoint h d = Inr ()"
      using assms(1) Some unfolding files_ok_def kept_file_def by blast
    have same_text: "dumps (checkpoint_json d) = ?text" using s'(2) d(1) by simp
    then have same: "canon (checkpoint_json d) = canon (checkpoint_json c)" by (simp only: dumps_eq_iff)
    have "cp_fp d = br_checkpoint_fp b" using checkpoint_json_fp [OF same] b by simp
    moreover have "map_of s' (base_session_component (br_sha256 b)) = Some (Holds d)" using Some d(1) s'(1) b by simp
    moreover have "br_sha256 b = h (dumps (checkpoint_json d))" "br_bytes b = int (utf8_length (dumps (checkpoint_json d)))"
      "utf8_length (dumps (checkpoint_json d)) \<le> max_base_session_bytes" unfolding same_text using b v(3) by simp_all
    ultimately show ?thesis using d(2) v(2) same by blast
  qed
qed

end
