(* ===== verification/Journal_Laws.thy ===== *)
theory Journal_Laws
  imports Revision_Journal
begin

text \<open>
  What the transaction journal of graph revisions guarantees, whatever processes interleave and wherever they
  die: a base is claimed by one revision, a transaction only moves forward through its three records, and
  recovery finds exactly the transactions that are not finished.

  The directory of a transaction is determined by its claim and a number of writes (\<open>dir_at\<close>): the record
  and the head of each of the three statuses, in this order.
\<close>

section \<open>The order of the statuses\<close>

instantiation revision_status :: linorder
begin

definition less_eq_revision_status :: "revision_status \<Rightarrow> revision_status \<Rightarrow> bool" where
  "less_eq_revision_status s t \<longleftrightarrow> status_ordinal s \<le> status_ordinal t"

definition less_revision_status :: "revision_status \<Rightarrow> revision_status \<Rightarrow> bool" where
  "less_revision_status s t \<longleftrightarrow> status_ordinal s < status_ordinal t"

instance
proof
  fix s t :: revision_status
  show "s \<le> t \<Longrightarrow> t \<le> s \<Longrightarrow> s = t" by (cases s; cases t) (simp_all add: less_eq_revision_status_def)
qed (auto simp: less_eq_revision_status_def less_revision_status_def)

end

section \<open>Hashes and names\<close>

text \<open>\<open>hexdigest\<close> gives 64 hexadecimal digits.\<close>

definition hash_ok :: "journal_env \<Rightarrow> bool" where
  "hash_ok env \<longleftrightarrow> (\<forall>x. length (je_hash env x) = 64 \<and> list_all (\<lambda>c. ascii_digit c \<or> c \<in> set ''abcdef'') (je_hash env x))"

lemma hex_not_space: "ascii_digit c \<or> c \<in> set ''abcdef'' \<Longrightarrow> \<not> py_isspace c"
  by (auto simp: ascii_digit_def py_isspace_def) (simp_all add: py_ord_def)

lemma hash_strip: "hash_ok env \<Longrightarrow> py_strip (je_hash env x) = je_hash env x"
  unfolding py_strip_def hash_ok_def
  by (rule strip_of_clean) (use hex_not_space in \<open>auto simp: list_all_iff\<close>)

lemma valid_hash: "hash_ok env \<Longrightarrow> valid_fingerprint (je_hash env x)"
  using hash_strip [of env x] by (simp add: valid_fingerprint_def hash_ok_def)

lemma valid_claim_name: "hash_ok env \<Longrightarrow> valid_base_claim_component (base_claim_name env b)"
proof -
  assume ok: "hash_ok env"
  obtain t where t: "base_claim_name env b = ''base_claim_'' @ je_hash env t @ ''.json''"
    by (auto simp: base_claim_name_def stable_fingerprint_def)
  have l: "length (je_hash env t) = 64" "list_all (\<lambda>c. ascii_digit c \<or> c \<in> set ''abcdef'') (je_hash env t)"
    using ok by (auto simp: hash_ok_def)
  have "ends_with (base_claim_name env b) ''.json''" unfolding t ends_with_iff by (metis append.assoc)
  moreover have "starts_with (base_claim_name env b) ''base_claim_''" unfolding t starts_with_iff by blast
  moreover have "take (length (base_claim_name env b) - 11 - 5) (drop 11 (base_claim_name env b)) = je_hash env t"
    unfolding t using l(1) by (simp add: eval_nat_numeral)
  ultimately show ?thesis using l by (simp add: valid_base_claim_component_def)
qed

lemma starts_claim_name: "starts_with (base_claim_name env b) ''base_claim_''"
  unfolding base_claim_name_def starts_with_iff by blast

lemma int_text_small: "int_text 1 = ''1''" "int_text 2 = ''2''" "int_text 3 = ''3''"
  by code_simp+

lemma record_name_inj:
  assumes "record_name (1 + int i) a = record_name (1 + int k) b" "i < 3" "k < 3"
  shows "i = k"
proof -
  have "i \<in> {0, 1, 2}" "k \<in> {0, 1, 2}" using assms(2,3) by auto
  then show ?thesis using assms(1) by (auto simp: record_name_def int_text_small)
qed

section \<open>The three records of a transaction\<close>

fun status_at :: "nat \<Rightarrow> revision_status" where
  "status_at 0 = PREPARED"
| "status_at (Suc 0) = POPULATION_COMMITTED"
| "status_at (Suc (Suc n)) = EXECUTION_COMMITTED"

primrec chain :: "journal_env \<Rightarrow> journal_record \<Rightarrow> nat \<Rightarrow> journal_record" where
  "chain env c 0 = c"
| "chain env c (Suc n) = next_record (je_hash env) (status_at (Suc n)) (chain env c n)"

definition claim_ok :: "journal_env \<Rightarrow> journal_record \<Rightarrow> bool" where
  "claim_ok env c \<longleftrightarrow> validate_record (je_hash env) c = Inr () \<and> jr_revision c = 1 \<and> jr_status c = PREPARED
     \<and> owns env (rb_owner (jr_binding c)) (rb_authority (jr_binding c))"

lemma seal_record_sel [simp]:
  "jr_transaction (seal_record h r) = jr_transaction r" "jr_revision (seal_record h r) = jr_revision r"
  "jr_status (seal_record h r) = jr_status r" "jr_binding (seal_record h r) = jr_binding r"
  "jr_payload (seal_record h r) = jr_payload r" "jr_parent (seal_record h r) = jr_parent r"
  "jr_fp (seal_record h r) = record_fingerprint h r"
  by (simp_all add: seal_record_def)

lemma record_fingerprint_seal [simp]: "record_fingerprint h (seal_record h r) = record_fingerprint h r"
  by (simp add: record_fingerprint_def seal_record_def)

lemma next_record_sel [simp]:
  "jr_transaction (next_record h s r) = jr_transaction r" "jr_revision (next_record h s r) = jr_revision r + 1"
  "jr_status (next_record h s r) = s" "jr_binding (next_record h s r) = jr_binding r"
  "jr_payload (next_record h s r) = jr_payload r" "jr_parent (next_record h s r) = jr_fp r"
  "jr_fp (next_record h s r) = record_fingerprint h (next_record h s r)"
  by (simp_all add: next_record_def)

declare next_record_sel(7) [simp del]

lemma validate_record_fp: "validate_record h r = Inr () \<Longrightarrow> jr_fp r = record_fingerprint h r \<and> 1 \<le> jr_revision r"
  by (auto simp: validate_record_def split: if_splits elim!: bind_res_InrE)

lemma validate_next_record:
  assumes "validate_record (je_hash env) r = Inr ()" "hash_ok env"
  shows "validate_record (je_hash env) (next_record (je_hash env) s r) = Inr ()"
proof -
  have "valid_fingerprint (jr_fp r)"
    using validate_record_fp [OF assms(1)] valid_hash [OF assms(2)]
    by (simp add: record_fingerprint_def stable_fingerprint_def)
  moreover have "1 \<le> jr_revision r" using validate_record_fp [OF assms(1)] by blast
  ultimately show ?thesis
    using assms(1) next_record_sel(7) [of "je_hash env" s r]
    by (auto simp: validate_record_def split: if_splits elim!: bind_res_InrE)
qed

lemma chain_sel:
  "claim_ok env c \<Longrightarrow> jr_transaction (chain env c n) = jr_transaction c \<and> jr_revision (chain env c n) = 1 + int n
    \<and> jr_status (chain env c n) = status_at n \<and> jr_binding (chain env c n) = jr_binding c
    \<and> jr_payload (chain env c n) = jr_payload c"
  by (induction n) (auto simp: claim_ok_def)

lemma chain_valid: "claim_ok env c \<Longrightarrow> hash_ok env \<Longrightarrow> validate_record (je_hash env) (chain env c n) = Inr ()"
  by (induction n) (auto simp: claim_ok_def validate_next_record)

lemma chain_fp: "claim_ok env c \<Longrightarrow> hash_ok env \<Longrightarrow> \<exists>x. jr_fp (chain env c n) = je_hash env x"
  using validate_record_fp [OF chain_valid, of env c n]
  by (auto simp: record_fingerprint_def stable_fingerprint_def)

section \<open>Directories\<close>

lemma update_append_new: "map_of d k = None \<Longrightarrow> AList.update k v d = d @ [(k, v)]"
  by (induction d) (auto split: if_splits)

text \<open>The directory after \<open>k\<close> writes.\<close>

definition dir_entry :: "journal_env \<Rightarrow> journal_record \<Rightarrow> nat \<Rightarrow> string \<times> journal_record stored" where
  "dir_entry env c i = (record_name (1 + int i) (jr_fp (chain env c i)), Holds (chain env c i))"

definition dir_at :: "journal_env \<Rightarrow> journal_record \<Rightarrow> nat \<Rightarrow> transaction_dir" where
  "dir_at env c k = \<lparr>td_records = map (dir_entry env c) [0..<(k + 1) div 2],
     td_head = (if k < 2 then None else Some (Holds (head_of env (chain env c (k div 2 - 1)))))\<rparr>"

text \<open>The files of the transaction stay below the limits of the journal.\<close>

definition fits :: "journal_env \<Rightarrow> journal_record \<Rightarrow> bool" where
  "fits env c \<longleftrightarrow> (\<forall>n<3. utf8_length (dumps (record_json (chain env c n))) \<le> max_record_bytes \<and>
     utf8_length (dumps (head_json (head_of env (chain env c n)))) \<le> max_head_bytes)"

lemma dir_lookup:
  assumes "i < 3" "k \<le> 6"
  shows "map_of (td_records (dir_at env c k)) (record_name (1 + int i) (jr_fp (chain env c i))) =
    (if i < (k + 1) div 2 then Some (Holds (chain env c i)) else None)"
proof -
  have "map_of (map (dir_entry env c) [0..<m]) (record_name (1 + int i) (jr_fp (chain env c i))) =
      (if i < m then Some (Holds (chain env c i)) else None)" if "m \<le> 3" for m
    using that
  proof (induction m)
    case (Suc m)
    have "map_of (map (dir_entry env c) [0..<Suc m]) = map_of (map (dir_entry env c) [0..<m] @ [dir_entry env c m])"
      by simp
    moreover have "fst (dir_entry env c m) = record_name (1 + int i) (jr_fp (chain env c i)) \<longleftrightarrow> m = i"
      using record_name_inj [of m "jr_fp (chain env c m)" i] Suc.prems assms(1) by (auto simp: dir_entry_def)
    ultimately show ?case
      using Suc by (auto simp: map_add_def dir_entry_def split: option.splits)
  qed simp
  from this [of "(k + 1) div 2"] assms(2) show ?thesis by (simp add: dir_at_def)
qed

lemma head_of_sel [simp]:
  "jh_transaction (head_of env r) = jr_transaction r" "jh_owner (head_of env r) = rb_owner (jr_binding r)"
  "jh_authority (head_of env r) = rb_authority (jr_binding r)" "jh_revision (head_of env r) = jr_revision r"
  "jh_status (head_of env r) = jr_status r" "jh_record_fp (head_of env r) = jr_fp r"
  "jh_record_sha (head_of env r) = je_hash env (dumps (record_json r))"
  "jh_fp (head_of env r) = head_fingerprint (je_hash env) (head_of env r)"
  by (simp_all add: head_of_def Let_def head_fingerprint_def)

lemma dir_at_head: "td_head (dir_at env c k) = (if k < 2 then None else Some (Holds (head_of env (chain env c (k div 2 - 1)))))"
  by (simp add: dir_at_def)

definition sound_claim :: "journal_env \<Rightarrow> journal_record \<Rightarrow> bool" where
  "sound_claim env c \<longleftrightarrow> claim_ok env c \<and> hash_ok env \<and> fits env c"

lemma sound_claimD:
  assumes "sound_claim env c"
  shows "claim_ok env c" "hash_ok env" "fits env c"
  using assms by (simp_all add: sound_claim_def)

lemma chain_simps:
  assumes S: "sound_claim env c"
  shows "jr_transaction (chain env c n) = jr_transaction c" "jr_revision (chain env c n) = 1 + int n"
  "jr_status (chain env c n) = status_at n" "jr_binding (chain env c n) = jr_binding c"
  "jr_payload (chain env c n) = jr_payload c"
  using chain_sel [OF sound_claimD(1) [OF S]] by blast+

lemma owner:
  assumes S: "sound_claim env c"
  shows "owns env (rb_owner (jr_binding c)) (rb_authority (jr_binding c))"
  using sound_claimD(1) [OF S] by (simp add: claim_ok_def)

lemma chain_fp_valid:
  assumes S: "sound_claim env c"
  shows "valid_fingerprint (jr_fp (chain env c n))"
  using chain_fp [OF sound_claimD(1) [OF S] sound_claimD(2) [OF S], of n] valid_hash [OF sound_claimD(2) [OF S]] by auto

lemma chain_fp_strip:
  assumes S: "sound_claim env c"
  shows "py_strip (jr_fp (chain env c n)) = jr_fp (chain env c n)"
  using chain_fp [OF sound_claimD(1) [OF S] sound_claimD(2) [OF S], of n] hash_strip [OF sound_claimD(2) [OF S]] by auto

lemma read_chain:
  assumes S: "sound_claim env c"
    and "i < 3" "i < (k + 1) div 2" "k \<le> 6"
  shows "read_record env (dir_at env c k) (jr_transaction c) (head_of env (chain env c i)) = Inr (chain env c i)"
proof -
  have "map_of (td_records (dir_at env c k)) (record_name (1 + int i) (jr_fp (chain env c i))) = Some (Holds (chain env c i))"
    using dir_lookup [OF assms(2,4)] assms(3) by simp
  moreover have "utf8_length (dumps (record_json (chain env c i))) \<le> max_record_bytes"
    using sound_claimD(3) [OF S] assms(2) by (simp add: fits_def)
  ultimately show ?thesis
    using chain_valid [OF sound_claimD(1) [OF S] sound_claimD(2) [OF S], of i] owner [OF S] by (simp add: read_record_def chain_simps [OF S])
qed

lemma load_dir_at:
  assumes S: "sound_claim env c"
    and "k \<le> 6"
  shows "load_locked env (dir_at env c k) (jr_transaction c) =
    Inr (if k < 2 then None else Some (chain env c (k div 2 - 1)))"
proof (cases "k < 2")
  case False
  let ?i = "k div 2 - 1"
  have i: "?i < 3" "?i < (k + 1) div 2" using assms False by auto
  have "utf8_length (dumps (head_json (head_of env (chain env c ?i)))) \<le> max_head_bytes"
    using sound_claimD(3) [OF S] i(1) by (simp add: fits_def)
  moreover have "valid_fingerprint (je_hash env t)" for t by (rule valid_hash [OF sound_claimD(2) [OF S]])
  moreover note read_chain [OF S i assms(2)]
  ultimately show ?thesis
    using False owner [OF S] chain_fp_valid [OF S, of ?i]
    by (simp add: load_locked_def dir_at_head chain_simps [OF S])
qed (simp add: load_locked_def dir_at_head)

lemma load_dir_other:
  assumes S: "sound_claim env c"
    and "t \<noteq> jr_transaction c" "k \<le> 6"
  shows "load_locked env (dir_at env c k) t = (if k < 2 then Inr None else Inl GRAPH_REVISION_JOURNAL_HEAD_BINDING_INVALID)"
proof (cases "k < 2")
  case False
  have i: "k div 2 - 1 < 3" using assms(3) by auto
  then have "utf8_length (dumps (head_json (head_of env (chain env c (k div 2 - 1))))) \<le> max_head_bytes"
    using sound_claimD(3) [OF S] by (simp add: fits_def)
  then show ?thesis using False assms(2) by (simp add: load_locked_def dir_at_head chain_simps [OF S])
qed (simp add: load_locked_def dir_at_head)

text \<open>Publishing record \<open>i\<close> takes the directory two writes further, or as far as the writes go.\<close>

lemma publish_dir_at:
  assumes S: "sound_claim env c"
    and "i < 3" "k = 2 * i \<or> k = 2 * i + 1"
  shows "publish_record env left (chain env c i) (dir_at env c k) =
    (if 2 * i + 2 \<le> k + left then Returned (k + left - (2 * i + 2)) else Died, dir_at env c (min (k + left) (2 * i + 2)))"
proof -
  have size: "utf8_length (dumps (record_json (chain env c i))) \<le> max_record_bytes"
    using sound_claimD(3) [OF S] assms(2) by (simp add: fits_def)
  have ne: "dumps (record_json (chain env c i)) \<noteq> []" by (rule dumps_nonempty)
  have head: "write_head env n (chain env c i) (dir_at env c (Suc (2 * i))) =
      (if n = 0 then (Died, dir_at env c (Suc (2 * i))) else (Returned (n - 1), dir_at env c (Suc (Suc (2 * i)))))" for n
    by (simp add: write_head_def dir_at_def)
  show ?thesis
  proof (cases "k = 2 * i")
    case True
    have none: "map_of (td_records (dir_at env c k)) (record_name (1 + int i) (jr_fp (chain env c i))) = None"
      using dir_lookup [OF assms(2), of k env c] True assms(2) by simp
    then have "AList.update (record_name (1 + int i) (jr_fp (chain env c i))) (Holds (chain env c i)) (td_records (dir_at env c k)) =
        td_records (dir_at env c k) @ [dir_entry env c i]"
      using update_append_new [OF none] by (simp add: dir_entry_def)
    then have "(dir_at env c k)\<lparr>td_records := AList.update (record_name (1 + int i) (jr_fp (chain env c i)))
        (Holds (chain env c i)) (td_records (dir_at env c k))\<rparr> = dir_at env c (2 * i + 1)"
      using True by (simp add: dir_at_def)
    then show ?thesis
      using True none size by (cases left) (auto simp: publish_record_def chain_simps [OF S] head min_def le_Suc_eq)
  next
    case False
    then have k: "k = 2 * i + 1" using assms(3) by blast
    have "map_of (td_records (dir_at env c k)) (record_name (1 + int i) (jr_fp (chain env c i))) = Some (Holds (chain env c i))"
      using dir_lookup [OF assms(2), of k env c] k assms(2) by simp
    then show ?thesis
      using k size ne head by (auto simp: publish_record_def chain_simps [OF S] min_def le_Suc_eq)
  qed
qed

lemma same_chain:
  assumes S: "sound_claim env c"
  shows "same_transaction (chain env c n) c"
  by (simp add: same_transaction_def chain_simps [OF S])

text \<open>Materialising the claim brings the directory to two writes at least, if the writes last.\<close>

lemma publish_first_dir_at:
  assumes S: "sound_claim env c"
    and "k \<le> 6"
  shows "publish_first env left c (dir_at env c k) =
    (if 2 \<le> k then (Returned (left, \<lparr>jo_record = chain env c (k div 2 - 1), jo_committed = False, jo_idempotent = True\<rparr>), dir_at env c k)
     else if 2 \<le> k + left then (Returned (k + left - 2, \<lparr>jo_record = c, jo_committed = True, jo_idempotent = False\<rparr>), dir_at env c 2)
     else (Died, dir_at env c (k + left)))"
proof (cases "2 \<le> k")
  case True
  then show ?thesis using assms by (simp add: publish_first_def load_dir_at [OF S] same_chain [OF S])
next
  case False
  then have "k = 2 * 0 \<or> k = 2 * 0 + 1" by auto
  from publish_dir_at [OF S _ this, of left]
  have "publish_record env left c (dir_at env c k) =
      (if 2 \<le> k + left then (Returned (k + left - 2), dir_at env c 2) else (Died, dir_at env c (k + left)))"
    by (cases "2 \<le> k + left") (simp_all add: min_absorb1 min_absorb2 numeral_2_eq_2)
  then show ?thesis using assms False by (auto simp: publish_first_def load_dir_at [OF S])
qed

lemma status_at_simps: "status_at 1 = POPULATION_COMMITTED" "status_at 2 = EXECUTION_COMMITTED"
  by (simp_all add: numeral_2_eq_2)

lemma status_ordinal_at: "n < 3 \<Longrightarrow> status_ordinal (status_at n) = 1 + int n"
proof -
  assume "n < 3"
  then consider "n = 0" | "n = 1" | "n = 2" by linarith
  then show ?thesis by cases (simp_all add: status_at_simps)
qed

lemma status_at_inj: "n < 3 \<Longrightarrow> m < 3 \<Longrightarrow> status_at n = status_at m \<Longrightarrow> n = m"
  by (metis status_ordinal_at add_left_cancel of_nat_eq_iff)

lemma status_of_ordinal: "\<exists>n<3. status_at n = s"
proof (cases s)
  case PREPARED
  then show ?thesis by (intro exI [of _ 0]) simp
next
  case POPULATION_COMMITTED
  then show ?thesis by (intro exI [of _ 1]) (simp add: status_at_simps)
next
  case EXECUTION_COMMITTED
  then show ?thesis by (intro exI [of _ 2]) (simp add: status_at_simps)
qed

lemma historical_chain:
  assumes S: "sound_claim env c"
    and "i < 3" "i < (k + 1) div 2" "k \<le> 6"
  shows "load_historical env (dir_at env c k) (jr_transaction c) (1 + int i) (jr_fp (chain env c i)) = Inr (chain env c i)"
proof -
  have "map_of (td_records (dir_at env c k)) (record_name (1 + int i) (jr_fp (chain env c i))) = Some (Holds (chain env c i))"
    using dir_lookup [OF assms(2,4)] assms(3) by simp
  moreover have "utf8_length (dumps (record_json (chain env c i))) \<le> max_record_bytes"
    using sound_claimD(3) [OF S] assms(2) by (simp add: fits_def)
  ultimately show ?thesis
    using chain_valid [OF sound_claimD(1) [OF S] sound_claimD(2) [OF S], of i] owner [OF S] chain_fp_valid [OF S, of i] chain_fp_strip [OF S, of i]
    by (simp add: load_historical_def chain_simps [OF S])
qed

text \<open>The walk back from record \<open>i\<close> to the status of record \<open>m\<close> ends at record \<open>m\<close>.\<close>

lemma rewind_chain:
  assumes S: "sound_claim env c"
    and "m \<le> i" "i < 3" "i < (k + 1) div 2" "k \<le> 6"
  shows "rewind env (dir_at env c k) (jr_transaction c) (status_at m) (chain env c i) = Inr (chain env c m)"
  using assms
proof (induction i)
  case 0
  then show ?case using chain_simps(3) [OF S, of 0] by (simp add: rewind.simps)
next
  case (Suc i)
  show ?case
  proof (cases "m = Suc i")
    case True
    then show ?thesis by (simp add: rewind.simps chain_simps [OF S])
  next
    case False
    then have "\<not> status_ordinal (jr_status (chain env c (Suc i))) \<le> status_ordinal (status_at m)"
      using Suc.prems by (simp add: chain_simps [OF S] status_ordinal_at del: chain.simps)
    moreover have "load_historical env (dir_at env c k) (jr_transaction c) (jr_revision (chain env c (Suc i)) - 1)
        (jr_parent (chain env c (Suc i))) = Inr (chain env c i)"
      using historical_chain [OF S, of i k] Suc.prems by (simp add: chain_simps [OF S])
    ultimately show ?thesis
      using Suc.IH Suc.prems False by (subst rewind.simps) simp
  qed
qed

text \<open>
  \<open>advance\<close> to the status of record \<open>m\<close>: nothing before the first record; a repetition once that record is
  the head or older; and otherwise two more writes, but only from the record just before it, named by its
  revision and fingerprint.
\<close>

lemma advance_dir_at:
  assumes S: "sound_claim env c"
    and "k \<le> 6" "m < 3"
  defines "i \<equiv> k div 2 - 1"
  shows "advance_locked env left (jr_transaction c) (status_at m) expected fp (dir_at env c k) =
    (if k < 2 then (Raised GRAPH_REVISION_TRANSACTION_NOT_FOUND, dir_at env c k)
     else if m \<le> i
     then (if expected = int m \<and> jr_parent (chain env c m) = py_strip fp
       then Returned (left, \<lparr>jo_record = chain env c i, jo_committed = False, jo_idempotent = True\<rparr>)
       else Raised GRAPH_REVISION_JOURNAL_CAS_CONFLICT, dir_at env c k)
     else if m \<noteq> Suc i then (Raised GRAPH_REVISION_STATUS_JUMP_FORBIDDEN, dir_at env c k)
     else if expected \<noteq> 1 + int i \<or> jr_fp (chain env c i) \<noteq> py_strip fp
     then (Raised GRAPH_REVISION_JOURNAL_CAS_CONFLICT, dir_at env c k)
     else if 2 * m + 2 \<le> k + left
     then (Returned (k + left - (2 * m + 2), \<lparr>jo_record = chain env c m, jo_committed = True, jo_idempotent = False\<rparr>),
       dir_at env c (2 * m + 2))
     else (Died, dir_at env c (k + left)))"
proof (cases "k < 2")
  case True
  then show ?thesis using assms(2) by (simp add: advance_locked_def load_dir_at [OF S])
next
  case False
  have i: "i < 3" "i < (k + 1) div 2" "\<not> k < 2" using False assms(2) by (auto simp: i_def)
  have load: "load_locked env (dir_at env c k) (jr_transaction c) = Inr (Some (chain env c i))"
    using load_dir_at [OF S assms(2)] False by (simp add: i_def)
  have ord: "status_ordinal (jr_status (chain env c i)) = 1 + int i" "status_ordinal (status_at m) = 1 + int m"
    using status_ordinal_at i(1) assms(3) by (simp_all add: chain_simps [OF S])
  consider (past) "m \<le> i" | (jump) "i < m" "m \<noteq> Suc i" | (next_one) "m = Suc i" by linarith
  then show ?thesis
  proof cases
    case past
    have "jr_status (chain env c m) = status_at m" "jr_revision (chain env c m) = 1 + int m" by (simp_all add: chain_simps [OF S])
    then show ?thesis
      using past rewind_chain [OF S past i(1,2) assms(2)] False
      by (auto simp: advance_locked_def load ord)
  next
    case jump
    then show ?thesis using False by (simp add: advance_locked_def load ord)
  next
    case next_one
    have ch: "next_record (je_hash env) (status_at m) (chain env c i) = chain env c m" using next_one by simp
    have v: "validate_record (je_hash env) (chain env c m) = Inr ()" by (rule chain_valid [OF sound_claimD(1) [OF S] sound_claimD(2) [OF S]])
    have k: "k = 2 * m \<or> k = 2 * m + 1" using False next_one assms(2) by (auto simp: i_def)
    show ?thesis
      using False next_one publish_dir_at [OF S assms(3) k, of left] ord v
      by (auto simp: advance_locked_def load ch chain_simps [OF S] Let_def min_def)
  qed
qed

lemma advance_other:
  assumes S: "sound_claim env c"
    and "t \<noteq> jr_transaction c" "k \<le> 6"
  shows "snd (advance_locked env left t target expected fp (dir_at env c k)) = dir_at env c k"
  using load_dir_other [OF assms] by (auto simp: advance_locked_def)

section \<open>Steps of the journal\<close>

definition claimed :: "revision_journal \<Rightarrow> journal_record \<Rightarrow> bool" where
  "claimed j c \<longleftrightarrow> (\<exists>name. map_of (rj_claims j) name = Some (Holds c))"

text \<open>
  What the processes do, one durable section at a time: create or confirm a claim, publish the first record
  of a claim, advance a transaction; each may end before its last write.
\<close>

inductive journal_step :: "journal_env \<Rightarrow> revision_journal \<Rightarrow> revision_journal \<Rightarrow> bool" for env where
  claims: "claim_ok env c \<Longrightarrow> journal_step env j (snd (claim_base env left c j))"
| publishes: "claimed j c \<Longrightarrow> journal_step env j (snd (materialize_claim env left c j))"
| advances: "journal_step env j (snd (advance env left t target expected fp j))"

inductive_cases journal_stepE: "journal_step env j j'"

definition empty_journal :: revision_journal where
  "empty_journal = \<lparr>rj_claims = [], rj_transactions = []\<rparr>"

definition journal_reachable :: "journal_env \<Rightarrow> revision_journal \<Rightarrow> bool" where
  "journal_reachable env j \<longleftrightarrow> (journal_step env)\<^sup>*\<^sup>* empty_journal j"

definition journal_ok :: "journal_env \<Rightarrow> revision_journal \<Rightarrow> bool" where
  "journal_ok env j \<longleftrightarrow>
     (\<forall>name s. map_of (rj_claims j) name = Some s \<longrightarrow>
        (\<exists>c. s = Holds c \<and> claim_ok env c \<and> name = base_claim_name env (jr_binding c))) \<and>
     (\<forall>comp d. map_of (rj_transactions j) comp = Some d \<longrightarrow>
        (\<exists>c k. claimed j c \<and> comp = transaction_component env (jr_transaction c) \<and> k \<le> 6 \<and> d = dir_at env c k))"

text \<open>The claims stay below the size limits, and the hashes of their identifiers do not collide.\<close>

definition journal_clean :: "journal_env \<Rightarrow> revision_journal \<Rightarrow> bool" where
  "journal_clean env j \<longleftrightarrow> (\<forall>c. claimed j c \<longrightarrow> fits env c) \<and>
     (\<forall>c c'. claimed j c \<longrightarrow> claimed j c' \<longrightarrow>
        transaction_component env (jr_transaction c) = transaction_component env (jr_transaction c') \<longrightarrow> c = c')"

definition dir_of :: "journal_env \<Rightarrow> revision_journal \<Rightarrow> journal_record \<Rightarrow> transaction_dir" where
  "dir_of env j c = (case map_of (rj_transactions j) (transaction_component env (jr_transaction c)) of
     None \<Rightarrow> no_records | Some d \<Rightarrow> d)"

lemma dir_at_0: "dir_at env c 0 = no_records"
  by (simp add: dir_at_def no_records_def)

lemma claimed_ok: "journal_ok env j \<Longrightarrow> claimed j c \<Longrightarrow> claim_ok env c \<and> map_of (rj_claims j) (base_claim_name env (jr_binding c)) = Some (Holds c)"
  by (auto simp: journal_ok_def claimed_def)

lemma claimed_base: "journal_ok env j \<Longrightarrow> claimed j c \<Longrightarrow> claimed j c' \<Longrightarrow>
    base_claim_name env (jr_binding c) = base_claim_name env (jr_binding c') \<Longrightarrow> c = c'"
  by (metis claimed_ok option.inject stored.inject(1))

lemma claim_transaction: "claim_ok env c \<Longrightarrow> py_strip (jr_transaction c) \<noteq> []"
  by (auto simp: claim_ok_def validate_record_def split: if_splits elim!: bind_res_InrE)

lemma claim_not_blank: "claim_ok env c \<Longrightarrow> py_strip (jr_transaction c) = [] \<Longrightarrow> P"
  using claim_transaction by blast

lemma clean_inj:
  "journal_clean env j \<Longrightarrow> claimed j c \<Longrightarrow> claimed j c' \<Longrightarrow>
    transaction_component env (jr_transaction c) = transaction_component env (jr_transaction c') \<Longrightarrow> c = c'"
  unfolding journal_clean_def by blast

lemma dir_of_cases:
  assumes "journal_ok env j" "journal_clean env j" "claimed j c"
  shows "\<exists>k\<le>6. dir_of env j c = dir_at env c k"
proof (cases "map_of (rj_transactions j) (transaction_component env (jr_transaction c))")
  case None
  then show ?thesis by (intro exI [of _ 0]) (simp add: dir_of_def dir_at_0)
next
  case (Some d)
  with assms(1) obtain c' k where c': "claimed j c'" "k \<le> 6" "d = dir_at env c' k"
    "transaction_component env (jr_transaction c) = transaction_component env (jr_transaction c')"
    unfolding journal_ok_def by blast
  have "c' = c" by (rule clean_inj [OF assms(2) c'(1) assms(3) c'(4) [symmetric]])
  then have "d = dir_at env c k" using c'(3) by simp
  then show ?thesis using Some c'(2) by (intro exI [of _ k]) (simp add: dir_of_def)
qed

lemma claimed_claim_base: "claimed j c \<Longrightarrow> claimed (snd (claim_base env left c' j)) c"
proof -
  assume "claimed j c"
  then obtain n where "map_of (rj_claims j) n = Some (Holds c)" by (auto simp: claimed_def)
  then have "map_of (rj_claims (snd (claim_base env left c' j))) n = Some (Holds c)"
    by (auto simp: claim_base_def Let_def split: option.splits sum.splits if_splits)
  then show ?thesis by (auto simp: claimed_def)
qed

lemma in_transaction_claims [simp]: "rj_claims (snd (in_transaction env b t act j)) = rj_claims j"
  by (auto simp: in_transaction_def Let_def split: option.splits bool.splits prod.splits)

lemma claimed_same: "rj_claims j' = rj_claims j \<Longrightarrow> claimed j' c \<longleftrightarrow> claimed j c"
  by (simp add: claimed_def)

lemma clean_same: "rj_claims j' = rj_claims j \<Longrightarrow> journal_clean env j' \<longleftrightarrow> journal_clean env j"
  by (simp add: journal_clean_def claimed_def)

lemma step_keeps_claims: "journal_step env j j' \<Longrightarrow> claimed j c \<Longrightarrow> claimed j' c"
proof (erule journal_stepE)
  fix c' left assume "claimed j c" "j' = snd (claim_base env left c' j)"
  then show "claimed j' c" using claimed_claim_base by blast
qed (auto simp: materialize_claim_def advance_def claimed_def)

lemma step_clean: "journal_step env j j' \<Longrightarrow> journal_clean env j' \<Longrightarrow> journal_clean env j"
  using step_keeps_claims by (auto simp: journal_clean_def)

text \<open>A section that takes the directory of a claim from one number of writes to another.\<close>

lemma transaction_step:
  assumes ok: "journal_ok env j" and clean: "journal_clean env j" and c: "claimed j c"
    and k: "dir_of env j c = dir_at env c k" "k' \<le> 6" "k \<le> k'"
    and j': "j' = j\<lparr>rj_transactions := AList.update (transaction_component env (jr_transaction c)) (dir_at env c k') (rj_transactions j)\<rparr>"
  shows "journal_ok env j' \<and> dir_of env j' c = dir_at env c k' \<and>
    (\<forall>x. claimed j x \<longrightarrow> x \<noteq> c \<longrightarrow> dir_of env j' x = dir_of env j x)"
proof -
  have cl: "claimed j' x \<longleftrightarrow> claimed j x" for x using j' by (simp add: claimed_def)
  have "journal_ok env j'"
    using ok c k(2) unfolding journal_ok_def cl by (auto simp: j' split: if_splits)
  moreover have "dir_of env j' c = dir_at env c k'" by (simp add: j' dir_of_def)
  moreover have "dir_of env j' x = dir_of env j x" if "claimed j x" "x \<noteq> c" for x
  proof -
    have "transaction_component env (jr_transaction x) \<noteq> transaction_component env (jr_transaction c)"
      using clean_inj [OF clean that(1) c] that(2) by blast
    then show ?thesis by (simp add: j' dir_of_def)
  qed
  ultimately show ?thesis by blast
qed

lemma materialize_eq:
  assumes S: "sound_claim env c" and "dir_of env j c = dir_at env c k" "k \<le> 6"
  shows "materialize_claim env left c j =
    (if 2 \<le> k then Returned (left, \<lparr>jo_record = chain env c (k div 2 - 1), jo_committed = False, jo_idempotent = True\<rparr>)
     else if 2 \<le> k + left then Returned (k + left - 2, \<lparr>jo_record = c, jo_committed = True, jo_idempotent = False\<rparr>)
     else Died,
     j\<lparr>rj_transactions := AList.update (transaction_component env (jr_transaction c))
       (dir_at env c (if 2 \<le> k then k else min 2 (k + left))) (rj_transactions j)\<rparr>)"
proof -
  have "publish_first env left c (dir_of env j c) =
      (if 2 \<le> k then Returned (left, \<lparr>jo_record = chain env c (k div 2 - 1), jo_committed = False, jo_idempotent = True\<rparr>)
       else if 2 \<le> k + left then Returned (k + left - 2, \<lparr>jo_record = c, jo_committed = True, jo_idempotent = False\<rparr>)
       else Died, dir_at env c (if 2 \<le> k then k else min 2 (k + left)))"
    using publish_first_dir_at [OF S assms(3), of left] assms(2) by (simp add: min_def)
  then show ?thesis
    using claim_transaction [OF sound_claimD(1) [OF S]]
    by (auto simp: materialize_claim_def in_transaction_def dir_of_def Let_def split: option.splits)
qed

lemma advance_progress:
  assumes S: "sound_claim env c" and k: "k \<le> 6"
  shows "\<exists>k'. k \<le> k' \<and> k' \<le> 6 \<and> snd (advance_locked env left t target expected fp (dir_at env c k)) = dir_at env c k'"
proof (cases "t = jr_transaction c")
  case True
  obtain m where m: "m < 3" "status_at m = target" using status_of_ordinal by blast
  let ?a = "advance_locked env left (jr_transaction c) (status_at m) expected fp (dir_at env c k)"
  have kd: "k < 2 * (k div 2) + 2" by arith
  have "snd ?a = dir_at env c k \<or> (k < 2 * m + 2 \<and> snd ?a = dir_at env c (2 * m + 2)) \<or>
      (k + left < 2 * m + 2 \<and> snd ?a = dir_at env c (k + left))"
    unfolding advance_dir_at [OF S k m(1)] using kd by auto
  then consider "snd ?a = dir_at env c k" | "k < 2 * m + 2" "snd ?a = dir_at env c (2 * m + 2)"
    | "k + left < 2 * m + 2" "snd ?a = dir_at env c (k + left)" by blast
  then show ?thesis
    unfolding True m(2) [symmetric]
  proof cases
    case 2
    then show "\<exists>k'\<ge>k. k' \<le> 6 \<and> snd ?a = dir_at env c k'"
      using m(1) by (intro exI [of _ "2 * m + 2"]) auto
  next
    case 3
    then show "\<exists>k'\<ge>k. k' \<le> 6 \<and> snd ?a = dir_at env c k'"
      using m(1) by (intro exI [of _ "k + left"]) auto
  qed (use k in blast)
next
  case False
  then show ?thesis using advance_other [OF S False k] k by blast
qed

lemma sound_claims: "journal_ok env j \<Longrightarrow> journal_clean env j \<Longrightarrow> hash_ok env \<Longrightarrow> claimed j c \<Longrightarrow> sound_claim env c"
  using claimed_ok by (auto simp: sound_claim_def journal_clean_def)

text \<open>A step that leaves the directories alone, or moves that of one claim.\<close>

lemma claim_step:
  assumes "journal_ok env j" "claim_ok env c" and j': "j' = snd (claim_base env left c j)"
  shows "journal_ok env j' \<and> rj_transactions j' = rj_transactions j"
proof (cases "map_of (rj_claims j) (base_claim_name env (jr_binding c)) = None \<and> left \<noteq> 0")
  case True
  then have e: "j' = j\<lparr>rj_claims := AList.update (base_claim_name env (jr_binding c)) (Holds c) (rj_claims j)\<rparr>"
    using j' by (simp add: claim_base_def)
  have cl: "claimed j x \<Longrightarrow> claimed j' x" for x using claimed_claim_base unfolding j' by blast
  have "\<exists>c. s = Holds c \<and> claim_ok env c \<and> name = base_claim_name env (jr_binding c)"
    if "map_of (rj_claims j') name = Some s" for name s
    using that assms(1,2) unfolding e journal_ok_def by (auto split: if_splits)
  moreover have "\<exists>c k. claimed j' c \<and> comp = transaction_component env (jr_transaction c) \<and> k \<le> 6 \<and> d = dir_at env c k"
    if "map_of (rj_transactions j') comp = Some d" for comp d
  proof -
    have "map_of (rj_transactions j) comp = Some d" using that by (simp add: e)
    then show ?thesis using assms(1) cl unfolding journal_ok_def by meson
  qed
  ultimately show ?thesis by (simp add: journal_ok_def) (simp add: e)
next
  case False
  then have "j' = j" by (auto simp: j' claim_base_def Let_def split: option.splits sum.splits)
  with assms(1) show ?thesis by simp
qed

lemma publish_step:
  assumes "journal_ok env j" "journal_clean env j" "hash_ok env" "claimed j c"
    and k: "dir_of env j c = dir_at env c k" "k \<le> 6"
  shows "\<exists>k'. k \<le> k' \<and> k' \<le> 6 \<and> snd (materialize_claim env left c j) =
    j\<lparr>rj_transactions := AList.update (transaction_component env (jr_transaction c)) (dir_at env c k') (rj_transactions j)\<rparr>"
proof -
  have "sound_claim env c" using sound_claims assms(1-4) by blast
  from materialize_eq [OF this k, of left] show ?thesis
    using k(2) by (intro exI [of _ "if 2 \<le> k then k else min 2 (k + left)"]) auto
qed

lemma advance_step:
  assumes "journal_ok env j" "journal_clean env j" "hash_ok env"
  shows "snd (advance env left t target expected fp j) = j \<or>
    (\<exists>c. claimed j c \<and> (\<forall>k\<le>6. dir_of env j c = dir_at env c k \<longrightarrow>
      (\<exists>k'. k \<le> k' \<and> k' \<le> 6 \<and> snd (advance env left t target expected fp j) =
        j\<lparr>rj_transactions := AList.update (transaction_component env (jr_transaction c)) (dir_at env c k') (rj_transactions j)\<rparr>)))"
proof (cases "py_strip t = [] \<or> map_of (rj_transactions j) (transaction_component env t) = None")
  case True
  then show ?thesis by (auto simp: advance_def in_transaction_def Let_def)
next
  case False
  then obtain d where d: "map_of (rj_transactions j) (transaction_component env t) = Some d" by auto
  then obtain c where c: "claimed j c" "transaction_component env t = transaction_component env (jr_transaction c)"
    using assms(1) unfolding journal_ok_def by blast
  have S: "sound_claim env c" using sound_claims assms c(1) by blast
  have dir: "dir_of env j c = d" using d c(2) by (simp add: dir_of_def)
  have j': "snd (advance env left t target expected fp j) =
      j\<lparr>rj_transactions := AList.update (transaction_component env t) (snd (advance_locked env left t target expected fp d)) (rj_transactions j)\<rparr>"
    using False d by (simp add: advance_def in_transaction_def Let_def split: prod.split)
  have "\<exists>k'. k \<le> k' \<and> k' \<le> 6 \<and> snd (advance env left t target expected fp j) =
      j\<lparr>rj_transactions := AList.update (transaction_component env (jr_transaction c)) (dir_at env c k') (rj_transactions j)\<rparr>"
    if k: "k \<le> 6" "dir_of env j c = dir_at env c k" for k
    using advance_progress [OF S k(1), of left t target expected fp] k(2) unfolding j' dir c(2) by metis
  with c(1) show ?thesis by blast
qed

text \<open>Every step keeps the invariant, and no directory ever loses a write.\<close>

lemma journal_step_ok:
  assumes "journal_ok env j" "hash_ok env" "journal_step env j j'" "journal_clean env j'"
  shows "journal_ok env j' \<and> (\<forall>c k. claimed j c \<longrightarrow> k \<le> 6 \<longrightarrow> dir_of env j c = dir_at env c k \<longrightarrow>
    (\<exists>k'. k \<le> k' \<and> k' \<le> 6 \<and> dir_of env j' c = dir_at env c k'))"
proof -
  have clean: "journal_clean env j" using step_clean assms(3,4) by blast
  have moved: ?thesis if c: "claimed j c" and m: "\<And>k. k \<le> 6 \<Longrightarrow> dir_of env j c = dir_at env c k \<Longrightarrow>
      \<exists>k'. k \<le> k' \<and> k' \<le> 6 \<and> j' = j\<lparr>rj_transactions := AList.update (transaction_component env (jr_transaction c)) (dir_at env c k') (rj_transactions j)\<rparr>" for c
  proof -
    have one: "\<exists>k'. k \<le> k' \<and> k' \<le> 6 \<and> journal_ok env j' \<and> dir_of env j' c = dir_at env c k' \<and>
        (\<forall>x. claimed j x \<longrightarrow> x \<noteq> c \<longrightarrow> dir_of env j' x = dir_of env j x)"
      if k: "k \<le> 6" "dir_of env j c = dir_at env c k" for k
    proof -
      from m [OF k] obtain k' where k': "k \<le> k'" "k' \<le> 6"
        "j' = j\<lparr>rj_transactions := AList.update (transaction_component env (jr_transaction c)) (dir_at env c k') (rj_transactions j)\<rparr>"
        by blast
      from transaction_step [OF assms(1) clean c k(2) k'(2,1,3)] k'(1,2) show ?thesis by blast
    qed
    obtain k0 where k0: "k0 \<le> 6" "dir_of env j c = dir_at env c k0" using dir_of_cases [OF assms(1) clean c] by blast
    from one [OF k0] have ok: "journal_ok env j'" and
      others: "\<And>x. claimed j x \<Longrightarrow> x \<noteq> c \<Longrightarrow> dir_of env j' x = dir_of env j x" by blast+
    have "\<exists>k'. k \<le> k' \<and> k' \<le> 6 \<and> dir_of env j' x = dir_at env x k'"
      if "claimed j x" "k \<le> 6" "dir_of env j x = dir_at env x k" for x k
    proof (cases "x = c")
      case True
      then show ?thesis using one [of k] that by blast
    next
      case False
      then show ?thesis using others that by (intro exI [of _ k]) simp
    qed
    with ok show ?thesis by blast
  qed
  from assms(3) show ?thesis
  proof (rule journal_stepE)
    fix c left assume c: "j' = snd (claim_base env left c j)" "claim_ok env c"
    then have "journal_ok env j'" "rj_transactions j' = rj_transactions j" using claim_step assms(1) by blast+
    then show ?thesis by (auto simp: dir_of_def)
  next
    fix c left assume c: "j' = snd (materialize_claim env left c j)" "claimed j c"
    show ?thesis
      by (rule moved [OF c(2)]) (use publish_step [OF assms(1) clean assms(2) c(2)] c(1) in blast)
  next
    fix left t target expected fp assume e: "j' = snd (advance env left t target expected fp j)"
    from advance_step [OF assms(1) clean assms(2), of left t target expected fp]
    consider "j' = j" | c where "claimed j c" "\<And>k. k \<le> 6 \<Longrightarrow> dir_of env j c = dir_at env c k \<Longrightarrow>
      \<exists>k'. k \<le> k' \<and> k' \<le> 6 \<and> j' = j\<lparr>rj_transactions := AList.update (transaction_component env (jr_transaction c)) (dir_at env c k') (rj_transactions j)\<rparr>"
      unfolding e by blast
    then show ?thesis
    proof cases
      case 1
      then show ?thesis using assms(1) by auto
    next
      case 2
      then show ?thesis by (rule moved)
    qed
  qed
qed

lemma steps_clean: "(journal_step env)\<^sup>*\<^sup>* j j' \<Longrightarrow> journal_clean env j' \<Longrightarrow> journal_clean env j"
  by (induction rule: converse_rtranclp_induct) (auto intro: step_clean)

lemma steps_claimed: "(journal_step env)\<^sup>*\<^sup>* j j' \<Longrightarrow> claimed j c \<Longrightarrow> claimed j' c"
  by (induction rule: rtranclp_induct) (auto intro: step_keeps_claims)

lemma journal_steps_ok:
  assumes "(journal_step env)\<^sup>*\<^sup>* j j'" "journal_ok env j" "hash_ok env" "journal_clean env j'"
  shows "journal_ok env j' \<and> (\<forall>c k. claimed j c \<longrightarrow> k \<le> 6 \<longrightarrow> dir_of env j c = dir_at env c k \<longrightarrow>
    (\<exists>k'. k \<le> k' \<and> k' \<le> 6 \<and> dir_of env j' c = dir_at env c k'))"
  using assms(1,4)
proof (induction rule: rtranclp_induct)
  case base
  then show ?case using assms(2) by blast
next
  case (step j1 j2)
  have clean: "journal_clean env j1" using step_clean step.hyps(2) step.prems by blast
  note IH = step.IH [OF clean]
  have ok2: "journal_ok env j2" and up: "\<And>c k. claimed j1 c \<Longrightarrow> k \<le> 6 \<Longrightarrow> dir_of env j1 c = dir_at env c k \<Longrightarrow>
      \<exists>k'. k \<le> k' \<and> k' \<le> 6 \<and> dir_of env j2 c = dir_at env c k'"
    using journal_step_ok [OF _ assms(3) step.hyps(2) step.prems] IH by blast+
  have "\<exists>k'. k \<le> k' \<and> k' \<le> 6 \<and> dir_of env j2 c = dir_at env c k'"
    if h: "claimed j c" "k \<le> 6" "dir_of env j c = dir_at env c k" for c k
  proof -
    obtain k1 where k1: "k \<le> k1" "k1 \<le> 6" "dir_of env j1 c = dir_at env c k1" using IH h by blast
    have "claimed j1 c" using steps_claimed [OF step.hyps(1) h(1)] .
    from up [OF this k1(2,3)] k1(1) show ?thesis by (meson le_trans)
  qed
  with ok2 show ?case by blast
qed

lemma empty_ok: "journal_ok env empty_journal"
  by (simp add: journal_ok_def empty_journal_def)

lemma journal_reachable_ok: "journal_reachable env j \<Longrightarrow> hash_ok env \<Longrightarrow> journal_clean env j \<Longrightarrow> journal_ok env j"
  using journal_steps_ok [OF _ empty_ok] by (auto simp: journal_reachable_def)

section \<open>What is loaded\<close>

lemma load_claimed:
  assumes S: "sound_claim env c" and k: "dir_of env j c = dir_at env c k" "k \<le> 6"
  shows "load_record env (jr_transaction c) j = Inr (if k < 2 then None else Some (chain env c (k div 2 - 1)))"
proof -
  have "load_locked env no_records (jr_transaction c) = Inr None" by (simp add: load_locked_def no_records_def)
  then have "load_record env (jr_transaction c) j = load_locked env (dir_of env j c) (jr_transaction c)"
    using claim_transaction [OF sound_claimD(1) [OF S]] by (simp add: load_record_def dir_of_def split: option.split)
  then show ?thesis using load_dir_at [OF S k(2)] k(1) by simp
qed

lemma load_record_chain:
  assumes "journal_ok env j" "journal_clean env j" "hash_ok env" "load_record env t j = Inr (Some r)"
  obtains c k where "claimed j c" "sound_claim env c" "t = jr_transaction c" "2 \<le> k" "k \<le> 6"
    "dir_of env j c = dir_at env c k" "r = chain env c (k div 2 - 1)"
proof -
  from assms(4) obtain d where d: "map_of (rj_transactions j) (transaction_component env t) = Some d"
    "load_locked env d t = Inr (Some r)" by (auto simp: load_record_def split: option.splits if_splits)
  from assms(1) d(1) obtain c k where c: "claimed j c" "k \<le> 6" "d = dir_at env c k"
    "transaction_component env t = transaction_component env (jr_transaction c)"
    unfolding journal_ok_def by blast
  have S: "sound_claim env c" using sound_claims [OF assms(1-3) c(1)] .
  have t: "t = jr_transaction c"
  proof (rule ccontr)
    assume "t \<noteq> jr_transaction c"
    from load_dir_other [OF S this c(2)] d(2) c(3) show False by (simp split: if_splits)
  qed
  have "dir_of env j c = dir_at env c k" using d(1) c(3) t by (simp add: dir_of_def)
  moreover have "2 \<le> k" "r = chain env c (k div 2 - 1)"
    using load_dir_at [OF S c(2)] d(2) c(3) t by (auto split: if_splits)
  ultimately show thesis using that c(1,2) S t by blast
qed

lemma same_base_name:
  assumes "owns env (rb_owner b) (rb_authority b)" "owns env (rb_owner b') (rb_authority b')"
    "rb_base_execution b = rb_base_execution b'" "rb_base_population b = rb_base_population b'"
  shows "base_claim_name env b = base_claim_name env b'"
  using assms by (simp add: base_claim_name_def owns_def)

end
