(* ===== verification/Journal_Recovery.thy ===== *)
theory Journal_Recovery
  imports Journal_Laws
begin

text \<open>
  Recovery from the transaction journal: the loop of \<open>discover_pending\<close> materialises every claim, and the
  properties of the journal as a whole, with a concrete journal of one transaction.
\<close>

section \<open>Recovery\<close>

text \<open>Reading a claim back.\<close>

lemma validate_claim:
  assumes "journal_ok env j" "claimed j c" "sound_claim env c"
  shows "validate_base_claim env (base_claim_name env (jr_binding c)) (Holds c) = Inr c"
  using sound_claimD [OF assms(3)] by (auto simp: validate_base_claim_def claim_ok_def fits_def dest: spec [of _ 0])

text \<open>Materialising every claim of a list brings each of them to two writes at least, and finds its record.\<close>

lemma discover_loop_spec:
  assumes "journal_ok env j" "journal_clean env j" "hash_ok env" "2 * length names \<le> left"
    and "\<And>name. name \<in> set names \<Longrightarrow> \<exists>c. claimed j c \<and> name = base_claim_name env (jr_binding c)"
  shows "\<exists>left' j' found'. discover_loop env left names found j = (Returned (left', found'), j') \<and>
    rj_claims j' = rj_claims j \<and> journal_ok env j' \<and> (journal_step env)\<^sup>*\<^sup>* j j' \<and>
    (\<forall>c k. claimed j c \<longrightarrow> k \<le> 6 \<longrightarrow> dir_of env j c = dir_at env c k \<longrightarrow>
       dir_of env j' c = dir_at env c (if base_claim_name env (jr_binding c) \<in> set names then max k 2 else k)) \<and>
    set found' = set found \<union> {recovery_of r | r. jr_status r \<noteq> EXECUTION_COMMITTED \<and> (\<exists>c. claimed j c \<and>
       base_claim_name env (jr_binding c) \<in> set names \<and> load_record env (jr_transaction c) j' = Inr (Some r))}"
  using assms
proof (induction names arbitrary: j left found)
  case Nil
  then show ?case by auto
next
  case (Cons name names)
  have "\<exists>c. claimed j c \<and> name = base_claim_name env (jr_binding c)" using Cons.prems(5) [of name] by simp
  then obtain c where c: "claimed j c" "name = base_claim_name env (jr_binding c)" by blast
  have S: "sound_claim env c" using sound_claims [OF Cons.prems(1-3) c(1)] .
  obtain k where k: "k \<le> 6" "dir_of env j c = dir_at env c k" using dir_of_cases [OF Cons.prems(1,2) c(1)] by blast
  define k1 where "k1 = max k 2"
  define j1 where "j1 = j\<lparr>rj_transactions := AList.update (transaction_component env (jr_transaction c)) (dir_at env c k1) (rj_transactions j)\<rparr>"
  have k1: "k \<le> k1" "2 \<le> k1" "k1 \<le> 6" using k(1) by (auto simp: k1_def)
  define r where "r = chain env c (k1 div 2 - 1)"
  have "2 \<le> left" using Cons.prems(4) by simp
  then have mat: "\<exists>left1 cm im. materialize_claim env left c j =
      (Returned (left1, \<lparr>jo_record = r, jo_committed = cm, jo_idempotent = im\<rparr>), j1) \<and> 2 * length names \<le> left1"
    using materialize_eq [OF S k(2,1), of left] Cons.prems(4)
    by (cases "2 \<le> k") (auto simp: r_def k1_def j1_def min_def max_def)
  then obtain left1 cm im where m: "materialize_claim env left c j =
      (Returned (left1, \<lparr>jo_record = r, jo_committed = cm, jo_idempotent = im\<rparr>), j1)" "2 * length names \<le> left1"
    by blast
  have cl: "rj_claims j1 = rj_claims j" by (simp add: j1_def)
  have cl': "claimed j1 x \<longleftrightarrow> claimed j x" for x by (simp add: claimed_def cl)
  have t: "journal_ok env j1" "dir_of env j1 c = dir_at env c k1"
    "\<And>x. claimed j x \<Longrightarrow> x \<noteq> c \<Longrightarrow> dir_of env j1 x = dir_of env j x"
    using transaction_step [OF Cons.prems(1,2) c(1) k(2) k1(3,1) j1_def] by blast+
  have clean1: "journal_clean env j1" using Cons.prems(2) by (simp only: clean_same [OF cl])
  have names: "\<exists>c. claimed j1 c \<and> x = base_claim_name env (jr_binding c)" if "x \<in> set names" for x
    using Cons.prems(5) that cl' by simp
  define found1 where "found1 = (if jr_status r = EXECUTION_COMMITTED then found else found @ [recovery_of r])"
  from Cons.IH [OF t(1) clean1 Cons.prems(3) m(2) names, of found1]
  obtain left' j' found' where IH: "discover_loop env left1 names found1 j1 = (Returned (left', found'), j')"
    "rj_claims j' = rj_claims j1" "journal_ok env j'" "(journal_step env)\<^sup>*\<^sup>* j1 j'"
    and dirs: "\<And>x k. claimed j1 x \<Longrightarrow> k \<le> 6 \<Longrightarrow> dir_of env j1 x = dir_at env x k \<Longrightarrow>
       dir_of env j' x = dir_at env x (if base_claim_name env (jr_binding x) \<in> set names then max k 2 else k)"
    and found': "set found' = set found1 \<union> {recovery_of r | r. jr_status r \<noteq> EXECUTION_COMMITTED \<and> (\<exists>c. claimed j1 c \<and>
       base_claim_name env (jr_binding c) \<in> set names \<and> load_record env (jr_transaction c) j' = Inr (Some r))}"
    by blast
  have run: "discover_loop env left (name # names) found j = (Returned (left', found'), j')"
    using validate_claim [OF Cons.prems(1) c(1) S] claimed_ok [OF Cons.prems(1) c(1)] valid_claim_name [OF Cons.prems(3)]
      starts_claim_name m(1) IH(1) c(2)
    by (cases "jr_status r = EXECUTION_COMMITTED") (simp_all add: found1_def)
  have "journal_step env j j1" using journal_step.publishes [OF c(1), of env left] m(1) by simp
  then have steps: "(journal_step env)\<^sup>*\<^sup>* j j'" using IH(4) by (rule converse_rtranclp_into_rtranclp)
  have dc: "dir_of env j' c = dir_at env c k1"
    using dirs [of c k1] c(1) cl' t(2) k1 by (simp split: if_splits)
  have dirs': "dir_of env j' x = dir_at env x (if base_claim_name env (jr_binding x) \<in> set (name # names) then max n 2 else n)"
    if x: "claimed j x" "n \<le> 6" "dir_of env j x = dir_at env x n" for x n
  proof (cases "x = c")
    case True
    have "dir_at env c (max n 2) = dir_at env c k1"
    proof -
      have "dir_at env c n = dir_at env c k" using x(3) k(2) True by simp
      moreover have "n < 2 \<Longrightarrow> dir_at env c n = dir_at env c m \<Longrightarrow> m < 2" for m n
        using dir_at_head [of env c n] dir_at_head [of env c m] by (auto split: if_splits)
      ultimately show ?thesis unfolding k1_def by (metis max.absorb1 max.absorb2 not_le order_less_imp_le)
    qed
    then show ?thesis using dc True c(2) by simp
  next
    case False
    have "base_claim_name env (jr_binding x) \<noteq> name"
      using claimed_base [OF Cons.prems(1) x(1) c(1)] False c(2) by blast
    then show ?thesis using dirs [of x n] x cl' t(3) [OF x(1) False] by simp
  qed
  have load: "load_record env (jr_transaction c) j' = Inr (Some r)"
    using load_claimed [OF S dc k1(3)] k1(2) by (simp add: r_def)
  have "set found' = set found \<union> {recovery_of r | r. jr_status r \<noteq> EXECUTION_COMMITTED \<and> (\<exists>c. claimed j c \<and>
       base_claim_name env (jr_binding c) \<in> set (name # names) \<and> load_record env (jr_transaction c) j' = Inr (Some r))}"
    (is "_ = _ \<union> ?R")
  proof -
    have only: "x = c" if "claimed j x" "base_claim_name env (jr_binding x) = name" for x
      using claimed_base [OF Cons.prems(1) that(1) c(1)] that(2) c(2) by blast
    have any: "(\<exists>x. claimed j x \<and> base_claim_name env (jr_binding x) \<in> set (name # names) \<and> P (jr_transaction x)) \<longleftrightarrow>
        P (jr_transaction c) \<or> (\<exists>x. claimed j1 x \<and> base_claim_name env (jr_binding x) \<in> set names \<and> P (jr_transaction x))" for P
      using c only unfolding cl' set_simps insert_iff by metis
    have "?R = {recovery_of r' | r'. jr_status r' \<noteq> EXECUTION_COMMITTED \<and> (r' = r \<or> (\<exists>x. claimed j1 x \<and>
         base_claim_name env (jr_binding x) \<in> set names \<and> load_record env (jr_transaction x) j' = Inr (Some r')))}"
      unfolding any [of "\<lambda>t. load_record env t j' = Inr (Some _)"] load by (simp add: eq_commute)
    then show ?thesis unfolding found' found1_def by auto
  qed
  with run IH(2,3) cl steps dirs' show ?case by (intro exI conjI) auto
qed

section \<open>The size of a text\<close>

text \<open>A bound on the bytes of a canonical text, computed from the value.\<close>

primrec text_size :: "string \<Rightarrow> int" where
  "text_size [] = 0"
| "text_size (c # s) = 6 + text_size s"

fun json_size :: "json \<Rightarrow> int" where
  "json_size JNull = 4"
| "json_size (JBool b) = 5"
| "json_size (JInt i) = text_size (int_text i)"
| "json_size (JStr s) = 2 + text_size s"
| "json_size (JArr js) = 2 + sum_list (map (\<lambda>j. 1 + json_size j) js)"
| "json_size (JObj kvs) = 2 + sum_list (map (\<lambda>kv. 4 + text_size (fst kv) + json_size (snd kv)) kvs)"

lemma text_size: "text_size s = 6 * int (length s)"
  by (induction s) auto

lemma escape_char_short: "length (escape_char c) \<le> 6"
  by (simp add: escape_char_def Let_def)

lemma quote_short: "int (length (quote s)) \<le> 2 + text_size s"
proof -
  have "length (concat (map escape_char s)) \<le> 6 * length s"
  proof (induction s)
    case (Cons c s)
    then show ?case using escape_char_short [of c] by simp
  qed simp
  then show ?thesis by (simp add: quote_def text_size)
qed

lemma join_comma_short: "int (length (join_comma [] xs)) \<le> sum_list (map (\<lambda>x. 1 + int (length x)) xs)"
  by (induction "[] :: string" xs rule: join_comma.induct) auto

lemma sum_list_sort: "sum_list (map f (sort_key g xs)) = (sum_list (map f xs) :: int)"
  by (metis mset_map mset_sort sum_mset_sum_list)

lemma dumps_short: "int (length (dumps_with [] j)) \<le> json_size j"
proof (induction j)
  case (JArr js)
  have "sum_list (map (\<lambda>x. 1 + int (length x)) (map (dumps_with []) js)) \<le> sum_list (map (\<lambda>j. 1 + json_size j) js)"
    unfolding map_map by (rule sum_list_mono) (use JArr in auto)
  then show ?case using join_comma_short [of "map (dumps_with []) js"] by simp
next
  case (JObj kvs)
  have "sum_list (map (\<lambda>x. 1 + int (length x)) (map (member_text []) (sort_key fst (map (\<lambda>(k, v). (k, dumps_with [] v)) kvs)))) =
      sum_list (map (\<lambda>kv. 1 + int (length (member_text [] (fst kv, dumps_with [] (snd kv))))) kvs)"
    unfolding map_map sum_list_sort by (simp add: comp_def case_prod_beta)
  also have "\<dots> \<le> sum_list (map (\<lambda>kv. 4 + text_size (fst kv) + json_size (snd kv)) kvs)"
  proof (rule sum_list_mono)
    fix kv assume kv: "kv \<in> set kvs"
    have "int (length (dumps_with [] (snd kv))) \<le> json_size (snd kv)"
      using JObj [of kv "snd kv"] kv by (cases kv) auto
    then show "1 + int (length (member_text [] (fst kv, dumps_with [] (snd kv)))) \<le> 4 + text_size (fst kv) + json_size (snd kv)"
      using quote_short [of "fst kv"] by (simp add: member_text_def)
  qed
  finally show ?case using join_comma_short by (simp add: order_trans [OF join_comma_short])
qed (use quote_short in \<open>auto simp: text_size\<close>)

lemma utf8_length_short: "2 * json_size j \<le> int n \<Longrightarrow> utf8_length (dumps j) \<le> n"
proof -
  have "utf8_length (dumps j) \<le> 2 * length (dumps j)" by (simp add: utf8_length_def)
  then show "2 * json_size j \<le> int n \<Longrightarrow> utf8_length (dumps j) \<le> n"
    using dumps_short [of j] unfolding dumps_def by linarith
qed

section \<open>A journal of one transaction\<close>

definition sample_env :: journal_env where
  "sample_env = \<lparr>je_hash = (\<lambda>_. replicate 64 CHR ''0''), je_owner = replicate 64 CHR ''0'',
     je_authority = replicate 64 CHR ''0''\<rparr>"

definition sample_binding :: revision_binding where
  "sample_binding = (let z = replicate 64 CHR ''0'' in \<lparr>rb_owner = z, rb_authority = z, rb_base_execution = z,
     rb_new_execution = z, rb_base_population = z, rb_new_population = z, rb_evidence = z\<rparr>)"

definition sample_payload :: recovery_payload where
  "sample_payload = (let z = replicate 64 CHR ''0'' in
     \<lparr>rp_proposal = \<lparr>graph_version = ''v1'', base_version = 1, goal_contract_fp = z, discovery_snapshot_fp = z,
        nodes = [\<lparr>client_key = ''a'', objective = ''total'', node_goal_ids = [''G''], topic_scope = [''orders''],
          evidence_ref_ids = [''e'']\<rparr>], edge_list = []\<rparr>,
      rp_receipt = \<lparr>graph_id = ''g'', receipt_version = 2, receipt_fp = z, receipt_snapshot_fp = z, node_ids = [(''a'', ''qn'')],
        parallel_frontier = [''qn''], waiting_artifact_nodes = [], semantic_activation_fp = [],
        semantic_activation_seal_fp = [], semantic_activation_topics = [], parent_graph_id = ''g'', parent_version = 1,
        parent_fp = z, replan_evidence_fp = z, replan_evidence_fps = [z], carried_forward_node_ids = [],
        retired_node_ids = [], revision_fp = z\<rparr>,
      rp_population = \<lparr>pr_graph_id = ''g'', pr_graph_version = 2, pr_graph_fp = z, pr_nodes = [(''qn'', [''G''])],
        pr_edges = [], pr_parent_fp = z, pr_evidence_fp = z, pr_carried = [], pr_retired = [], pr_fp = z\<rparr>,
      rp_base = \<lparr>br_checkpoint_fp = z, br_sha256 = z, br_bytes = 1\<rparr>,
      rp_declarations = [\<lparr>nd_key = ''a'', nd_node = ''qn'', nd_objective = ''total'', nd_goals = [''G''],
        nd_topics = [''orders''], nd_evidence = [''e''], nd_depends = [], nd_scopes = [], nd_status = DECLARED\<rparr>],
      rp_fp = z\<rparr>)"

definition sample_record :: journal_record where
  "sample_record = candidate_record sample_env sample_binding sample_payload"

text \<open>The claim alone, as a process leaves it that dies before its first record, and with that record.\<close>

definition sample_claimed :: revision_journal where
  "sample_claimed = snd (claim_base sample_env 1 sample_record empty_journal)"

definition sample_journal :: revision_journal where
  "sample_journal = snd (materialize_claim sample_env 2 sample_record sample_claimed)"

lemma sample_hash: "hash_ok sample_env"
  by (simp add: hash_ok_def sample_env_def list_all_iff ascii_digit_def py_ord_def)

lemma sample_valid: "validate_record (je_hash sample_env) sample_record = Inr ()"
  by code_simp

lemma sample_claim: "claim_ok sample_env sample_record"
  using sample_valid by (simp add: claim_ok_def sample_record_def candidate_record_def Let_def owns_def)

lemma sample_hash_is: "je_hash sample_env t = replicate 64 CHR ''0''"
  by (simp add: sample_env_def)

lemma sample_fp: "jr_fp sample_record = replicate 64 CHR ''0''" "jr_parent sample_record = []"
  "record_fingerprint (je_hash sample_env) r = replicate 64 CHR ''0''" "head_fingerprint (je_hash sample_env) k = replicate 64 CHR ''0''"
  by (simp_all add: sample_record_def candidate_record_def Let_def record_fingerprint_def head_fingerprint_def
    stable_fingerprint_def sample_hash_is)

lemma sample_sel: "length (jr_transaction sample_record) = 51" "jr_payload sample_record = sample_payload"
  "jr_binding sample_record = sample_binding"
  by (simp_all add: sample_record_def candidate_record_def Let_def transaction_id_def stable_fingerprint_def sample_hash_is
    sample_env_def sample_binding_def)

lemma sample_payload_size: "json_size (payload_json sample_payload) \<le> 30000"
  by (simp add: sample_payload_def Let_def payload_json_def proposal_json_def node_json_def receipt_json_def population_json_def
    declaration_json_def strings_json_def text_size int_text_small)

lemma sample_fits: "fits sample_env sample_record"
proof -
  have "2 * json_size (record_json (chain sample_env sample_record n)) \<le> 4194304 \<and>
      2 * json_size (head_json (head_of sample_env (chain sample_env sample_record n))) \<le> 65536"
    if "n \<in> {0, 1, 2}" for n
  proof -
    have "length (int_text (1 + int n)) = 1" "length (revision_status_text (status_at n)) \<le> 20"
      using that by (auto simp: int_text_small status_at_simps)
    moreover have "jr_fp (chain sample_env sample_record n) = replicate 64 CHR ''0''"
      "length (jr_parent (chain sample_env sample_record n)) \<le> 64"
      using that by (auto simp: numeral_2_eq_2 next_record_sel(7) sample_fp)
    ultimately show ?thesis
      using sample_payload_size
      by (simp add: sample_sel chain_sel [OF sample_claim] record_json_def head_json_def text_size sample_fp sample_hash_is
        sample_binding_def Let_def)
  qed
  then have "utf8_length (dumps (record_json (chain sample_env sample_record n))) \<le> max_record_bytes \<and>
      utf8_length (dumps (head_json (head_of sample_env (chain sample_env sample_record n)))) \<le> max_head_bytes"
    if "n \<in> {0, 1, 2}" for n
    using that unfolding max_record_bytes_def max_head_bytes_def by (intro conjI utf8_length_short) simp_all
  then show ?thesis by (auto simp: fits_def less_Suc_eq numeral_3_eq_3 numeral_2_eq_2)
qed

lemma sample_claims:
  "rj_claims sample_claimed = [(base_claim_name sample_env (jr_binding sample_record), Holds sample_record)]"
  "rj_claims sample_journal = rj_claims sample_claimed"
  by (simp_all add: sample_claimed_def sample_journal_def claim_base_def empty_journal_def materialize_claim_def)

lemma sample_clean: "rj_claims j = rj_claims sample_claimed \<Longrightarrow> journal_clean sample_env j"
  using sample_fits by (auto simp: journal_clean_def claimed_def sample_claims split: if_splits)

lemma sample_claimed_steps: "journal_reachable sample_env sample_claimed"
  unfolding journal_reachable_def sample_claimed_def
  by (rule r_into_rtranclp) (rule journal_step.claims [OF sample_claim])

lemma sample_claimed_record: "claimed sample_claimed sample_record"
  unfolding claimed_def sample_claims by (intro exI [of _ "base_claim_name sample_env (jr_binding sample_record)"]) simp

lemma sample_journal_steps: "journal_reachable sample_env sample_journal"
  using sample_claimed_steps journal_step.publishes [OF sample_claimed_record]
  unfolding journal_reachable_def sample_journal_def by (rule rtranclp.rtrancl_into_rtrancl)

lemma sample_load: "load_record sample_env (jr_transaction sample_record) sample_journal = Inr (Some sample_record)"
proof -
  have S: "sound_claim sample_env sample_record" using sample_claim sample_hash sample_fits by (simp add: sound_claim_def)
  have d: "dir_of sample_env sample_claimed sample_record = dir_at sample_env sample_record 0"
    by (simp add: dir_of_def dir_at_0 sample_claimed_def claim_base_def empty_journal_def)
  have "dir_of sample_env sample_journal sample_record = dir_at sample_env sample_record 2"
    using materialize_eq [OF S d, of 2] unfolding sample_journal_def dir_of_def by (simp add: numeral_2_eq_2)
  from load_claimed [OF S this] show ?thesis by simp
qed

section \<open>Properties\<close>

text \<open>
  C3: A base is revised at most once: of all records the journal loads, however the processes interleave and
  wherever they die, those for one base execution receipt and one base population receipt are the same record
  of the same transaction.
\<close>

theorem one_revision_per_base:
  assumes "journal_reachable env j" "hash_ok env" "journal_clean env j"
    and "load_record env t j = Inr (Some r)" "load_record env t' j = Inr (Some r')"
    and "rb_base_execution (jr_binding r) = rb_base_execution (jr_binding r')"
    and "rb_base_population (jr_binding r) = rb_base_population (jr_binding r')"
  shows "t = t' \<and> r = r'"
proof -
  have ok: "journal_ok env j" using journal_reachable_ok assms(1-3) by blast
  obtain c k where c: "claimed j c" "sound_claim env c" "t = jr_transaction c" "r = chain env c (k div 2 - 1)"
    using load_record_chain [OF ok assms(3,2,4)] by blast
  obtain c' k' where c': "claimed j c'" "sound_claim env c'" "t' = jr_transaction c'" "r' = chain env c' (k' div 2 - 1)"
    using load_record_chain [OF ok assms(3,2,5)] by blast
  have "base_claim_name env (jr_binding c) = base_claim_name env (jr_binding c')"
    using assms(6,7) same_base_name [OF owner [OF c(2)] owner [OF c'(2)]]
    by (simp add: c(4) c'(4) chain_simps [OF c(2)] chain_simps [OF c'(2)])
  then have "c = c'" by (rule claimed_base [OF ok c(1) c'(1)])
  then show ?thesis using c(3) c'(3) assms(4,5) by simp
qed

lemma one_revision_per_base_witness:
  "{(t, r). load_record sample_env t sample_journal = Inr (Some r)
      \<and> rb_base_execution (jr_binding r) = rb_base_execution (jr_binding sample_record)
      \<and> rb_base_population (jr_binding r) = rb_base_population (jr_binding sample_record)}
    = {(jr_transaction sample_record, sample_record)}"
proof -
  note only = one_revision_per_base [OF sample_journal_steps sample_hash sample_clean [OF sample_claims(2)] _ sample_load]
  show ?thesis by (rule set_eqI, unfold split_paired_all mem_Collect_eq prod.case) (use only sample_load in blast)
qed

text \<open>
  C11: A transaction only moves forward: after any further steps of any processes its record is still there,
  for the same receipts and payload; its status never goes back, its revision is the ordinal of its status, and
  at the same status it is the same record.
\<close>

theorem revision_moves_forward:
  assumes "journal_reachable env j" "hash_ok env" "(journal_step env)\<^sup>*\<^sup>* j j'" "journal_clean env j'"
    and "load_record env t j = Inr (Some r)"
  shows "\<exists>r'. load_record env t j' = Inr (Some r') \<and> jr_binding r' = jr_binding r \<and> jr_payload r' = jr_payload r
    \<and> jr_revision r' = status_ordinal (jr_status r') \<and> jr_status r \<le> jr_status r'
    \<and> (jr_status r' = jr_status r \<longrightarrow> r' = r)"
proof -
  have clean: "journal_clean env j" using steps_clean assms(3,4) by blast
  have ok: "journal_ok env j" using journal_reachable_ok assms(1,2) clean by blast
  obtain c k where c: "claimed j c" "sound_claim env c" "t = jr_transaction c" "2 \<le> k" "k \<le> 6"
    "dir_of env j c = dir_at env c k" "r = chain env c (k div 2 - 1)"
    using load_record_chain [OF ok clean assms(2,5)] by blast
  obtain k' where k': "k \<le> k'" "k' \<le> 6" "dir_of env j' c = dir_at env c k'"
    using journal_steps_ok [OF assms(3) ok assms(2,4)] c(1,5,6) by blast
  define i i' where "i = k div 2 - 1" and "i' = k' div 2 - 1"
  have i: "i' < 3" "i \<le> i'" using k'(1,2) by (auto simp: i_def i'_def intro: diff_le_mono div_le_mono)
  have "load_record env t j' = Inr (Some (chain env c i'))"
    using load_claimed [OF c(2) k'(3,2)] c(3,4) k'(1) by (simp add: i'_def)
  moreover have "r = chain env c i" by (simp only: i_def c(7))
  ultimately show ?thesis
    using i status_ordinal_at [of i] status_ordinal_at [OF i(1)] status_at_inj [of i' i]
    by (auto simp: chain_simps [OF c(2)] less_eq_revision_status_def)
qed

lemma revision_moves_forward_witness:
  "\<exists>r'. load_record sample_env (jr_transaction sample_record)
      (snd (advance sample_env 2 (jr_transaction sample_record) POPULATION_COMMITTED 1 (jr_fp sample_record) sample_journal)) = Inr (Some r')
    \<and> jr_payload r' = sample_payload \<and> jr_revision r' = status_ordinal (jr_status r') \<and> PREPARED \<le> jr_status r'"
proof -
  let ?j = "snd (advance sample_env 2 (jr_transaction sample_record) POPULATION_COMMITTED 1 (jr_fp sample_record) sample_journal)"
  have steps: "(journal_step sample_env)\<^sup>*\<^sup>* sample_journal ?j" by (rule r_into_rtranclp) (rule journal_step.advances)
  have "journal_clean sample_env ?j" by (rule sample_clean) (simp add: advance_def sample_claims(2))
  from revision_moves_forward [OF sample_journal_steps sample_hash steps this sample_load]
  show ?thesis using sample_claim by (auto simp: sample_sel claim_ok_def)
qed

text \<open>
  C4: Recovery misses nothing: \<open>discover_pending\<close> with two writes for every claim gets through, reports
  exactly the transactions whose record is not committed, has published a record for every claim, those of
  processes that died before their first record included, and leaves every record that was there.
\<close>

theorem recovery_finds_unfinished:
  assumes "journal_reachable env j" "hash_ok env" "journal_clean env j" "2 * length (rj_claims j) \<le> left"
  shows "\<exists>left' found j'. discover_pending env left j = (Returned (left', found), j') \<and>
    set found = {recovery_of r | t r. load_record env t j' = Inr (Some r) \<and> jr_status r \<noteq> EXECUTION_COMMITTED} \<and>
    (\<forall>c. claimed j c \<longrightarrow> (\<exists>r. load_record env (jr_transaction c) j' = Inr (Some r) \<and> same_transaction r c)) \<and>
    (\<forall>t r. load_record env t j = Inr (Some r) \<longrightarrow> load_record env t j' = Inr (Some r))"
proof -
  let ?names = "sort (map fst (rj_claims j))"
  have ok: "journal_ok env j" using journal_reachable_ok assms(1-3) by blast
  have named: "\<exists>c. claimed j c \<and> name = base_claim_name env (jr_binding c)" if "name \<in> set ?names" for name
  proof -
    obtain s where "map_of (rj_claims j) name = Some s" using \<open>name \<in> set ?names\<close> by (auto dest: weak_map_of_SomeI)
    then show ?thesis using ok unfolding journal_ok_def claimed_def by metis
  qed
  have names: "base_claim_name env (jr_binding c) \<in> set ?names" if "claimed j c" for c
    using claimed_ok [OF ok that] by (auto dest!: map_of_SomeD simp: rev_image_eqI)
  obtain left' j' found where d: "discover_pending env left j = (Returned (left', found), j')"
    "rj_claims j' = rj_claims j" "journal_ok env j'"
    and dirs': "\<And>c k. claimed j c \<Longrightarrow> k \<le> 6 \<Longrightarrow> dir_of env j c = dir_at env c k \<Longrightarrow>
      dir_of env j' c = dir_at env c (if base_claim_name env (jr_binding c) \<in> set ?names then max k 2 else k)"
    and found': "set found = set [] \<union> {recovery_of r | r. jr_status r \<noteq> EXECUTION_COMMITTED \<and> (\<exists>c. claimed j c \<and>
      base_claim_name env (jr_binding c) \<in> set ?names \<and> load_record env (jr_transaction c) j' = Inr (Some r))}"
    using discover_loop_spec [OF ok assms(3,2) _ named, of ?names left "[]"] assms(4)
    unfolding discover_pending_def length_sort length_map by blast
  have dirs: "dir_of env j' c = dir_at env c (max k 2)" if c: "claimed j c" "k \<le> 6" "dir_of env j c = dir_at env c k" for c k
    using dirs' [OF c] names [OF c(1)] by simp
  have "claimed j c \<and> base_claim_name env (jr_binding c) \<in> set ?names \<and> P \<longleftrightarrow> claimed j c \<and> P" for c P using names by blast
  then have found: "set found = {recovery_of r | r. jr_status r \<noteq> EXECUTION_COMMITTED \<and>
      (\<exists>c. claimed j c \<and> load_record env (jr_transaction c) j' = Inr (Some r))}"
    using found' by simp
  have clean': "journal_clean env j'" using assms(3) clean_same [OF d(2)] by blast
  have loaded: "load_record env (jr_transaction c) j' = Inr (Some (chain env c (max k 2 div 2 - 1)))"
    if c: "claimed j c" "k \<le> 6" "dir_of env j c = dir_at env c k" for c k
    using load_claimed [OF sound_claims [OF ok assms(3,2) c(1)] dirs [OF c]] c(2) by simp
  have all: "\<exists>r. load_record env (jr_transaction c) j' = Inr (Some r) \<and> same_transaction r c" if c: "claimed j c" for c
  proof -
    obtain k where "k \<le> 6" "dir_of env j c = dir_at env c k" using dir_of_cases [OF ok assms(3) c] by blast
    from loaded [OF c this] show ?thesis using same_chain [OF sound_claims [OF ok assms(3,2) c]] by blast
  qed
  have kept: "load_record env t j' = Inr (Some r)" if l: "load_record env t j = Inr (Some r)" for t r
  proof -
    obtain c k where c: "claimed j c" "t = jr_transaction c" "2 \<le> k" "k \<le> 6" "dir_of env j c = dir_at env c k"
      "r = chain env c (k div 2 - 1)" using load_record_chain [OF ok assms(3,2) l] by blast
    then show ?thesis using loaded [OF c(1,4,5)] by (simp add: max_absorb1)
  qed
  have "(\<exists>c. claimed j c \<and> load_record env (jr_transaction c) j' = Inr (Some r)) \<longleftrightarrow> (\<exists>t. load_record env t j' = Inr (Some r))" for r
    using load_record_chain [OF d(3) clean' assms(2)] claimed_same [OF d(2)] by metis
  then have "set found = {recovery_of r | t r. load_record env t j' = Inr (Some r) \<and> jr_status r \<noteq> EXECUTION_COMMITTED}"
    unfolding found by blast
  with d(1) all kept show ?thesis by blast
qed

lemma recovery_finds_unfinished_witness:
  "\<exists>left' found j' r. discover_pending sample_env 2 sample_claimed = (Returned (left', found), j')
    \<and> load_record sample_env (jr_transaction sample_record) j' = Inr (Some r) \<and> same_transaction r sample_record"
  using recovery_finds_unfinished [OF sample_claimed_steps sample_hash sample_clean [OF refl], of 2] sample_claimed_record
  by (simp add: sample_claims) blast

lemma valid_prepare:
  assumes "validate_record (je_hash env) (candidate_record env b pl) = Inr ()" "hash_ok env"
  shows "prepare env left b pl j = bind_outcome (claim_base env left (candidate_record env b pl) j)
    (\<lambda>left' j'. materialize_claim env left' (candidate_record env b pl) j')"
    and "claim_ok env (candidate_record env b pl)"
proof -
  let ?c = "candidate_record env b pl"
  have sel: "jr_payload ?c = pl" "jr_revision ?c = 1" "jr_status ?c = PREPARED"
    "owns env (rb_owner (jr_binding ?c)) (rb_authority (jr_binding ?c))"
    by (simp_all add: candidate_record_def Let_def owns_def)
  have v: "validate_payload (je_hash env) pl = Inr ()" "valid_fingerprint (rp_fp pl)"
    using assms(1) sel(1) by (auto simp: validate_record_def split: if_splits elim!: bind_res_InrE)
  have "py_strip [] = []" by code_simp
  then have "rp_fp pl \<noteq> []" using v(2) by (auto simp: valid_fingerprint_def)
  moreover have "rp_fp pl = [] \<or> rp_fp pl = payload_fingerprint (je_hash env) pl"
    using v(1) unfolding validate_payload_def Let_def
    by (auto simp del: disj_not1 split: if_splits sum.splits)
  ultimately show "prepare env left b pl j = bind_outcome (claim_base env left ?c j) (\<lambda>left' j'. materialize_claim env left' ?c j')"
    using v(1) assms(1) by (simp add: prepare_def Let_def)
  show "claim_ok env ?c" using assms(1) sel by (simp add: claim_ok_def)
qed

text \<open>On a free base the candidate becomes the first record of its transaction.\<close>

lemma prepare_free:
  assumes ok: "journal_ok env j" "hash_ok env" "3 \<le> left" and cok: "claim_ok env c"
    and j1: "claim_base env left c j = (r1, j1)" and clean1: "journal_clean env j1"
    and None: "map_of (rj_claims j) (base_claim_name env (jr_binding c)) = None"
  shows "\<exists>j'. r1 = Returned (left - 1) \<and> load_record env (jr_transaction c) j' = Inr (Some c) \<and> materialize_claim env (left - 1) c j1 =
    (Returned (left - 3, \<lparr>jo_record = c, jo_committed = True, jo_idempotent = False\<rparr>), j')"
proof -
  have e: "r1 = Returned (left - 1)" "j1 = j\<lparr>rj_claims := AList.update (base_claim_name env (jr_binding c)) (Holds c) (rj_claims j)\<rparr>"
    using j1 None assms(3) by (auto simp: claim_base_def)
  have step: "journal_step env j j1" using journal_step.claims [OF cok, of j left] j1 by simp
  have claimed1: "claimed j1 c" unfolding claimed_def e(2) by (intro exI [of _ "base_claim_name env (jr_binding c)"]) simp
  have "journal_ok env j1" using claim_step [OF ok(1) cok, of j1 left] j1 by simp
  then have S: "sound_claim env c" using sound_claims [OF _ clean1 assms(2) claimed1] by blast
  have "map_of (rj_transactions j) (transaction_component env (jr_transaction c)) = None"
  proof (rule ccontr)
    assume "map_of (rj_transactions j) (transaction_component env (jr_transaction c)) \<noteq> None"
    then obtain x where x: "claimed j x" "transaction_component env (jr_transaction c) = transaction_component env (jr_transaction x)"
      using ok(1) unfolding journal_ok_def by (meson not_None_eq)
    have "x = c" using clean_inj [OF clean1 step_keeps_claims [OF step x(1)] claimed1] x(2) by simp
    then show False using claimed_ok [OF ok(1) x(1)] None by simp
  qed
  then have d: "dir_of env j1 c = dir_at env c 0" by (simp add: dir_of_def e(2) dir_at_0)
  let ?j = "j1\<lparr>rj_transactions := AList.update (transaction_component env (jr_transaction c)) (dir_at env c 2) (rj_transactions j1)\<rparr>"
  have "dir_of env ?j c = dir_at env c 2" by (simp add: dir_of_def)
  then have "load_record env (jr_transaction c) ?j = Inr (Some c)" using load_claimed [OF S, of ?j 2] by simp
  then show ?thesis
    using assms(3) materialize_eq [OF S d, of "left - 1"] e(1) by (intro exI [of _ ?j]) (auto simp: min_def)
qed

text \<open>Materialising a claim that is there, by whatever process and however far the transaction is.\<close>

lemma materialize_claimed:
  assumes ok: "journal_ok env j" "journal_clean env j" "hash_ok env" "2 \<le> left" and c: "claimed j c"
  shows "\<exists>left' r j'. materialize_claim env left c j = (Returned (left', r), j')
    \<and> load_record env (jr_transaction c) j' = Inr (Some (jo_record r)) \<and> same_transaction (jo_record r) c"
proof -
  have S: "sound_claim env c" using sound_claims [OF ok(1-3) c] .
  obtain k where k: "k \<le> 6" "dir_of env j c = dir_at env c k" using dir_of_cases [OF ok(1,2) c] by blast
  define k' where "k' = max k 2"
  let ?j = "j\<lparr>rj_transactions := AList.update (transaction_component env (jr_transaction c)) (dir_at env c k') (rj_transactions j)\<rparr>"
  have "dir_of env ?j c = dir_at env c k'" by (simp add: dir_of_def)
  then have l: "load_record env (jr_transaction c) ?j = Inr (Some (chain env c (k' div 2 - 1)))"
    using load_claimed [OF S, of ?j k'] k(1) by (simp add: k'_def)
  have "(if 2 \<le> k then k else min 2 (k + left)) = k'" using ok(4) by (simp add: k'_def min_absorb1)
  moreover have "2 \<le> k \<Longrightarrow> k' = k" "\<not> 2 \<le> k \<Longrightarrow> chain env c (k' div 2 - 1) = c" by (simp_all add: k'_def max_absorb1 max_absorb2)
  ultimately have "\<exists>left' r. materialize_claim env left c j = (Returned (left', r), ?j) \<and> jo_record r = chain env c (k' div 2 - 1)"
    using materialize_eq [OF S k(2,1), of left] ok(4) by (cases "2 \<le> k") simp_all
  then show ?thesis using l same_chain [OF S] by metis
qed

text \<open>
  C13: \<open>prepare\<close> with a valid candidate and three writes: on a base that is free it publishes the candidate
  as the first record, repeated for the same candidate, by any process and after any crash, it returns the
  record the transaction has by now, and on a base claimed by another revision it raises and changes nothing.
\<close>

theorem prepare_claims_base:
  assumes "journal_reachable env j" "hash_ok env" "3 \<le> left"
    and c: "c = candidate_record env b pl" "validate_record (je_hash env) c = Inr ()"
    and p: "prepare env left b pl j = (res, j')" "journal_clean env j'"
  shows "case map_of (rj_claims j) (base_claim_name env (jr_binding c)) of
      None \<Rightarrow> res = Returned (left - 3, \<lparr>jo_record = c, jo_committed = True, jo_idempotent = False\<rparr>)
        \<and> load_record env (jr_transaction c) j' = Inr (Some c)
    | Some s \<Rightarrow> if s = Holds c
        then \<exists>left' r. res = Returned (left', r) \<and> load_record env (jr_transaction c) j' = Inr (Some (jo_record r))
          \<and> same_transaction (jo_record r) c
        else (\<exists>e. res = Raised e) \<and> j' = j"
proof -
  have cok: "claim_ok env c" using valid_prepare(2) [OF _ assms(2), of b pl] c by simp
  obtain r1 j1 where cb: "claim_base env left c j = (r1, j1)" by fastforce
  have run: "bind_outcome (r1, j1) (\<lambda>left' j'. materialize_claim env left' c j') = (res, j')"
    using valid_prepare(1) [OF _ assms(2), of b pl left j] c p(1) cb by simp
  then have "rj_claims j' = rj_claims j1"
    by (cases r1) (auto simp: materialize_claim_def dest: arg_cong [of _ _ "\<lambda>x. rj_claims (snd x)"])
  then have clean1: "journal_clean env j1" using p(2) clean_same by blast
  have clean: "journal_clean env j" using step_clean [OF _ clean1] journal_step.claims [OF cok, of j left] cb by simp
  have ok: "journal_ok env j" using journal_reachable_ok assms(1,2) clean by blast
  show ?thesis
  proof (cases "map_of (rj_claims j) (base_claim_name env (jr_binding c))")
    case None
    then show ?thesis using prepare_free [OF ok assms(2,3) cok cb clean1] run by auto
  next
    case (Some s)
    obtain x where x: "s = Holds x" "base_claim_name env (jr_binding c) = base_claim_name env (jr_binding x)"
      using ok Some unfolding journal_ok_def by blast
    have cx: "claimed j x" using Some x(1) by (auto simp: claimed_def)
    have v: "validate_base_claim env (base_claim_name env (jr_binding c)) (Holds x) = Inr x"
      unfolding x(2) by (rule validate_claim [OF ok cx sound_claims [OF ok clean assms(2) cx]])
    have e: "(r1, j1) = (if jr_transaction x \<noteq> jr_transaction c then (Raised GRAPH_REVISION_BASE_ALREADY_CLAIMED, j)
        else if x \<noteq> c then (Raised GRAPH_REVISION_BASE_CLAIM_CONFLICT, j) else (Returned left, j))"
      using cb [symmetric] unfolding claim_base_def Let_def Some x(1) option.case v sum.case .
    show ?thesis
    proof (cases "x = c")
      case True
      then have "materialize_claim env left c j = (res, j')" using e run by simp
      then show ?thesis using materialize_claimed [OF ok clean assms(2) _ cx, of left] assms(3) True Some x(1) by auto
    next
      case False
      then show ?thesis using e run Some x(1) by (auto split: if_splits)
    qed
  qed
qed

lemma prepare_claims_base_witness:
  "\<exists>j'. prepare sample_env 3 sample_binding sample_payload empty_journal =
      (Returned (0, \<lparr>jo_record = sample_record, jo_committed = True, jo_idempotent = False\<rparr>), j')
    \<and> load_record sample_env (jr_transaction sample_record) j' = Inr (Some sample_record)"
proof -
  obtain res j' where p: "prepare sample_env 3 sample_binding sample_payload empty_journal = (res, j')" by fastforce
  have r: "journal_reachable sample_env empty_journal" by (simp add: journal_reachable_def)
  have "rj_claims j' = rj_claims sample_claimed"
    using p sample_claims(1) valid_prepare(1) [OF sample_valid [unfolded sample_record_def] sample_hash, of 3 empty_journal]
    by (auto simp: sample_record_def claim_base_def empty_journal_def materialize_claim_def
        dest: arg_cong [of _ _ "\<lambda>x. rj_claims (snd x)"])
  from prepare_claims_base [OF r sample_hash _ sample_record_def sample_valid p sample_clean [OF this]]
  show ?thesis using p by (simp add: empty_journal_def)
qed

end
