(* ===== verification/Checkpoint_Laws.thy ===== *)
theory Checkpoint_Laws
  imports Base_Checkpoint Journal_Recovery
begin

text \<open>The file of a base session keeps what was put into it.\<close>

text \<open>
  C12: A checkpoint that was persisted can be loaded: with the reference that
  \<open>persist_base_session_checkpoint\<close> returned, whatever is persisted afterwards, loading gives a valid checkpoint with the same seal and the same
  content, up to the order of the keys in the dictionaries it carries.
\<close>

theorem base_session_kept:
  assumes "hash_ok env" "(persist_step env)\<^sup>*\<^sup>* [] s" "persist_base_session (je_hash env) c s = (Inr b, s')"
    and "(persist_step env)\<^sup>*\<^sup>* s' s''"
  shows "\<exists>d. load_base_session (je_hash env) b s'' = Inr d \<and> canon (checkpoint_json d) = canon (checkpoint_json c)
    \<and> cp_fp d = cp_fp c \<and> validate_checkpoint (je_hash env) d = Inr ()"
proof -
  have "files_ok (je_hash env) s" using persist_steps_ok [OF assms(2)] by (simp add: files_ok_def)
  from persisted_file [OF this assms(3)] obtain d where d:
    "map_of s' (base_session_component (br_sha256 b)) = Some (Holds d)" "validate_checkpoint (je_hash env) d = Inr ()"
    "canon (checkpoint_json d) = canon (checkpoint_json c)" "cp_fp d = br_checkpoint_fp b"
    "br_sha256 b = je_hash env (dumps (checkpoint_json d))" "br_bytes b = int (utf8_length (dumps (checkpoint_json d)))"
    "utf8_length (dumps (checkpoint_json d)) \<le> max_base_session_bytes" "cp_fp c = checkpoint_fingerprint (je_hash env) c"
    by blast
  have fp: "cp_fp d = cp_fp c" using checkpoint_json_fp [OF d(3)] .
  have "valid_fingerprint (cp_fp d)"
    using valid_hash [OF assms(1)] fp d(8) by (simp add: checkpoint_fingerprint_def stable_fingerprint_def)
  moreover have "utf8_length (dumps (checkpoint_json d)) \<noteq> 0" by (simp add: utf8_length_def)
  ultimately have "reference_ok b" using d(4-6) valid_hash [OF assms(1)] by (simp add: reference_ok_def)
  moreover have "map_of s'' (base_session_component (br_sha256 b)) = Some (Holds d)"
    using persist_steps_keep [OF assms(4) d(1)] .
  ultimately have "load_base_session (je_hash env) b s'' = Inr d"
    using d(2,4-7) by (simp add: load_base_session_def Let_def)
  then show ?thesis using d(2,3) fp by blast
qed

definition sample_checkpoint :: base_checkpoint where
  "sample_checkpoint = \<lparr>cp_question = question sample_contract, cp_contract = sample_contract,
     cp_proposal = rp_proposal sample_payload, cp_receipt = rp_receipt sample_payload,
     cp_population = rp_population sample_payload, cp_evidence = [[(''refId'', JStr ''e'')]],
     cp_branches = [\<lparr>bb_key = ''a'', bb_node = ''qn'', bb_objective = ''total'', bb_goals = [''G''], bb_topics = [''orders''],
       bb_evidence = [''e''], bb_depends = [], bb_scopes = [], bb_opened = [], bb_lifecycle = PUBLISHED,
       bb_status = ''VERIFIED'', bb_artifacts = [''r''], bb_gaps = []\<rparr>],
     cp_runtime = [], cp_query_artifacts = [[(''artifactId'', JStr ''r'')]], cp_entity_sets = [], cp_rule_artifacts = [],
     cp_artifact_goals = [(''r'', [''gmv''])], cp_pre_references = [], cp_post_results = [], cp_artifact_nodes = [(''r'', ''qn'')],
     cp_goal_gate_id = [], cp_goal_gate_result = [], cp_goal_attestation = [], cp_data_snapshot = [],
     cp_revision_count = 0, cp_max_revision_count = 1, cp_opened = [], cp_fp = replicate 64 CHR ''0''\<rparr>"

lemma sample_checkpoint_valid: "validate_checkpoint (je_hash sample_env) sample_checkpoint = Inr ()"
  by code_simp

lemma sample_contract_size: "json_size (camel_json (contract_json sample_contract)) \<le> 100000"
  by code_simp

lemma sample_payload_sizes:
  "json_size (proposal_json (rp_proposal sample_payload)) \<le> 10000" "json_size (receipt_json (rp_receipt sample_payload)) \<le> 10000"
  "json_size (population_json (rp_population sample_payload)) \<le> 10000"
  by (simp_all add: sample_payload_def Let_def proposal_json_def node_json_def receipt_json_def population_json_def
    strings_json_def text_size int_text_small)

lemma sample_checkpoint_size: "utf8_length (dumps (checkpoint_json sample_checkpoint)) \<le> max_base_session_bytes"
proof (rule utf8_length_short)
  have "int_text 0 = ''0''" by code_simp
  moreover have "length (question sample_contract) = 16" by (simp add: sample_contract_def)
  ultimately show "2 * json_size (checkpoint_json sample_checkpoint) \<le> int max_base_session_bytes"
    using sample_contract_size sample_payload_sizes
    by (simp add: checkpoint_json_def sample_checkpoint_def branch_json_def strings_json_def text_size int_text_small
      max_base_session_bytes_def)
qed

lemma sample_persisted: "\<exists>b. persist_base_session (je_hash sample_env) sample_checkpoint [] =
    (Inr b, [(base_session_component (replicate 64 CHR ''0''), Holds sample_checkpoint)])"
proof -
  have "cp_fp sample_checkpoint = checkpoint_fingerprint (je_hash sample_env) sample_checkpoint" "cp_fp sample_checkpoint \<noteq> []"
    by (simp_all add: checkpoint_fingerprint_def stable_fingerprint_def sample_hash_is) (simp_all add: sample_checkpoint_def)
  then show ?thesis
    using sample_checkpoint_valid sample_checkpoint_size by (simp add: persist_base_session_def Let_def sample_hash_is)
qed

lemma base_session_kept_witness:
  "\<exists>b s d. persist_base_session (je_hash sample_env) sample_checkpoint [] = (Inr b, s) \<and> load_base_session (je_hash sample_env) b s = Inr d
    \<and> canon (checkpoint_json d) = canon (checkpoint_json sample_checkpoint)"
proof -
  obtain b s where p: "persist_base_session (je_hash sample_env) sample_checkpoint [] = (Inr b, s)" using sample_persisted by blast
  show ?thesis using base_session_kept [OF sample_hash _ p] p by blast
qed

end
