(* ===== verification/Runtime_State.thy ===== *)
theory Runtime_State
  imports Json_Python "HOL-Library.Product_Lexorder"
begin

text \<open>
  The runtime state of node tasks and of the execution journal (\<^verbatim>\<open>runtime_state.py\<close>): the tasks with
  their leases and fencing generations, the journal that makes an execution happen at most once,
  and the decisions both stores share. The stores are \<open>Memory_Store\<close> and \<open>File_Store\<close>; what they
  promise is \<open>Store_Interface\<close>.

  \<^item> A time stamp is the text of \<open>datetime.isoformat()\<close>; it is empty, a time in microseconds, or a
    text that does not parse. The clock of a call is a function \<open>clk\<close>: \<open>clk i\<close> is the \<open>i\<close>-th reading
    of \<open>datetime.now()\<close>.
  \<^item> The updates \<open>enqueue_node_task\<close> makes to the caller's own object are not part of the store and
    are left out. The Redis and Postgres stores run scripts of those servers and are not modelled.
\<close>

section \<open>Time stamps, tasks, journal entries\<close>

datatype stamp = NoStamp | At int | Malformed

type_synonym clock = "nat \<Rightarrow> int"

record node_task =
  run_id :: string
  task_id :: string
  status :: string
  idempotency_key :: string
  attempts :: int
  lease_owner :: string
  lease_generation :: int
  lease_until :: stamp
  updated_at :: stamp
  payload :: "(string, json) dict"
  request_fingerprint :: string

record journal_entry =
  j_key :: string
  j_status :: string
  j_owner :: string
  j_generation :: int
  j_until :: stamp
  j_result_hash :: string
  j_created :: stamp
  j_updated :: stamp
  j_payload :: "(string, json) dict"

datatype store_error =
    StaleNodeTaskFence
  | StaleExecutionFence
  | NodeTaskRequestConflict string string string string
  | TextRequired string
  | StatusNotTerminal

definition terminal_statuses :: "string list" where
  "terminal_statuses = [''succeeded'', ''failed'', ''timed_out'', ''canceled'', ''outcome_unknown'']"

definition claimable :: "string \<Rightarrow> bool" where
  "claimable s = (s \<in> set [''queued'', ''pending'', ''retry''])"

definition lease_expired :: "stamp \<Rightarrow> int \<Rightarrow> bool" where
  "lease_expired value now = (case value of NoStamp \<Rightarrow> False | At t \<Rightarrow> t \<le> now | Malformed \<Rightarrow> True)"

definition required_text :: "string \<Rightarrow> string \<Rightarrow> store_error + string" where
  "required_text value name = (if py_strip value = [] then Inl (TextRequired name) else Inr (py_strip value))"

definition future_timestamp :: "int \<Rightarrow> int \<Rightarrow> stamp" where
  "future_timestamp now seconds = At (now + 1000000 * max 1 seconds)"

section \<open>Request fingerprints\<close>

definition supplied_fingerprint :: "(string, json) dict \<Rightarrow> string" where
  "supplied_fingerprint p =
     (let first = payload_text p ''requestFingerprint''
      in py_strip (if first \<noteq> [] then first else payload_text p ''request_fingerprint''))"

definition request_identity :: "node_task \<Rightarrow> json" where
  "request_identity t =
     (let supplied = supplied_fingerprint (payload t)
      in if supplied \<noteq> []
         then JObj [(''idempotencyKey'', JStr (idempotency_key t)),
           (''suppliedRequestFingerprint'', JStr supplied)]
         else JObj [(''idempotencyKey'', JStr (idempotency_key t)), (''requestPayload'', JObj (payload t))])"

definition bind_fingerprint :: "(string \<Rightarrow> string) \<Rightarrow> node_task \<Rightarrow> node_task" where
  "bind_fingerprint h t =
     (let fp = py_strip (request_fingerprint t)
      in t\<lparr>request_fingerprint := (if fp \<noteq> [] then fp else stable_fingerprint h (request_identity t))\<rparr>)"

definition enqueue_candidate :: "(string \<Rightarrow> string) \<Rightarrow> node_task \<Rightarrow> node_task" where
  "enqueue_candidate h t =
     (let c = bind_fingerprint h t
      in c\<lparr>status := (if status c = [] \<or> status c = ''pending'' then ''queued'' else status c)\<rparr>)"

definition request_match :: "node_task \<Rightarrow> node_task \<Rightarrow> store_error + unit" where
  "request_match existing requested =
     (let e = py_strip (request_fingerprint existing); r = py_strip (request_fingerprint requested)
      in if e \<noteq> r \<or> e = [] then Inl (NodeTaskRequestConflict (run_id requested) (task_id requested) e r)
         else Inr ())"

section \<open>Fences\<close>

definition fence_matches :: "node_task \<Rightarrow> string \<Rightarrow> int \<Rightarrow> bool" where
  "fence_matches t owner gen =
     (status t = ''running'' \<and> lease_owner t = owner \<and> lease_generation t = gen \<and> 0 < gen)"

definition task_fence :: "node_task \<Rightarrow> string \<Rightarrow> int \<Rightarrow> string \<Rightarrow> store_error + unit" where
  "task_fence t owner gen requested =
     (if status t \<noteq> ''running''
      then (if status t = requested \<and> lease_owner t = owner \<and> lease_generation t = gen \<and>
               0 < lease_generation t
            then Inr () else Inl StaleNodeTaskFence)
      else if \<not> fence_matches t owner gen then Inl StaleNodeTaskFence
      else Inr ())"

definition expected_generation :: "node_task \<Rightarrow> int \<Rightarrow> store_error + unit" where
  "expected_generation t expected =
     require (lease_generation t = (if expected = 0 then lease_generation t else expected)) StaleNodeTaskFence"

definition final_task_statuses :: "string list" where
  "final_task_statuses = [''completed'', ''partial'', ''failed'', ''timeout'', ''canceled'']"

text \<open>
  The part of each operation that changes one task; the stores read the task, apply it and write
  it back with a new \<open>updated_at\<close>.
\<close>

definition completed_task :: "node_task \<Rightarrow> string \<Rightarrow> (string, json) dict \<Rightarrow> node_task" where
  "completed_task t st p = t\<lparr>status := st, payload := dict_merge (payload t) p, lease_until := NoStamp\<rparr>"

definition fenced_task :: "node_task \<Rightarrow> string \<Rightarrow> (string, json) dict \<Rightarrow> node_task" where
  "fenced_task t st p = t\<lparr>status := st, payload := dict_merge (payload t) p,
     lease_generation := lease_generation t + 1, lease_owner := [], lease_until := NoStamp\<rparr>"

definition recovered_task :: "node_task \<Rightarrow> int \<Rightarrow> node_task" where
  "recovered_task t max_attempts =
     t\<lparr>status := (if attempts t < max 1 max_attempts then ''retry'' else ''failed''), lease_owner := [],
       lease_until := NoStamp,
       payload := AList.update ''recoveredAfterLeaseExpiry'' (JBool True) (payload t)\<rparr>"

definition needs_recovery :: "int \<Rightarrow> node_task \<Rightarrow> bool" where
  "needs_recovery now t = (status t = ''running'' \<and> lease_expired (lease_until t) now)"

definition kind_allowed :: "string list \<Rightarrow> node_task \<Rightarrow> bool" where
  "kind_allowed kinds t = (filter (\<lambda>k. k \<noteq> []) kinds = [] \<or> payload_text (payload t) ''taskKind'' \<in> set (filter (\<lambda>k. k \<noteq> []) kinds))"

section \<open>The execution journal\<close>

datatype claim_outcome = Acquired | Replay | InProgress | ExpiredUnsafe

definition next_execution_claim ::
  "clock \<Rightarrow> journal_entry option \<Rightarrow> string \<Rightarrow> string \<Rightarrow> int \<Rightarrow> bool \<Rightarrow> claim_outcome \<times> journal_entry" where
  "next_execution_claim clk current key owner seconds takeover =
     (case current of
        None \<Rightarrow> (Acquired, \<lparr>j_key = key, j_status = ''in_progress'', j_owner = owner, j_generation = 1,
          j_until = future_timestamp (clk 1) seconds, j_result_hash = [], j_created = At (clk 0),
          j_updated = At (clk 0), j_payload = []\<rparr>)
      | Some e \<Rightarrow>
          if j_status e \<in> set terminal_statuses then (Replay, e)
          else if \<not> lease_expired (j_until e) (clk 1) then (InProgress, e)
          else if \<not> takeover then (ExpiredUnsafe, e)
          else (Acquired, e\<lparr>j_owner := owner, j_generation := j_generation e + 1,
            j_until := future_timestamp (clk 2) seconds, j_updated := At (clk 0)\<rparr>))"

definition completed_execution ::
  "int \<Rightarrow> journal_entry option \<Rightarrow> string \<Rightarrow> int \<Rightarrow> string \<Rightarrow> (string, json) dict \<Rightarrow> string
    \<Rightarrow> store_error + journal_entry" where
  "completed_execution now current owner gen st p result_hash =
     bind_res (require (st \<in> set terminal_statuses) StatusNotTerminal) (\<lambda>_.
     case current of
       None \<Rightarrow> Inl StaleExecutionFence
     | Some e \<Rightarrow>
         if j_status e \<in> set terminal_statuses then
           (if j_status e = st \<and> j_owner e = owner \<and> j_generation e = gen then Inr e
            else Inl StaleExecutionFence)
         else if j_owner e \<noteq> owner \<or> j_generation e \<noteq> gen \<or> gen \<le> 0 then Inl StaleExecutionFence
         else Inr (e\<lparr>j_status := st, j_payload := p, j_result_hash := result_hash, j_until := NoStamp,
           j_updated := At now\<rparr>))"

end
