(* ===== verification/Store_Interface.thy ===== *)
theory Store_Interface
  imports Runtime_State
begin

text \<open>
  What a client of \<open>RuntimeStateStore\<close> relies on, as two interfaces. \<open>lease_store\<close>: the generation
  of a task never goes down, a claim raises it, and a completion is accepted only for the
  current owner and generation. \<open>journal_store\<close>: a terminal entry never changes, and generations
  never go down. Both are interpreted on the stores in their own theories.
\<close>

section \<open>Leases\<close>

definition gen_le ::
  "('s \<Rightarrow> string \<Rightarrow> string \<Rightarrow> node_task option) \<Rightarrow> 's \<Rightarrow> 's \<Rightarrow> bool" where
  "gen_le look s s' \<longleftrightarrow> (\<forall>r k t. look s r k = Some t \<longrightarrow>
     (\<exists>t'. look s' r k = Some t' \<and> lease_generation t \<le> lease_generation t'))"

lemma gen_le_refl [simp]: "gen_le look s s"
  by (simp add: gen_le_def)

lemma gen_leE:
  assumes "gen_le look s s'" "look s r k = Some t"
  obtains t' where "look s' r k = Some t'" "lease_generation t \<le> lease_generation t'"
  using assms unfolding gen_le_def by blast

lemma gen_le_trans: "gen_le look s s' \<Longrightarrow> gen_le look s' s'' \<Longrightarrow> gen_le look s s''"
  unfolding gen_le_def by (meson order_trans)

locale lease_store =
  fixes inv :: "'s \<Rightarrow> bool"
    and look :: "'s \<Rightarrow> string \<Rightarrow> string \<Rightarrow> node_task option"
    and claim :: "clock \<Rightarrow> string \<Rightarrow> string \<Rightarrow> string \<Rightarrow> int \<Rightarrow> 's
      \<Rightarrow> (store_error + node_task option) \<times> 's"
    and complete :: "clock \<Rightarrow> string \<Rightarrow> string \<Rightarrow> string \<Rightarrow> (string, json) dict \<Rightarrow> string \<Rightarrow> int \<Rightarrow> 's
      \<Rightarrow> (store_error + node_task) \<times> 's"
    and step :: "'s \<Rightarrow> 's \<Rightarrow> bool"
  assumes step_inv: "step s s' \<Longrightarrow> inv s \<Longrightarrow> inv s'"
    and step_gen: "step s s' \<Longrightarrow> inv s \<Longrightarrow> gen_le look s s'"
    and claim_step: "claim c r k w n s = (res, s') \<Longrightarrow> step s s'"
    and claim_acquired: "inv s \<Longrightarrow> claim c r k w n s = (Inr (Some t'), s') \<Longrightarrow>
      look s' r k = Some t' \<and> (\<exists>t. look s r k = Some t \<and> claimable (status t) \<and>
        lease_generation t' = lease_generation t + 1)"
    and complete_done: "complete c r k st p w g s = (Inr t', s') \<Longrightarrow>
      \<exists>t. look s r k = Some t \<and> lease_owner t = w \<and> lease_generation t = g \<and> 0 < g"
    and complete_error: "complete c r k st p w g s = (Inl e, s') \<Longrightarrow> s' = s"
begin

lemma steps_inv: "step\<^sup>*\<^sup>* s s' \<Longrightarrow> inv s \<Longrightarrow> inv s'"
  by (induction rule: rtranclp_induct) (auto intro: step_inv)

lemma steps_gen: "step\<^sup>*\<^sup>* s s' \<Longrightarrow> inv s \<Longrightarrow> gen_le look s s'"
proof (induction rule: rtranclp_induct)
  case (step y z)
  have "gen_le look y z" using step_gen [OF step(2) steps_inv [OF step(1) step(4)]] .
  with step(3) [OF step(4)] show ?case by (rule gen_le_trans)
qed simp

text \<open>
  Fencing: after a second claim of the task succeeded, no completion with the first lease's
  generation is accepted any more, whatever happens in between and after, and the rejected
  completion leaves the store alone.
\<close>

lemma stale_lease_rejected:
  assumes inv: "inv s0"
    and first: "claim c r k w n s0 = (Inr (Some t), s1)" and between: "step\<^sup>*\<^sup>* s1 s2"
    and second: "claim c' r k w' n' s2 = (Inr (Some t'), s3)" and after: "step\<^sup>*\<^sup>* s3 s4"
  shows "\<exists>e. complete c'' r k st p v (lease_generation t) s4 = (Inl e, s4)"
proof -
  have inv1: "inv s1" using step_inv [OF claim_step [OF first] inv] .
  have inv2: "inv s2" using steps_inv [OF between inv1] .
  have inv3: "inv s3" using step_inv [OF claim_step [OF second] inv2] .
  have "look s1 r k = Some t" using claim_acquired [OF inv first] by simp
  then obtain t2 where t2: "look s2 r k = Some t2" "lease_generation t \<le> lease_generation t2"
    by (rule gen_leE [OF steps_gen [OF between inv1]])
  with claim_acquired [OF inv2 second] have t': "look s3 r k = Some t'"
    "lease_generation t < lease_generation t'" by auto
  obtain t4 where t4: "look s4 r k = Some t4" "lease_generation t' \<le> lease_generation t4"
    by (rule gen_leE [OF steps_gen [OF after inv3] t'(1)])
  obtain res s5 where res: "complete c'' r k st p v (lease_generation t) s4 = (res, s5)" by fastforce
  show ?thesis
  proof (cases res)
    case (Inl e)
    with res complete_error [of c'' r k st p v "lease_generation t" s4 e s5] show ?thesis by auto
  next
    case (Inr u)
    with res complete_done [of c'' r k st p v "lease_generation t" s4 u s5] t4 t'(2) show ?thesis by auto
  qed
qed

text \<open>Two successful claims of one task never hand out the same generation.\<close>

lemma claims_have_new_generations:
  assumes inv: "inv s0"
    and first: "claim c r k w n s0 = (Inr (Some t), s1)" and between: "step\<^sup>*\<^sup>* s1 s2"
    and second: "claim c' r k w' n' s2 = (Inr (Some t'), s3)"
  shows "lease_generation t < lease_generation t'"
proof -
  have inv1: "inv s1" using step_inv [OF claim_step [OF first] inv] .
  have "look s1 r k = Some t" using claim_acquired [OF inv first] by simp
  then obtain t2 where "look s2 r k = Some t2" "lease_generation t \<le> lease_generation t2"
    by (rule gen_leE [OF steps_gen [OF between inv1]])
  with claim_acquired [OF steps_inv [OF between inv1] second] show ?thesis by auto
qed

end

section \<open>The execution journal\<close>

definition entry_le :: "journal_entry \<Rightarrow> journal_entry \<Rightarrow> bool" where
  "entry_le e e' \<longleftrightarrow> j_generation e \<le> j_generation e' \<and> (j_status e \<in> set terminal_statuses \<longrightarrow> e' = e)"

lemma entry_le_refl [simp]: "entry_le e e"
  by (simp add: entry_le_def)

lemma entry_le_trans: "entry_le e f \<Longrightarrow> entry_le f g \<Longrightarrow> entry_le e g"
  by (auto simp: entry_le_def)

lemma next_claim_le:
  "next_execution_claim clk (Some e) key owner seconds takeover = (outcome, e') \<Longrightarrow> entry_le e e'"
  by (auto simp: next_execution_claim_def entry_le_def split: if_splits)

lemma next_claim_acquired:
  assumes "next_execution_claim clk current key owner seconds takeover = (Acquired, e')"
  shows "(case current of None \<Rightarrow> j_generation e' = 1
    | Some e \<Rightarrow> j_status e \<notin> set terminal_statuses \<and> takeover \<and>
        lease_expired (j_until e) (clk 1) \<and> j_generation e' = j_generation e + 1)"
  using assms by (cases current) (auto simp: next_execution_claim_def split: if_splits)

lemma completed_execution_le:
  "completed_execution now (Some e) owner gen st p rh = Inr e' \<Longrightarrow> entry_le e e'"
  by (auto simp: completed_execution_def entry_le_def split: if_splits)

lemma completed_execution_Inr:
  assumes "completed_execution now current owner gen st p rh = Inr e'"
  obtains e where "current = Some e" "j_owner e = owner" "j_generation e = gen"
    "j_status e' \<in> set terminal_statuses"
  using assms by (cases current) (auto simp: completed_execution_def split: if_splits)

locale journal_store =
  fixes entry :: "'s \<Rightarrow> string \<Rightarrow> journal_entry option"
    and acquire :: "clock \<Rightarrow> string \<Rightarrow> string \<Rightarrow> int \<Rightarrow> bool \<Rightarrow> 's
      \<Rightarrow> (store_error + claim_outcome \<times> journal_entry) \<times> 's"
    and finish :: "clock \<Rightarrow> string \<Rightarrow> string \<Rightarrow> int \<Rightarrow> string \<Rightarrow> (string, json) dict \<Rightarrow> string \<Rightarrow> 's
      \<Rightarrow> (store_error + journal_entry) \<times> 's"
    and jstep :: "'s \<Rightarrow> 's \<Rightarrow> bool"
    and key_ok :: "string \<Rightarrow> bool"
  assumes jstep_entry: "jstep s s' \<Longrightarrow> entry s k = Some e \<Longrightarrow> \<exists>e'. entry s' k = Some e' \<and> entry_le e e'"
    and acquired_entry: "key_ok k \<Longrightarrow> acquire c k w n b s = (Inr (Acquired, e), s') \<Longrightarrow>
      entry s' k = Some e \<and> (\<forall>f. entry s k = Some f \<longrightarrow>
        j_status f \<notin> set terminal_statuses \<and> b \<and> j_generation e = j_generation f + 1)"
    and finish_done: "key_ok k \<Longrightarrow> finish c k w g st p rh s = (Inr e', s') \<Longrightarrow>
      entry s' k = Some e' \<and> j_status e' \<in> set terminal_statuses \<and>
      (\<exists>e. entry s k = Some e \<and> j_owner e = w \<and> j_generation e = g)"
    and finish_step: "finish c k w g st p rh s = (res, s') \<Longrightarrow> jstep\<^sup>*\<^sup>* s s'"
begin

lemma jsteps_entry:
  "jstep\<^sup>*\<^sup>* s s' \<Longrightarrow> entry s k = Some e \<Longrightarrow> \<exists>e'. entry s' k = Some e' \<and> entry_le e e'"
proof (induction rule: rtranclp_induct)
  case (step y z)
  then show ?case using jstep_entry entry_le_trans by meson
qed simp

text \<open>A finished execution stays as it is.\<close>

lemma terminal_frozen:
  assumes "entry s k = Some e" "j_status e \<in> set terminal_statuses" "jstep\<^sup>*\<^sup>* s s'"
  shows "entry s' k = Some e"
  using jsteps_entry [OF assms(3,1)] assms(2) by (auto simp: entry_le_def)

text \<open>After it is finished, nobody acquires it again.\<close>

lemma no_acquire_after_finish:
  assumes "key_ok k" and "finish c k w g st p rh s = (Inr e, s1)" and "jstep\<^sup>*\<^sup>* s1 s2"
  shows "acquire c' k w' n b s2 \<noteq> (Inr (Acquired, f), s3)"
proof
  assume acq: "acquire c' k w' n b s2 = (Inr (Acquired, f), s3)"
  have "entry s2 k = Some e"
    using finish_done [OF assms(1,2)] terminal_frozen [OF _ _ assms(3)] by blast
  with acquired_entry [OF assms(1) acq] finish_done [OF assms(1,2)] show False by simp
qed

text \<open>A worker that lost its lease to a takeover cannot finish.\<close>

lemma stale_finish_rejected:
  assumes "key_ok k" and "acquire c k w n b s0 = (Inr (Acquired, e), s1)" and "jstep\<^sup>*\<^sup>* s1 s2"
    and "acquire c' k w' n' b' s2 = (Inr (Acquired, e'), s3)" and "jstep\<^sup>*\<^sup>* s3 s4"
  shows "\<forall>f s5. finish c'' k v (j_generation e) st p rh s4 \<noteq> (Inr f, s5)"
proof (intro allI notI)
  fix f s5
  assume "finish c'' k v (j_generation e) st p rh s4 = (Inr f, s5)"
  from finish_done [OF assms(1) this] obtain e4 where e4: "entry s4 k = Some e4"
    "j_generation e4 = j_generation e" by blast
  obtain e2 where e2: "entry s2 k = Some e2" "entry_le e e2"
    using jsteps_entry [OF assms(3)] acquired_entry [OF assms(1,2)] by blast
  have e': "entry s3 k = Some e'" "j_generation e' = j_generation e2 + 1"
    using acquired_entry [OF assms(1,4)] e2(1) by auto
  from jsteps_entry [OF assms(5) e'(1)] e4 e'(2) e2(2) show False by (auto simp: entry_le_def)
qed

end

end
