(* ===== verification/Memory_Store.thy ===== *)
theory Memory_Store
  imports Store_Interface "HOL-Library.Product_Lexorder"
begin

text \<open>
  \<open>MemoryRuntimeStateStore\<close> of \<^verbatim>\<open>runtime_state.py\<close>: dictionaries under a lock. Every operation is one step
  on the store; it returns the value or the exception, and the store it leaves behind (an
  exception may come after a change).
\<close>

section \<open>Operations\<close>

record memory_store =
  m_tasks :: "(string \<times> string, node_task) dict"
  m_cancellations :: "(string, string) dict"
  m_executions :: "(string, journal_entry) dict"

definition m_empty :: memory_store where
  "m_empty = \<lparr>m_tasks = [], m_cancellations = [], m_executions = []\<rparr>"

definition m_get :: "memory_store \<Rightarrow> string \<Rightarrow> string \<Rightarrow> node_task option" where
  "m_get s r t = map_of (m_tasks s) (r, t)"

definition m_put :: "node_task \<Rightarrow> memory_store \<Rightarrow> memory_store" where
  "m_put t s = s\<lparr>m_tasks := AList.update (run_id t, task_id t) t (m_tasks s)\<rparr>"

definition m_upsert ::
  "(string \<Rightarrow> string) \<Rightarrow> clock \<Rightarrow> node_task \<Rightarrow> memory_store \<Rightarrow> (store_error + node_task) \<times> memory_store" where
  "m_upsert h clk t s =
     (let t' = (bind_fingerprint h t)\<lparr>updated_at := At (clk 0)\<rparr> in (Inr t', m_put t' s))"

definition m_list :: "memory_store \<Rightarrow> string \<Rightarrow> node_task list" where
  "m_list s r = map snd (sort_key fst (filter (\<lambda>(k, t). fst k = r) (m_tasks s)))"

definition m_cancel_run :: "string \<Rightarrow> string \<Rightarrow> memory_store \<Rightarrow> memory_store" where
  "m_cancel_run r reason s = s\<lparr>m_cancellations := AList.update r reason (m_cancellations s)\<rparr>"

definition m_run_canceled :: "memory_store \<Rightarrow> string \<Rightarrow> bool" where
  "m_run_canceled s r = (map_of (m_cancellations s) r \<noteq> None)"

definition m_enqueue ::
  "(string \<Rightarrow> string) \<Rightarrow> clock \<Rightarrow> node_task \<Rightarrow> memory_store \<Rightarrow> (store_error + node_task) \<times> memory_store" where
  "m_enqueue h clk t s =
     (let c = enqueue_candidate h t in
      case m_get s (run_id c) (task_id c) of
        Some e \<Rightarrow> (bind_res (request_match e c) (\<lambda>_. Inr e), s)
      | None \<Rightarrow> let c' = c\<lparr>updated_at := At (clk 0)\<rparr> in (Inr c', m_put c' s))"

text \<open>
  \<open>claim_node_task\<close> changes the stored object field by field: when \<open>required_text\<close> raises for a
  blank owner, the status and the attempts have already changed.
\<close>

definition m_claim ::
  "clock \<Rightarrow> string \<Rightarrow> string \<Rightarrow> string \<Rightarrow> int \<Rightarrow> memory_store
    \<Rightarrow> (store_error + node_task option) \<times> memory_store" where
  "m_claim clk r k owner seconds s =
     (case m_get s r k of
        None \<Rightarrow> (Inr None, s)
      | Some t \<Rightarrow>
          if \<not> claimable (status t) then (Inr None, s)
          else let t1 = t\<lparr>status := ''running'', attempts := attempts t + 1\<rparr>;
                   put = (\<lambda>u. s\<lparr>m_tasks := AList.update (r, k) u (m_tasks s)\<rparr>)
               in case required_text owner ''lease_owner'' of
                 Inl e \<Rightarrow> (Inl e, put t1)
               | Inr w \<Rightarrow>
                   let t2 = t1\<lparr>lease_owner := w, lease_generation := lease_generation t + 1,
                     lease_until := future_timestamp (clk 0) seconds, updated_at := At (clk 1)\<rparr>
                   in (Inr (Some t2), put t2))"

definition m_complete ::
  "clock \<Rightarrow> string \<Rightarrow> string \<Rightarrow> string \<Rightarrow> (string, json) dict \<Rightarrow> string \<Rightarrow> int \<Rightarrow> memory_store
    \<Rightarrow> (store_error + node_task) \<times> memory_store" where
  "m_complete clk r k st p owner gen s =
     (case m_get s r k of
        None \<Rightarrow> (Inl StaleNodeTaskFence, s)
      | Some t \<Rightarrow> (case task_fence t owner gen st of
          Inl e \<Rightarrow> (Inl e, s)
        | Inr _ \<Rightarrow>
            if status t \<noteq> ''running'' then (Inr t, s)
            else let t' = (completed_task t st p)\<lparr>updated_at := At (clk 0)\<rparr>
                 in (Inr t', s\<lparr>m_tasks := AList.update (r, k) t' (m_tasks s)\<rparr>)))"

definition m_heartbeat ::
  "clock \<Rightarrow> string \<Rightarrow> string \<Rightarrow> string \<Rightarrow> int \<Rightarrow> int \<Rightarrow> memory_store \<Rightarrow> bool \<times> memory_store" where
  "m_heartbeat clk r k owner seconds gen s =
     (case m_get s r k of
        None \<Rightarrow> (False, s)
      | Some t \<Rightarrow>
          if \<not> fence_matches t owner gen then (False, s)
          else (True, s\<lparr>m_tasks := AList.update (r, k)
            (t\<lparr>lease_until := future_timestamp (clk 0) seconds, updated_at := At (clk 1)\<rparr>) (m_tasks s)\<rparr>))"

definition m_fence ::
  "clock \<Rightarrow> string \<Rightarrow> string \<Rightarrow> string \<Rightarrow> (string, json) dict \<Rightarrow> int \<Rightarrow> memory_store
    \<Rightarrow> (store_error + node_task) \<times> memory_store" where
  "m_fence clk r k st p expected s =
     (case m_get s r k of
        None \<Rightarrow> (Inl StaleNodeTaskFence, s)
      | Some t \<Rightarrow> (case expected_generation t expected of
          Inl e \<Rightarrow> (Inl e, s)
        | Inr _ \<Rightarrow>
            if status t \<in> set final_task_statuses then (Inr t, s)
            else let t' = (fenced_task t st p)\<lparr>updated_at := At (clk 0)\<rparr>
                 in (Inr t', s\<lparr>m_tasks := AList.update (r, k) t' (m_tasks s)\<rparr>)))"

text \<open>
  \<open>recover_expired_node_tasks\<close> reads the clock for each task anew: \<open>clk (2 i)\<close> for the lease of the
  \<open>i\<close>-th task and \<open>clk (2 i + 1)\<close> for its time stamp.
\<close>

fun m_recover_loop :: "clock \<Rightarrow> int \<Rightarrow> nat \<Rightarrow> ('k \<times> node_task) list \<Rightarrow> int \<times> ('k \<times> node_task) list" where
  "m_recover_loop clk limit i [] = (0, [])"
| "m_recover_loop clk limit i ((k, t) # ts) =
     (let (n, ts') = m_recover_loop clk limit (i + 1) ts
      in if needs_recovery (clk (2 * i)) t
         then (n + 1, (k, (recovered_task t limit)\<lparr>updated_at := At (clk (2 * i + 1))\<rparr>) # ts')
         else (n, (k, t) # ts'))"

definition m_recover :: "clock \<Rightarrow> int \<Rightarrow> memory_store \<Rightarrow> int \<times> memory_store" where
  "m_recover clk limit s =
     (let (n, ts) = m_recover_loop clk limit 0 (m_tasks s) in (n, s\<lparr>m_tasks := ts\<rparr>))"

text \<open>Stored tasks always have a parsed time stamp; the order of the texts is the order in time.\<close>

definition stamp_time :: "stamp \<Rightarrow> int" where
  "stamp_time st = (case st of At n \<Rightarrow> n | _ \<Rightarrow> 0)"

definition m_claim_next ::
  "clock \<Rightarrow> string \<Rightarrow> int \<Rightarrow> string list \<Rightarrow> memory_store
    \<Rightarrow> (store_error + node_task option) \<times> memory_store" where
  "m_claim_next clk owner seconds kinds s =
     (case find (\<lambda>t. claimable (status t) \<and> kind_allowed kinds t)
         (sort_key (\<lambda>t. stamp_time (updated_at t)) (map snd (m_tasks s))) of
        None \<Rightarrow> (Inr None, s)
      | Some t \<Rightarrow> m_claim clk (run_id t) (task_id t) owner seconds s)"

definition m_claim_execution ::
  "clock \<Rightarrow> string \<Rightarrow> string \<Rightarrow> int \<Rightarrow> bool \<Rightarrow> memory_store
    \<Rightarrow> (store_error + claim_outcome \<times> journal_entry) \<times> memory_store" where
  "m_claim_execution clk ikey owner seconds takeover s =
     (case bind_res (required_text ikey ''idempotency_key'') (\<lambda>k.
         bind_res (required_text owner ''lease_owner'') (\<lambda>w. Inr (k, w))) of
        Inl e \<Rightarrow> (Inl e, s)
      | Inr (k, w) \<Rightarrow>
          let (outcome, e) = next_execution_claim clk (map_of (m_executions s) k) k w seconds takeover
          in (Inr (outcome, e), if outcome = Acquired
               then s\<lparr>m_executions := AList.update k e (m_executions s)\<rparr> else s))"

definition m_get_execution :: "memory_store \<Rightarrow> string \<Rightarrow> journal_entry option" where
  "m_get_execution s ikey = map_of (m_executions s) ikey"

definition m_complete_execution ::
  "clock \<Rightarrow> string \<Rightarrow> string \<Rightarrow> int \<Rightarrow> string \<Rightarrow> (string, json) dict \<Rightarrow> string \<Rightarrow> memory_store
    \<Rightarrow> (store_error + journal_entry) \<times> memory_store" where
  "m_complete_execution clk ikey owner gen st p result_hash s =
     (case completed_execution (clk 0) (map_of (m_executions s) ikey) owner gen st p result_hash of
        Inl e \<Rightarrow> (Inl e, s)
      | Inr e \<Rightarrow> (Inr e, s\<lparr>m_executions := AList.update ikey e (m_executions s)\<rparr>))"

section \<open>Steps\<close>

text \<open>
  One call on the store, with any arguments. \<open>upsert_node_task\<close> is not a step: it overwrites a task
  whatever its lease, and is for whoever creates the task.
\<close>

inductive memory_step :: "(string \<Rightarrow> string) \<Rightarrow> memory_store \<Rightarrow> memory_store \<Rightarrow> bool" for h where
  enqueue: "m_enqueue h c t s = (res, s') \<Longrightarrow> memory_step h s s'"
| claim: "m_claim c r k w n s = (res, s') \<Longrightarrow> memory_step h s s'"
| claim_next: "m_claim_next c w n kinds s = (res, s') \<Longrightarrow> memory_step h s s'"
| complete: "m_complete c r k st p w g s = (res, s') \<Longrightarrow> memory_step h s s'"
| heartbeat: "m_heartbeat c r k w n g s = (b, s') \<Longrightarrow> memory_step h s s'"
| fence: "m_fence c r k st p g s = (res, s') \<Longrightarrow> memory_step h s s'"
| recover: "m_recover c limit s = (n, s') \<Longrightarrow> memory_step h s s'"
| cancel: "memory_step h s (m_cancel_run r reason s)"
| claim_execution: "m_claim_execution c ikey w n b s = (res, s') \<Longrightarrow> memory_step h s s'"
| complete_execution: "m_complete_execution c ikey w g st p rh s = (res, s') \<Longrightarrow> memory_step h s s'"

text \<open>The key of a task is its identity.\<close>

definition m_ok :: "memory_store \<Rightarrow> bool" where
  "m_ok s \<longleftrightarrow> (\<forall>((r, k), t)\<in>set (m_tasks s). run_id t = r \<and> task_id t = k)"

lemma m_ok_get: "m_ok s \<Longrightarrow> m_get s r k = Some t \<Longrightarrow> run_id t = r \<and> task_id t = k"
  by (auto simp: m_ok_def m_get_def dest!: map_of_SomeD)

lemma m_ok_update:
  assumes "m_ok s" "run_id t = r" "task_id t = k"
  shows "m_ok (s\<lparr>m_tasks := AList.update (r, k) t (m_tasks s)\<rparr>)"
proof -
  have "set (AList.update (r, k) t ts) \<subseteq> insert ((r, k), t) (set ts)" for ts
    by (induction ts) auto
  with assms show ?thesis by (fastforce simp: m_ok_def)
qed

lemma m_gen_update:
  assumes "\<And>u. m_get s r k = Some u \<Longrightarrow> lease_generation u \<le> lease_generation t"
  shows "gen_le m_get s (s\<lparr>m_tasks := AList.update (r, k) t (m_tasks s)\<rparr>)"
  using assms by (auto simp: gen_le_def m_get_def)

lemmas task_updates = completed_task_def fenced_task_def recovered_task_def

lemma enqueue_candidate_ids [simp]:
  "run_id (enqueue_candidate h t) = run_id t" "task_id (enqueue_candidate h t) = task_id t"
  by (simp_all add: enqueue_candidate_def bind_fingerprint_def Let_def)

lemma m_claim_spec:
  assumes "m_ok s" "m_claim c r k w n s = (res, s')"
  shows "m_ok s' \<and> gen_le m_get s s' \<and> (\<forall>t'. res = Inr (Some t') \<longrightarrow> m_get s' r k = Some t' \<and>
    (\<exists>t. m_get s r k = Some t \<and> claimable (status t) \<and> lease_generation t' = lease_generation t + 1))"
proof (cases "m_get s r k")
  case None
  with assms show ?thesis by (auto simp: m_claim_def)
next
  case (Some t)
  note ids = m_ok_get [OF assms(1) Some]
  show ?thesis
  proof (cases "claimable (status t)")
    case False
    with Some assms show ?thesis by (auto simp: m_claim_def)
  next
    case True
    show ?thesis
    proof (cases "required_text w ''lease_owner''")
      case (Inl e)
      with Some True assms ids show ?thesis
        by (auto simp: m_claim_def intro!: m_ok_update m_gen_update)
    next
      case (Inr v)
      with Some True assms ids show ?thesis
        by (auto simp: m_claim_def Let_def m_get_def intro!: m_ok_update m_gen_update)
    qed
  qed
qed

lemma m_claim_next_spec:
  assumes "m_ok s" "m_claim_next c w n kinds s = (res, s')"
  shows "m_ok s' \<and> gen_le m_get s s'"
  using assms m_claim_spec by (fastforce simp: m_claim_next_def split: option.splits)

lemma m_complete_spec:
  assumes "m_ok s" "m_complete c r k st p w g s = (res, s')"
  shows "m_ok s' \<and> gen_le m_get s s'"
proof (cases "m_get s r k")
  case (Some t)
  with assms m_ok_get [OF assms(1) Some] show ?thesis
    by (cases "task_fence t w g st")
      (auto simp: m_complete_def Let_def task_updates split: if_splits intro!: m_ok_update m_gen_update)
qed (use assms in \<open>auto simp: m_complete_def\<close>)

lemma m_heartbeat_spec:
  assumes "m_ok s" "m_heartbeat c r k w n g s = (res, s')"
  shows "m_ok s' \<and> gen_le m_get s s'"
proof (cases "m_get s r k")
  case (Some t)
  with assms m_ok_get [OF assms(1) Some] show ?thesis
    by (auto simp: m_heartbeat_def split: if_splits intro!: m_ok_update m_gen_update)
qed (use assms in \<open>auto simp: m_heartbeat_def\<close>)

lemma m_fence_spec:
  assumes "m_ok s" "m_fence c r k st p g s = (res, s')"
  shows "m_ok s' \<and> gen_le m_get s s'"
proof (cases "m_get s r k")
  case (Some t)
  with assms m_ok_get [OF assms(1) Some] show ?thesis
    by (cases "expected_generation t g")
      (auto simp: m_fence_def Let_def task_updates split: if_splits intro!: m_ok_update m_gen_update)
qed (use assms in \<open>auto simp: m_fence_def\<close>)

lemma m_enqueue_spec:
  assumes "m_ok s" "m_enqueue h c t s = (res, s')"
  shows "m_ok s' \<and> gen_le m_get s s'"
  using assms
  by (auto simp: m_enqueue_def Let_def m_put_def split: option.splits intro!: m_ok_update m_gen_update)

lemma m_recover_loop_spec:
  assumes "m_recover_loop c limit i ts = (n, ts')"
  shows "(\<forall>(key, t')\<in>set ts'. \<exists>t. (key, t) \<in> set ts \<and> run_id t' = run_id t \<and> task_id t' = task_id t) \<and>
    (\<forall>key t. map_of ts key = Some t \<longrightarrow>
      (\<exists>t'. map_of ts' key = Some t' \<and> lease_generation t' = lease_generation t))"
  using assms
proof (induction c limit i ts arbitrary: n ts' rule: m_recover_loop.induct)
  case (2 c limit i k t ts)
  obtain m us where rec: "m_recover_loop c limit (i + 1) ts = (m, us)" by fastforce
  have IH: "(\<forall>(key, t')\<in>set us. \<exists>t. (key, t) \<in> set ts \<and> run_id t' = run_id t \<and> task_id t' = task_id t)"
    "(\<forall>key t. map_of ts key = Some t \<longrightarrow>
      (\<exists>t'. map_of us key = Some t' \<and> lease_generation t' = lease_generation t))"
    using 2(1) [OF rec] by blast+
  with 2(2) rec show ?case by (fastforce simp: task_updates split: if_splits)
qed simp

lemma m_recover_spec:
  assumes "m_ok s" "m_recover c limit s = (n, s')"
  shows "m_ok s' \<and> gen_le m_get s s'"
proof -
  obtain ts where ts: "m_recover_loop c limit 0 (m_tasks s) = (n, ts)" "s' = s\<lparr>m_tasks := ts\<rparr>"
    using assms(2) by (auto simp: m_recover_def split: prod.splits)
  from m_recover_loop_spec [OF ts(1)] assms(1) show ?thesis
    unfolding ts(2) m_ok_def gen_le_def m_get_def by fastforce
qed

lemma m_execution_frame:
  "m_claim_execution c ikey w n b s = (res, s') \<Longrightarrow> m_tasks s' = m_tasks s"
  "m_complete_execution c ikey w g st p rh s = (res', s') \<Longrightarrow> m_tasks s' = m_tasks s"
  by (auto simp: m_claim_execution_def m_complete_execution_def split: sum.splits prod.splits if_splits)

lemma memory_step_spec:
  assumes "memory_step h s s'" "m_ok s"
  shows "m_ok s' \<and> gen_le m_get s s'"
  using assms
proof cases
  case (claim_execution c ikey w n b res)
  with assms(2) m_execution_frame(1) show ?thesis by (fastforce simp: m_ok_def gen_le_def m_get_def)
next
  case (complete_execution c ikey w g st p rh res)
  with assms(2) m_execution_frame(2) show ?thesis by (fastforce simp: m_ok_def gen_le_def m_get_def)
next
  case (cancel r reason)
  with assms(2) show ?thesis by (simp add: m_cancel_run_def m_ok_def gen_le_def m_get_def)
next
  case (claim c r k w n res)
  from m_claim_spec [OF assms(2) claim] show ?thesis by simp
qed (rule m_enqueue_spec m_claim_next_spec m_complete_spec m_heartbeat_spec m_fence_spec m_recover_spec,
  rule assms(2), assumption)+

lemma task_fence_Inr:
  "task_fence t w g st = Inr u \<Longrightarrow> lease_owner t = w \<and> lease_generation t = g \<and> 0 < g"
  by (auto simp: task_fence_def fence_matches_def split: if_splits)

interpretation memory_leases: lease_store m_ok m_get m_claim m_complete "memory_step h" for h
proof unfold_locales
  fix s s' assume "memory_step h s s'" "m_ok s"
  then show "m_ok s'" "gen_le m_get s s'" using memory_step_spec by blast+
next
  fix c r k w n s res s' assume "m_claim c r k w n s = (res, s')"
  then show "memory_step h s s'" by (rule memory_step.claim)
next
  fix s c r k w n t' s' assume "m_ok s" "m_claim c r k w n s = (Inr (Some t'), s')"
  then show "m_get s' r k = Some t' \<and> (\<exists>t. m_get s r k = Some t \<and> claimable (status t) \<and>
      lease_generation t' = lease_generation t + 1)"
    using m_claim_spec by blast
next
  fix c r k st p w g s t' s' assume "m_complete c r k st p w g s = (Inr t', s')"
  then show "\<exists>t. m_get s r k = Some t \<and> lease_owner t = w \<and> lease_generation t = g \<and> 0 < g"
    by (auto simp: m_complete_def split: option.splits sum.splits dest!: task_fence_Inr)
next
  fix c r k st p w g s e s' assume "m_complete c r k st p w g s = (Inl e, s')"
  then show "s' = s" by (auto simp: m_complete_def Let_def split: option.splits sum.splits if_splits)
qed

section \<open>The journal\<close>

lemma m_executions_frame:
  "m_enqueue h c t s = (r1, s') \<Longrightarrow> m_executions s' = m_executions s"
  "m_claim c r k w n s = (r2, s') \<Longrightarrow> m_executions s' = m_executions s"
  "m_claim_next c w n kinds s = (r3, s') \<Longrightarrow> m_executions s' = m_executions s"
  "m_complete c r k st p w g s = (r4, s') \<Longrightarrow> m_executions s' = m_executions s"
  "m_heartbeat c r k w n g s = (r5, s') \<Longrightarrow> m_executions s' = m_executions s"
  "m_fence c r k st p g s = (r6, s') \<Longrightarrow> m_executions s' = m_executions s"
  "m_recover c limit s = (r7, s') \<Longrightarrow> m_executions s' = m_executions s"
proof -
  show claim: "m_claim c r k w n s = (r2, s') \<Longrightarrow> m_executions s' = m_executions s" for c r k w n s r2 s'
    by (auto simp: m_claim_def Let_def split: option.splits sum.splits if_splits)
  then show "m_claim_next c w n kinds s = (r3, s') \<Longrightarrow> m_executions s' = m_executions s"
    by (auto simp: m_claim_next_def split: option.splits)
qed (auto simp: m_enqueue_def m_put_def m_complete_def m_heartbeat_def m_fence_def m_recover_def Let_def
  split: option.splits sum.splits if_splits prod.splits)

lemma memory_step_journal:
  assumes "memory_step h s s'" "map_of (m_executions s) k = Some e"
  shows "\<exists>e'. map_of (m_executions s') k = Some e' \<and> entry_le e e'"
  using assms(1)
proof cases
  case (claim_execution c ikey w n b res)
  then show ?thesis
    using assms(2) next_claim_le
    by (fastforce simp: m_claim_execution_def split: sum.splits prod.splits if_splits)
next
  case (complete_execution c ikey w g st p rh res)
  then show ?thesis
    using assms(2) completed_execution_le
    by (fastforce simp: m_complete_execution_def split: sum.splits)
next
  case (cancel r reason)
  with assms(2) show ?thesis by (simp add: m_cancel_run_def)
qed (use assms(2) m_executions_frame in force)+

lemma required_text_ok: "py_strip k = k \<and> k \<noteq> [] \<Longrightarrow> required_text k name = Inr k"
  by (auto simp: required_text_def)

interpretation memory_journal: journal_store m_get_execution m_claim_execution m_complete_execution
  "memory_step h" "\<lambda>k. py_strip k = k \<and> k \<noteq> []" for h
proof unfold_locales
  fix s s' k e assume "memory_step h s s'" "m_get_execution s k = Some e"
  then show "\<exists>e'. m_get_execution s' k = Some e' \<and> entry_le e e'"
    unfolding m_get_execution_def by (rule memory_step_journal)
next
  fix k c w n b s e s'
  assume k: "py_strip k = k \<and> k \<noteq> []" and acq: "m_claim_execution c k w n b s = (Inr (Acquired, e), s')"
  then obtain v where claim: "next_execution_claim c (map_of (m_executions s) k) k v n b = (Acquired, e)"
    and s': "s' = s\<lparr>m_executions := AList.update k e (m_executions s)\<rparr>"
    using required_text_ok [OF k]
    by (auto simp: m_claim_execution_def split: sum.splits prod.splits if_splits elim!: bind_res_InrE)
  from next_claim_acquired [OF claim] show "m_get_execution s' k = Some e \<and>
      (\<forall>f. m_get_execution s k = Some f \<longrightarrow>
        j_status f \<notin> set terminal_statuses \<and> b \<and> j_generation e = j_generation f + 1)"
    unfolding s' by (auto simp: m_get_execution_def)
next
  fix k c w g st p rh s e' s'
  assume "py_strip k = k \<and> k \<noteq> []" "m_complete_execution c k w g st p rh s = (Inr e', s')"
  then show "m_get_execution s' k = Some e' \<and> j_status e' \<in> set terminal_statuses \<and>
      (\<exists>e. m_get_execution s k = Some e \<and> j_owner e = w \<and> j_generation e = g)"
    by (auto simp: m_complete_execution_def m_get_execution_def split: sum.splits
        elim!: completed_execution_Inr)
next
  fix c k w g st p rh s res s' assume "m_complete_execution c k w g st p rh s = (res, s')"
  then show "(memory_step h)\<^sup>*\<^sup>* s s'" by (blast intro: memory_step.complete_execution)
qed

section \<open>Properties\<close>

definition m_reachable :: "(string \<Rightarrow> string) \<Rightarrow> memory_store \<Rightarrow> bool" where
  "m_reachable h s \<longleftrightarrow> (memory_step h)\<^sup>*\<^sup>* m_empty s"

lemma m_reachable_ok: "m_reachable h s \<Longrightarrow> m_ok s"
  using memory_leases.steps_inv [of h m_empty s] by (simp add: m_reachable_def m_ok_def m_empty_def)

definition sample_task :: node_task where
  "sample_task = \<lparr>run_id = ''r'', task_id = ''k'', status = [], idempotency_key = ''i'', attempts = 0,
     lease_owner = [], lease_generation = 0, lease_until = NoStamp, updated_at = NoStamp,
     payload = [(''taskKind'', JStr ''query'')], request_fingerprint = []\<rparr>"

text \<open>The clock stands still at \<open>n\<close>; the digest of the samples.\<close>

definition at :: "int \<Rightarrow> clock" where
  "at n = (\<lambda>_. n)"

definition sample_digest :: "string \<Rightarrow> string" where
  "sample_digest s = CHR ''x'' # s @ ''x''"

definition sample_queued :: memory_store where
  "sample_queued = snd (m_enqueue sample_digest (at 0) sample_task m_empty)"

definition sample_claimed :: memory_store where
  "sample_claimed = snd (m_claim (at 0) ''r'' ''k'' ''w1'' 1 sample_queued)"

definition sample_recovered :: memory_store where
  "sample_recovered = snd (m_recover (at 2000000) 3 sample_claimed)"

lemma sample_reachable: "m_reachable sample_digest sample_queued"
  unfolding m_reachable_def sample_queued_def
  by (rule r_into_rtranclp) (rule memory_step.enqueue, rule prod.collapse [symmetric])

lemma claim_SomeE:
  assumes "(case fst x of Inr (Some t) \<Rightarrow> P t | _ \<Rightarrow> False)"
  obtains t where "x = (Inr (Some t), snd x)" "P t"
  using assms by (cases x) (auto split: sum.splits option.splits)

text \<open>
  C6: Fencing in the memory store: once a task was claimed again, a completion with the generation
  of the earlier claim is rejected, whoever sends it and whatever calls came in between, and
  leaves the store unchanged.
\<close>

theorem memory_stale_lease_rejected:
  assumes "m_reachable h s0" and "m_claim c r k w n s0 = (Inr (Some t), s1)"
    and "(memory_step h)\<^sup>*\<^sup>* s1 s2" and "m_claim c' r k w' n' s2 = (Inr (Some t'), s3)"
    and "(memory_step h)\<^sup>*\<^sup>* s3 s4"
  shows "lease_generation t < lease_generation t' \<and>
    (\<exists>e. m_complete c'' r k st p v (lease_generation t) s4 = (Inl e, s4))"
  using memory_leases.stale_lease_rejected [OF m_reachable_ok [OF assms(1)] assms(2-5)]
    memory_leases.claims_have_new_generations [OF m_reachable_ok [OF assms(1)] assms(2-4)] by blast

lemma memory_stale_lease_rejected_witness:
  "\<exists>t t' s3 e. m_claim (at 0) ''r'' ''k'' ''w1'' 1 sample_queued = (Inr (Some t), sample_claimed) \<and>
     m_claim (at 2000000) ''r'' ''k'' ''w2'' 1 sample_recovered = (Inr (Some t'), s3) \<and>
     m_complete (at 3000000) ''r'' ''k'' ''completed'' [] ''w1'' (lease_generation t) s3 = (Inl e, s3)"
proof -
  have "(case fst (m_claim (at 0) ''r'' ''k'' ''w1'' 1 sample_queued) of Inr (Some t) \<Rightarrow> True | _ \<Rightarrow> False)"
    by code_simp
  then obtain t where t: "m_claim (at 0) ''r'' ''k'' ''w1'' 1 sample_queued = (Inr (Some t), sample_claimed)"
    unfolding sample_claimed_def by (rule claim_SomeE)
  have "(case fst (m_claim (at 2000000) ''r'' ''k'' ''w2'' 1 sample_recovered) of
    Inr (Some t) \<Rightarrow> True | _ \<Rightarrow> False)" by code_simp
  then obtain t' s3 where t': "m_claim (at 2000000) ''r'' ''k'' ''w2'' 1 sample_recovered = (Inr (Some t'), s3)"
    by (rule claim_SomeE)
  have "memory_step sample_digest sample_claimed sample_recovered"
    unfolding sample_recovered_def by (rule memory_step.recover, rule prod.collapse [symmetric])
  then have "(memory_step sample_digest)\<^sup>*\<^sup>* sample_claimed sample_recovered" by blast
  from memory_stale_lease_rejected [OF sample_reachable t this t' rtranclp.rtrancl_refl] t t'
  show ?thesis by blast
qed

text \<open>
  An execution that is finished in the memory store stays finished: its entry never changes
  again, and no worker acquires it again, with or without takeover.
\<close>

theorem memory_finished_stays:
  assumes "py_strip k = k \<and> k \<noteq> []" and "m_complete_execution c k w g st p rh s = (Inr e, s1)"
    and "(memory_step h)\<^sup>*\<^sup>* s1 s2"
  shows "m_get_execution s2 k = Some e \<and>
    (\<forall>c' w' n b f s3. m_claim_execution c' k w' n b s2 \<noteq> (Inr (Acquired, f), s3))"
proof -
  have "m_get_execution s1 k = Some e \<and> j_status e \<in> set terminal_statuses"
    using memory_journal.finish_done [OF assms(1,2)] by blast
  then show ?thesis
    using memory_journal.terminal_frozen [OF _ _ assms(3)]
      memory_journal.no_acquire_after_finish [OF assms] by blast
qed

definition sample_running :: memory_store where
  "sample_running = snd (m_claim_execution (at 0) ''job'' ''w'' 1 False m_empty)"

lemma memory_finished_stays_witness:
  "\<exists>e s. m_complete_execution (at 1) ''job'' ''w'' 1 ''succeeded'' [] ''hash'' sample_running = (Inr e, s) \<and>
     m_get_execution s ''job'' = Some e"
proof -
  have "\<not> isl (fst (m_complete_execution (at 1) ''job'' ''w'' 1 ''succeeded'' [] ''hash'' sample_running))"
    by code_simp
  then obtain e s where e:
    "m_complete_execution (at 1) ''job'' ''w'' 1 ''succeeded'' [] ''hash'' sample_running = (Inr e, s)"
    by (cases "m_complete_execution (at 1) ''job'' ''w'' 1 ''succeeded'' [] ''hash'' sample_running";
        cases "fst (m_complete_execution (at 1) ''job'' ''w'' 1 ''succeeded'' [] ''hash'' sample_running)") auto
  have k: "py_strip ''job'' = ''job'' \<and> ''job'' \<noteq> []" by code_simp
  from memory_finished_stays [OF k e rtranclp.rtrancl_refl] e show ?thesis by blast
qed

text \<open>
  Enqueuing is idempotent per request: a second enqueue under the same run and task returns
  the task of the first one when the request (idempotency key and payload, or the supplied
  fingerprint) is the same up to the order of keys, and is a request conflict otherwise; the
  store does not change either way.
\<close>

theorem memory_enqueue_once:
  assumes h: "inj h" "\<And>x. py_strip (h x) = h x \<and> h x \<noteq> []"
    and new: "m_get s (run_id t) (task_id t) = None" and first: "m_enqueue h c t s = (Inr e, s')"
    and same: "run_id u = run_id t" "task_id u = task_id t"
    and unset: "py_strip (request_fingerprint t) = []" "py_strip (request_fingerprint u) = []"
  shows "m_enqueue h c' u s' =
    ((if canon (request_identity u) = canon (request_identity t) then Inr e
      else Inl (NodeTaskRequestConflict (run_id u) (task_id u)
        (stable_fingerprint h (request_identity t)) (stable_fingerprint h (request_identity u)))), s')"
proof -
  have fp: "request_fingerprint (enqueue_candidate h v) = stable_fingerprint h (request_identity v)"
    if "py_strip (request_fingerprint v) = []" for v
    using that by (simp add: enqueue_candidate_def bind_fingerprint_def Let_def)
  have strip: "py_strip (stable_fingerprint h j) = stable_fingerprint h j"
    "stable_fingerprint h j \<noteq> []" for j
    using h(2) by (simp_all add: stable_fingerprint_def)
  have e: "e = (enqueue_candidate h t)\<lparr>updated_at := At (c 0)\<rparr>" "s' = m_put e s"
    using first new by (auto simp: m_enqueue_def Let_def)
  then have "m_get s' (run_id u) (task_id u) = Some e"
    by (simp add: m_get_def m_put_def same)
  then show ?thesis
    by (auto simp: m_enqueue_def request_match_def Let_def e(1) fp unset strip
        stable_fingerprint_eq_iff [OF h(1)])
qed

lemma sample_digest_ok: "inj sample_digest" "py_strip (sample_digest x) = sample_digest x \<and> sample_digest x \<noteq> []"
proof -
  show "inj sample_digest" by (rule injI) (simp add: sample_digest_def)
  have "\<not> py_isspace (CHR ''x'')" by code_simp
  then have "rstrip_of py_isspace (sample_digest x) = sample_digest x"
    by (intro rstrip_of_id) (simp add: sample_digest_def)
  with \<open>\<not> py_isspace (CHR ''x'')\<close> show "py_strip (sample_digest x) = sample_digest x \<and> sample_digest x \<noteq> []"
    by (simp add: py_strip_def strip_of_def lstrip_of_def sample_digest_def)
qed

lemma memory_enqueue_once_witness:
  "\<exists>e s'. m_enqueue sample_digest (at 0) sample_task m_empty = (Inr e, s') \<and>
     m_enqueue sample_digest (at 5) sample_task s' = (Inr e, s') \<and>
     fst (m_enqueue sample_digest (at 5) (sample_task\<lparr>payload := []\<rparr>) s') \<noteq> Inr e"
proof -
  have new: "m_get m_empty (run_id sample_task) (task_id sample_task) = None"
    by (simp add: m_get_def m_empty_def)
  then obtain e s' where e: "m_enqueue sample_digest (at 0) sample_task m_empty = (Inr e, s')"
    by (auto simp: m_enqueue_def Let_def)
  have unset: "py_strip (request_fingerprint sample_task) = []"
    and unset': "py_strip (request_fingerprint (sample_task\<lparr>payload := []\<rparr>)) = []"
    by (simp_all add: sample_task_def py_strip_def strip_of_def lstrip_of_def)
  have "canon (request_identity (sample_task\<lparr>payload := []\<rparr>)) \<noteq> canon (request_identity sample_task)"
    by code_simp
  then show ?thesis
    using memory_enqueue_once [OF sample_digest_ok new e refl refl unset unset, of "at 5"]
      memory_enqueue_once [OF sample_digest_ok new e _ _ unset unset', of "at 5"] e by auto
qed

text \<open>
  The discipline of the workers: tasks are enqueued fresh, a lease ends in a status that cannot
  be claimed, and the recovery always uses the same limit.
\<close>

inductive worker_step :: "(string \<Rightarrow> string) \<Rightarrow> int \<Rightarrow> memory_store \<Rightarrow> memory_store \<Rightarrow> bool" for h m where
  w_enqueue: "m_enqueue h c t s = (res, s') \<Longrightarrow> attempts t = 0 \<Longrightarrow> worker_step h m s s'"
| w_claim: "m_claim c r k w n s = (res, s') \<Longrightarrow> worker_step h m s s'"
| w_claim_next: "m_claim_next c w n kinds s = (res, s') \<Longrightarrow> worker_step h m s s'"
| w_complete: "m_complete c r k st p w g s = (res, s') \<Longrightarrow> \<not> claimable st \<Longrightarrow> worker_step h m s s'"
| w_heartbeat: "m_heartbeat c r k w n g s = (b, s') \<Longrightarrow> worker_step h m s s'"
| w_fence: "m_fence c r k st p g s = (res, s') \<Longrightarrow> \<not> claimable st \<Longrightarrow> worker_step h m s s'"
| w_recover: "m_recover c m s = (n, s') \<Longrightarrow> worker_step h m s s'"

definition attempts_ok :: "int \<Rightarrow> node_task \<Rightarrow> bool" where
  "attempts_ok m t \<longleftrightarrow> attempts t \<le> max 1 m \<and> (claimable (status t) \<longrightarrow> attempts t < max 1 m)"

definition all_attempts_ok :: "int \<Rightarrow> memory_store \<Rightarrow> bool" where
  "all_attempts_ok m s \<longleftrightarrow> (\<forall>(key, t)\<in>set (m_tasks s). attempts_ok m t)"

lemma all_attempts_get: "all_attempts_ok m s \<Longrightarrow> m_get s r k = Some t \<Longrightarrow> attempts_ok m t"
  by (auto simp: all_attempts_ok_def m_get_def dest!: map_of_SomeD)

lemma all_attempts_update:
  assumes "all_attempts_ok m s" "attempts_ok m t"
  shows "all_attempts_ok m (s\<lparr>m_tasks := AList.update key t (m_tasks s)\<rparr>)"
proof -
  have "set (AList.update key t ts) \<subseteq> insert (key, t) (set ts)" for ts
    by (induction ts) auto
  with assms show ?thesis by (fastforce simp: all_attempts_ok_def)
qed

lemma not_claimable_running [simp]: "\<not> claimable ''running''" "\<not> claimable ''failed''"
  by (simp_all add: claimable_def)

lemma m_claim_attempts:
  assumes "all_attempts_ok m s" "m_claim c r k w n s = (res, s')"
  shows "all_attempts_ok m s'"
proof (cases "m_get s r k")
  case (Some t)
  have "attempts_ok m (t\<lparr>status := ''running'', attempts := attempts t + 1\<rparr>)" if "claimable (status t)"
    using all_attempts_get [OF assms(1) Some] that by (simp add: attempts_ok_def)
  with Some assms show ?thesis
    by (cases "claimable (status t)"; cases "required_text w ''lease_owner''")
      (auto simp: m_claim_def Let_def attempts_ok_def intro!: all_attempts_update)
qed (use assms in \<open>simp add: m_claim_def\<close>)

lemma m_recover_loop_attempts:
  assumes "m_recover_loop c m i ts = (n, ts')" "\<forall>(key, t)\<in>set ts. attempts_ok m t"
  shows "\<forall>(key, t)\<in>set ts'. attempts_ok m t"
  using assms
proof (induction c m i ts arbitrary: n ts' rule: m_recover_loop.induct)
  case (2 c m i k t ts)
  obtain l us where rec: "m_recover_loop c m (i + 1) ts = (l, us)" by fastforce
  have "attempts_ok m ((recovered_task t m)\<lparr>updated_at := u\<rparr>)" for u
    using 2(3) by (auto simp: attempts_ok_def recovered_task_def)
  with 2 rec show ?case by (fastforce split: if_splits)
qed simp

lemma worker_step_attempts:
  assumes "worker_step h m s s'" "all_attempts_ok m s"
  shows "all_attempts_ok m s'"
  using assms(1)
proof cases
  case (w_enqueue c t res)
  have "attempts_ok m ((enqueue_candidate h t)\<lparr>updated_at := u\<rparr>)" for u
    using w_enqueue(2)
    by (simp add: attempts_ok_def enqueue_candidate_def bind_fingerprint_def Let_def
        less_max_iff_disj le_max_iff_disj)
  with w_enqueue(1) assms(2) show ?thesis
    by (auto simp: m_enqueue_def m_put_def Let_def split: option.splits intro!: all_attempts_update)
next
  case (w_claim c r k w n res)
  then show ?thesis using m_claim_attempts [OF assms(2)] by blast
next
  case (w_claim_next c w n kinds res)
  then show ?thesis
    using m_claim_attempts [OF assms(2)] assms(2) by (auto simp: m_claim_next_def split: option.splits)
next
  case (w_complete c r k st p w g res)
  then show ?thesis
    using assms(2) all_attempts_get [OF assms(2), of r k]
    by (auto simp: m_complete_def completed_task_def attempts_ok_def Let_def
        split: option.splits sum.splits if_splits intro!: all_attempts_update)
next
  case (w_heartbeat c r k w n g b)
  then show ?thesis
    using assms(2) all_attempts_get [OF assms(2), of r k]
    by (auto simp: m_heartbeat_def attempts_ok_def split: option.splits if_splits intro!: all_attempts_update)
next
  case (w_fence c r k st p g res)
  then show ?thesis
    using assms(2) all_attempts_get [OF assms(2), of r k]
    by (auto simp: m_fence_def fenced_task_def attempts_ok_def Let_def
        split: option.splits sum.splits if_splits intro!: all_attempts_update)
next
  case (w_recover c n)
  then show ?thesis
    using assms(2) m_recover_loop_attempts
    by (fastforce simp: m_recover_def all_attempts_ok_def split: prod.splits)
qed

text \<open>
  A task is never run more often than the retry limit: whatever the workers do in the memory
  store, a task has at most \<open>max(1, limit)\<close> attempts, and one that can be claimed has fewer.
\<close>

theorem attempts_bounded:
  assumes "(worker_step h limit)\<^sup>*\<^sup>* m_empty s" and "m_get s r k = Some t"
  shows "attempts t \<le> max 1 limit \<and> (claimable (status t) \<longrightarrow> attempts t < max 1 limit)"
proof -
  have "all_attempts_ok limit s"
    using assms(1)
  proof (induction rule: rtranclp_induct)
    case base
    then show ?case by (simp add: all_attempts_ok_def m_empty_def)
  qed (rule worker_step_attempts)
  from all_attempts_get [OF this assms(2)] show ?thesis by (simp add: attempts_ok_def)
qed

lemma attempts_bounded_witness:
  "\<exists>s t. m_get s ''r'' ''k'' = Some t \<and> attempts t \<le> max 1 3"
proof -
  have "(worker_step sample_digest 3)\<^sup>*\<^sup>* m_empty sample_queued"
    unfolding sample_queued_def
    by (rule r_into_rtranclp, rule w_enqueue, rule prod.collapse [symmetric]) (simp add: sample_task_def)
  moreover have "m_get sample_queued ''r'' ''k'' \<noteq> None" by code_simp
  then obtain t where "m_get sample_queued ''r'' ''k'' = Some t" by blast
  ultimately show ?thesis using attempts_bounded by blast
qed

section \<open>A claim with a blank owner\<close>

text \<open>
  The calls that leave it to the lease who runs a task: every call of \<open>memory_step\<close> but \<open>fence_node_task\<close>, with
  completions and heartbeats under an owner that is not empty.
\<close>

inductive leased_step :: "(string \<Rightarrow> string) \<Rightarrow> memory_store \<Rightarrow> memory_store \<Rightarrow> bool" for h where
  l_enqueue: "m_enqueue h c t s = (res, s') \<Longrightarrow> leased_step h s s'"
| l_claim: "m_claim c r k w n s = (res, s') \<Longrightarrow> leased_step h s s'"
| l_claim_next: "m_claim_next c w n kinds s = (res, s') \<Longrightarrow> leased_step h s s'"
| l_complete: "m_complete c r k st p w g s = (res, s') \<Longrightarrow> w \<noteq> [] \<Longrightarrow> leased_step h s s'"
| l_heartbeat: "m_heartbeat c r k w n g s = (b, s') \<Longrightarrow> w \<noteq> [] \<Longrightarrow> leased_step h s s'"
| l_recover: "m_recover c limit s = (n, s') \<Longrightarrow> leased_step h s s'"
| l_cancel: "leased_step h s (m_cancel_run r reason s)"
| l_claim_execution: "m_claim_execution c ikey w n b s = (res, s') \<Longrightarrow> leased_step h s s'"
| l_complete_execution: "m_complete_execution c ikey w g st p rh s = (res, s') \<Longrightarrow> leased_step h s s'"

text \<open>A task that is running for nobody and has no lease that could expire.\<close>

definition ownerless :: "node_task \<Rightarrow> bool" where
  "ownerless t \<longleftrightarrow> status t = ''running'' \<and> lease_owner t = [] \<and> lease_until t = NoStamp"

lemma ownerless_task_fence:
  "ownerless t \<Longrightarrow> w \<noteq> [] \<Longrightarrow> task_fence t w g st = Inl StaleNodeTaskFence"
  "ownerless t \<Longrightarrow> w \<noteq> [] \<Longrightarrow> \<not> fence_matches t w g"
  by (auto simp: ownerless_def task_fence_def fence_matches_def)

lemma m_get_put_other:
  "(r', k') \<noteq> (r, k) \<Longrightarrow> m_get (s\<lparr>m_tasks := AList.update (r', k') u (m_tasks s)\<rparr>) r k = m_get s r k"
  by (auto simp: m_get_def)

lemma recovery_keeps_ownerless:
  "map_of ts (r, k) = Some t \<Longrightarrow> ownerless t \<Longrightarrow> map_of (snd (m_recover_loop c limit i ts)) (r, k) = Some t"
  by (induction c limit i ts rule: m_recover_loop.induct)
    (auto simp: needs_recovery_def lease_expired_def ownerless_def split: prod.splits if_splits)

lemma claim_keeps_ownerless:
  assumes "m_get s r k = Some t" and "ownerless t"
  shows "m_claim c r k w n s = (Inr None, s)"
    and "m_claim c r' k' w n s = (res, s') \<Longrightarrow> m_get s' r k = Some t"
proof -
  show no: "m_claim c r k w n s = (Inr None, s)" for c w n
    using assms by (simp add: m_claim_def ownerless_def)
  assume s': "m_claim c r' k' w n s = (res, s')"
  show "m_get s' r k = Some t"
  proof (cases "(r', k') = (r, k)")
    case True
    with s' no assms(1) show ?thesis by simp
  next
    case False
    with s' assms(1) show ?thesis
      by (auto simp: m_claim_def m_get_put_other Let_def split: option.splits sum.splits if_splits)
  qed
qed

lemma leased_step_keeps_ownerless:
  assumes "leased_step h s s'" and t: "m_get s r k = Some t" "ownerless t"
  shows "m_get s' r k = Some t"
  using assms(1)
proof cases
  case (l_enqueue c u res)
  with t(1) show ?thesis
    by (auto simp: m_enqueue_def m_put_def m_get_def Let_def split: option.splits)
next
  case (l_claim c r' k' w n res)
  then show ?thesis using claim_keeps_ownerless(2) [OF t] by blast
next
  case (l_claim_next c w n kinds res)
  then show ?thesis using claim_keeps_ownerless(2) [OF t] t(1) by (auto simp: m_claim_next_def split: option.splits)
next
  case (l_complete c r' k' st p w g res)
  then show ?thesis
    using t ownerless_task_fence(1) [OF t(2)]
    by (cases "(r', k') = (r, k)") (auto simp: m_complete_def m_get_put_other Let_def split: option.splits sum.splits if_splits)
next
  case (l_heartbeat c r' k' w n g b)
  then show ?thesis
    using t ownerless_task_fence(2) [OF t(2)]
    by (cases "(r', k') = (r, k)") (auto simp: m_heartbeat_def m_get_put_other split: option.splits if_splits)
next
  case (l_recover c limit n)
  then show ?thesis
    using recovery_keeps_ownerless [OF t(1) [unfolded m_get_def] t(2), of c limit 0]
    by (auto simp: m_recover_def m_get_def split: prod.splits)
next
  case (l_cancel r' reason)
  with t(1) show ?thesis by (simp add: m_cancel_run_def m_get_def)
next
  case (l_claim_execution c ikey w n b res)
  with t(1) show ?thesis by (auto simp: m_claim_execution_def m_get_def split: sum.splits prod.splits if_splits)
next
  case (l_complete_execution c ikey w g st p rh res)
  with t(1) show ?thesis by (auto simp: m_complete_execution_def m_get_def split: sum.splits)
qed

lemma leased_steps_keep_ownerless:
  "(leased_step h)\<^sup>*\<^sup>* s s' \<Longrightarrow> m_get s r k = Some t \<Longrightarrow> ownerless t \<Longrightarrow> m_get s' r k = Some t"
  by (induction rule: rtranclp_induct) (auto intro: leased_step_keeps_ownerless)

text \<open>
  C37: A claim with a blank owner of a task that has no owner and no lease, as a queued or recovered task
  has, raises, but in the memory store only after the task was set to running: it keeps no owner and no
  lease, and its generation stands still. From then on the task stays as it is, whatever is enqueued,
  claimed, completed, extended by a heartbeat (under an owner that is not empty), recovered or cancelled,
  and however often: each claim of it finds nothing to claim, and each completion is refused. Only
  \<open>fence_node_task\<close> still moves it on.
\<close>

theorem blank_owner_claim_strands_task:
  assumes "m_get s r k = Some t" and "claimable (status t)" and "lease_until t = NoStamp" and "lease_owner t = []"
    and "py_strip w = []" and "m_claim c r k w n s = (res, s')" and "(leased_step h)\<^sup>*\<^sup>* s' s''"
  shows "res = Inl (TextRequired ''lease_owner'') \<and>
    m_get s'' r k = Some (t\<lparr>status := ''running'', attempts := attempts t + 1\<rparr>) \<and>
    (\<forall>c' w' n'. m_claim c' r k w' n' s'' = (Inr None, s'')) \<and>
    (\<forall>c' limit. m_get (snd (m_recover c' limit s'')) r k = m_get s'' r k) \<and>
    (\<forall>c' st p w' g. w' \<noteq> [] \<longrightarrow> m_complete c' r k st p w' g s'' = (Inl StaleNodeTaskFence, s'')) \<and>
    (\<forall>c' st p. \<exists>t'. m_get (snd (m_fence c' r k st p 0 s'')) r k = Some t' \<and> status t' = st)"
proof -
  let ?t = "t\<lparr>status := ''running'', attempts := attempts t + 1\<rparr>"
  have res: "res = Inl (TextRequired ''lease_owner'')" "m_get s' r k = Some ?t"
    using assms(1,2,5,6) by (auto simp: m_claim_def required_text_def m_get_def)
  have free: "ownerless ?t" using assms(3,4) by (simp add: ownerless_def)
  have now: "m_get s'' r k = Some ?t" by (rule leased_steps_keep_ownerless [OF assms(7) res(2) free])
  have "m_get (snd (m_recover c' limit s'')) r k = m_get s'' r k" for c' limit
    using leased_step_keeps_ownerless [OF l_recover [OF prod.collapse [symmetric]] now free] now by simp
  moreover have "m_complete c' r k st p w' g s'' = (Inl StaleNodeTaskFence, s'')" if "w' \<noteq> []" for c' st p w' g
    using now ownerless_task_fence(1) [OF free that] by (simp add: m_complete_def)
  moreover have "\<exists>t'. m_get (snd (m_fence c' r k st p 0 s'')) r k = Some t' \<and> status t' = st" for c' st p
    using now by (simp add: m_fence_def expected_generation_def require_def final_task_statuses_def fenced_task_def m_get_def Let_def)
  ultimately show ?thesis using res now claim_keeps_ownerless(1) [OF now free] by blast
qed

text \<open>After the blank claim: a recovery long after, another worker's claim, a completion of that worker.\<close>

definition after_blank_claim :: memory_store where
  "after_blank_claim = snd (m_claim (at 0) ''r'' ''k'' '' '' 1 sample_queued)"

lemma blank_owner_claim_strands_task_witness:
  "(leased_step sample_digest)\<^sup>*\<^sup>* after_blank_claim
     (snd (m_complete (at 99) ''r'' ''k'' ''completed'' [] ''w'' 1 (snd (m_recover (at 99) 3 after_blank_claim)))) \<and>
   (let s'' = snd (m_complete (at 99) ''r'' ''k'' ''completed'' [] ''w'' 1 (snd (m_recover (at 99) 3 after_blank_claim)))
    in m_claim (at 99) ''r'' ''k'' ''w'' 1 s'' = (Inr None, s'')
      \<and> map_option status (m_get s'' ''r'' ''k'') = Some ''running''
      \<and> map_option status (m_get (snd (m_fence (at 99) ''r'' ''k'' ''failed'' [] 0 s'')) ''r'' ''k'') = Some ''failed'')"
proof -
  let ?s1 = "snd (m_recover (at 99) 3 after_blank_claim)"
  let ?s2 = "snd (m_complete (at 99) ''r'' ''k'' ''completed'' [] ''w'' 1 ?s1)"
  have get: "(case m_get sample_queued ''r'' ''k'' of None \<Rightarrow> False
    | Some t \<Rightarrow> claimable (status t) \<and> lease_until t = NoStamp \<and> lease_owner t = [])" by code_simp
  then obtain t where t: "m_get sample_queued ''r'' ''k'' = Some t" "claimable (status t)"
    "lease_until t = NoStamp" "lease_owner t = []" by (auto split: option.splits)
  have blank: "py_strip '' '' = []" by code_simp
  have c: "m_claim (at 0) ''r'' ''k'' '' '' 1 sample_queued
      = (fst (m_claim (at 0) ''r'' ''k'' '' '' 1 sample_queued), after_blank_claim)"
    by (simp add: after_blank_claim_def)
  have "leased_step sample_digest after_blank_claim ?s1" by (rule l_recover) (rule prod.collapse [symmetric])
  moreover have "leased_step sample_digest ?s1 ?s2" by (rule l_complete) (rule prod.collapse [symmetric], simp)
  ultimately have steps: "(leased_step sample_digest)\<^sup>*\<^sup>* after_blank_claim ?s2" by (meson rtranclp.rtrancl_into_rtrancl rtranclp.rtrancl_refl)
  note stranded = blank_owner_claim_strands_task [OF t blank c steps]
  then have "\<exists>t'. m_get (snd (m_fence (at 99) ''r'' ''k'' ''failed'' [] 0 ?s2)) ''r'' ''k'' = Some t' \<and> status t' = ''failed''" by blast
  then have "map_option status (m_get (snd (m_fence (at 99) ''r'' ''k'' ''failed'' [] 0 ?s2)) ''r'' ''k'') = Some ''failed''" by auto
  moreover have "map_option status (m_get ?s2 ''r'' ''k'') = Some ''running''"
    "m_claim (at 99) ''r'' ''k'' ''w'' 1 ?s2 = (Inr None, ?s2)" using stranded by simp_all
  ultimately show ?thesis using steps unfolding Let_def by blast
qed

end
