(* ===== verification/File_Store.thy ===== *)
theory File_Store
  imports Py_Text Memory_Store
begin

text \<open>
  \<open>FileRuntimeStateStore\<close> of \<^verbatim>\<open>runtime_state.py\<close>: a directory of task files, a queue directory and a
  journal directory under a file lock. A file is what was written to it last; writing is atomic
  (\<open>os.replace\<close>). The queue directory is the list of its files in the order of their modification
  times. Every operation is one step on the store.
\<close>

section \<open>Operations\<close>

text \<open>
  A run or a task is a file name, so the two maps below are keyed by safe names. (A run called
  \<open>.\<close> or \<open>..\<close> would leave its directory; such names are outside the model.)
\<close>

definition safe_name :: "string \<Rightarrow> string" where
  "safe_name v =
     (let text = map (\<lambda>c. if py_isalnum c \<or> c = CHR ''_'' \<or> c = CHR ''-'' \<or> c = CHR ''.'' then c
        else CHR ''_'') (py_strip v)
      in if text = [] then ''unknown'' else text)"

type_synonym file_key = "string \<times> string"

record file_store =
  f_tasks :: "(file_key, node_task) dict"
  f_queue :: "(file_key \<times> node_task) list"
  f_cancellations :: "(string, string \<times> string) dict"
  f_executions :: "(string, journal_entry) dict"

definition f_empty :: file_store where
  "f_empty = \<lparr>f_tasks = [], f_queue = [], f_cancellations = [], f_executions = []\<rparr>"

definition file_key :: "string \<Rightarrow> string \<Rightarrow> file_key" where
  "file_key r k = (safe_name r, safe_name k)"

definition f_get :: "file_store \<Rightarrow> string \<Rightarrow> string \<Rightarrow> node_task option" where
  "f_get s r k = map_of (f_tasks s) (file_key r k)"

text \<open>\<open>_upsert_node_task_unlocked\<close>, and writing and removing a file of the queue.\<close>

definition f_upsert_unlocked ::
  "(string \<Rightarrow> string) \<Rightarrow> int \<Rightarrow> node_task \<Rightarrow> file_store \<Rightarrow> node_task \<times> file_store" where
  "f_upsert_unlocked h now t s =
     (let t' = (bind_fingerprint h t)\<lparr>updated_at := At now\<rparr>
      in (t', s\<lparr>f_tasks := AList.update (file_key (run_id t') (task_id t')) t' (f_tasks s)\<rparr>))"

definition queue_write :: "file_key \<Rightarrow> node_task \<Rightarrow> file_store \<Rightarrow> file_store" where
  "queue_write k t s = s\<lparr>f_queue := filter (\<lambda>(k', _). k' \<noteq> k) (f_queue s) @ [(k, t)]\<rparr>"

definition queue_unlink :: "file_key \<Rightarrow> file_store \<Rightarrow> file_store" where
  "queue_unlink k s = s\<lparr>f_queue := filter (\<lambda>(k', _). k' \<noteq> k) (f_queue s)\<rparr>"

definition f_upsert ::
  "(string \<Rightarrow> string) \<Rightarrow> clock \<Rightarrow> node_task \<Rightarrow> file_store \<Rightarrow> (store_error + node_task) \<times> file_store" where
  "f_upsert h clk t s = (let (t', s') = f_upsert_unlocked h (clk 0) t s in (Inr t', s'))"

definition f_list :: "file_store \<Rightarrow> string \<Rightarrow> node_task list" where
  "f_list s r = map snd (sort_key (\<lambda>((_, k), _). k @ ''.json'')
     (filter (\<lambda>((d, _), _). d = safe_name r) (f_tasks s)))"

definition f_cancel_run :: "string \<Rightarrow> string \<Rightarrow> file_store \<Rightarrow> file_store" where
  "f_cancel_run r reason s = s\<lparr>f_cancellations := AList.update (safe_name r) (r, reason) (f_cancellations s)\<rparr>"

definition f_run_canceled :: "file_store \<Rightarrow> string \<Rightarrow> bool" where
  "f_run_canceled s r = (map_of (f_cancellations s) (safe_name r) \<noteq> None)"

definition f_enqueue ::
  "(string \<Rightarrow> string) \<Rightarrow> clock \<Rightarrow> node_task \<Rightarrow> file_store \<Rightarrow> (store_error + node_task) \<times> file_store" where
  "f_enqueue h clk t s =
     (let c = enqueue_candidate h t in
      case f_get s (run_id c) (task_id c) of
        Some e \<Rightarrow> (bind_res (request_match e c) (\<lambda>_. Inr e), s)
      | None \<Rightarrow> let (c', s') = f_upsert_unlocked h (clk 0) c s
                in (Inr c', queue_write (file_key (run_id c) (task_id c)) c' s'))"

definition f_claim ::
  "(string \<Rightarrow> string) \<Rightarrow> clock \<Rightarrow> string \<Rightarrow> string \<Rightarrow> string \<Rightarrow> int \<Rightarrow> file_store
    \<Rightarrow> (store_error + node_task option) \<times> file_store" where
  "f_claim h clk r k owner seconds s =
     (case f_get s r k of
        None \<Rightarrow> (Inr None, s)
      | Some t \<Rightarrow>
          if \<not> claimable (status t) then (Inr None, s)
          else (case required_text owner ''lease_owner'' of
              Inl e \<Rightarrow> (Inl e, s)
            | Inr w \<Rightarrow>
                let (t', s') = f_upsert_unlocked h (clk 1) (t\<lparr>status := ''running'',
                  attempts := attempts t + 1, lease_owner := w,
                  lease_generation := lease_generation t + 1,
                  lease_until := future_timestamp (clk 0) seconds\<rparr>) s
                in (Inr (Some t'), queue_unlink (file_key r k) s')))"

definition f_complete ::
  "(string \<Rightarrow> string) \<Rightarrow> clock \<Rightarrow> string \<Rightarrow> string \<Rightarrow> string \<Rightarrow> (string, json) dict \<Rightarrow> string \<Rightarrow> int
    \<Rightarrow> file_store \<Rightarrow> (store_error + node_task) \<times> file_store" where
  "f_complete h clk r k st p owner gen s =
     (case f_get s r k of
        None \<Rightarrow> (Inl StaleNodeTaskFence, s)
      | Some t \<Rightarrow> (case task_fence t owner gen st of
          Inl e \<Rightarrow> (Inl e, s)
        | Inr _ \<Rightarrow>
            if status t \<noteq> ''running'' then (Inr t, s)
            else let (t', s') = f_upsert_unlocked h (clk 0) (completed_task t st p) s in (Inr t', s')))"

definition f_heartbeat ::
  "(string \<Rightarrow> string) \<Rightarrow> clock \<Rightarrow> string \<Rightarrow> string \<Rightarrow> string \<Rightarrow> int \<Rightarrow> int \<Rightarrow> file_store
    \<Rightarrow> bool \<times> file_store" where
  "f_heartbeat h clk r k owner seconds gen s =
     (case f_get s r k of
        None \<Rightarrow> (False, s)
      | Some t \<Rightarrow>
          if \<not> fence_matches t owner gen then (False, s)
          else (True, snd (f_upsert_unlocked h (clk 1)
            (t\<lparr>lease_until := future_timestamp (clk 0) seconds\<rparr>) s)))"

definition f_fence ::
  "(string \<Rightarrow> string) \<Rightarrow> clock \<Rightarrow> string \<Rightarrow> string \<Rightarrow> string \<Rightarrow> (string, json) dict \<Rightarrow> int \<Rightarrow> file_store
    \<Rightarrow> (store_error + node_task) \<times> file_store" where
  "f_fence h clk r k st p expected s =
     (case f_get s r k of
        None \<Rightarrow> (Inl StaleNodeTaskFence, s)
      | Some t \<Rightarrow> (case expected_generation t expected of
          Inl e \<Rightarrow> (Inl e, s)
        | Inr _ \<Rightarrow>
            if status t \<in> set final_task_statuses then (Inr t, s)
            else let (t', s') = f_upsert_unlocked h (clk 0) (fenced_task t st p) s in (Inr t', s')))"

text \<open>
  The recovery of the file store reads the clock once for all leases (\<open>clk 0\<close>), then for each
  task it writes; it goes over the files that are there when it starts.
\<close>

fun f_recover_loop ::
  "(string \<Rightarrow> string) \<Rightarrow> clock \<Rightarrow> int \<Rightarrow> nat \<Rightarrow> node_task list \<Rightarrow> file_store \<Rightarrow> int \<times> file_store" where
  "f_recover_loop h clk limit i [] s = (0, s)"
| "f_recover_loop h clk limit i (t # ts) s =
     (if needs_recovery (clk 0) t then
        let (t', s') = f_upsert_unlocked h (clk (i + 1)) (recovered_task t limit) s;
            s'' = (if status t' = ''retry'' then queue_write (file_key (run_id t') (task_id t')) t' s' else s');
            (n, s3) = f_recover_loop h clk limit (i + 1) ts s''
        in (n + 1, s3)
      else f_recover_loop h clk limit (i + 1) ts s)"

definition f_recover ::
  "(string \<Rightarrow> string) \<Rightarrow> clock \<Rightarrow> int \<Rightarrow> file_store \<Rightarrow> int \<times> file_store" where
  "f_recover h clk limit s = f_recover_loop h clk limit 0 (map snd (f_tasks s)) s"

fun f_claim_scan ::
  "(string \<Rightarrow> string) \<Rightarrow> clock \<Rightarrow> string \<Rightarrow> int \<Rightarrow> string list \<Rightarrow> node_task list \<Rightarrow> file_store
    \<Rightarrow> (store_error + node_task option) \<times> file_store" where
  "f_claim_scan h clk owner seconds kinds [] s = (Inr None, s)"
| "f_claim_scan h clk owner seconds kinds (t # ts) s =
     (if \<not> kind_allowed kinds t then f_claim_scan h clk owner seconds kinds ts s
      else (case f_claim h clk (run_id t) (task_id t) owner seconds s of
          (Inr None, _) \<Rightarrow> f_claim_scan h clk owner seconds kinds ts s
        | res \<Rightarrow> res))"

definition f_claim_next ::
  "(string \<Rightarrow> string) \<Rightarrow> clock \<Rightarrow> string \<Rightarrow> int \<Rightarrow> string list \<Rightarrow> file_store
    \<Rightarrow> (store_error + node_task option) \<times> file_store" where
  "f_claim_next h clk owner seconds kinds s = f_claim_scan h clk owner seconds kinds (map snd (f_queue s)) s"

text \<open>A journal file is named by the digest of the stripped key; a blank key raises.\<close>

definition execution_path :: "(string \<Rightarrow> string) \<Rightarrow> string \<Rightarrow> store_error + string" where
  "execution_path h ikey = bind_res (required_text ikey ''key'') (\<lambda>k. Inr (h k))"

definition f_claim_execution ::
  "(string \<Rightarrow> string) \<Rightarrow> clock \<Rightarrow> string \<Rightarrow> string \<Rightarrow> int \<Rightarrow> bool \<Rightarrow> file_store
    \<Rightarrow> (store_error + claim_outcome \<times> journal_entry) \<times> file_store" where
  "f_claim_execution h clk ikey owner seconds takeover s =
     (case bind_res (required_text ikey ''idempotency_key'') (\<lambda>k.
         bind_res (required_text owner ''lease_owner'') (\<lambda>w.
         bind_res (execution_path h k) (\<lambda>path. Inr (k, w, path)))) of
        Inl e \<Rightarrow> (Inl e, s)
      | Inr (k, w, path) \<Rightarrow>
          let (outcome, e) = next_execution_claim clk (map_of (f_executions s) path) k w seconds takeover
          in (Inr (outcome, e), if outcome = Acquired
               then s\<lparr>f_executions := AList.update path e (f_executions s)\<rparr> else s))"

definition f_get_execution ::
  "(string \<Rightarrow> string) \<Rightarrow> file_store \<Rightarrow> string \<Rightarrow> store_error + journal_entry option" where
  "f_get_execution h s ikey = bind_res (execution_path h ikey) (\<lambda>path. Inr (map_of (f_executions s) path))"

definition f_complete_execution ::
  "(string \<Rightarrow> string) \<Rightarrow> clock \<Rightarrow> string \<Rightarrow> string \<Rightarrow> int \<Rightarrow> string \<Rightarrow> (string, json) dict \<Rightarrow> string
    \<Rightarrow> file_store \<Rightarrow> (store_error + journal_entry) \<times> file_store" where
  "f_complete_execution h clk ikey owner gen st p result_hash s =
     (case bind_res (execution_path h ikey) (\<lambda>path.
         bind_res (completed_execution (clk 0) (map_of (f_executions s) path) owner gen st p result_hash)
           (\<lambda>e. Inr (path, e))) of
        Inl e \<Rightarrow> (Inl e, s)
      | Inr (path, e) \<Rightarrow> (Inr e, s\<lparr>f_executions := AList.update path e (f_executions s)\<rparr>))"

section \<open>Steps\<close>

inductive file_step :: "(string \<Rightarrow> string) \<Rightarrow> file_store \<Rightarrow> file_store \<Rightarrow> bool" for h where
  enqueue: "f_enqueue h c t s = (res, s') \<Longrightarrow> file_step h s s'"
| claim: "f_claim h c r k w n s = (res, s') \<Longrightarrow> file_step h s s'"
| claim_next: "f_claim_next h c w n kinds s = (res, s') \<Longrightarrow> file_step h s s'"
| complete: "f_complete h c r k st p w g s = (res, s') \<Longrightarrow> file_step h s s'"
| heartbeat: "f_heartbeat h c r k w n g s = (b, s') \<Longrightarrow> file_step h s s'"
| fence: "f_fence h c r k st p g s = (res, s') \<Longrightarrow> file_step h s s'"
| recover: "f_recover h c limit s = (n, s') \<Longrightarrow> file_step h s s'"
| cancel: "file_step h s (f_cancel_run r reason s)"
| claim_execution: "f_claim_execution h c ikey w n b s = (res, s') \<Longrightarrow> file_step h s s'"
| complete_execution: "f_complete_execution h c ikey w g st p rh s = (res, s') \<Longrightarrow> file_step h s s'"

text \<open>A task lies in the file its identity names.\<close>

definition f_ok :: "file_store \<Rightarrow> bool" where
  "f_ok s \<longleftrightarrow> (\<forall>(key, t)\<in>set (f_tasks s). file_key (run_id t) (task_id t) = key)"

lemma f_ok_get: "f_ok s \<Longrightarrow> f_get s r k = Some t \<Longrightarrow> file_key (run_id t) (task_id t) = file_key r k"
  by (auto simp: f_ok_def f_get_def dest!: map_of_SomeD)

lemma bind_fingerprint_simps [simp]:
  "run_id (bind_fingerprint h t) = run_id t" "task_id (bind_fingerprint h t) = task_id t"
  "lease_generation (bind_fingerprint h t) = lease_generation t"
  "status (bind_fingerprint h t) = status t" "lease_until (bind_fingerprint h t) = lease_until t"
  by (simp_all add: bind_fingerprint_def Let_def)

text \<open>Only the task files matter for the invariant and for what is looked up.\<close>

lemma f_same_tasks:
  assumes "f_tasks s' = f_tasks s"
  shows "f_ok s' = f_ok s" "f_get s' = f_get s" "gen_le f_get u s' = gen_le f_get u s"
  using assms by (simp_all add: f_ok_def f_get_def gen_le_def fun_eq_iff)

lemma queue_tasks [simp]:
  "f_tasks (queue_write key t s) = f_tasks s" "f_tasks (queue_unlink key s) = f_tasks s"
  by (simp_all add: queue_write_def queue_unlink_def)

text \<open>Writing a task back under its own key keeps the invariant, and the generations if its own does.\<close>

lemma f_upsert_unlocked_spec:
  assumes ok: "f_ok s" and up: "f_upsert_unlocked h now t s = (t', s')"
    and gen: "\<And>u. f_get s (run_id t) (task_id t) = Some u \<Longrightarrow> lease_generation u \<le> lease_generation t"
  shows "f_ok s' \<and> gen_le f_get s s' \<and> t' = (bind_fingerprint h t)\<lparr>updated_at := At now\<rparr> \<and>
    f_tasks s' = AList.update (file_key (run_id t) (task_id t)) t' (f_tasks s)"
proof -
  have t': "t' = (bind_fingerprint h t)\<lparr>updated_at := At now\<rparr>"
    and s': "s' = s\<lparr>f_tasks := AList.update (file_key (run_id t) (task_id t)) t' (f_tasks s)\<rparr>"
    using up by (auto simp: f_upsert_unlocked_def Let_def)
  have "\<forall>(key, u)\<in>set (AList.update (file_key (run_id t) (task_id t)) t' (f_tasks s)).
      file_key (run_id u) (task_id u) = key"
    by (rule update_forall) (use ok in \<open>auto simp: f_ok_def t'\<close>)
  then have "f_ok s'" by (simp add: f_ok_def s')
  moreover have "gen_le f_get s s'"
    using gen unfolding s' by (auto simp: gen_le_def f_get_def t')
  ultimately show ?thesis using t' s' by simp
qed

lemma f_write_back:
  assumes ok: "f_ok s" and get: "f_get s r k = Some t"
    and ids: "run_id t1 = run_id t" "task_id t1 = task_id t"
    and gen: "lease_generation t \<le> lease_generation t1"
    and up: "f_upsert_unlocked h now t1 s = (t', s')"
  shows "f_ok s' \<and> gen_le f_get s s' \<and> t' = (bind_fingerprint h t1)\<lparr>updated_at := At now\<rparr> \<and>
    f_get s' r k = Some t'"
proof -
  have key: "file_key (run_id t1) (task_id t1) = file_key r k"
    using f_ok_get [OF ok get] ids by simp
  have "\<And>u. f_get s (run_id t1) (task_id t1) = Some u \<Longrightarrow> lease_generation u \<le> lease_generation t1"
    using get gen key by (simp add: f_get_def)
  from f_upsert_unlocked_spec [OF ok up this] show ?thesis by (simp add: f_get_def key)
qed

lemma f_claim_spec:
  assumes ok: "f_ok s" and claim: "f_claim h c r k w n s = (res, s')"
  shows "f_ok s' \<and> gen_le f_get s s' \<and> (\<forall>t'. res = Inr (Some t') \<longrightarrow> f_get s' r k = Some t' \<and>
    (\<exists>t. f_get s r k = Some t \<and> claimable (status t) \<and> lease_generation t' = lease_generation t + 1))"
proof (cases "f_get s r k")
  case None
  with assms show ?thesis by (auto simp: f_claim_def)
next
  case (Some t)
  consider "\<not> claimable (status t)" | e where "required_text w ''lease_owner'' = Inl e"
    | v where "claimable (status t)" "required_text w ''lease_owner'' = Inr v"
    by (cases "required_text w ''lease_owner''") auto
  then show ?thesis
  proof cases
    case (3 v)
    let ?t1 = "t\<lparr>status := ''running'', attempts := attempts t + 1, lease_owner := v,
      lease_generation := lease_generation t + 1, lease_until := future_timestamp (c 0) n\<rparr>"
    obtain t' s1 where up: "f_upsert_unlocked h (c 1) ?t1 s = (t', s1)" by fastforce
    have wb: "f_ok s1 \<and> gen_le f_get s s1 \<and> t' = (bind_fingerprint h ?t1)\<lparr>updated_at := At (c 1)\<rparr> \<and>
        f_get s1 r k = Some t'"
      by (rule f_write_back [OF ok Some _ _ _ up]) simp_all
    have res: "res = Inr (Some t')" "s' = queue_unlink (file_key r k) s1"
      using claim Some 3 up by (simp_all add: f_claim_def)
    have "f_tasks s' = f_tasks s1" by (simp add: res)
    then have "f_ok s'" "gen_le f_get s s'" "f_get s' r k = Some t'"
      using wb f_same_tasks [of s' s1] by auto
    with Some 3(1) res(1) wb show ?thesis by auto
  qed (use Some assms in \<open>auto simp: f_claim_def split: if_splits\<close>)
qed

lemma f_claim_scan_spec:
  assumes ok: "f_ok s"
  shows "f_claim_scan h c w n kinds ts s = (res, s') \<Longrightarrow> f_ok s' \<and> gen_le f_get s s'"
proof (induction ts)
  case (Cons t ts)
  obtain res1 s1 where claim: "f_claim h c (run_id t) (task_id t) w n s = (res1, s1)" by fastforce
  have spec: "f_ok s1 \<and> gen_le f_get s s1" using f_claim_spec [OF ok claim] by blast
  show ?case
  proof (cases "kind_allowed kinds t \<and> res1 \<noteq> Inr None")
    case True
    then have "f_claim_scan h c w n kinds (t # ts) s = (res1, s1)"
      by (cases res1; cases "projr res1") (simp_all add: claim)
    with Cons.prems spec show ?thesis by simp
  next
    case False
    then have "f_claim_scan h c w n kinds ts s = (res, s')"
      using Cons.prems claim by (auto split: if_splits)
    then show ?thesis by (rule Cons.IH)
  qed
qed (use ok in simp)

lemma f_complete_spec:
  assumes ok: "f_ok s" and "f_complete h c r k st p w g s = (res, s')"
  shows "f_ok s' \<and> gen_le f_get s s'"
proof (cases "f_get s r k")
  case (Some t)
  obtain t' s1 where up: "f_upsert_unlocked h (c 0) (completed_task t st p) s = (t', s1)" by fastforce
  have "f_ok s1 \<and> gen_le f_get s s1"
    using f_write_back [OF ok Some _ _ _ up] by (simp add: completed_task_def)
  with Some assms up show ?thesis
    by (cases "task_fence t w g st") (auto simp: f_complete_def split: if_splits)
qed (use assms in \<open>auto simp: f_complete_def\<close>)

lemma f_heartbeat_spec:
  assumes ok: "f_ok s" and "f_heartbeat h c r k w n g s = (b, s')"
  shows "f_ok s' \<and> gen_le f_get s s'"
proof (cases "f_get s r k")
  case (Some t)
  obtain t' s1 where up:
    "f_upsert_unlocked h (c 1) (t\<lparr>lease_until := future_timestamp (c 0) n\<rparr>) s = (t', s1)" by fastforce
  have "f_ok s1 \<and> gen_le f_get s s1" using f_write_back [OF ok Some _ _ _ up] by simp
  with Some assms up show ?thesis by (auto simp: f_heartbeat_def split: if_splits)
qed (use assms in \<open>auto simp: f_heartbeat_def\<close>)

lemma f_fence_spec:
  assumes ok: "f_ok s" and "f_fence h c r k st p g s = (res, s')"
  shows "f_ok s' \<and> gen_le f_get s s'"
proof (cases "f_get s r k")
  case (Some t)
  obtain t' s1 where up: "f_upsert_unlocked h (c 0) (fenced_task t st p) s = (t', s1)" by fastforce
  have "f_ok s1 \<and> gen_le f_get s s1"
    using f_write_back [OF ok Some _ _ _ up] by (simp add: fenced_task_def)
  with Some assms up show ?thesis
    by (cases "expected_generation t g") (auto simp: f_fence_def split: if_splits)
qed (use assms in \<open>auto simp: f_fence_def\<close>)

lemma f_enqueue_spec:
  assumes ok: "f_ok s" and "f_enqueue h c t s = (res, s')"
  shows "f_ok s' \<and> gen_le f_get s s'"
proof (cases "f_get s (run_id t) (task_id t)")
  case None
  obtain t' s1 where up: "f_upsert_unlocked h (c 0) (enqueue_candidate h t) s = (t', s1)" by fastforce
  have "f_ok s1 \<and> gen_le f_get s s1"
    using f_upsert_unlocked_spec [OF ok up] None by simp
  moreover have "s' = queue_write (file_key (run_id t) (task_id t)) t' s1"
    using None assms up by (simp add: f_enqueue_def Let_def)
  ultimately show ?thesis using f_same_tasks [of s' s1] by simp
qed (use assms in \<open>auto simp: f_enqueue_def Let_def\<close>)

text \<open>
  The recovery writes back what it read at the start; the file of a task is only written again
  for that task, so the generation read is the one in the file.
\<close>

lemma f_recover_loop_spec:
  assumes "f_recover_loop h c limit i ts s = (n, s')" "f_ok s"
    and "\<And>t u. t \<in> set ts \<Longrightarrow> f_get s (run_id t) (task_id t) = Some u \<Longrightarrow> lease_generation u \<le> lease_generation t"
    and "\<And>t t'. t \<in> set ts \<Longrightarrow> t' \<in> set ts \<Longrightarrow>
      file_key (run_id t) (task_id t) = file_key (run_id t') (task_id t') \<Longrightarrow>
      lease_generation t = lease_generation t'"
  shows "f_ok s' \<and> gen_le f_get s s'"
  using assms
proof (induction ts arbitrary: i s n)
  case (Cons t ts)
  show ?case
  proof (cases "needs_recovery (c 0) t")
    case False
    with Cons.prems(1) have rest: "f_recover_loop h c limit (i + 1) ts s = (n, s')" by simp
    show ?thesis
      by (rule Cons.IH [OF rest Cons.prems(2)]; (erule (1) Cons.prems(3) [OF list.set_intros(2)]
        | erule (2) Cons.prems(4) [OF list.set_intros(2) list.set_intros(2)]))
  next
    case True
    let ?r = "recovered_task t limit"
    obtain t' s1 where up: "f_upsert_unlocked h (c (i + 1)) ?r s = (t', s1)" by fastforce
    have ids: "run_id ?r = run_id t" "task_id ?r = task_id t" "lease_generation ?r = lease_generation t"
      by (simp_all add: recovered_task_def)
    have old: "\<And>u. f_get s (run_id ?r) (task_id ?r) = Some u \<Longrightarrow> lease_generation u \<le> lease_generation ?r"
      using Cons.prems(3) [of t] by (simp add: ids)
    note spec = f_upsert_unlocked_spec [OF Cons.prems(2) up old, unfolded ids]
    have ids': "run_id t' = run_id t" "task_id t' = task_id t" "lease_generation t' = lease_generation t"
      using spec by (simp_all add: ids)
    define s2 where "s2 = (if status t' = ''retry'' then queue_write (file_key (run_id t') (task_id t')) t' s1 else s1)"
    have same: "f_tasks s2 = f_tasks s1" by (simp add: s2_def)
    obtain m where rec: "f_recover_loop h c limit (i + 1) ts s2 = (m, s')"
    proof (cases "f_recover_loop h c limit (i + 1) ts s2")
      case (Pair m s3)
      with Cons.prems(1) True up have "s' = s3" by (simp add: Let_def s2_def [symmetric])
      with Pair that show ?thesis by simp
    qed
    have later: "f_get s2 (run_id v) (task_id v) = Some u \<Longrightarrow> lease_generation u \<le> lease_generation v"
      if v: "v \<in> set ts" for v u
    proof (cases "file_key (run_id v) (task_id v) = file_key (run_id t) (task_id t)")
      case True
      then have "lease_generation v = lease_generation t" using Cons.prems(4) [of v t] v by simp
      moreover assume "f_get s2 (run_id v) (task_id v) = Some u"
      then have "u = t'" using spec True by (simp add: f_get_def same)
      ultimately show ?thesis using ids' by simp
    next
      case False
      moreover assume "f_get s2 (run_id v) (task_id v) = Some u"
      ultimately have "f_get s (run_id v) (task_id v) = Some u" using spec by (simp add: f_get_def same)
      with Cons.prems(3) [of v u] v show ?thesis by simp
    qed
    have ok2: "f_ok s2" using spec f_same_tasks(1) [OF same] by simp
    have "f_ok s' \<and> gen_le f_get s2 s'"
      by (rule Cons.IH [OF rec ok2]; (erule (1) later
        | erule (2) Cons.prems(4) [OF list.set_intros(2) list.set_intros(2)]))
    moreover have "gen_le f_get s s2" unfolding f_same_tasks(3) [OF same] using spec by blast
    ultimately show ?thesis using gen_le_trans [of f_get s s2 s'] by simp
  qed
next
  case Nil
  from Nil.prems(1,2) show ?case by simp
qed

definition f_distinct :: "file_store \<Rightarrow> bool" where
  "f_distinct s \<longleftrightarrow> distinct (map fst (f_tasks s))"

lemma f_upsert_distinct:
  "f_upsert_unlocked h now t s = (t', s') \<Longrightarrow> f_distinct s \<Longrightarrow> f_distinct s'"
  by (auto simp: f_upsert_unlocked_def Let_def f_distinct_def distinct_update)

lemma f_distinct_queue [simp]:
  "f_distinct (queue_write key t s) = f_distinct s" "f_distinct (queue_unlink key s) = f_distinct s"
  by (simp_all add: f_distinct_def)

lemma f_recover_spec:
  assumes "f_recover h c limit s = (n, s')" "f_ok s" "f_distinct s"
  shows "f_ok s' \<and> gen_le f_get s s'"
proof -
  have own: "f_get s (run_id t) (task_id t) = Some t" if "t \<in> set (map snd (f_tasks s))" for t
  proof -
    obtain key where "(key, t) \<in> set (f_tasks s)" using \<open>t \<in> _\<close> by auto
    with assms(2,3) show ?thesis
      by (auto simp: f_ok_def f_distinct_def f_get_def)
  qed
  have same: "t = t'" if "t \<in> set (map snd (f_tasks s))" "t' \<in> set (map snd (f_tasks s))"
    "file_key (run_id t) (task_id t) = file_key (run_id t') (task_id t')" for t t'
    using own [OF that(1)] own [OF that(2)] that(3) by (simp add: f_get_def)
  show ?thesis
  proof (rule f_recover_loop_spec [OF assms(1) [unfolded f_recover_def] assms(2)])
    fix t u assume "t \<in> set (map snd (f_tasks s))" "f_get s (run_id t) (task_id t) = Some u"
    then show "lease_generation u \<le> lease_generation t" using own [of t] by simp
  next
    fix t t' assume "t \<in> set (map snd (f_tasks s))" "t' \<in> set (map snd (f_tasks s))"
      "file_key (run_id t) (task_id t) = file_key (run_id t') (task_id t')"
    then show "lease_generation t = lease_generation t'" using same [of t t'] by simp
  qed
qed

text \<open>No operation writes a second file of one name.\<close>

lemma f_recover_loop_distinct:
  "f_recover_loop h c limit i ts s = (n, s') \<Longrightarrow> f_distinct s \<Longrightarrow> f_distinct s'"
proof (induction ts arbitrary: i s n)
  case (Cons t ts)
  obtain t' s1 where up: "f_upsert_unlocked h (c (i + 1)) (recovered_task t limit) s = (t', s1)" by fastforce
  define s2 where "s2 = (if status t' = ''retry'' then queue_write (file_key (run_id t') (task_id t')) t' s1 else s1)"
  have "f_distinct s2" using f_upsert_distinct [OF up Cons.prems(2)] by (simp add: s2_def)
  moreover obtain m where "f_recover_loop h c limit (i + 1) ts (if needs_recovery (c 0) t then s2 else s) = (m, s')"
  proof (cases "f_recover_loop h c limit (i + 1) ts s2")
    case (Pair m s3)
    with Cons.prems(1) up that show ?thesis
      by (cases "needs_recovery (c 0) t") (simp_all add: Let_def s2_def [symmetric])
  qed
  ultimately show ?case using Cons.IH Cons.prems(2) by (auto split: if_splits)
qed simp

lemma f_claim_distinct: "f_claim h c r k w n s = (res, s') \<Longrightarrow> f_distinct s \<Longrightarrow> f_distinct s'"
  by (auto simp: f_claim_def split: option.splits if_splits sum.splits prod.splits dest: f_upsert_distinct)

lemma f_claim_scan_distinct:
  "f_distinct s \<Longrightarrow> f_claim_scan h c w n kinds ts s = (res, s') \<Longrightarrow> f_distinct s'"
proof (induction ts)
  case (Cons t ts)
  obtain res1 s1 where claim: "f_claim h c (run_id t) (task_id t) w n s = (res1, s1)" by fastforce
  from f_claim_distinct [OF this] Cons.prems(1) have "f_distinct s1" by simp
  with Cons claim show ?case
    by (cases res1; cases "projr res1") (auto split: if_splits)
qed simp

definition f_inv :: "file_store \<Rightarrow> bool" where
  "f_inv s \<longleftrightarrow> f_ok s \<and> f_distinct s"

lemma f_distinct_updates:
  "f_enqueue h c t s = (r1, s') \<Longrightarrow> f_distinct s \<Longrightarrow> f_distinct s'"
  "f_complete h c r k st p w g s = (r2, s') \<Longrightarrow> f_distinct s \<Longrightarrow> f_distinct s'"
  "f_heartbeat h c r k w n g s = (r3, s') \<Longrightarrow> f_distinct s \<Longrightarrow> f_distinct s'"
  "f_fence h c r k st p g s = (r4, s') \<Longrightarrow> f_distinct s \<Longrightarrow> f_distinct s'"
proof -
  show "f_heartbeat h c r k w n g s = (r3, s') \<Longrightarrow> f_distinct s \<Longrightarrow> f_distinct s'"
    by (auto simp: f_heartbeat_def split: option.splits if_splits)
      (metis f_upsert_distinct prod.collapse)
qed (auto simp: f_enqueue_def f_complete_def f_fence_def Let_def
  split: option.splits if_splits sum.splits prod.splits dest: f_upsert_distinct)

lemma f_execution_frame:
  "f_claim_execution h c ikey w n b s = (res, s') \<Longrightarrow> f_tasks s' = f_tasks s"
  "f_complete_execution h c ikey w g st p rh s = (res', s') \<Longrightarrow> f_tasks s' = f_tasks s"
  by (auto simp: f_claim_execution_def f_complete_execution_def split: sum.splits prod.splits if_splits)

lemma file_step_spec:
  assumes "file_step h s s'" "f_inv s"
  shows "f_inv s' \<and> gen_le f_get s s'"
proof -
  have ok: "f_ok s" and dist: "f_distinct s" using assms(2) by (auto simp: f_inv_def)
  have frame: "f_inv s' \<and> gen_le f_get s s'" if "f_tasks s' = f_tasks s"
    using f_same_tasks [OF that] ok dist that by (auto simp: f_inv_def f_distinct_def)
  show ?thesis
    using assms(1)
  proof cases
    case (enqueue c t res)
    from f_enqueue_spec [OF ok enqueue] f_distinct_updates(1) [OF enqueue dist] show ?thesis
      by (simp add: f_inv_def)
  next
    case (claim c r k w n res)
    from f_claim_spec [OF ok claim] f_claim_distinct [OF claim dist] show ?thesis by (simp add: f_inv_def)
  next
    case (claim_next c w n kinds res)
    from f_claim_scan_spec [OF ok] f_claim_scan_distinct [OF dist] claim_next show ?thesis
      unfolding f_inv_def f_claim_next_def by blast
  next
    case (complete c r k st p w g res)
    from f_complete_spec [OF ok complete] f_distinct_updates(2) [OF complete dist] show ?thesis
      by (simp add: f_inv_def)
  next
    case (heartbeat c r k w n g b)
    from f_heartbeat_spec [OF ok heartbeat] f_distinct_updates(3) [OF heartbeat dist] show ?thesis
      by (simp add: f_inv_def)
  next
    case (fence c r k st p g res)
    from f_fence_spec [OF ok fence] f_distinct_updates(4) [OF fence dist] show ?thesis
      by (simp add: f_inv_def)
  next
    case (recover c limit n)
    from f_recover_spec [OF recover ok dist] f_recover_loop_distinct [OF recover [unfolded f_recover_def] dist]
    show ?thesis by (simp add: f_inv_def)
  next
    case (cancel r reason)
    then show ?thesis by (intro frame) (simp add: f_cancel_run_def)
  next
    case (claim_execution c ikey w n b res)
    then show ?thesis by (rule frame [OF f_execution_frame(1)])
  next
    case (complete_execution c ikey w g st p rh res)
    then show ?thesis by (rule frame [OF f_execution_frame(2)])
  qed
qed

interpretation file_leases: lease_store f_inv f_get "f_claim h" "f_complete h" "file_step h" for h
proof unfold_locales
  fix s s' assume "file_step h s s'" "f_inv s"
  then show "f_inv s'" "gen_le f_get s s'" using file_step_spec by blast+
next
  fix c r k w n s res s' assume "f_claim h c r k w n s = (res, s')"
  then show "file_step h s s'" by (rule file_step.claim)
next
  fix s c r k w n t' s' assume "f_inv s" "f_claim h c r k w n s = (Inr (Some t'), s')"
  then show "f_get s' r k = Some t' \<and> (\<exists>t. f_get s r k = Some t \<and> claimable (status t) \<and>
      lease_generation t' = lease_generation t + 1)"
    using f_claim_spec unfolding f_inv_def by blast
next
  fix c r k st p w g s t' s' assume "f_complete h c r k st p w g s = (Inr t', s')"
  then show "\<exists>t. f_get s r k = Some t \<and> lease_owner t = w \<and> lease_generation t = g \<and> 0 < g"
    by (auto simp: f_complete_def split: option.splits sum.splits dest!: task_fence_Inr)
next
  fix c r k st p w g s e s' assume "f_complete h c r k st p w g s = (Inl e, s')"
  then show "s' = s"
    by (auto simp: f_complete_def Let_def split: option.splits sum.splits if_splits prod.splits)
qed

section \<open>The journal\<close>

definition f_entry :: "(string \<Rightarrow> string) \<Rightarrow> file_store \<Rightarrow> string \<Rightarrow> journal_entry option" where
  "f_entry h s k = map_of (f_executions s) (h (py_strip k))"

definition key_given :: "string \<Rightarrow> bool" where
  "key_given k = (py_strip k \<noteq> [])"

lemma f_upsert_executions:
  "f_upsert_unlocked h now t s = (t', s') \<Longrightarrow> f_executions s' = f_executions s"
  by (auto simp: f_upsert_unlocked_def Let_def)

lemma queue_executions [simp]:
  "f_executions (queue_write key t s) = f_executions s" "f_executions (queue_unlink key s) = f_executions s"
  by (simp_all add: queue_write_def queue_unlink_def)

lemma f_recover_executions:
  "f_recover_loop h c limit i ts s = (n, s') \<Longrightarrow> f_executions s' = f_executions s"
proof (induction ts arbitrary: i s n)
  case (Cons t ts)
  obtain t' s1 where up: "f_upsert_unlocked h (c (i + 1)) (recovered_task t limit) s = (t', s1)" by fastforce
  define s2 where "s2 = (if status t' = ''retry'' then queue_write (file_key (run_id t') (task_id t')) t' s1 else s1)"
  have "f_executions s2 = f_executions s" using f_upsert_executions [OF up] by (simp add: s2_def)
  moreover obtain m where "f_recover_loop h c limit (i + 1) ts (if needs_recovery (c 0) t then s2 else s) = (m, s')"
  proof (cases "f_recover_loop h c limit (i + 1) ts s2")
    case (Pair m s3)
    with Cons.prems up that show ?thesis
      by (cases "needs_recovery (c 0) t") (simp_all add: Let_def s2_def [symmetric])
  qed
  ultimately show ?case using Cons.IH by (auto split: if_splits)
qed simp

lemma f_claim_executions: "f_claim h c r k w n s = (res, s') \<Longrightarrow> f_executions s' = f_executions s"
  by (auto simp: f_claim_def split: option.splits if_splits sum.splits prod.splits dest: f_upsert_executions)

lemma f_claim_scan_executions:
  "f_claim_scan h c w n kinds ts s = (res, s') \<Longrightarrow> f_executions s' = f_executions s"
proof (induction ts)
  case (Cons t ts)
  obtain res1 s1 where claim: "f_claim h c (run_id t) (task_id t) w n s = (res1, s1)" by fastforce
  from f_claim_executions [OF this] Cons claim show ?case
    by (cases res1; cases "projr res1") (auto split: if_splits)
qed simp

lemma f_executions_frame:
  "f_enqueue h c t s = (r1, s') \<Longrightarrow> f_executions s' = f_executions s"
  "f_complete h c r k st p w g s = (r2, s') \<Longrightarrow> f_executions s' = f_executions s"
  "f_heartbeat h c r k w n g s = (r3, s') \<Longrightarrow> f_executions s' = f_executions s"
  "f_fence h c r k st p g s = (r4, s') \<Longrightarrow> f_executions s' = f_executions s"
proof -
  show "f_heartbeat h c r k w n g s = (r3, s') \<Longrightarrow> f_executions s' = f_executions s"
    by (auto simp: f_heartbeat_def split: option.splits if_splits)
      (metis f_upsert_executions prod.collapse)
qed (auto simp: f_enqueue_def f_complete_def f_fence_def Let_def
  split: option.splits if_splits sum.splits prod.splits dest: f_upsert_executions)

lemma file_step_journal:
  assumes "file_step h s s'" "map_of (f_executions s) path = Some e"
  shows "\<exists>e'. map_of (f_executions s') path = Some e' \<and> entry_le e e'"
  using assms(1)
proof cases
  case (claim_execution c ikey w n b res)
  then show ?thesis
    using assms(2) next_claim_le
    by (fastforce simp: f_claim_execution_def split: sum.splits prod.splits if_splits)
next
  case (complete_execution c ikey w g st p rh res)
  then show ?thesis
    using assms(2) completed_execution_le
    by (fastforce simp: f_complete_execution_def split: sum.splits prod.splits elim!: bind_res_InrE)
next
  case (cancel r reason)
  with assms(2) show ?thesis by (simp add: f_cancel_run_def)
next
  case (claim_next c w n kinds res)
  with f_claim_scan_executions assms(2) show ?thesis unfolding f_claim_next_def by force
next
  case (recover c limit n)
  with f_recover_executions assms(2) show ?thesis unfolding f_recover_def by force
qed (use assms(2) f_executions_frame f_claim_executions in force)+

lemma required_text_given: "key_given k \<Longrightarrow> required_text k name = Inr (py_strip k)"
  by (auto simp: required_text_def key_given_def)

lemma execution_path_given: "key_given k \<Longrightarrow> execution_path h k = Inr (h (py_strip k))"
  by (simp add: execution_path_def required_text_given)

interpretation file_journal: journal_store "f_entry h" "f_claim_execution h" "f_complete_execution h"
  "file_step h" key_given for h
proof unfold_locales
  fix s s' k e assume "file_step h s s'" "f_entry h s k = Some e"
  then show "\<exists>e'. f_entry h s' k = Some e' \<and> entry_le e e'"
    unfolding f_entry_def by (rule file_step_journal)
next
  fix k c w n b s e s'
  assume k: "key_given k" and acq: "f_claim_execution h c k w n b s = (Inr (Acquired, e), s')"
  have "key_given (py_strip k)" using k by (simp add: key_given_def)
  then obtain v where claim:
      "next_execution_claim c (map_of (f_executions s) (h (py_strip k))) (py_strip k) v n b = (Acquired, e)"
    and s': "s' = s\<lparr>f_executions := AList.update (h (py_strip k)) e (f_executions s)\<rparr>"
    using required_text_given [OF k] acq execution_path_given [of "py_strip k" h]
    by (auto simp: f_claim_execution_def split: sum.splits prod.splits if_splits elim!: bind_res_InrE)
  from next_claim_acquired [OF claim] show "f_entry h s' k = Some e \<and>
      (\<forall>f. f_entry h s k = Some f \<longrightarrow>
        j_status f \<notin> set terminal_statuses \<and> b \<and> j_generation e = j_generation f + 1)"
    unfolding s' by (auto simp: f_entry_def)
next
  fix k c w g st p rh s e' s'
  assume "key_given k" "f_complete_execution h c k w g st p rh s = (Inr e', s')"
  then show "f_entry h s' k = Some e' \<and> j_status e' \<in> set terminal_statuses \<and>
      (\<exists>e. f_entry h s k = Some e \<and> j_owner e = w \<and> j_generation e = g)"
    by (auto simp: f_complete_execution_def f_entry_def execution_path_given split: sum.splits prod.splits
        elim!: bind_res_InrE completed_execution_Inr)
next
  fix c k w g st p rh s res s' assume "f_complete_execution h c k w g st p rh s = (res, s')"
  then show "(file_step h)\<^sup>*\<^sup>* s s'" by (blast intro: file_step.complete_execution)
qed

section \<open>Properties\<close>

definition f_reachable :: "(string \<Rightarrow> string) \<Rightarrow> file_store \<Rightarrow> bool" where
  "f_reachable h s \<longleftrightarrow> (file_step h)\<^sup>*\<^sup>* f_empty s"

lemma f_reachable_inv: "f_reachable h s \<Longrightarrow> f_inv s"
  using file_leases.steps_inv [of h f_empty s]
  by (simp add: f_reachable_def f_inv_def f_ok_def f_distinct_def f_empty_def)

definition f_sample_queued :: file_store where
  "f_sample_queued = snd (f_enqueue sample_digest (at 0) sample_task f_empty)"

definition f_sample_claimed :: file_store where
  "f_sample_claimed = snd (f_claim sample_digest (at 0) ''r'' ''k'' ''w1'' 1 f_sample_queued)"

definition f_sample_recovered :: file_store where
  "f_sample_recovered = snd (f_recover sample_digest (at 2000000) 3 f_sample_claimed)"

lemma f_sample_reachable: "f_reachable sample_digest f_sample_queued"
  unfolding f_reachable_def f_sample_queued_def
  by (rule r_into_rtranclp) (rule file_step.enqueue, rule prod.collapse [symmetric])

text \<open>
  C18: Fencing in the file store: once a task was claimed again, a completion with the generation
  of the earlier claim is rejected, whatever calls came in between, and leaves the files
  unchanged.
\<close>

theorem file_stale_lease_rejected:
  assumes "f_reachable h s0" and "f_claim h c r k w n s0 = (Inr (Some t), s1)"
    and "(file_step h)\<^sup>*\<^sup>* s1 s2" and "f_claim h c' r k w' n' s2 = (Inr (Some t'), s3)"
    and "(file_step h)\<^sup>*\<^sup>* s3 s4"
  shows "lease_generation t < lease_generation t' \<and>
    (\<exists>e. f_complete h c'' r k st p v (lease_generation t) s4 = (Inl e, s4))"
  using file_leases.stale_lease_rejected [OF f_reachable_inv [OF assms(1)] assms(2-5)]
    file_leases.claims_have_new_generations [OF f_reachable_inv [OF assms(1)] assms(2-4)] by blast

lemma file_stale_lease_rejected_witness:
  "\<exists>t t' s3 e. f_claim sample_digest (at 0) ''r'' ''k'' ''w1'' 1 f_sample_queued = (Inr (Some t), f_sample_claimed) \<and>
     f_claim sample_digest (at 2000000) ''r'' ''k'' ''w2'' 1 f_sample_recovered = (Inr (Some t'), s3) \<and>
     f_complete sample_digest (at 3000000) ''r'' ''k'' ''completed'' [] ''w1'' (lease_generation t) s3 = (Inl e, s3)"
proof -
  have "(case fst (f_claim sample_digest (at 0) ''r'' ''k'' ''w1'' 1 f_sample_queued) of
    Inr (Some t) \<Rightarrow> True | _ \<Rightarrow> False)" by code_simp
  then obtain t where t:
    "f_claim sample_digest (at 0) ''r'' ''k'' ''w1'' 1 f_sample_queued = (Inr (Some t), f_sample_claimed)"
    unfolding f_sample_claimed_def by (rule claim_SomeE)
  have "(case fst (f_claim sample_digest (at 2000000) ''r'' ''k'' ''w2'' 1 f_sample_recovered) of
    Inr (Some t) \<Rightarrow> True | _ \<Rightarrow> False)" by code_simp
  then obtain t' s3 where t':
    "f_claim sample_digest (at 2000000) ''r'' ''k'' ''w2'' 1 f_sample_recovered = (Inr (Some t'), s3)"
    by (rule claim_SomeE)
  have "file_step sample_digest f_sample_claimed f_sample_recovered"
    unfolding f_sample_recovered_def by (rule file_step.recover, rule prod.collapse [symmetric])
  then have "(file_step sample_digest)\<^sup>*\<^sup>* f_sample_claimed f_sample_recovered" by blast
  from file_stale_lease_rejected [OF f_sample_reachable t this t' rtranclp.rtrancl_refl] t t'
  show ?thesis by blast
qed

text \<open>
  A worker that lost its journal lease to a takeover cannot finish the execution: in the file
  store a completion with the generation of the earlier acquisition never succeeds.
\<close>

theorem file_stale_finish_rejected:
  assumes "key_given k" and "f_claim_execution h c k w n b s0 = (Inr (Acquired, e), s1)"
    and "(file_step h)\<^sup>*\<^sup>* s1 s2" and "f_claim_execution h c' k w' n' b' s2 = (Inr (Acquired, e'), s3)"
    and "(file_step h)\<^sup>*\<^sup>* s3 s4"
  shows "f_complete_execution h c'' k v (j_generation e) st p rh s4 \<noteq> (Inr f, s5)"
  using file_journal.stale_finish_rejected [OF assms] by blast

lemma acquire_E:
  assumes "(case fst x of Inr (Acquired, e) \<Rightarrow> P e | _ \<Rightarrow> False)"
  obtains e where "x = (Inr (Acquired, e), snd x)" "P e"
proof -
  obtain y s where x: "x = (y, s)" by fastforce
  with assms that show ?thesis
  proof (cases y)
    case (Inr z)
    obtain outcome e where "z = (outcome, e)" by fastforce
    with Inr x assms that show ?thesis by (cases outcome) auto
  qed simp
qed

lemma file_stale_finish_rejected_witness:
  "\<exists>s3. \<forall>f s5. f_complete_execution sample_digest (at 9) ''job'' ''w1'' 1 ''succeeded'' [] [] s3 \<noteq> (Inr f, s5)"
proof -
  let ?s1 = "snd (f_claim_execution sample_digest (at 0) ''job'' ''w1'' 1 False f_empty)"
  have "(case fst (f_claim_execution sample_digest (at 0) ''job'' ''w1'' 1 False f_empty) of
    Inr (Acquired, e) \<Rightarrow> j_generation e = 1 | _ \<Rightarrow> False)" by code_simp
  then obtain e where e: "f_claim_execution sample_digest (at 0) ''job'' ''w1'' 1 False f_empty =
      (Inr (Acquired, e), ?s1)" "j_generation e = 1" by (rule acquire_E)
  have "(case fst (f_claim_execution sample_digest (at 2000000) ''job'' ''w2'' 1 True ?s1) of
    Inr (Acquired, e) \<Rightarrow> True | _ \<Rightarrow> False)" by code_simp
  then obtain e' s3 where e': "f_claim_execution sample_digest (at 2000000) ''job'' ''w2'' 1 True ?s1 =
      (Inr (Acquired, e'), s3)" by (rule acquire_E)
  have "key_given ''job''" by code_simp
  from file_stale_finish_rejected [OF this e(1) rtranclp.rtrancl_refl e' rtranclp.rtrancl_refl]
  show ?thesis unfolding e(2) by blast
qed

text \<open>
  Runs share their cancellation in the file store when their safe names agree: cancelling one
  run cancels exactly the runs with the same safe name, so that \<open>a/b\<close> and \<open>a_b\<close> are cancelled
  together.
\<close>

theorem cancel_by_safe_name:
  "f_run_canceled (f_cancel_run r reason s) r' \<longleftrightarrow> safe_name r' = safe_name r \<or> f_run_canceled s r'"
  by (auto simp: f_run_canceled_def f_cancel_run_def)

text \<open>
  The two stores agree. A fingerprint is bound when it is not blank and has no surrounding white
  space, which every enqueue establishes; rewriting such a task does not change its fingerprint.
\<close>

definition fingerprint_bound :: "node_task \<Rightarrow> bool" where
  "fingerprint_bound t \<longleftrightarrow> py_strip (request_fingerprint t) = request_fingerprint t \<and> request_fingerprint t \<noteq> []"

lemma bind_bound: "fingerprint_bound t \<Longrightarrow> bind_fingerprint h t = t"
  by (simp add: fingerprint_bound_def bind_fingerprint_def)

lemma f_upsert_bound:
  assumes "fingerprint_bound t" "file_key (run_id t) (task_id t) = file_key r k"
  shows "f_upsert_unlocked h now t s =
    (t\<lparr>updated_at := At now\<rparr>, s\<lparr>f_tasks := AList.update (file_key r k) (t\<lparr>updated_at := At now\<rparr>) (f_tasks s)\<rparr>)"
  using assms by (simp add: f_upsert_unlocked_def bind_bound Let_def)

text \<open>
  C20: The file store refines the memory store on a task both hold with a bound fingerprint: a
  claim with a named owner, a completion, a heartbeat and a fence give the same result in both,
  and leave both with the same task again.
\<close>

theorem stores_agree:
  assumes "f_ok f" and "m_get m r k = Some t" and "f_get f r k = Some t" and "fingerprint_bound t"
  shows "(py_strip w \<noteq> [] \<longrightarrow> fst (f_claim h c r k w n f) = fst (m_claim c r k w n m) \<and>
      f_get (snd (f_claim h c r k w n f)) r k = m_get (snd (m_claim c r k w n m)) r k) \<and>
    (fst (f_complete h c r k st p w g f) = fst (m_complete c r k st p w g m) \<and>
      f_get (snd (f_complete h c r k st p w g f)) r k = m_get (snd (m_complete c r k st p w g m)) r k) \<and>
    (fst (f_heartbeat h c r k w n g f) = fst (m_heartbeat c r k w n g m) \<and>
      f_get (snd (f_heartbeat h c r k w n g f)) r k = m_get (snd (m_heartbeat c r k w n g m)) r k) \<and>
    (fst (f_fence h c r k st p g f) = fst (m_fence c r k st p g m) \<and>
      f_get (snd (f_fence h c r k st p g f)) r k = m_get (snd (m_fence c r k st p g m)) r k)"
proof -
  have key: "file_key (run_id t) (task_id t) = file_key r k" using f_ok_get [OF assms(1,3)] .
  have up: "f_upsert_unlocked h now u s =
    (u\<lparr>updated_at := At now\<rparr>, s\<lparr>f_tasks := AList.update (file_key r k) (u\<lparr>updated_at := At now\<rparr>) (f_tasks s)\<rparr>)"
    if "run_id u = run_id t" "task_id u = task_id t" "request_fingerprint u = request_fingerprint t"
    for now u s
    using that assms(4) key by (intro f_upsert_bound) (simp_all add: fingerprint_bound_def)
  note get = assms(2,3)
  have "py_strip w \<noteq> [] \<longrightarrow> fst (f_claim h c r k w n f) = fst (m_claim c r k w n m) \<and>
      f_get (snd (f_claim h c r k w n f)) r k = m_get (snd (m_claim c r k w n m)) r k"
    using get by (simp add: f_claim_def m_claim_def up required_text_def Let_def)
      (simp add: queue_unlink_def f_get_def m_get_def)
  moreover have "fst (f_complete h c r k st p w g f) = fst (m_complete c r k st p w g m) \<and>
      f_get (snd (f_complete h c r k st p w g f)) r k = m_get (snd (m_complete c r k st p w g m)) r k"
    using get by (cases "task_fence t w g st")
      (simp_all add: f_complete_def m_complete_def up completed_task_def Let_def,
        simp_all add: f_get_def m_get_def)
  moreover have "fst (f_heartbeat h c r k w n g f) = fst (m_heartbeat c r k w n g m) \<and>
      f_get (snd (f_heartbeat h c r k w n g f)) r k = m_get (snd (m_heartbeat c r k w n g m)) r k"
    using get by (simp add: f_heartbeat_def m_heartbeat_def up) (simp add: f_get_def m_get_def)
  moreover have "fst (f_fence h c r k st p g f) = fst (m_fence c r k st p g m) \<and>
      f_get (snd (f_fence h c r k st p g f)) r k = m_get (snd (m_fence c r k st p g m)) r k"
    using get by (cases "expected_generation t g")
      (simp_all add: f_fence_def m_fence_def up fenced_task_def Let_def,
        simp_all add: f_get_def m_get_def)
  ultimately show ?thesis by blast
qed

lemma stores_agree_witness:
  "fst (f_claim sample_digest (at 0) ''r'' ''k'' ''w'' 1 f_sample_queued)
    = fst (m_claim (at 0) ''r'' ''k'' ''w'' 1 sample_queued)"
proof -
  have ok: "f_ok f_sample_queued" using f_reachable_inv [OF f_sample_reachable] by (simp add: f_inv_def)
  have "m_get sample_queued ''r'' ''k'' = f_get f_sample_queued ''r'' ''k''"
    and "(case m_get sample_queued ''r'' ''k'' of None \<Rightarrow> False | Some t \<Rightarrow> fingerprint_bound t)"
    by code_simp+
  then obtain t where t: "m_get sample_queued ''r'' ''k'' = Some t"
    "f_get f_sample_queued ''r'' ''k'' = Some t" "fingerprint_bound t"
    by (auto split: option.splits)
  have "py_strip ''w'' \<noteq> []" by code_simp
  with stores_agree [OF ok t] show ?thesis by blast
qed

end
