(* ===== verification/Runtime_Budget.thy ===== *)
theory Runtime_Budget
  imports Py_Text
begin

text \<open>
  The budget of one grounded run (\<^verbatim>\<open>grounded_runtime_budget.py\<close>): limits, counters that are reserved
  before an operation starts, the deadline, the stages with their timing, and the report.

  Times are integers, in microseconds; the report of the source rounds seconds to this precision
  (\<open>_milliseconds\<close> keeps three decimals of a millisecond), the rounding of floating-point sums below it
  is not modelled. The clock of a call is a function from the number of the reading to the time
  read. Every operation runs under the budget's lock and is one step. The exception of a denied
  operation carries the report of the state it leaves behind, which \<open>report\<close> computes.
\<close>

type_synonym ticks = "nat \<Rightarrow> int"

record budget_limits =
  max_duration :: int
  max_actions :: int
  max_llm_calls :: int
  max_tool_calls :: int
  max_doris_queries :: int
  max_tokens :: int
  limits_profile :: string

text \<open>\<open>max(1, int(getattr(settings, name, default) or default))\<close>: missing and zero read as the default.\<close>

definition setting_or :: "int option \<Rightarrow> int \<Rightarrow> int" where
  "setting_or v dflt = (case v of None \<Rightarrow> dflt | Some n \<Rightarrow> if n = 0 then dflt else n)"

record budget_settings =
  set_fast_duration :: "int option"
  set_max_duration :: "int option"
  set_max_actions :: "int option"
  set_max_llm_calls :: "int option"
  set_max_tool_calls :: "int option"
  set_max_doris_queries :: "int option"
  set_max_tokens :: "int option"

definition limits_from_settings :: "budget_settings \<Rightarrow> bool \<Rightarrow> budget_limits" where
  "limits_from_settings s fast = \<lparr>
     max_duration = max 1000 (if fast then setting_or (set_fast_duration s) 25000000
       else setting_or (set_max_duration s) 90000000),
     max_actions = max 1 (setting_or (set_max_actions s) 20),
     max_llm_calls = max 1 (setting_or (set_max_llm_calls s) 16),
     max_tool_calls = max 1 (setting_or (set_max_tool_calls s) 60),
     max_doris_queries = max 1 (setting_or (set_max_doris_queries s) 12),
     max_tokens = max 1 (setting_or (set_max_tokens s) 60000),
     limits_profile = (if fast then ''fast'' else ''complex'')\<rparr>"

type_synonym counter = "(string, int) dict"

record stage_aggregate =
  sa_calls :: int
  sa_completed :: int
  sa_successes :: int
  sa_errors :: int
  sa_duration :: int
  sa_max :: int
  sa_last :: int

record active_stage =
  as_name :: string
  as_started :: int

record denied_attempt =
  da_operation :: string
  da_breaches :: "string list"
  da_elapsed :: int

record budget =
  limits :: budget_limits
  started :: int
  started_epoch_ms :: int
  finished :: "int option"
  finished_epoch_ms :: "int option"
  llm_calls :: int
  llm_turns :: int
  llm_calls_by_name :: counter
  llm_turns_by_name :: counter
  actions :: int
  actions_by_name :: counter
  tool_calls :: int
  tool_calls_by_name :: counter
  doris_queries :: int
  doris_queries_by_name :: counter
  estimated_tokens :: int
  estimated_tokens_by_name :: counter
  stage_sequence :: int
  active_stages :: "(int, active_stage) dict"
  stage_aggregates :: "(string, stage_aggregate) dict"
  denied_attempts :: "denied_attempt list"

datatype budget_error =
    BudgetExceeded "string list"
  | CountNotPositive string
  | StageTokenUnknown int

definition new_budget :: "budget_limits \<Rightarrow> int \<Rightarrow> int \<Rightarrow> budget" where
  "new_budget l now wall = \<lparr>limits = l, started = now, started_epoch_ms = wall, finished = None,
     finished_epoch_ms = None, llm_calls = 0, llm_turns = 0, llm_calls_by_name = [],
     llm_turns_by_name = [], actions = 0, actions_by_name = [], tool_calls = 0,
     tool_calls_by_name = [], doris_queries = 0, doris_queries_by_name = [], estimated_tokens = 0,
     estimated_tokens_by_name = [], stage_sequence = 0, active_stages = [], stage_aggregates = [],
     denied_attempts = []\<rparr>"

definition counter_name :: "string \<Rightarrow> string" where
  "counter_name v =
     (let s = py_strip (if v = [] then ''unknown'' else v) in if s = [] then ''unknown'' else s)"

definition counter_add :: "string \<Rightarrow> int \<Rightarrow> counter \<Rightarrow> counter" where
  "counter_add name k c = AList.update name (dict_get c name 0 + k) c"

section \<open>Time and denial\<close>

definition elapsed :: "int \<Rightarrow> budget \<Rightarrow> int" where
  "elapsed now b = max 0 ((case finished b of None \<Rightarrow> now | Some t \<Rightarrow> t) - started b)"

definition remaining_time :: "int \<Rightarrow> budget \<Rightarrow> int" where
  "remaining_time now b = max 0 (max_duration (limits b) - elapsed now b)"

definition duration_breaches :: "int \<Rightarrow> budget \<Rightarrow> string list" where
  "duration_breaches now b = (if max_duration (limits b) \<le> elapsed now b then [''duration''] else [])"

text \<open>\<open>_raise_for_breaches_locked\<close>: nothing without a breach; otherwise the attempt is recorded.\<close>

definition raise_for_breaches :: "int \<Rightarrow> string list \<Rightarrow> string \<Rightarrow> budget \<Rightarrow> (budget_error + unit) \<times> budget" where
  "raise_for_breaches now breaches operation b =
     (let bs = fromkeys breaches
      in if bs = [] then (Inr (), b)
         else (Inl (BudgetExceeded bs), b\<lparr>denied_attempts := take_last 32 (denied_attempts b @
           [\<lparr>da_operation = operation, da_breaches = bs, da_elapsed = elapsed now b\<rparr>])\<rparr>))"

definition positive_count :: "int \<Rightarrow> string \<Rightarrow> budget_error + unit" where
  "positive_count count name = require (0 < count) (CountNotPositive name)"

text \<open>The shape the consume methods share: the checks, and then the new counters.\<close>

definition reserve ::
  "ticks \<Rightarrow> int \<Rightarrow> string \<Rightarrow> string list \<Rightarrow> string \<Rightarrow> (budget \<Rightarrow> budget) \<Rightarrow> budget
    \<Rightarrow> (budget_error + unit) \<times> budget" where
  "reserve clk count name breaches operation commit b =
     (case positive_count count name of
        Inl e \<Rightarrow> (Inl e, b)
      | Inr _ \<Rightarrow> (case raise_for_breaches (clk 1) (duration_breaches (clk 0) b @ breaches) operation b of
          (Inl e, b') \<Rightarrow> (Inl e, b')
        | (Inr _, b') \<Rightarrow> (Inr (), commit b')))"

definition checkpoint :: "ticks \<Rightarrow> budget \<Rightarrow> (budget_error + unit) \<times> budget" where
  "checkpoint clk b = raise_for_breaches (clk 1) (duration_breaches (clk 0) b) ''checkpoint'' b"

text \<open>
  \<open>clamp_timeout_seconds\<close>, with the request and the minimum as numbers (\<open>None\<close> is a request that is
  no number).
\<close>

definition clamp_timeout ::
  "ticks \<Rightarrow> int option \<Rightarrow> int \<Rightarrow> string \<Rightarrow> budget \<Rightarrow> (budget_error + int) \<times> budget" where
  "clamp_timeout clk requested minimum_time operation b =
     (let now_elapsed = elapsed (clk 0) b; cap = max_duration (limits b) in
      case raise_for_breaches (clk 1) (if cap \<le> now_elapsed then [''duration''] else []) operation b of
        (Inl e, b') \<Rightarrow> (Inl e, b')
      | (Inr _, b1) \<Rightarrow>
          (let remaining = max 0 (cap - now_elapsed);
               least = max 0 minimum_time;
               wanted = (case requested of None \<Rightarrow> 0 | Some r \<Rightarrow> r)
           in case (if remaining < least then raise_for_breaches (clk 1) [''duration''] operation b1
                    else (Inr (), b1)) of
                (Inl e, b') \<Rightarrow> (Inl e, b')
              | (Inr _, b2) \<Rightarrow>
                  (Inr (if wanted \<le> 0 then remaining else min (max wanted least) remaining), b2)))"

section \<open>Counters\<close>

definition over :: "int \<Rightarrow> int \<Rightarrow> string \<Rightarrow> string list" where
  "over used cap name = (if cap < used then [name] else [])"

definition consume_llm_call :: "ticks \<Rightarrow> string \<Rightarrow> int \<Rightarrow> budget \<Rightarrow> (budget_error + unit) \<times> budget" where
  "consume_llm_call clk name turns b =
     (let n = counter_name name in
      reserve clk turns ''turns'' (over (llm_calls b + 1) (max_llm_calls (limits b)) ''llm_calls'')
        (''llm:'' @ n)
        (\<lambda>b. b\<lparr>llm_calls := llm_calls b + 1, llm_turns := llm_turns b + turns,
          llm_calls_by_name := counter_add n 1 (llm_calls_by_name b),
          llm_turns_by_name := counter_add n turns (llm_turns_by_name b)\<rparr>) b)"

definition consume_action :: "ticks \<Rightarrow> string \<Rightarrow> int \<Rightarrow> budget \<Rightarrow> (budget_error + unit) \<times> budget" where
  "consume_action clk name count b =
     (let n = counter_name name in
      reserve clk count ''count'' (over (actions b + count) (max_actions (limits b)) ''actions'')
        (''action:'' @ n)
        (\<lambda>b. b\<lparr>actions := actions b + count, actions_by_name := counter_add n count (actions_by_name b)\<rparr>) b)"

definition consume_llm_turns :: "ticks \<Rightarrow> int \<Rightarrow> string \<Rightarrow> budget \<Rightarrow> (budget_error + unit) \<times> budget" where
  "consume_llm_turns clk count name b =
     (let n = counter_name name in
      reserve clk count ''count'' [] (''llm_turn:'' @ n)
        (\<lambda>b. b\<lparr>llm_turns := llm_turns b + count,
          llm_turns_by_name := counter_add n count (llm_turns_by_name b)\<rparr>) b)"

definition consume_tool_call :: "ticks \<Rightarrow> string \<Rightarrow> int \<Rightarrow> budget \<Rightarrow> (budget_error + unit) \<times> budget" where
  "consume_tool_call clk name count b =
     (let n = counter_name name in
      reserve clk count ''count'' (over (tool_calls b + count) (max_tool_calls (limits b)) ''tool_calls'')
        (''tool:'' @ n)
        (\<lambda>b. b\<lparr>tool_calls := tool_calls b + count,
          tool_calls_by_name := counter_add n count (tool_calls_by_name b)\<rparr>) b)"

definition consume_doris_query :: "ticks \<Rightarrow> string \<Rightarrow> int \<Rightarrow> budget \<Rightarrow> (budget_error + unit) \<times> budget" where
  "consume_doris_query clk name count b =
     (let n = counter_name name in
      reserve clk count ''count''
        (over (doris_queries b + count) (max_doris_queries (limits b)) ''doris_queries'') (''doris:'' @ n)
        (\<lambda>b. b\<lparr>doris_queries := doris_queries b + count,
          doris_queries_by_name := counter_add n count (doris_queries_by_name b)\<rparr>) b)"

definition consume_tokens :: "ticks \<Rightarrow> int \<Rightarrow> string \<Rightarrow> budget \<Rightarrow> (budget_error + unit) \<times> budget" where
  "consume_tokens clk count name b =
     (let n = counter_name name in
      reserve clk count ''count''
        (over (estimated_tokens b + count) (max_tokens (limits b)) ''estimated_tokens'') (''tokens:'' @ n)
        (\<lambda>b. b\<lparr>estimated_tokens := estimated_tokens b + count,
          estimated_tokens_by_name := counter_add n count (estimated_tokens_by_name b)\<rparr>) b)"

section \<open>Stages\<close>

definition no_calls :: stage_aggregate where
  "no_calls = \<lparr>sa_calls = 0, sa_completed = 0, sa_successes = 0, sa_errors = 0, sa_duration = 0,
     sa_max = 0, sa_last = 0\<rparr>"

definition start_stage :: "ticks \<Rightarrow> string \<Rightarrow> budget \<Rightarrow> (budget_error + int) \<times> budget" where
  "start_stage clk name b =
     (let n = counter_name name in
      case raise_for_breaches (clk 1) (duration_breaches (clk 0) b) (''stage:'' @ n) b of
        (Inl e, b') \<Rightarrow> (Inl e, b')
      | (Inr _, b') \<Rightarrow>
          (let token = stage_sequence b' + 1; agg = dict_get (stage_aggregates b') n no_calls
           in (Inr token, b'\<lparr>stage_sequence := token,
             active_stages := AList.update token \<lparr>as_name = n, as_started = clk 1\<rparr> (active_stages b'),
             stage_aggregates := AList.update n (agg\<lparr>sa_calls := sa_calls agg + 1\<rparr>) (stage_aggregates b')\<rparr>)))"

definition end_stage :: "ticks \<Rightarrow> int \<Rightarrow> bool \<Rightarrow> budget \<Rightarrow> (budget_error + unit) \<times> budget" where
  "end_stage clk token err b =
     (case map_of (active_stages b) token of
        None \<Rightarrow> (Inl (StageTokenUnknown token), b)
      | Some a \<Rightarrow>
          (let duration = max 0 (clk 0 - as_started a); agg = dict_get (stage_aggregates b) (as_name a) no_calls
           in (Inr (), b\<lparr>active_stages := AList.delete token (active_stages b),
             stage_aggregates := AList.update (as_name a) (agg\<lparr>sa_completed := sa_completed agg + 1,
               sa_errors := sa_errors agg + (if err then 1 else 0),
               sa_successes := sa_successes agg + (if err then 0 else 1),
               sa_duration := sa_duration agg + duration, sa_max := max (sa_max agg) duration,
               sa_last := duration\<rparr>) (stage_aggregates b)\<rparr>)))"

text \<open>
  \<open>with budget.stage(name): body\<close>. The body is a computation on the budget that returns or raises
  (\<open>Inl\<close> an exception of the caller's); the clocks are those of the three calls.
\<close>

datatype 'e stage_exit = BudgetRaised budget_error | BodyRaised 'e

definition leave_stage ::
  "ticks \<Rightarrow> ticks \<Rightarrow> bool \<Rightarrow> int \<Rightarrow> 'e + 'a \<Rightarrow> budget \<Rightarrow> ('e stage_exit + 'a) \<times> budget" where
  "leave_stage clk2 clk3 enforce token r b =
     (case end_stage clk2 token (isl r) b of
        (Inl e, b1) \<Rightarrow> (Inl (BudgetRaised e), b1)
      | (Inr _, b1) \<Rightarrow> (case r of
          Inl e \<Rightarrow> (Inl (BodyRaised e), b1)
        | Inr x \<Rightarrow>
            if enforce then (case checkpoint clk3 b1 of
                (Inl e, b2) \<Rightarrow> (Inl (BudgetRaised e), b2)
              | (Inr _, b2) \<Rightarrow> (Inr x, b2))
            else (Inr x, b1)))"

definition run_stage ::
  "ticks \<Rightarrow> ticks \<Rightarrow> ticks \<Rightarrow> string \<Rightarrow> bool \<Rightarrow> (budget \<Rightarrow> ('e + 'a) \<times> budget) \<Rightarrow> budget
    \<Rightarrow> ('e stage_exit + 'a) \<times> budget" where
  "run_stage clk1 clk2 clk3 name enforce stage_body b =
     (case start_stage clk1 name b of
        (Inl e, b1) \<Rightarrow> (Inl (BudgetRaised e), b1)
      | (Inr token, b1) \<Rightarrow> (case stage_body b1 of (r, b2) \<Rightarrow> leave_stage clk2 clk3 enforce token r b2))"

definition finish :: "int \<Rightarrow> int \<Rightarrow> budget \<Rightarrow> budget" where
  "finish now wall b = (case finished b of
     None \<Rightarrow> b\<lparr>finished := Some now, finished_epoch_ms := Some wall\<rparr> | Some _ \<Rightarrow> b)"

section \<open>The report\<close>

definition current_breaches :: "int \<Rightarrow> budget \<Rightarrow> string list" where
  "current_breaches elapsed_time b =
     (if max_duration (limits b) \<le> elapsed_time then [''duration''] else [])
     @ (if max_actions (limits b) \<le> actions b then [''actions''] else [])
     @ (if max_llm_calls (limits b) \<le> llm_calls b then [''llm_calls''] else [])
     @ (if max_tool_calls (limits b) \<le> tool_calls b then [''tool_calls''] else [])
     @ (if max_doris_queries (limits b) \<le> doris_queries b then [''doris_queries''] else [])
     @ (if max_tokens (limits b) \<le> estimated_tokens b then [''estimated_tokens''] else [])"

record stage_report =
  sr_calls :: int
  sr_completed :: int
  sr_successes :: int
  sr_errors :: int
  sr_active :: int
  sr_completed_duration :: int
  sr_active_duration :: int
  sr_total_duration :: int
  sr_max_duration :: int
  sr_last_duration :: int

text \<open>The stages of a name that are running, as durations, in the order they were started.\<close>

definition active_durations :: "int \<Rightarrow> string \<Rightarrow> budget \<Rightarrow> int list" where
  "active_durations now name b =
     map (\<lambda>a. max 0 (now - as_started a)) (filter (\<lambda>a. as_name a = name) (map snd (active_stages b)))"

definition report_stage :: "int \<Rightarrow> budget \<Rightarrow> string \<Rightarrow> stage_report" where
  "report_stage now b name =
     (let agg = dict_get (stage_aggregates b) name no_calls; ds = active_durations now name b
      in \<lparr>sr_calls = sa_calls agg, sr_completed = sa_completed agg, sr_successes = sa_successes agg,
        sr_errors = sa_errors agg, sr_active = int (length ds), sr_completed_duration = sa_duration agg,
        sr_active_duration = sum_list ds, sr_total_duration = sa_duration agg + sum_list ds,
        sr_max_duration = max (sa_max agg) (fold max ds 0), sr_last_duration = sa_last agg\<rparr>)"

record budget_report =
  br_started :: int
  br_finished :: "int option"
  br_deadline :: int
  br_elapsed :: int
  br_limits :: budget_limits
  br_usage :: "(string \<times> int) list"
  br_by_name :: "(string \<times> counter) list"
  br_remaining :: "(string \<times> int) list"
  br_stages :: "(string, stage_report) dict"
  br_breaches :: "string list"
  br_exhausted :: bool
  br_reason :: string
  br_status :: string
  br_denied :: "denied_attempt list"

definition sorted_items :: "counter \<Rightarrow> counter" where
  "sorted_items c = sort_key fst c"

definition deadline_epoch_ms :: "budget \<Rightarrow> int" where
  "deadline_epoch_ms b = started_epoch_ms b + max_duration (limits b) div 1000"

text \<open>
  \<open>_report_locked\<close>: the first reading of the clock gives the elapsed time, the second the durations
  of the stages that are running. The usage and its counters by name are two lists here, one
  dictionary in the source.
\<close>

definition report :: "ticks \<Rightarrow> budget \<Rightarrow> budget_report" where
  "report clk b =
     (let spent = elapsed (clk 0) b; breaches = current_breaches spent b;
          now = (case finished b of None \<Rightarrow> clk 1 | Some t \<Rightarrow> t); l = limits b
      in \<lparr>br_started = started_epoch_ms b, br_finished = finished_epoch_ms b,
        br_deadline = deadline_epoch_ms b, br_elapsed = spent, br_limits = l,
        br_usage = [(''actions'', actions b), (''llmCalls'', llm_calls b), (''llmTurns'', llm_turns b),
          (''toolCalls'', tool_calls b), (''dorisQueries'', doris_queries b),
          (''estimatedTokens'', estimated_tokens b)],
        br_by_name = [(''actionsByName'', sorted_items (actions_by_name b)),
          (''llmCallsByName'', sorted_items (llm_calls_by_name b)),
          (''llmTurnsByName'', sorted_items (llm_turns_by_name b)),
          (''toolCallsByName'', sorted_items (tool_calls_by_name b)),
          (''dorisQueriesByName'', sorted_items (doris_queries_by_name b)),
          (''estimatedTokensByName'', sorted_items (estimated_tokens_by_name b))],
        br_remaining = [(''durationMs'', max 0 (max_duration l - spent)),
          (''actions'', max 0 (max_actions l - actions b)),
          (''llmCalls'', max 0 (max_llm_calls l - llm_calls b)),
          (''toolCalls'', max 0 (max_tool_calls l - tool_calls b)),
          (''dorisQueries'', max 0 (max_doris_queries l - doris_queries b)),
          (''estimatedTokens'', max 0 (max_tokens l - estimated_tokens b))],
        br_stages = map (\<lambda>n. (n, report_stage now b n)) (sort (map fst (stage_aggregates b))),
        br_breaches = breaches, br_exhausted = (breaches \<noteq> []),
        br_reason = (if breaches \<noteq> [] then ''grounded runtime budget exhausted: '' @ join_with '', '' breaches
          else []),
        br_status = (if finished b \<noteq> None then ''finished'' else ''running''),
        br_denied = denied_attempts b\<rparr>)"

text \<open>\<open>finish\<close> freezes the time of the first call and returns the report.\<close>

definition finish_report :: "ticks \<Rightarrow> int \<Rightarrow> budget \<Rightarrow> budget_report \<times> budget" where
  "finish_report clk wall b = (let b' = finish (clk 0) wall b in (report (\<lambda>i. clk (Suc i)) b', b'))"

end
