(* ===== verification/Budget_Laws.thy ===== *)
theory Budget_Laws
  imports Runtime_Budget
begin

text \<open>
  What the budget of a run promises. A capped counter is an interface (\<open>capped_counter\<close>): requests
  that are granted in full or not at all, never past the cap. It is interpreted on the five counters
  of the run budget. The calls of any number of workers are serialised by the lock, so a run is a list
  of calls, each with its own clock.
\<close>

section \<open>The interface of a capped counter\<close>

locale capped_counter =
  fixes used :: "'s \<Rightarrow> int"
    and cap :: "'s \<Rightarrow> int"
    and amount :: "'r \<Rightarrow> int"
    and take_n :: "'r \<Rightarrow> 's \<Rightarrow> bool \<times> 's"
  assumes cap_fixed: "cap (snd (take_n r s)) = cap s"
    and granted: "fst (take_n r s) \<Longrightarrow> 0 < amount r \<and> used s + amount r \<le> cap s
      \<and> used (snd (take_n r s)) = used s + amount r"
    and refused: "\<not> fst (take_n r s) \<Longrightarrow> used (snd (take_n r s)) = used s"
begin

fun take_all :: "'r list \<Rightarrow> 's \<Rightarrow> int list \<times> 's" where
  "take_all [] s = ([], s)"
| "take_all (r # rs) s =
     (let (ok, s') = take_n r s; (gs, t) = take_all rs s' in (if ok then amount r # gs else gs, t))"

lemma take_all_sound:
  "cap (snd (take_all rs s)) = cap s
   \<and> used (snd (take_all rs s)) = used s + sum_list (fst (take_all rs s))
   \<and> (\<forall>g\<in>set (fst (take_all rs s)). 0 < g)"
proof (induction rs arbitrary: s)
  case (Cons r rs)
  obtain ok s' where t: "take_n r s = (ok, s')" by fastforce
  from Cons [of s'] cap_fixed [of r s] granted [of r s] refused [of r s] show ?case
    by (cases ok) (auto simp: t split_beta)
qed simp

lemma used_mono: "used s \<le> used (snd (take_n r s))"
  using granted [of r s] refused [of r s] by (cases "fst (take_n r s)") auto

lemma stays_capped: "used s \<le> cap s \<Longrightarrow> used (snd (take_n r s)) \<le> cap (snd (take_n r s))"
  using granted [of r s] refused [of r s] cap_fixed [of r s] by (cases "fst (take_n r s)") auto

lemma granted_total:
  assumes "0 \<le> used s" and "used s \<le> cap s"
  shows "sum_list (fst (take_all rs s)) \<le> cap s \<and> used (snd (take_all rs s)) \<le> cap s"
proof -
  have "used (snd (take_all rs s)) \<le> cap s" using assms(2)
  proof (induction rs arbitrary: s)
    case (Cons r rs)
    obtain ok s' where t: "take_n r s = (ok, s')" by fastforce
    have c: "cap s' = cap s" using cap_fixed [of r s] t by simp
    have "used s' \<le> cap s'" using stays_capped [of s r] Cons.prems t by simp
    from Cons.IH [OF this] show ?case by (simp add: t c split_beta)
  qed simp
  then show ?thesis using take_all_sound [of rs s] assms by simp
qed

end

section \<open>Reservations\<close>

lemma raise_for_breaches_cases:
  "raise_for_breaches now bs opn b =
     (if bs = [] then (Inr (), b)
      else (Inl (BudgetExceeded (fromkeys bs)), b\<lparr>denied_attempts := take_last 32 (denied_attempts b @
        [\<lparr>da_operation = opn, da_breaches = fromkeys bs, da_elapsed = elapsed now b\<rparr>])\<rparr>))"
  by (simp add: raise_for_breaches_def fromkeys_Nil_iff Let_def)

text \<open>
  The state a denied call leaves: one more denied attempt, of which the last 32 are kept, and nothing
  else.
\<close>

definition only_denied :: "budget \<Rightarrow> budget \<Rightarrow> bool" where
  "only_denied b b' = (b'\<lparr>denied_attempts := denied_attempts b\<rparr> = b \<and> length (denied_attempts b') \<le> 32
     \<and> denied_attempts b' \<noteq> []
     \<and> butlast (denied_attempts b') = take_last 31 (denied_attempts b))"

lemma butlast_take_last: "butlast (take_last (Suc n) (xs @ [x])) = take_last n xs"
  by (simp add: take_last_def butlast_drop Suc_diff_le)

lemma only_denied_update:
  "only_denied b (b\<lparr>denied_attempts := take_last 32 (denied_attempts b @ [d])\<rparr>)"
  using butlast_take_last [of 31 "denied_attempts b" d] length_take_last [of 32 "denied_attempts b @ [d]"]
  by (simp add: only_denied_def take_last_def)

lemma only_denied_same:
  assumes "only_denied b b'"
  shows "limits b' = limits b" "started b' = started b" "finished b' = finished b"
    "llm_calls b' = llm_calls b" "llm_turns b' = llm_turns b" "actions b' = actions b"
    "tool_calls b' = tool_calls b" "doris_queries b' = doris_queries b"
    "estimated_tokens b' = estimated_tokens b" "llm_calls_by_name b' = llm_calls_by_name b"
    "llm_turns_by_name b' = llm_turns_by_name b" "actions_by_name b' = actions_by_name b"
    "tool_calls_by_name b' = tool_calls_by_name b" "doris_queries_by_name b' = doris_queries_by_name b"
    "estimated_tokens_by_name b' = estimated_tokens_by_name b" "active_stages b' = active_stages b"
    "stage_aggregates b' = stage_aggregates b" "stage_sequence b' = stage_sequence b"
  using assms by (cases b; cases b'; simp add: only_denied_def)+

lemma reserve_granted:
  assumes "reserve clk n name bs opn commit b = (Inr u, b')"
  shows "0 < n \<and> bs = [] \<and> elapsed (clk 0) b < max_duration (limits b) \<and> b' = commit b"
  using assms
  by (auto simp: reserve_def positive_count_def require_def raise_for_breaches_cases
      duration_breaches_def split: if_splits)

lemma reserve_grants:
  assumes "0 < n" and "bs = []" and "elapsed (clk 0) b < max_duration (limits b)"
  shows "reserve clk n name bs opn commit b = (Inr (), commit b)"
  using assms
  by (simp add: reserve_def positive_count_def require_def raise_for_breaches_cases duration_breaches_def)

lemma reserve_granted_iff:
  "isl (fst (reserve clk n name bs opn commit b))
     \<longleftrightarrow> \<not> (0 < n \<and> bs = [] \<and> elapsed (clk 0) b < max_duration (limits b))"
  by (auto simp: reserve_def positive_count_def require_def raise_for_breaches_cases
      duration_breaches_def)

lemma reserve_denied:
  assumes "reserve clk n name bs opn commit b = (Inl e, b')"
  shows "e = CountNotPositive name \<and> n \<le> 0 \<and> b' = b
    \<or> (\<exists>ks. e = BudgetExceeded ks \<and> 0 < n \<and> ks \<noteq> [] \<and> set ks = set (duration_breaches (clk 0) b @ bs))
      \<and> only_denied b b'"
proof (cases "0 < n")
  case False
  then show ?thesis using assms by (simp add: reserve_def positive_count_def require_def)
next
  case True
  define ks where "ks = duration_breaches (clk 0) b @ bs"
  have "raise_for_breaches (clk 1) ks opn b = (Inl e, b')"
    using assms True
    by (auto simp: reserve_def positive_count_def require_def ks_def split: prod.splits sum.splits)
  then have "e = BudgetExceeded (fromkeys ks)" and "ks \<noteq> []" and "only_denied b b'"
    by (auto simp: raise_for_breaches_cases intro: only_denied_update split: if_splits)
  then show ?thesis using True by (auto simp: ks_def fromkeys_Nil_iff)
qed

section \<open>The five counters are capped counters\<close>

text \<open>A request is a clock, a name and a count.\<close>

type_synonym request = "ticks \<times> string \<times> int"

definition granted_of :: "(budget_error + unit) \<times> budget \<Rightarrow> bool \<times> budget" where
  "granted_of r = (\<not> isl (fst r), snd r)"

definition take_action :: "request \<Rightarrow> budget \<Rightarrow> bool \<times> budget" where
  "take_action r b = granted_of (consume_action (fst r) (fst (snd r)) (snd (snd r)) b)"

definition take_tool :: "request \<Rightarrow> budget \<Rightarrow> bool \<times> budget" where
  "take_tool r b = granted_of (consume_tool_call (fst r) (fst (snd r)) (snd (snd r)) b)"

definition take_doris :: "request \<Rightarrow> budget \<Rightarrow> bool \<times> budget" where
  "take_doris r b = granted_of (consume_doris_query (fst r) (fst (snd r)) (snd (snd r)) b)"

definition take_tokens :: "request \<Rightarrow> budget \<Rightarrow> bool \<times> budget" where
  "take_tokens r b = granted_of (consume_tokens (fst r) (snd (snd r)) (fst (snd r)) b)"

definition take_llm :: "request \<Rightarrow> budget \<Rightarrow> bool \<times> budget" where
  "take_llm r b = granted_of (consume_llm_call (fst r) (fst (snd r)) (snd (snd r)) b)"

lemmas consume_defs = consume_action_def consume_tool_call_def consume_doris_query_def
  consume_tokens_def consume_llm_call_def consume_llm_turns_def

lemmas take_defs = take_action_def take_tool_def take_doris_def take_tokens_def take_llm_def

text \<open>
  The laws for one counter: \<open>sel\<close> reads it, \<open>put\<close> is the commit of the operation, and the breaches are
  \<open>over\<close> of the counter. A commit that adds the amount and a denial that keeps the counter are enough.
\<close>

lemma over_Nil [simp]: "over u c n = [] \<longleftrightarrow> u \<le> c"
  by (simp add: over_def)

lemma reserve_take:
  fixes sel :: "budget \<Rightarrow> int"
  assumes r: "r = granted_of (reserve clk n name bs opn commit b)"
    and commit: "sel (commit b) = sel b + k" "limits (commit b) = limits b"
    and kept: "\<And>b'. only_denied b b' \<Longrightarrow> sel b' = sel b"
  shows "limits (snd r) = limits b"
    and "fst r \<Longrightarrow> 0 < n \<and> bs = [] \<and> elapsed (clk 0) b < max_duration (limits b) \<and> sel (snd r) = sel b + k"
    and "\<not> fst r \<Longrightarrow> sel (snd r) = sel b"
proof -
  obtain v b' where v: "reserve clk n name bs opn commit b = (v, b')" by fastforce
  show "limits (snd r) = limits b"
    using r v commit reserve_granted [of clk n name bs opn commit b _ b']
      reserve_denied [of clk n name bs opn commit b _ b'] only_denied_same(1) [of b b']
    by (cases v) (auto simp: granted_of_def)
  show "fst r \<Longrightarrow> 0 < n \<and> bs = [] \<and> elapsed (clk 0) b < max_duration (limits b) \<and> sel (snd r) = sel b + k"
    using r v commit reserve_granted [of clk n name bs opn commit b _ b']
    by (cases v) (auto simp: granted_of_def)
  show "\<not> fst r \<Longrightarrow> sel (snd r) = sel b"
    using r v reserve_denied [of clk n name bs opn commit b _ b'] kept [of b']
    by (cases v) (auto simp: granted_of_def)
qed

interpretation action_counter: capped_counter actions "\<lambda>b. max_actions (limits b)" "\<lambda>r. snd (snd r)" take_action
proof unfold_locales
  fix r b
  note laws = reserve_take [OF take_action_def [of r b, unfolded consume_action_def Let_def], where sel = actions]
  show "max_actions (limits (snd (take_action r b))) = max_actions (limits b)"
    by (subst laws(1)) (simp_all add: only_denied_same)
  show "fst (take_action r b) \<Longrightarrow> 0 < snd (snd r) \<and> actions b + snd (snd r) \<le> max_actions (limits b)
    \<and> actions (snd (take_action r b)) = actions b + snd (snd r)"
    by (drule laws(2) [rotated 3]) (simp_all add: only_denied_same, fast?)
  show "\<not> fst (take_action r b) \<Longrightarrow> actions (snd (take_action r b)) = actions b"
    by (rule laws(3)) (simp_all add: only_denied_same)
qed

interpretation tool_counter: capped_counter tool_calls "\<lambda>b. max_tool_calls (limits b)" "\<lambda>r. snd (snd r)" take_tool
proof unfold_locales
  fix r b
  note laws = reserve_take [OF take_tool_def [of r b, unfolded consume_tool_call_def Let_def], where sel = tool_calls]
  show "max_tool_calls (limits (snd (take_tool r b))) = max_tool_calls (limits b)"
    by (subst laws(1)) (simp_all add: only_denied_same)
  show "fst (take_tool r b) \<Longrightarrow> 0 < snd (snd r) \<and> tool_calls b + snd (snd r) \<le> max_tool_calls (limits b)
    \<and> tool_calls (snd (take_tool r b)) = tool_calls b + snd (snd r)"
    by (drule laws(2) [rotated 3]) (simp_all add: only_denied_same, fast?)
  show "\<not> fst (take_tool r b) \<Longrightarrow> tool_calls (snd (take_tool r b)) = tool_calls b"
    by (rule laws(3)) (simp_all add: only_denied_same)
qed

interpretation doris_counter: capped_counter doris_queries "\<lambda>b. max_doris_queries (limits b)" "\<lambda>r. snd (snd r)" take_doris
proof unfold_locales
  fix r b
  note laws = reserve_take [OF take_doris_def [of r b, unfolded consume_doris_query_def Let_def], where sel = doris_queries]
  show "max_doris_queries (limits (snd (take_doris r b))) = max_doris_queries (limits b)"
    by (subst laws(1)) (simp_all add: only_denied_same)
  show "fst (take_doris r b) \<Longrightarrow> 0 < snd (snd r) \<and> doris_queries b + snd (snd r) \<le> max_doris_queries (limits b)
    \<and> doris_queries (snd (take_doris r b)) = doris_queries b + snd (snd r)"
    by (drule laws(2) [rotated 3]) (simp_all add: only_denied_same, fast?)
  show "\<not> fst (take_doris r b) \<Longrightarrow> doris_queries (snd (take_doris r b)) = doris_queries b"
    by (rule laws(3)) (simp_all add: only_denied_same)
qed

interpretation token_counter: capped_counter estimated_tokens "\<lambda>b. max_tokens (limits b)" "\<lambda>r. snd (snd r)" take_tokens
proof unfold_locales
  fix r b
  note laws = reserve_take [OF take_tokens_def [of r b, unfolded consume_tokens_def Let_def], where sel = estimated_tokens]
  show "max_tokens (limits (snd (take_tokens r b))) = max_tokens (limits b)"
    by (subst laws(1)) (simp_all add: only_denied_same)
  show "fst (take_tokens r b) \<Longrightarrow> 0 < snd (snd r) \<and> estimated_tokens b + snd (snd r) \<le> max_tokens (limits b)
    \<and> estimated_tokens (snd (take_tokens r b)) = estimated_tokens b + snd (snd r)"
    by (drule laws(2) [rotated 3]) (simp_all add: only_denied_same, fast?)
  show "\<not> fst (take_tokens r b) \<Longrightarrow> estimated_tokens (snd (take_tokens r b)) = estimated_tokens b"
    by (rule laws(3)) (simp_all add: only_denied_same)
qed

interpretation llm_counter: capped_counter llm_calls "\<lambda>b. max_llm_calls (limits b)" "\<lambda>_. 1" take_llm
proof unfold_locales
  fix r b
  note laws = reserve_take [OF take_llm_def [of r b, unfolded consume_llm_call_def Let_def], where sel = llm_calls]
  show "max_llm_calls (limits (snd (take_llm r b))) = max_llm_calls (limits b)"
    by (subst laws(1)) (simp_all add: only_denied_same)
  show "fst (take_llm r b) \<Longrightarrow> (0::int) < 1 \<and> llm_calls b + 1 \<le> max_llm_calls (limits b)
    \<and> llm_calls (snd (take_llm r b)) = llm_calls b + 1"
    by (drule laws(2) [rotated 3]) (simp_all add: only_denied_same, fast?)
  show "\<not> fst (take_llm r b) \<Longrightarrow> llm_calls (snd (take_llm r b)) = llm_calls b"
    by (rule laws(3)) (simp_all add: only_denied_same)
qed

section \<open>Runs of calls\<close>

datatype budget_call =
    LlmCall string int
  | ActionCall string int
  | LlmTurns int string
  | ToolCall string int
  | DorisQuery string int
  | EstimatedTokens int string
  | StartStage string
  | EndStage int bool
  | Checkpoint
  | ClampTimeout "int option" int string
  | Finish int

definition forget :: "('e + 'a) \<times> 's \<Rightarrow> ('e + unit) \<times> 's" where
  "forget r = (case fst r of Inl e \<Rightarrow> Inl e | Inr _ \<Rightarrow> Inr (), snd r)"

fun perform :: "ticks \<Rightarrow> budget_call \<Rightarrow> budget \<Rightarrow> (budget_error + unit) \<times> budget" where
  "perform clk (LlmCall name turns) b = consume_llm_call clk name turns b"
| "perform clk (ActionCall name count) b = consume_action clk name count b"
| "perform clk (LlmTurns count name) b = consume_llm_turns clk count name b"
| "perform clk (ToolCall name count) b = consume_tool_call clk name count b"
| "perform clk (DorisQuery name count) b = consume_doris_query clk name count b"
| "perform clk (EstimatedTokens count name) b = consume_tokens clk count name b"
| "perform clk (StartStage name) b = forget (start_stage clk name b)"
| "perform clk (EndStage token err) b = end_stage clk token err b"
| "perform clk Checkpoint b = checkpoint clk b"
| "perform clk (ClampTimeout requested least name) b = forget (clamp_timeout clk requested least name b)"
| "perform clk (Finish wall) b = (Inr (), finish (clk 0) wall b)"

definition perform_all :: "(ticks \<times> budget_call) list \<Rightarrow> budget \<Rightarrow> budget" where
  "perform_all cs b = fold (\<lambda>(clk, c) b. snd (perform clk c b)) cs b"

lemma perform_all_invariant:
  assumes "\<And>clk c b. P b \<Longrightarrow> P (snd (perform clk c b))" and "P b"
  shows "P (perform_all cs b)"
  using assms(2) unfolding perform_all_def
proof (induction cs arbitrary: b)
  case (Cons x cs)
  show ?case using Cons.IH [of "snd (perform (fst x) (snd x) b)"] assms(1) Cons.prems
    by (simp add: split_beta)
qed simp

text \<open>Every call either leaves the counters alone, or denies, or commits one reservation.\<close>

definition commit_of :: "budget_call \<Rightarrow> budget \<Rightarrow> budget" where
  "commit_of c = (case c of
     LlmCall name turns \<Rightarrow> (\<lambda>b. b\<lparr>llm_calls := llm_calls b + 1, llm_turns := llm_turns b + turns,
       llm_calls_by_name := counter_add (counter_name name) 1 (llm_calls_by_name b),
       llm_turns_by_name := counter_add (counter_name name) turns (llm_turns_by_name b)\<rparr>)
   | ActionCall name k \<Rightarrow> (\<lambda>b. b\<lparr>actions := actions b + k,
       actions_by_name := counter_add (counter_name name) k (actions_by_name b)\<rparr>)
   | LlmTurns k name \<Rightarrow> (\<lambda>b. b\<lparr>llm_turns := llm_turns b + k,
       llm_turns_by_name := counter_add (counter_name name) k (llm_turns_by_name b)\<rparr>)
   | ToolCall name k \<Rightarrow> (\<lambda>b. b\<lparr>tool_calls := tool_calls b + k,
       tool_calls_by_name := counter_add (counter_name name) k (tool_calls_by_name b)\<rparr>)
   | DorisQuery name k \<Rightarrow> (\<lambda>b. b\<lparr>doris_queries := doris_queries b + k,
       doris_queries_by_name := counter_add (counter_name name) k (doris_queries_by_name b)\<rparr>)
   | EstimatedTokens k name \<Rightarrow> (\<lambda>b. b\<lparr>estimated_tokens := estimated_tokens b + k,
       estimated_tokens_by_name := counter_add (counter_name name) k (estimated_tokens_by_name b)\<rparr>)
   | _ \<Rightarrow> (\<lambda>b. b))"

definition capacity_ok :: "budget_call \<Rightarrow> budget \<Rightarrow> bool" where
  "capacity_ok c b = (case c of
     LlmCall name turns \<Rightarrow> 0 < turns \<and> llm_calls b + 1 \<le> max_llm_calls (limits b)
   | ActionCall name k \<Rightarrow> 0 < k \<and> actions b + k \<le> max_actions (limits b)
   | LlmTurns k name \<Rightarrow> 0 < k
   | ToolCall name k \<Rightarrow> 0 < k \<and> tool_calls b + k \<le> max_tool_calls (limits b)
   | DorisQuery name k \<Rightarrow> 0 < k \<and> doris_queries b + k \<le> max_doris_queries (limits b)
   | EstimatedTokens k name \<Rightarrow> 0 < k \<and> estimated_tokens b + k \<le> max_tokens (limits b)
   | _ \<Rightarrow> True)"

definition consuming :: "budget_call \<Rightarrow> bool" where
  "consuming c = (case c of LlmCall _ _ \<Rightarrow> True | ActionCall _ _ \<Rightarrow> True | LlmTurns _ _ \<Rightarrow> True
     | ToolCall _ _ \<Rightarrow> True | DorisQuery _ _ \<Rightarrow> True | EstimatedTokens _ _ \<Rightarrow> True | _ \<Rightarrow> False)"

lemma perform_consuming:
  assumes "consuming c"
  shows "\<exists>name k bs opn. perform clk c b = reserve clk k name bs opn (commit_of c) b
    \<and> (0 < k \<and> bs = [] \<longleftrightarrow> capacity_ok c b)"
proof (cases c)
  case (LlmCall name turns)
  show ?thesis unfolding LlmCall perform.simps consume_llm_call_def Let_def commit_of_def budget_call.case
    by (intro exI conjI, rule refl) (simp add: capacity_ok_def)
next
  case (ActionCall name k)
  show ?thesis unfolding ActionCall perform.simps consume_action_def Let_def commit_of_def budget_call.case
    by (intro exI conjI, rule refl) (simp add: capacity_ok_def)
next
  case (LlmTurns k name)
  show ?thesis unfolding LlmTurns perform.simps consume_llm_turns_def Let_def commit_of_def budget_call.case
    by (intro exI conjI, rule refl) (simp add: capacity_ok_def)
next
  case (ToolCall name k)
  show ?thesis unfolding ToolCall perform.simps consume_tool_call_def Let_def commit_of_def budget_call.case
    by (intro exI conjI, rule refl) (simp add: capacity_ok_def)
next
  case (DorisQuery name k)
  show ?thesis unfolding DorisQuery perform.simps consume_doris_query_def Let_def commit_of_def budget_call.case
    by (intro exI conjI, rule refl) (simp add: capacity_ok_def)
next
  case (EstimatedTokens k name)
  show ?thesis unfolding EstimatedTokens perform.simps consume_tokens_def Let_def commit_of_def budget_call.case
    by (intro exI conjI, rule refl) (simp add: capacity_ok_def)
qed (use assms in \<open>simp_all add: consuming_def\<close>)

text \<open>The outcome of a consuming call, in the three ways it can end.\<close>

lemma consuming_cases:
  assumes "consuming c"
  obtains (granted) "perform clk c b = (Inr (), commit_of c b)" and "capacity_ok c b"
      and "elapsed (clk 0) b < max_duration (limits b)"
  | (bad_count) f b' where "perform clk c b = (Inl (CountNotPositive f), b)" and "\<not> capacity_ok c b"
  | (denied) ks b' where "perform clk c b = (Inl (BudgetExceeded ks), b')" and "ks \<noteq> []" and "only_denied b b'"
      and "\<not> (capacity_ok c b \<and> elapsed (clk 0) b < max_duration (limits b))"
proof -
  obtain name k bs opn where p: "perform clk c b = reserve clk k name bs opn (commit_of c) b"
    and ok: "0 < k \<and> bs = [] \<longleftrightarrow> capacity_ok c b"
    using perform_consuming [OF assms] by blast
  show ?thesis
  proof (cases "reserve clk k name bs opn (commit_of c) b")
    case (Pair v b')
    show ?thesis
    proof (cases v)
      case (Inr u)
      with reserve_granted [of clk k name bs opn "commit_of c" b u b'] Pair p ok granted show ?thesis
        by auto
    next
      case (Inl e)
      note no = reserve_granted_iff [of clk k name bs opn "commit_of c" b]
      from Inl reserve_denied [of clk k name bs opn "commit_of c" b e b'] Pair p ok bad_count denied no
      show ?thesis by fastforce
    qed
  qed
qed

section \<open>Limits and books\<close>

definition within_limits :: "budget \<Rightarrow> bool" where
  "within_limits b \<longleftrightarrow> (0 \<le> actions b \<and> actions b \<le> max_actions (limits b))
     \<and> (0 \<le> llm_calls b \<and> llm_calls b \<le> max_llm_calls (limits b))
     \<and> (0 \<le> tool_calls b \<and> tool_calls b \<le> max_tool_calls (limits b))
     \<and> (0 \<le> doris_queries b \<and> doris_queries b \<le> max_doris_queries (limits b))
     \<and> (0 \<le> estimated_tokens b \<and> estimated_tokens b \<le> max_tokens (limits b))
     \<and> llm_calls b \<le> llm_turns b"

definition total :: "counter \<Rightarrow> int" where
  "total c = sum_list (map snd c)"

definition totals_match :: "budget \<Rightarrow> bool" where
  "totals_match b \<longleftrightarrow> total (actions_by_name b) = actions b \<and> total (llm_calls_by_name b) = llm_calls b
     \<and> total (llm_turns_by_name b) = llm_turns b \<and> total (tool_calls_by_name b) = tool_calls b
     \<and> total (doris_queries_by_name b) = doris_queries b
     \<and> total (estimated_tokens_by_name b) = estimated_tokens b"

lemma total_add: "total (counter_add n k c) = total c + k"
  unfolding counter_add_def total_def dict_get_def by (induction c) auto

lemma commit_totals: "totals_match b \<Longrightarrow> totals_match (commit_of c b)"
  by (cases c) (simp_all add: totals_match_def commit_of_def total_add)

lemma commit_limits: "limits (commit_of c b) = limits b"
  by (cases c) (simp_all add: commit_of_def)

lemma commit_within: "within_limits b \<Longrightarrow> capacity_ok c b \<Longrightarrow> within_limits (commit_of c b)"
  by (cases c) (simp_all add: within_limits_def commit_of_def capacity_ok_def)

definition stages_of :: "budget \<Rightarrow> int \<times> (int, active_stage) dict \<times> (string, stage_aggregate) dict" where
  "stages_of b = (stage_sequence b, active_stages b, stage_aggregates b)"

lemma commit_stages: "stages_of (commit_of c b) = stages_of b \<and> denied_attempts (commit_of c b) = denied_attempts b"
  by (cases c) (simp_all add: commit_of_def stages_of_def)

text \<open>The calls that consume nothing leave every counter as it is.\<close>

definition counters_of where
  "counters_of b = (limits b, (actions b, llm_calls b, llm_turns b, tool_calls b, doris_queries b,
     estimated_tokens b), (actions_by_name b, llm_calls_by_name b, llm_turns_by_name b,
     tool_calls_by_name b, doris_queries_by_name b, estimated_tokens_by_name b))"

lemma counters_of_eqD:
  assumes "counters_of b' = counters_of b"
  shows "limits b' = limits b" "within_limits b' = within_limits b" "totals_match b' = totals_match b"
  using assms by (simp_all add: counters_of_def within_limits_def totals_match_def)

lemma only_denied_counters: "only_denied b b' \<Longrightarrow> counters_of b' = counters_of b \<and> stages_of b' = stages_of b"
  by (simp add: counters_of_def stages_of_def only_denied_same)

lemma raise_cases:
  obtains (passed) "raise_for_breaches now bs opn b = (Inr (), b)" and "bs = []"
  | (raised) ks b' where "raise_for_breaches now bs opn b = (Inl (BudgetExceeded ks), b')" and "bs \<noteq> []"
      and "only_denied b b'" and "set ks = set bs"
proof (cases "bs = []")
  case True
  with passed show ?thesis by (simp add: raise_for_breaches_cases)
next
  case False
  show ?thesis
    by (rule raised [of "fromkeys bs", OF _ False only_denied_update]) (simp_all add: raise_for_breaches_cases False)
qed

lemma raise_counters:
  "counters_of (snd (raise_for_breaches now bs opn b)) = counters_of b
   \<and> stages_of (snd (raise_for_breaches now bs opn b)) = stages_of b"
  by (cases "bs = []") (simp_all add: raise_for_breaches_cases counters_of_def stages_of_def)

lemma clamp_eq:
  "clamp_timeout clk req least opn b =
     (let left = max_duration (limits b) - elapsed (clk 0) b
      in if left \<le> 0 \<or> left < least
         then (Inl (BudgetExceeded [''duration'']),
           snd (raise_for_breaches (clk 1) [''duration''] opn b))
         else (Inr (case req of None \<Rightarrow> left
           | Some r \<Rightarrow> if r \<le> 0 then left else min (max r (max 0 least)) left), b))"
  by (cases req) (auto simp: clamp_timeout_def Let_def raise_for_breaches_cases max_def)

lemma clamp_counters:
  "counters_of (snd (clamp_timeout clk req least opn b)) = counters_of b
   \<and> stages_of (snd (clamp_timeout clk req least opn b)) = stages_of b"
  by (simp add: clamp_eq Let_def raise_counters)

lemma start_stage_counters: "counters_of (snd (start_stage clk name b)) = counters_of b"
  by (cases rule: raise_cases [of "clk 1" "duration_breaches (clk 0) b" "''stage:'' @ counter_name name" b])
    (auto simp: start_stage_def Let_def counters_of_def dest: only_denied_same)

lemma end_stage_counters: "counters_of (snd (end_stage clk token err b)) = counters_of b"
  by (cases "map_of (active_stages b) token") (simp_all add: end_stage_def Let_def counters_of_def)

lemma finish_counters: "counters_of (finish now wall b) = counters_of b \<and> stages_of (finish now wall b) = stages_of b"
  by (cases "finished b") (simp_all add: finish_def counters_of_def stages_of_def)

lemma snd_forget [simp]: "snd (forget r) = snd r"
  by (simp add: forget_def)

lemma other_counters: "\<not> consuming c \<Longrightarrow> counters_of (snd (perform clk c b)) = counters_of b"
  by (cases c) (simp_all add: consuming_def start_stage_counters end_stage_counters clamp_counters
      finish_counters checkpoint_def raise_counters)

lemma perform_limits: "limits (snd (perform clk c b)) = limits b"
proof (cases "consuming c")
  case True
  then show ?thesis
    by (cases rule: consuming_cases [of c clk b]) (simp_all add: commit_limits only_denied_same)
next
  case False
  then show ?thesis using counters_of_eqD(1) other_counters by blast
qed

lemma perform_within: "within_limits b \<Longrightarrow> within_limits (snd (perform clk c b))"
proof (cases "consuming c")
  case True
  assume "within_limits b"
  with True show ?thesis
    by (cases rule: consuming_cases [of c clk b])
      (auto simp: commit_within dest!: only_denied_counters counters_of_eqD(2))
next
  case False
  then show "within_limits b \<Longrightarrow> ?thesis" using counters_of_eqD(2) other_counters by blast
qed

lemma perform_totals: "totals_match b \<Longrightarrow> totals_match (snd (perform clk c b))"
proof (cases "consuming c")
  case True
  assume "totals_match b"
  with True show ?thesis
    by (cases rule: consuming_cases [of c clk b])
      (auto simp: commit_totals dest!: only_denied_counters counters_of_eqD(3))
next
  case False
  then show "totals_match b \<Longrightarrow> ?thesis" using counters_of_eqD(3) other_counters by blast
qed

section \<open>Stages\<close>

definition running :: "string \<Rightarrow> (int, active_stage) dict \<Rightarrow> int" where
  "running n d = int (length (filter (\<lambda>a. as_name a = n) (map snd d)))"

definition aggregate_ok :: "stage_aggregate \<Rightarrow> int \<Rightarrow> bool" where
  "aggregate_ok g k \<longleftrightarrow> sa_calls g = sa_completed g + k \<and> sa_completed g = sa_successes g + sa_errors g
     \<and> 0 \<le> sa_successes g \<and> 0 \<le> sa_errors g
     \<and> 0 \<le> sa_last g \<and> sa_last g \<le> sa_max g \<and> sa_max g \<le> sa_duration g"

definition stages_ok :: "budget \<Rightarrow> bool" where
  "stages_ok b \<longleftrightarrow> dict_ok (active_stages b)
     \<and> (\<forall>t\<in>fst ` set (active_stages b). 1 \<le> t \<and> t \<le> stage_sequence b) \<and> 0 \<le> stage_sequence b
     \<and> (\<forall>n. aggregate_ok (dict_get (stage_aggregates b) n no_calls) (running n (active_stages b)))"

lemma running_update:
  "t \<notin> fst ` set d \<Longrightarrow> running n (AList.update t a d) = running n d + (if as_name a = n then 1 else 0)"
  unfolding running_def by (induction d) auto

lemma running_delete:
  "dict_ok d \<Longrightarrow> map_of d t = Some a
    \<Longrightarrow> running n (AList.delete t d) = running n d - (if as_name a = n then 1 else 0)"
proof (induction d)
  case (Cons x d)
  obtain k v where x: "x = (k, v)" by fastforce
  show ?case
  proof (cases "k = t")
    case True
    with Cons.prems x have "t \<notin> fst ` set d" by (auto simp: dict_ok_def)
    then have "AList.delete t d = d" by (simp add: delete_id)
    with True Cons.prems x show ?thesis by (auto simp: running_def AList.delete_eq filter_True)
  next
    case False
    with Cons show ?thesis by (auto simp: x running_def dict_ok_def AList.delete_eq)
  qed
qed simp

lemma dict_get_update: "dict_get (AList.update k v d) n w = (if n = k then v else dict_get d n w)"
  by (simp add: dict_get_def)

lemma dict_ok_delete: "dict_ok d \<Longrightarrow> dict_ok (AList.delete k d)"
  by (simp add: dict_ok_def distinct_delete)

lemma aggregate_ok_called: "aggregate_ok g k \<Longrightarrow> aggregate_ok (g\<lparr>sa_calls := sa_calls g + 1\<rparr>) (k + 1)"
  by (simp add: aggregate_ok_def)

lemma stages_ok_cong: "stages_of b' = stages_of b \<Longrightarrow> stages_ok b' = stages_ok b"
  by (simp add: stages_of_def stages_ok_def)

lemma start_stage_cases:
  obtains (denied) ks where "start_stage clk name b = (Inl (BudgetExceeded ks), snd (start_stage clk name b))"
      and "stages_of (snd (start_stage clk name b)) = stages_of b"
  | (started) "start_stage clk name b = (Inr (stage_sequence b + 1), b\<lparr>stage_sequence := stage_sequence b + 1,
        active_stages := AList.update (stage_sequence b + 1)
          \<lparr>as_name = counter_name name, as_started = clk 1\<rparr> (active_stages b),
        stage_aggregates := AList.update (counter_name name)
          ((dict_get (stage_aggregates b) (counter_name name) no_calls)
            \<lparr>sa_calls := sa_calls (dict_get (stage_aggregates b) (counter_name name) no_calls) + 1\<rparr>)
          (stage_aggregates b)\<rparr>)"
proof (cases "duration_breaches (clk 0) b = []")
  case True
  with started show ?thesis by (simp add: start_stage_def Let_def raise_for_breaches_cases)
next
  case False
  with denied show ?thesis by (simp add: start_stage_def Let_def raise_for_breaches_cases stages_of_def)
qed

lemma start_stage_ok:
  assumes "stages_ok b"
  shows "stages_ok (snd (start_stage clk name b))"
proof (cases rule: start_stage_cases [of clk name b])
  case (denied ks)
  then show ?thesis using assms stages_ok_cong by blast
next
  case started
  have "stage_sequence b + 1 \<notin> fst ` set (active_stages b)" using assms by (force simp: stages_ok_def)
  note r = running_update [OF this]
  show ?thesis
    unfolding started snd_conv using assms
    by (auto simp: stages_ok_def r dict_get_update aggregate_ok_called dom_update)
qed

lemma aggregate_ok_completed:
  assumes "aggregate_ok g k" and "0 \<le> d"
  shows "aggregate_ok (g\<lparr>sa_completed := sa_completed g + 1, sa_errors := sa_errors g + (if err then 1 else 0),
    sa_successes := sa_successes g + (if err then 0 else 1), sa_duration := sa_duration g + d,
    sa_max := max (sa_max g) d, sa_last := d\<rparr>) (k - 1)"
  using assms by (auto simp: aggregate_ok_def)

lemma end_stage_ok:
  assumes "stages_ok b"
  shows "stages_ok (snd (end_stage clk token err b))"
proof (cases "map_of (active_stages b) token")
  case None
  then show ?thesis using assms by (simp add: end_stage_def)
next
  case (Some a)
  note r = running_delete [OF _ Some]
  have "set (AList.delete token (active_stages b)) \<subseteq> set (active_stages b)" by (auto simp: AList.delete_eq)
  then show ?thesis
    using assms by (auto simp: end_stage_def Some stages_ok_def Let_def r dict_get_update
        aggregate_ok_completed [where err = True, simplified] aggregate_ok_completed [where err = False, simplified]
        dict_ok_delete)
qed

lemma perform_stages: "stages_ok b \<Longrightarrow> stages_ok (snd (perform clk c b))"
proof (cases "consuming c")
  case True
  assume "stages_ok b"
  with True show ?thesis
    by (cases rule: consuming_cases [of c clk b])
      (auto dest!: only_denied_counters stages_ok_cong simp: commit_stages [THEN conjunct1, THEN stages_ok_cong])
next
  case False
  assume "stages_ok b"
  with False show ?thesis
    by (cases c) (simp_all add: consuming_def start_stage_ok end_stage_ok checkpoint_def
        raise_counters [THEN conjunct2, THEN stages_ok_cong] clamp_counters [THEN conjunct2, THEN stages_ok_cong]
        finish_counters [THEN conjunct2, THEN stages_ok_cong])
qed

section \<open>What the budget promises\<close>

lemma perform_denied_bound:
  "length (denied_attempts b) \<le> 32 \<Longrightarrow> length (denied_attempts (snd (perform clk c b))) \<le> 32"
proof (cases "consuming c")
  case True
  assume "length (denied_attempts b) \<le> 32"
  with True show ?thesis
    by (cases rule: consuming_cases [of c clk b]) (simp_all add: commit_stages only_denied_def)
next
  case False
  have r: "length (denied_attempts (snd (raise_for_breaches now bs opn b))) \<le> 32"
    if "length (denied_attempts b) \<le> 32" for now bs opn
    using that by (simp add: raise_for_breaches_cases)
  have s: "length (denied_attempts (snd (start_stage clk name b))) \<le> 32"
    if "length (denied_attempts b) \<le> 32" for name
    using that by (simp add: start_stage_def Let_def raise_for_breaches_cases)
  have e: "denied_attempts (snd (end_stage clk token err b)) = denied_attempts b" for token err
    by (cases "map_of (active_stages b) token") (simp_all add: end_stage_def Let_def)
  have f: "denied_attempts (finish now wall b) = denied_attempts b" for now wall
    by (cases "finished b") (simp_all add: finish_def)
  assume "length (denied_attempts b) \<le> 32"
  with False r s e f show ?thesis
    by (cases c) (simp_all add: consuming_def checkpoint_def clamp_eq Let_def)
qed

lemma new_budget_counters:
  "totals_match (new_budget l now wall)" "stages_ok (new_budget l now wall)"
  "denied_attempts (new_budget l now wall) = []" "limits (new_budget l now wall) = l"
  by (simp_all add: new_budget_def totals_match_def total_def stages_ok_def running_def aggregate_ok_def
      no_calls_def dict_get_def)

lemma new_budget_within: "within_limits (new_budget (limits_from_settings s fast) now wall)"
  by (simp add: new_budget_def within_limits_def limits_from_settings_def le_max_iff_disj)

text \<open>A fast budget with two tool calls, for the examples.\<close>

definition sample_budget :: budget where
  "sample_budget = new_budget (limits_from_settings
     \<lparr>set_fast_duration = None, set_max_duration = None, set_max_actions = None, set_max_llm_calls = None,
       set_max_tool_calls = Some 2, set_max_doris_queries = None, set_max_tokens = None\<rparr> True) 0 0"

lemma sample_budget_simps:
  "tool_calls sample_budget = 0" "max_tool_calls (limits sample_budget) = 2"
  "max_duration (limits sample_budget) = 25000000" "0 \<le> t \<Longrightarrow> elapsed t sample_budget = t"
  "active_stages sample_budget = []" "stages_ok sample_budget"
  by (simp_all add: sample_budget_def new_budget_counters)
    (simp_all add: new_budget_def limits_from_settings_def setting_or_def elapsed_def)

text \<open>
  C14: a budget made from the settings, whatever they are, is never exceeded: after any sequence of
  calls, of any number of workers and at any times, each of the five counters lies between zero and
  its limit, there are at least as many turns as calls of the model, and the limits are those of the
  settings.
\<close>

theorem run_budget_never_exceeded:
  "within_limits (perform_all cs (new_budget (limits_from_settings s fast) now wall))
   \<and> limits (perform_all cs (new_budget (limits_from_settings s fast) now wall)) = limits_from_settings s fast"
  using perform_all_invariant [of within_limits, OF perform_within new_budget_within]
    perform_all_invariant [of "\<lambda>b. limits b = limits_from_settings s fast"]
  by (simp add: perform_limits new_budget_counters)

text \<open>
  C25: the books of a budget balance after any sequence of calls: the counts by name add up to the
  totals; for every stage name the calls are the completed and the running ones, the completed are the
  successes and the errors, and no duration is negative or above the total; every running stage has a
  token the budget gave out, and at most 32 denied attempts are kept.
\<close>

theorem run_budget_books_balance:
  "totals_match (perform_all cs (new_budget l now wall))
   \<and> stages_ok (perform_all cs (new_budget l now wall))
   \<and> length (denied_attempts (perform_all cs (new_budget l now wall))) \<le> 32"
proof (intro conjI)
  show "totals_match (perform_all cs (new_budget l now wall))"
    by (rule perform_all_invariant [where P = totals_match]) (rule perform_totals new_budget_counters, assumption?)+
  show "stages_ok (perform_all cs (new_budget l now wall))"
    by (rule perform_all_invariant [where P = stages_ok]) (rule perform_stages new_budget_counters, assumption?)+
  show "length (denied_attempts (perform_all cs (new_budget l now wall))) \<le> 32"
    by (rule perform_all_invariant [where P = "\<lambda>b. length (denied_attempts b) \<le> 32"])
      (simp_all add: perform_denied_bound new_budget_counters)
qed

text \<open>
  C33: a reservation (a call of the model or its turns, an action, a tool call, a query, tokens) is
  granted exactly when its count is positive, it fits the limit and the deadline has not passed; then
  the counters move by exactly the amount asked, in total and under the normalised name.
\<close>

theorem reservation_granted_iff:
  assumes "consuming c"
  shows "(fst (perform clk c b) = Inr ()
       \<longleftrightarrow> capacity_ok c b \<and> elapsed (clk 0) b < max_duration (limits b))
    \<and> (fst (perform clk c b) = Inr () \<longrightarrow> snd (perform clk c b) = commit_of c b)"
  using assms by (cases rule: consuming_cases [of c clk b]) auto

theorem reservation_granted_iff_witness:
  "fst (perform (\<lambda>_. 5) (ToolCall ''read'' 2) sample_budget) = Inr ()
   \<and> fst (perform (\<lambda>_. 5) (ToolCall ''read'' 3) sample_budget) \<noteq> Inr ()
   \<and> fst (perform (\<lambda>_. 25000000) (ToolCall ''read'' 2) sample_budget) \<noteq> Inr ()"
proof -
  have c: "consuming (ToolCall n k)" for n k by (simp add: consuming_def)
  note t = reservation_granted_iff [OF c, THEN conjunct1] sample_budget_simps
  have "fst (perform (\<lambda>_. 5) (ToolCall ''read'' 2) sample_budget) = Inr ()"
    unfolding t(1) by (simp add: capacity_ok_def t)
  moreover have "fst (perform (\<lambda>_. 5) (ToolCall ''read'' 3) sample_budget) \<noteq> Inr ()"
    unfolding t(1) by (simp add: capacity_ok_def t)
  moreover have "fst (perform (\<lambda>_. 25000000) (ToolCall ''read'' 2) sample_budget) \<noteq> Inr ()"
    unfolding t(1) by (simp add: capacity_ok_def t)
  ultimately show ?thesis by blast
qed

text \<open>
  A call that raises changes no counter, no stage and not the deadline: an exceeded budget only
  adds a denied attempt, of which the last 32 are kept, and names at least one limit; the other errors
  change nothing.
\<close>

theorem raising_call_keeps_budget:
  assumes "perform clk c b = (Inl e, b')"
  shows "b'\<lparr>denied_attempts := denied_attempts b\<rparr> = b
    \<and> (case e of BudgetExceeded ks \<Rightarrow> ks \<noteq> [] \<and> only_denied b b' | _ \<Rightarrow> b' = b)"
proof -
  have same: "b'\<lparr>denied_attempts := denied_attempts b\<rparr> = b" if "only_denied b b'" for b'
    using that by (simp add: only_denied_def)
  have r: "e = BudgetExceeded (fromkeys bs) \<and> bs \<noteq> [] \<and> only_denied b b'"
    if "raise_for_breaches now bs opn b = (Inl e, b')" for now bs opn e b'
    using that only_denied_update [of b] by (auto simp: raise_for_breaches_cases split: if_splits)
  show ?thesis
  proof (cases "consuming c")
    case True
    then show ?thesis using assms same by (cases rule: consuming_cases [of c clk b]) auto
  next
    case False
    show ?thesis
    proof (cases c)
      case (StartStage name)
      then have "raise_for_breaches (clk 1) (duration_breaches (clk 0) b) (''stage:'' @ counter_name name) b = (Inl e, b')"
        using assms by (auto simp: start_stage_def Let_def forget_def split: prod.splits sum.splits)
      from r [OF this] show ?thesis using same by (auto simp: fromkeys_Nil_iff)
    next
      case (EndStage token err)
      then show ?thesis using assms by (auto simp: end_stage_def Let_def split: option.splits)
    next
      case Checkpoint
      with assms r show ?thesis using same by (fastforce simp: checkpoint_def fromkeys_Nil_iff)
    next
      case (ClampTimeout req least name)
      have "e = BudgetExceeded [''duration'']" and "b' = snd (raise_for_breaches (clk 1) [''duration''] name b)"
        using assms ClampTimeout by (auto simp: clamp_eq forget_def Let_def split: if_splits)
      then show ?thesis using only_denied_update [of b] same by (simp add: raise_for_breaches_cases)
    qed (use assms False in \<open>auto simp: consuming_def\<close>)
  qed
qed

theorem raising_call_keeps_budget_witness:
  "perform (\<lambda>_. 5) (EndStage 7 False) sample_budget = (Inl (StageTokenUnknown 7), sample_budget)"
proof -
  have p: "perform (\<lambda>_. 5) (EndStage 7 False) sample_budget
      = (Inl (StageTokenUnknown 7), snd (perform (\<lambda>_. 5) (EndStage 7 False) sample_budget))"
    by (simp add: end_stage_def sample_budget_simps)
  show ?thesis using raising_call_keeps_budget [OF p] p by simp
qed

text \<open>
  The timeout the budget gives to a blocking operation is positive and at least the minimum, ends
  no later than the deadline, and is no longer than the larger of the request and the minimum when
  there is a request; nothing in the budget changes. With less than the minimum left, or nothing, the
  operation is refused.
\<close>

theorem clamped_timeout_meets_deadline:
  assumes "clamp_timeout clk req least opn b = (Inr t, b')"
  shows "b' = b \<and> 0 < t \<and> least \<le> t \<and> elapsed (clk 0) b + t \<le> max_duration (limits b)
    \<and> (case req of None \<Rightarrow> True | Some r \<Rightarrow> r \<le> 0 \<or> t \<le> max r least)"
  using assms by (auto simp: clamp_eq Let_def split: if_splits option.splits)

theorem clamped_timeout_meets_deadline_witness:
  "clamp_timeout (\<lambda>_. 24000000) (Some 3000000) 500000 ''sql'' sample_budget = (Inr 1000000, sample_budget)
   \<and> (0::int) < 1000000"
proof -
  have c: "clamp_timeout (\<lambda>_. 24000000) (Some 3000000) 500000 ''sql'' sample_budget = (Inr 1000000, sample_budget)"
    by (simp add: clamp_eq Let_def sample_budget_simps)
  from clamped_timeout_meets_deadline [OF c] c show ?thesis by simp
qed

text \<open>
  A block under a stage is well behaved when it keeps the accounting of the stages and leaves the
  running stages as it found them; what it raises does not matter.
\<close>

definition stage_neutral :: "(budget \<Rightarrow> ('e + 'a) \<times> budget) \<Rightarrow> bool" where
  "stage_neutral f \<longleftrightarrow> (\<forall>b. stages_ok b \<longrightarrow> stages_ok (snd (f b))
     \<and> active_stages (snd (f b)) = active_stages b \<and> stage_sequence b \<le> stage_sequence (snd (f b)))"

lemma delete_update_fresh: "k \<notin> fst ` set d \<Longrightarrow> AList.delete k (AList.update k v d) = d"
  by (induction d) (auto simp: AList.delete_eq filter_True)

lemma end_stage_open:
  assumes "map_of (active_stages b) t = Some a"
  obtains b' where "end_stage clk t err b = (Inr (), b')"
    and "active_stages b' = AList.delete t (active_stages b)" and "stage_sequence b' = stage_sequence b"
  using assms that by (simp add: end_stage_def Let_def)

lemma checkpoint_stages: "stages_of (snd (checkpoint clk b)) = stages_of b"
  by (simp add: checkpoint_def raise_counters)

lemma run_stage_core:
  assumes neutral: "stage_neutral body" and ok: "stages_ok b"
    and r: "run_stage clk1 clk2 clk3 name enforce body b = (r, b')"
  shows "stages_ok b' \<and> active_stages b' = active_stages b \<and> stage_sequence b \<le> stage_sequence b'
    \<and> (\<forall>t. r \<noteq> Inl (BudgetRaised (StageTokenUnknown t)))"
proof (cases rule: start_stage_cases [of clk1 name b])
  case (denied ks)
  with r have "b' = snd (start_stage clk1 name b)" "r = Inl (BudgetRaised (BudgetExceeded ks))"
    by (auto simp: run_stage_def split: prod.splits sum.splits)
  with denied(2) start_stage_ok [OF ok, of clk1 name] show ?thesis by (auto simp: stages_of_def)
next
  case started
  define b1 where "b1 = snd (start_stage clk1 name b)"
  define t where "t = stage_sequence b + 1"
  have s1: "start_stage clk1 name b = (Inr t, b1)" by (simp add: b1_def t_def started)
  have fresh: "t \<notin> fst ` set (active_stages b)" using ok by (force simp: stages_ok_def t_def)
  obtain a where a1: "active_stages b1 = AList.update t a (active_stages b)"
    and q1: "stage_sequence b1 = stage_sequence b + 1"
    by (simp add: b1_def started t_def)
  have ok1: "stages_ok b1" unfolding b1_def by (rule start_stage_ok [OF ok])
  obtain x b2 where x: "body b1 = (x, b2)" by fastforce
  have n2: "stages_ok b2" "active_stages b2 = active_stages b1" "stage_sequence b1 \<le> stage_sequence b2"
    using neutral ok1 x unfolding stage_neutral_def by (metis snd_conv)+
  have m2: "map_of (active_stages b2) t = Some a" by (simp add: n2 a1)
  obtain b3 where e3: "end_stage clk2 t (isl x) b2 = (Inr (), b3)"
    and a3: "active_stages b3 = AList.delete t (active_stages b2)" and q3: "stage_sequence b3 = stage_sequence b2"
    by (rule end_stage_open [OF m2])
  have ok3: "stages_ok b3" using end_stage_ok [OF n2(1), of clk2 t "isl x"] e3 by simp
  have restored: "active_stages b3 = active_stages b" by (simp add: a3 n2 a1 delete_update_fresh fresh)
  obtain c b4 where c: "checkpoint clk3 b3 = (c, b4)" by fastforce
  have st4: "stages_of b4 = stages_of b3" using checkpoint_stages [of clk3 b3] c by simp
  have ok4: "stages_ok b4" using ok3 stages_ok_cong [OF st4] by simp
  have c4: "c = Inr () \<or> (\<exists>ks. c = Inl (BudgetExceeded ks))"
    using c by (auto simp: checkpoint_def raise_for_breaches_cases split: if_splits)
  have "b' = b3 \<and> (\<forall>t. r \<noteq> Inl (BudgetRaised (StageTokenUnknown t)))
    \<or> b' = b4 \<and> (\<forall>t. r \<noteq> Inl (BudgetRaised (StageTokenUnknown t)))"
    using r e3 c c4 by (cases x; cases c) (auto simp: run_stage_def leave_stage_def s1 x split: if_splits)
  then show ?thesis using ok3 ok4 restored st4 q1 q3 n2(3) by (auto simp: stages_of_def)
qed

text \<open>
  A stage is always closed: with a well-behaved body, whether it returns or raises and whatever
  the deadline does, the stage block leaves the running stages as it found them, keeps the accounting
  (so that the completed calls, with their error flag, are counted) and never trips over an unknown
  token. Stage blocks are therefore well-behaved bodies themselves, and nest.
\<close>

theorem stage_block_closes:
  assumes "stage_neutral body"
  shows "stage_neutral (run_stage clk1 clk2 clk3 name enforce body)
    \<and> (\<forall>b t. stages_ok b \<longrightarrow>
        fst (run_stage clk1 clk2 clk3 name enforce body b) \<noteq> Inl (BudgetRaised (StageTokenUnknown t)))"
  using run_stage_core [OF assms] unfolding stage_neutral_def by (metis prod.collapse)

theorem stage_block_closes_witness:
  "stage_neutral (run_stage (\<lambda>_. 1) (\<lambda>_. 2) (\<lambda>_. 3) ''plan'' True (\<lambda>b. (Inl ''boom'' :: string + nat, b)))
   \<and> active_stages (snd (run_stage (\<lambda>_. 1) (\<lambda>_. 2) (\<lambda>_. 3) ''plan'' True
        (\<lambda>b. (Inl ''boom'' :: string + nat, b)) sample_budget)) = []"
proof -
  have "stage_neutral (\<lambda>b. (Inl ''boom'' :: string + nat, b))" by (simp add: stage_neutral_def)
  from stage_block_closes [OF this, of "\<lambda>_. 1" "\<lambda>_. 2" "\<lambda>_. 3" "''plan''" True]
  have n: "stage_neutral (run_stage (\<lambda>_. 1) (\<lambda>_. 2) (\<lambda>_. 3) ''plan'' True (\<lambda>b. (Inl ''boom'' :: string + nat, b)))"
    by blast
  then show ?thesis unfolding stage_neutral_def by (simp add: sample_budget_simps)
qed

end
