(* ===== verification/Branch_Budget.thy ===== *)
theory Branch_Budget
  imports Budget_Laws
begin

text \<open>
  The budget of one query branch and its ledger of semantic reads
  (\<^verbatim>\<open>grounded_query_branches.py\<close>): a local lease, charged together with the run budget it may
  have as a parent. The state of an operation is the pair of the branch's budget and the parent.

  The source checks a local limit under its lock, releases the lock, charges the parent, and takes
  the lock again to count. The operations below are the whole methods; the two halves are also given
  on their own, for the interleavings of several workers.
\<close>

section \<open>State\<close>

record branch_limits =
  bl_semantic_reads :: int
  bl_semantic_chars :: int
  bl_contract_attempts :: int
  bl_doris_queries :: int
  bl_duration :: int
  bl_reserve :: int

record branch_settings =
  bs_semantic_reads :: "int option"
  bs_semantic_chars :: "int option"
  bs_contract_attempts :: "int option"
  bs_doris_queries :: "int option"
  bs_duration :: "int option"
  bs_reserve :: "int option"

definition branch_limits_from_settings :: "branch_settings \<Rightarrow> branch_limits" where
  "branch_limits_from_settings s = \<lparr>
     bl_semantic_reads = max 1 (setting_or (bs_semantic_reads s) 16),
     bl_semantic_chars = max 1000 (setting_or (bs_semantic_chars s) 200000),
     bl_contract_attempts = max 1 (setting_or (bs_contract_attempts s) 3),
     bl_doris_queries = max 1 (setting_or (bs_doris_queries s) 2),
     bl_duration = max 1000000 (setting_or (bs_duration s) 50000000),
     bl_reserve = max 0 (setting_or (bs_reserve s) 15000000)\<rparr>"

datatype branch_code =
    BRANCH_DURATION_EXHAUSTED
  | FINALIZATION_RESERVE_REACHED
  | BRANCH_SEMANTIC_READ_LIMIT
  | BRANCH_SEMANTIC_CHAR_LIMIT
  | BRANCH_CONTRACT_ATTEMPT_LIMIT
  | BRANCH_DORIS_QUERY_LIMIT

record branch_denial =
  bd_code :: branch_code
  bd_operation :: string
  bd_elapsed :: int

record branch_budget =
  branch_id :: string
  blimits :: branch_limits
  wall_started :: "int option"
  active_duration :: int
  active_depth :: nat
  active_started :: int
  semantic_reads :: int
  semantic_chars :: int
  contract_attempts :: int
  branch_queries :: int
  stage_calls :: "(string, int) dict"
  stage_durations :: "(string, int) dict"
  branch_denials :: "branch_denial list"

type_synonym branch_state = "branch_budget \<times> budget option"

datatype branch_error = BranchExceeded branch_code | RunExceeded budget_error

definition new_branch_budget :: "string \<Rightarrow> branch_limits \<Rightarrow> branch_budget" where
  "new_branch_budget bid l = \<lparr>branch_id = (if bid = [] then ''branch'' else bid), blimits = l,
     wall_started = None, active_duration = 0, active_depth = 0, active_started = 0,
     semantic_reads = 0, semantic_chars = 0, contract_attempts = 0, branch_queries = 0,
     stage_calls = [], stage_durations = [], branch_denials = []\<rparr>"

section \<open>Time and denial\<close>

definition branch_elapsed :: "int \<Rightarrow> branch_budget \<Rightarrow> int" where
  "branch_elapsed now b = max 0 (active_duration b
     + (if 0 < active_depth b then max 0 (now - active_started b) else 0))"

definition branch_wall_elapsed :: "int \<Rightarrow> branch_budget \<Rightarrow> int" where
  "branch_wall_elapsed now b = (case wall_started b of None \<Rightarrow> 0 | Some t \<Rightarrow> max 0 (now - t))"

definition start_wall_clock :: "int \<Rightarrow> branch_budget \<Rightarrow> branch_budget" where
  "start_wall_clock now b = (case wall_started b of None \<Rightarrow> b\<lparr>wall_started := Some now\<rparr> | Some _ \<Rightarrow> b)"

definition branch_deny ::
  "int \<Rightarrow> branch_code \<Rightarrow> string \<Rightarrow> branch_budget \<Rightarrow> (branch_error + unit) \<times> branch_budget" where
  "branch_deny now c operation b = (Inl (BranchExceeded c), b\<lparr>branch_denials := take_last 16
     (branch_denials b @ [\<lparr>bd_code = c, bd_operation = operation, bd_elapsed = branch_elapsed now b\<rparr>])\<rparr>)"

text \<open>
  The clocks of one operation: \<open>clk\<close> is the branch's (its readings in order: the start of the wall
  clock, the check, the denial), \<open>pclk\<close> the parent's reading for its remaining time, \<open>cclk\<close> the
  parent's readings while it is charged.
\<close>

definition check_time ::
  "ticks \<Rightarrow> int \<Rightarrow> string \<Rightarrow> branch_state \<Rightarrow> (branch_error + unit) \<times> branch_budget" where
  "check_time clk pclk operation s =
     (let b = start_wall_clock (clk 0) (fst s)
      in if bl_duration (blimits b) \<le> branch_elapsed (clk 1) b
         then branch_deny (clk 2) BRANCH_DURATION_EXHAUSTED operation b
         else (case snd s of
           None \<Rightarrow> (Inr (), b)
         | Some p \<Rightarrow>
             if remaining_time pclk p \<le> bl_reserve (blimits b)
             then branch_deny (clk 2) FINALIZATION_RESERVE_REACHED operation b
             else (Inr (), b)))"

text \<open>The local limit check, under the lock.\<close>

definition admit ::
  "int \<Rightarrow> branch_code option \<Rightarrow> string \<Rightarrow> branch_budget \<Rightarrow> (branch_error + unit) \<times> branch_budget" where
  "admit now verdict operation b =
     (case verdict of None \<Rightarrow> (Inr (), b) | Some c \<Rightarrow> branch_deny now c operation b)"

text \<open>Charging the parent, when there is one.\<close>

definition charge_parent ::
  "(budget \<Rightarrow> (budget_error + unit) \<times> budget) \<Rightarrow> budget option \<Rightarrow> (branch_error + unit) \<times> budget option" where
  "charge_parent consume p = (case p of
     None \<Rightarrow> (Inr (), None)
   | Some pb \<Rightarrow> (case consume pb of
       (Inl e, pb') \<Rightarrow> (Inl (RunExceeded e), Some pb')
     | (Inr _, pb') \<Rightarrow> (Inr (), Some pb')))"

text \<open>
  The three consume methods: the time, the local limit, the parent, the count. \<open>verdict\<close> is the code
  the local limit denies with.
\<close>

definition branch_consume ::
  "ticks \<Rightarrow> int \<Rightarrow> string \<Rightarrow> (branch_budget \<Rightarrow> branch_code option)
    \<Rightarrow> (branch_budget \<Rightarrow> budget \<Rightarrow> (budget_error + unit) \<times> budget) \<Rightarrow> (branch_budget \<Rightarrow> branch_budget)
    \<Rightarrow> branch_state \<Rightarrow> (branch_error + unit) \<times> branch_state" where
  "branch_consume clk pclk operation verdict consume count s =
     (case check_time clk pclk operation s of
        (Inl e, b1) \<Rightarrow> (Inl e, (b1, snd s))
      | (Inr _, b1) \<Rightarrow> (case admit (clk 2) (verdict b1) operation b1 of
          (Inl e, b2) \<Rightarrow> (Inl e, (b2, snd s))
        | (Inr _, b2) \<Rightarrow> (case charge_parent (consume b2) (snd s) of
            (Inl e, p) \<Rightarrow> (Inl e, (b2, p))
          | (Inr _, p) \<Rightarrow> (Inr (), (count b2, p)))))"

definition semantic_read_verdict :: "int \<Rightarrow> branch_budget \<Rightarrow> branch_code option" where
  "semantic_read_verdict chars b =
     (if bl_semantic_reads (blimits b) < semantic_reads b + 1 then Some BRANCH_SEMANTIC_READ_LIMIT
      else if bl_semantic_chars (blimits b) < semantic_chars b + chars then Some BRANCH_SEMANTIC_CHAR_LIMIT
      else None)"

definition consume_semantic_read ::
  "ticks \<Rightarrow> int \<Rightarrow> ticks \<Rightarrow> string \<Rightarrow> int \<Rightarrow> branch_state \<Rightarrow> (branch_error + unit) \<times> branch_state" where
  "consume_semantic_read clk pclk cclk path content_chars =
     (let chars = max 0 content_chars
      in branch_consume clk pclk (''semantic_read:'' @ path) (semantic_read_verdict chars)
        (\<lambda>b. consume_tool_call cclk (''branch.'' @ branch_id b @ ''.semantic_read'') 1)
        (\<lambda>b. b\<lparr>semantic_reads := semantic_reads b + 1, semantic_chars := semantic_chars b + chars\<rparr>))"

definition contract_verdict :: "branch_budget \<Rightarrow> branch_code option" where
  "contract_verdict b = (if bl_contract_attempts (blimits b) < contract_attempts b + 1
     then Some BRANCH_CONTRACT_ATTEMPT_LIMIT else None)"

definition consume_contract_attempt ::
  "ticks \<Rightarrow> int \<Rightarrow> branch_state \<Rightarrow> (branch_error + unit) \<times> branch_state" where
  "consume_contract_attempt clk pclk =
     branch_consume clk pclk ''contract'' contract_verdict (\<lambda>_ p. (Inr (), p))
       (\<lambda>b. b\<lparr>contract_attempts := contract_attempts b + 1\<rparr>)"

definition doris_verdict :: "branch_budget \<Rightarrow> branch_code option" where
  "doris_verdict b = (if bl_doris_queries (blimits b) < branch_queries b + 1
     then Some BRANCH_DORIS_QUERY_LIMIT else None)"

definition consume_branch_query ::
  "ticks \<Rightarrow> int \<Rightarrow> ticks \<Rightarrow> branch_state \<Rightarrow> (branch_error + unit) \<times> branch_state" where
  "consume_branch_query clk pclk cclk =
     branch_consume clk pclk ''doris'' doris_verdict
       (\<lambda>b. consume_doris_query cclk (''parallel.'' @ branch_id b) 1)
       (\<lambda>b. b\<lparr>branch_queries := branch_queries b + 1\<rparr>)"

section \<open>Stages\<close>

definition enter_branch_stage :: "int \<Rightarrow> branch_budget \<Rightarrow> branch_budget" where
  "enter_branch_stage now b =
     (let b1 = (if wall_started b = None then b\<lparr>wall_started := Some now\<rparr> else b);
          b2 = (if active_depth b1 = 0 then b1\<lparr>active_started := now\<rparr> else b1)
      in b2\<lparr>active_depth := active_depth b2 + 1\<rparr>)"

definition leave_branch_stage :: "int \<Rightarrow> int \<Rightarrow> string \<Rightarrow> branch_budget \<Rightarrow> branch_budget" where
  "leave_branch_stage started_at now name b =
     (let duration = max 0 (now - started_at);
          b1 = b\<lparr>active_depth := active_depth b - 1\<rparr>;
          b2 = (if active_depth b1 = 0
                then b1\<lparr>active_duration := active_duration b1 + max 0 (now - active_started b1),
                  active_started := 0\<rparr>
                else b1)
      in b2\<lparr>stage_calls := counter_add name 1 (stage_calls b2),
           stage_durations := counter_add name duration (stage_durations b2)\<rparr>)"

text \<open>
  \<open>with branch.stage(name): body\<close>. With a parent the body runs under the parent's stage
  \<open>branch.<id>.<name>\<close>, and the branch's own accounting is done whatever happens.
\<close>

definition branch_stage ::
  "ticks \<Rightarrow> ticks \<Rightarrow> ticks \<Rightarrow> ticks \<Rightarrow> string \<Rightarrow> (branch_state \<Rightarrow> ('e + 'a) \<times> branch_state)
    \<Rightarrow> branch_state \<Rightarrow> ('e stage_exit + 'a) \<times> branch_state" where
  "branch_stage clk clk1 clk2 clk3 name stage_body s =
     (let stage_name = (if name = [] then ''unknown'' else name);
          b = enter_branch_stage (clk 0) (fst s);
          (r, b', p') = (case snd s of
            None \<Rightarrow> (case stage_body (b, None) of (r, b1, p1) \<Rightarrow>
              (case r of Inl e \<Rightarrow> Inl (BodyRaised e) | Inr x \<Rightarrow> Inr x, b1, p1))
          | Some p \<Rightarrow> (case start_stage clk1 (''branch.'' @ branch_id b @ ''.'' @ stage_name) p of
              (Inl e, p1) \<Rightarrow> (Inl (BudgetRaised e), b, Some p1)
            | (Inr token, p1) \<Rightarrow> (case stage_body (b, Some p1) of (r, b2, p2) \<Rightarrow>
                (case p2 of
                  None \<Rightarrow> (case r of Inl e \<Rightarrow> Inl (BodyRaised e) | Inr x \<Rightarrow> Inr x, b2, None)
                | Some q \<Rightarrow> (case leave_stage clk2 clk3 True token r q of (r', q') \<Rightarrow> (r', b2, Some q'))))))
      in (r, (leave_branch_stage (clk 0) (clk 1) stage_name b', p')))"

section \<open>Report\<close>

record branch_report =
  rep_branch_id :: string
  rep_elapsed :: int
  rep_wall_elapsed :: int
  rep_limits :: branch_limits
  rep_usage :: "(string \<times> int) list"
  rep_stages :: "(string \<times> int \<times> int) list"
  rep_denied :: "branch_denial list"

definition branch_report_of :: "ticks \<Rightarrow> branch_budget \<Rightarrow> branch_report" where
  "branch_report_of clk b = \<lparr>rep_branch_id = branch_id b, rep_elapsed = branch_elapsed (clk 0) b,
     rep_wall_elapsed = branch_wall_elapsed (clk 1) b, rep_limits = blimits b,
     rep_usage = [(''semanticReads'', semantic_reads b), (''semanticChars'', semantic_chars b),
       (''contractAttempts'', contract_attempts b), (''dorisQueries'', branch_queries b)],
     rep_stages = map (\<lambda>(n, d). (n, dict_get (stage_calls b) n 0, d)) (sort_key fst (stage_durations b)),
     rep_denied = branch_denials b\<rparr>"

section \<open>The ledger of semantic reads\<close>

text \<open>
  Evidence with its reference and path as text, and whatever else it carries. The two dictionaries of
  the ledger keep the order of insertion.
\<close>

record 'a semantic_evidence =
  se_ref :: string
  se_path :: string
  se_rest :: 'a

record 'a semantic_ledger =
  evidence_by_ref_id :: "(string, 'a semantic_evidence) dict"
  ref_by_path :: "(string, string) dict"

definition lstrip_slash :: "string \<Rightarrow> string" where
  "lstrip_slash p = lstrip_of (\<lambda>c. c = CHR ''/'') p"

definition retain :: "'a semantic_evidence \<Rightarrow> 'a semantic_ledger \<Rightarrow> bool \<times> 'a semantic_ledger" where
  "retain ev l =
     (let ref_id = py_strip (se_ref ev); path = lstrip_slash (se_path ev)
      in if ref_id = [] \<or> path = [] then (False, l)
         else (map_of (evidence_by_ref_id l) ref_id = None,
           l\<lparr>evidence_by_ref_id := AList.update ref_id ev (evidence_by_ref_id l),
             ref_by_path := AList.update path ref_id (ref_by_path l)\<rparr>))"

definition has_path :: "string \<Rightarrow> 'a semantic_ledger \<Rightarrow> bool" where
  "has_path path l = (map_of (ref_by_path l) (lstrip_slash path) \<noteq> None)"

definition ledger_evidence :: "string list option \<Rightarrow> 'a semantic_ledger \<Rightarrow> 'a semantic_evidence list" where
  "ledger_evidence ref_ids l = (case ref_ids of
     None \<Rightarrow> map snd (evidence_by_ref_id l)
   | Some rs \<Rightarrow> List.map_filter (map_of (evidence_by_ref_id l)) rs)"

definition ledger_refs :: "'a semantic_ledger \<Rightarrow> string list" where
  "ledger_refs l = map fst (evidence_by_ref_id l)"

definition ledger_paths :: "'a semantic_ledger \<Rightarrow> string list" where
  "ledger_paths l = map fst (ref_by_path l)"

text \<open>Every path of the ledger leads to evidence, and references are stripped and not empty.\<close>

definition ledger_ok :: "'a semantic_ledger \<Rightarrow> bool" where
  "ledger_ok l \<longleftrightarrow> dict_ok (evidence_by_ref_id l) \<and> dict_ok (ref_by_path l)
     \<and> (\<forall>(p, r)\<in>set (ref_by_path l). p \<noteq> [] \<and> lstrip_slash p = p \<and> r \<in> set (ledger_refs l))
     \<and> (\<forall>(r, e)\<in>set (evidence_by_ref_id l). r \<noteq> [] \<and> r = py_strip (se_ref e))"

lemma lstrip_slash_idem [simp]: "lstrip_slash (lstrip_slash p) = lstrip_slash p"
  unfolding lstrip_slash_def using lstrip_of_hd lstrip_of_id by metis

lemma retain_ok:
  assumes "ledger_ok l"
  shows "ledger_ok (snd (retain ev l))"
proof (cases "py_strip (se_ref ev) = [] \<or> lstrip_slash (se_path ev) = []")
  case True
  then show ?thesis using assms by (auto simp: retain_def Let_def)
next
  case False
  have refs: "set (ledger_refs (snd (retain ev l))) = insert (py_strip (se_ref ev)) (set (ledger_refs l))"
    using False by (simp add: retain_def Let_def ledger_refs_def dom_update)
  show ?thesis
    using assms False unfolding ledger_ok_def refs
    by (simp add: retain_def Let_def) (intro conjI update_forall; auto)
qed

lemma retain_has_path:
  assumes "py_strip (se_ref ev) \<noteq> []" and "lstrip_slash (se_path ev) \<noteq> []"
  shows "has_path (se_path ev) (snd (retain ev l))
    \<and> ledger_evidence (Some [py_strip (se_ref ev)]) (snd (retain ev l)) = [ev]"
  using assms by (simp add: retain_def Let_def has_path_def ledger_evidence_def List.map_filter_def)

end
