(* ===== verification/Branch_Laws.thy ===== *)
theory Branch_Laws
  imports Branch_Budget
begin

text \<open>
  What the budget of a branch promises: a query is charged to the branch and to the run or to neither;
  one worker at a time never passes a local limit; several workers, whose checks and counts
  interleave, can.
\<close>

section \<open>The shape of a consume method\<close>

definition branch_counts :: "branch_budget \<Rightarrow> branch_limits \<times> int \<times> int \<times> int \<times> int" where
  "branch_counts b = (blimits b, semantic_reads b, semantic_chars b, contract_attempts b, branch_queries b)"

lemma start_wall_counts [simp]: "branch_counts (start_wall_clock now b) = branch_counts b"
  by (cases "wall_started b") (simp_all add: start_wall_clock_def branch_counts_def)

lemma deny_counts: "branch_deny now c opn b = (r, b') \<Longrightarrow> branch_counts b' = branch_counts b \<and> r = Inl (BranchExceeded c)"
  by (auto simp: branch_deny_def branch_counts_def)

lemma check_time_counts: "check_time clk pclk opn s = (r, b') \<Longrightarrow> branch_counts b' = branch_counts (fst s)"
  by (auto simp: check_time_def Let_def split: if_splits option.splits dest: deny_counts)

lemma admit_counts: "admit now v opn b = (r, b') \<Longrightarrow> branch_counts b' = branch_counts b"
  by (auto simp: admit_def split: option.splits dest: deny_counts)

lemma admit_granted [simp]: "admit now v opn b = (Inr u, b') \<longleftrightarrow> v = None \<and> b' = b"
  by (auto simp: admit_def branch_deny_def split: option.splits)

text \<open>The two halves of a consume method: what happens before the lock is released, and after.\<close>

definition branch_admit ::
  "ticks \<Rightarrow> int \<Rightarrow> string \<Rightarrow> (branch_budget \<Rightarrow> branch_code option) \<Rightarrow> branch_state
    \<Rightarrow> (branch_error + unit) \<times> branch_state" where
  "branch_admit clk pclk operation verdict s =
     (case check_time clk pclk operation s of
        (Inl e, b1) \<Rightarrow> (Inl e, (b1, snd s))
      | (Inr _, b1) \<Rightarrow> (case admit (clk 2) (verdict b1) operation b1 of (r, b2) \<Rightarrow> (r, (b2, snd s))))"

definition branch_commit ::
  "(branch_budget \<Rightarrow> budget \<Rightarrow> (budget_error + unit) \<times> budget) \<Rightarrow> (branch_budget \<Rightarrow> branch_budget)
    \<Rightarrow> branch_state \<Rightarrow> (branch_error + unit) \<times> branch_state" where
  "branch_commit consume count s =
     (case charge_parent (consume (fst s)) (snd s) of
        (Inl e, p) \<Rightarrow> (Inl e, (fst s, p))
      | (Inr _, p) \<Rightarrow> (Inr (), (count (fst s), p)))"

lemma branch_consume_halves:
  "branch_consume clk pclk opn verdict consume count s =
     (case branch_admit clk pclk opn verdict s of
        (Inl e, s') \<Rightarrow> (Inl e, s') | (Inr _, s') \<Rightarrow> branch_commit consume count s')"
  by (auto simp: branch_consume_def branch_admit_def branch_commit_def split: prod.splits sum.splits)

lemma branch_admit_counts:
  assumes "branch_admit clk pclk opn verdict s = (r, s')"
  shows "branch_counts (fst s') = branch_counts (fst s)" and "snd s' = snd s"
  using assms by (auto simp: branch_admit_def split: prod.splits sum.splits
      dest!: check_time_counts admit_counts)

lemma branch_admit_granted:
  "branch_admit clk pclk opn verdict s = (Inr u, s') \<Longrightarrow> verdict (fst s') = None"
  by (auto simp: branch_admit_def split: prod.splits sum.splits)

lemma consume_doris_outcome:
  assumes "consume_doris_query clk name n p = (r, p')"
  shows "(r = Inr () \<longrightarrow> 0 < n \<and> doris_queries p + n \<le> max_doris_queries (limits p)
      \<and> doris_queries p' = doris_queries p + n)
    \<and> (r \<noteq> Inr () \<longrightarrow> counters_of p' = counters_of p)"
proof -
  have c: "consuming (DorisQuery name n)" by (simp add: consuming_def)
  have "perform clk (DorisQuery name n) p = (r, p')" using assms by simp
  then show ?thesis
    by (cases rule: consuming_cases [OF c, of clk p])
      (auto simp: capacity_ok_def commit_of_def dest: only_denied_counters)
qed

lemma consume_tool_outcome:
  assumes "consume_tool_call clk name n p = (r, p')"
  shows "(r = Inr () \<longrightarrow> 0 < n \<and> tool_calls p + n \<le> max_tool_calls (limits p)
      \<and> tool_calls p' = tool_calls p + n)
    \<and> (r \<noteq> Inr () \<longrightarrow> counters_of p' = counters_of p)"
proof -
  have c: "consuming (ToolCall name n)" by (simp add: consuming_def)
  have "perform clk (ToolCall name n) p = (r, p')" using assms by simp
  then show ?thesis
    by (cases rule: consuming_cases [OF c, of clk p])
      (auto simp: capacity_ok_def commit_of_def dest: only_denied_counters)
qed

section \<open>Local limits are capped counters for one worker\<close>

definition take_branch_query :: "ticks \<times> int \<times> ticks \<Rightarrow> branch_state \<Rightarrow> bool \<times> branch_state" where
  "take_branch_query r s = (case consume_branch_query (fst r) (fst (snd r)) (snd (snd r)) s of
     (v, s') \<Rightarrow> (\<not> isl v, s'))"

definition take_semantic_read :: "ticks \<times> int \<times> ticks \<times> string \<times> int \<Rightarrow> branch_state \<Rightarrow> bool \<times> branch_state" where
  "take_semantic_read r s = (case r of (clk, pclk, cclk, path, chars) \<Rightarrow>
     (case consume_semantic_read clk pclk cclk path chars s of (v, s') \<Rightarrow> (\<not> isl v, s')))"

definition take_attempt :: "ticks \<times> int \<Rightarrow> branch_state \<Rightarrow> bool \<times> branch_state" where
  "take_attempt r s = (case consume_contract_attempt (fst r) (snd r) s of (v, s') \<Rightarrow> (\<not> isl v, s'))"

lemma branch_consume_outcome:
  assumes "branch_consume clk pclk opn verdict consume count s = (r, s')"
  obtains (raised) e where "r = Inl e" and "branch_counts (fst s') = branch_counts (fst s)"
      and "snd s' = snd s \<or> (\<exists>b p p' e'. snd s = Some p \<and> consume b p = (Inl e', p') \<and> snd s' = Some p')"
  | (granted) b where "r = Inr ()" and "branch_counts b = branch_counts (fst s)" and "verdict b = None"
      and "fst s' = count b"
      and "snd s = None \<and> snd s' = None \<or> (\<exists>p p'. snd s = Some p \<and> consume b p = (Inr (), p') \<and> snd s' = Some p')"
proof -
  obtain v s1 where a: "branch_admit clk pclk opn verdict s = (v, s1)" by (rule prod.exhaust)
  note c = branch_admit_counts [OF a]
  show ?thesis
  proof (cases v)
    case (Inl e)
    then show ?thesis using assms a c raised by (auto simp: branch_consume_halves)
  next
    case (Inr u)
    have n: "verdict (fst s1) = None" using a Inr branch_admit_granted by simp
    have r: "branch_commit consume count s1 = (r, s')" using assms a Inr by (simp add: branch_consume_halves)
    show ?thesis
    proof (cases "snd s1")
      case None
      then show ?thesis using r c n granted [of "fst s1"] by (auto simp: branch_commit_def charge_parent_def)
    next
      case (Some p)
      then have p: "snd s = Some p" using c by simp
      obtain w p' where w: "consume (fst s1) p = (w, p')" by (rule prod.exhaust)
      show ?thesis
      proof (cases w)
        case (Inl e)
        then show ?thesis using r c(1) w Some p raised [of "RunExceeded e"]
          by (fastforce simp: branch_commit_def charge_parent_def)
      next
        case (Inr u)
        then show ?thesis using r c(1) n w Some p granted [of "fst s1"]
          by (fastforce simp: branch_commit_def charge_parent_def)
      qed
    qed
  qed
qed

interpretation branch_query_counter: capped_counter
  "\<lambda>s. branch_queries (fst s)" "\<lambda>s. bl_doris_queries (blimits (fst s))" "\<lambda>_. 1" take_branch_query
proof unfold_locales
  fix r s
  obtain v s' where c: "consume_branch_query (fst r) (fst (snd r)) (snd (snd r)) s = (v, s')" by (rule prod.exhaust)
  have t: "take_branch_query r s = (\<not> isl v, s')" by (simp add: take_branch_query_def c)
  show "bl_doris_queries (blimits (fst (snd (take_branch_query r s)))) = bl_doris_queries (blimits (fst s))"
    by (rule branch_consume_outcome [OF c [unfolded consume_branch_query_def]]) (auto simp: t branch_counts_def)
  show "fst (take_branch_query r s) \<Longrightarrow> (0::int) < 1
    \<and> branch_queries (fst s) + 1 \<le> bl_doris_queries (blimits (fst s))
    \<and> branch_queries (fst (snd (take_branch_query r s))) = branch_queries (fst s) + 1"
    by (rule branch_consume_outcome [OF c [unfolded consume_branch_query_def]])
      (auto simp: t branch_counts_def doris_verdict_def split: if_splits)
  show "\<not> fst (take_branch_query r s) \<Longrightarrow> branch_queries (fst (snd (take_branch_query r s))) = branch_queries (fst s)"
    by (rule branch_consume_outcome [OF c [unfolded consume_branch_query_def]]) (auto simp: t branch_counts_def)
qed

interpretation contract_counter: capped_counter
  "\<lambda>s. contract_attempts (fst s)" "\<lambda>s. bl_contract_attempts (blimits (fst s))" "\<lambda>_. 1" take_attempt
proof unfold_locales
  fix r s
  obtain v s' where c: "consume_contract_attempt (fst r) (snd r) s = (v, s')" by (rule prod.exhaust)
  have t: "take_attempt r s = (\<not> isl v, s')" by (simp add: take_attempt_def c)
  note out = branch_consume_outcome [OF c [unfolded consume_contract_attempt_def]]
  show "bl_contract_attempts (blimits (fst (snd (take_attempt r s)))) = bl_contract_attempts (blimits (fst s))"
    by (rule out) (auto simp: t branch_counts_def)
  show "fst (take_attempt r s) \<Longrightarrow> (0::int) < 1
    \<and> contract_attempts (fst s) + 1 \<le> bl_contract_attempts (blimits (fst s))
    \<and> contract_attempts (fst (snd (take_attempt r s))) = contract_attempts (fst s) + 1"
    by (rule out) (auto simp: t branch_counts_def contract_verdict_def split: if_splits)
  show "\<not> fst (take_attempt r s) \<Longrightarrow> contract_attempts (fst (snd (take_attempt r s))) = contract_attempts (fst s)"
    by (rule out) (auto simp: t branch_counts_def)
qed

interpretation read_counter: capped_counter
  "\<lambda>s. semantic_reads (fst s)" "\<lambda>s. bl_semantic_reads (blimits (fst s))" "\<lambda>_. 1" take_semantic_read
proof unfold_locales
  fix r :: "ticks \<times> int \<times> ticks \<times> string \<times> int" and s
  obtain clk pclk cclk path chars where r: "r = (clk, pclk, cclk, path, chars)" by (cases r) auto
  obtain v s' where c: "consume_semantic_read clk pclk cclk path chars s = (v, s')" by (rule prod.exhaust)
  have t: "take_semantic_read r s = (\<not> isl v, s')" by (simp add: take_semantic_read_def r c)
  note out = branch_consume_outcome [OF c [unfolded consume_semantic_read_def Let_def]]
  show "bl_semantic_reads (blimits (fst (snd (take_semantic_read r s)))) = bl_semantic_reads (blimits (fst s))"
    by (rule out) (auto simp: t branch_counts_def)
  show "fst (take_semantic_read r s) \<Longrightarrow> (0::int) < 1
    \<and> semantic_reads (fst s) + 1 \<le> bl_semantic_reads (blimits (fst s))
    \<and> semantic_reads (fst (snd (take_semantic_read r s))) = semantic_reads (fst s) + 1"
    by (rule out) (auto simp: t branch_counts_def semantic_read_verdict_def split: if_splits)
  show "\<not> fst (take_semantic_read r s) \<Longrightarrow> semantic_reads (fst (snd (take_semantic_read r s))) = semantic_reads (fst s)"
    by (rule out) (auto simp: t branch_counts_def)
qed

section \<open>What the branch budget promises\<close>

text \<open>
  C35: a query of a branch is charged to the branch and to the run, or to neither: when it is granted
  both counters have moved by one and are within their limits; when it is refused, whoever refuses it,
  no counter of the branch and no counter of the run has moved.
\<close>

theorem branch_query_charged_to_both:
  assumes "consume_branch_query clk pclk cclk (b, Some p) = (r, (b', q))"
  shows "\<exists>p'. q = Some p' \<and>
    (if r = Inr () then
       branch_queries b' = branch_queries b + 1 \<and> branch_queries b' \<le> bl_doris_queries (blimits b)
       \<and> doris_queries p' = doris_queries p + 1 \<and> doris_queries p' \<le> max_doris_queries (limits p)
     else branch_counts b' = branch_counts b \<and> counters_of p' = counters_of p)"
proof (cases rule: branch_consume_outcome [OF assms [unfolded consume_branch_query_def]])
  case (1 e)
  then show ?thesis using consume_doris_outcome by fastforce
next
  case (2 c)
  then show ?thesis using consume_doris_outcome [of cclk _ 1 p "Inr ()"]
    by (fastforce simp: branch_counts_def doris_verdict_def split: if_splits)
qed

theorem branch_query_charged_to_both_witness:
  "\<exists>b' p'. consume_branch_query (\<lambda>_. 5) 5 (\<lambda>_. 5)
      (new_branch_budget ''b1'' (branch_limits_from_settings \<lparr>bs_semantic_reads = None, bs_semantic_chars = None,
        bs_contract_attempts = None, bs_doris_queries = None, bs_duration = None, bs_reserve = None\<rparr>),
       Some sample_budget) = (Inr (), (b', Some p')) \<and> branch_queries b' = 1 \<and> doris_queries p' = 1"
proof -
  let ?b = "new_branch_budget ''b1'' (branch_limits_from_settings \<lparr>bs_semantic_reads = None, bs_semantic_chars = None,
        bs_contract_attempts = None, bs_doris_queries = None, bs_duration = None, bs_reserve = None\<rparr>)"
  obtain r b' q where c: "consume_branch_query (\<lambda>_. 5) 5 (\<lambda>_. 5) (?b, Some sample_budget) = (r, (b', q))"
    by (metis prod.exhaust)
  have "fst (consume_branch_query (\<lambda>_. 5) 5 (\<lambda>_. 5) (?b, Some sample_budget)) = Inr ()" by code_simp
  then have r: "r = Inr ()" by (simp add: c)
  have z: "branch_queries ?b = 0" "doris_queries sample_budget = 0"
    by (simp_all add: new_branch_budget_def sample_budget_def new_budget_def)
  from branch_query_charged_to_both [OF c] r z c show ?thesis by auto
qed

section \<open>Several workers on one branch\<close>

text \<open>
  The interleavings of \<open>consume_doris_query\<close> on one branch: a worker is admitted (time and local
  limit, under the lock), and some time later charges the parent and counts. The state counts the
  workers that were admitted and have not committed; at most \<open>w\<close> of them run at once.
\<close>

datatype query_event = QueryAdmit ticks int | QueryCommit ticks

fun query_step :: "nat \<Rightarrow> query_event \<Rightarrow> nat \<times> branch_state \<Rightarrow> nat \<times> branch_state" where
  "query_step w (QueryAdmit clk pclk) (n, s) =
     (if n < w then (case branch_admit clk pclk ''doris'' doris_verdict s of
        (Inl e, s') \<Rightarrow> (n, s') | (Inr _, s') \<Rightarrow> (n + 1, s'))
      else (n, s))"
| "query_step w (QueryCommit cclk) (n, s) =
     (if 0 < n then (n - 1, snd (branch_commit
        (\<lambda>b. consume_doris_query cclk (''parallel.'' @ branch_id b) 1)
        (\<lambda>b. b\<lparr>branch_queries := branch_queries b + 1\<rparr>) s))
      else (n, s))"

definition query_schedule :: "nat \<Rightarrow> query_event list \<Rightarrow> nat \<times> branch_state \<Rightarrow> nat \<times> branch_state" where
  "query_schedule w es c = fold (query_step w) es c"

definition overshoot_ok :: "nat \<Rightarrow> nat \<times> branch_state \<Rightarrow> bool" where
  "overshoot_ok w c \<longleftrightarrow> fst c \<le> w
     \<and> branch_queries (fst (snd c)) + int (fst c) \<le> bl_doris_queries (blimits (fst (snd c))) + int w - 1"

lemma branch_commit_queries:
  "branch_commit consume (\<lambda>b. b\<lparr>branch_queries := branch_queries b + 1\<rparr>) s = (r, s')
    \<Longrightarrow> blimits (fst s') = blimits (fst s) \<and> branch_queries (fst s') \<le> branch_queries (fst s) + 1"
  by (auto simp: branch_commit_def split: prod.splits sum.splits)

lemma overshoot_step:
  assumes "overshoot_ok w c"
  shows "overshoot_ok w (query_step w e c)
    \<and> blimits (fst (snd (query_step w e c))) = blimits (fst (snd c))"
proof -
  obtain n s where Pair: "c = (n, s)" by (rule prod.exhaust)
  show ?thesis
  proof (cases e)
    case (QueryAdmit clk pclk)
    obtain v s' where a: "branch_admit clk pclk ''doris'' doris_verdict s = (v, s')" by (rule prod.exhaust)
    note k = branch_admit_counts(1) [OF a]
    show ?thesis
      using assms Pair QueryAdmit a k branch_admit_granted [of clk pclk "''doris''" doris_verdict s _ s']
      by (cases v) (auto simp: overshoot_ok_def branch_counts_def doris_verdict_def split: if_splits)
  next
    case (QueryCommit cclk)
    obtain v s' where c: "branch_commit (\<lambda>b. consume_doris_query cclk (''parallel.'' @ branch_id b) 1)
        (\<lambda>b. b\<lparr>branch_queries := branch_queries b + 1\<rparr>) s = (v, s')" by (rule prod.exhaust)
    show ?thesis
      using assms Pair QueryCommit c branch_commit_queries [OF c] by (cases n) (auto simp: overshoot_ok_def)
  qed
qed

text \<open>
  With at most \<open>w\<close> workers on a branch, however their steps interleave, the branch never runs more
  than its limit of queries plus \<open>w - 1\<close>; one worker never passes the limit.
\<close>

theorem branch_queries_bounded_by_workers:
  assumes "1 \<le> w" and "branch_queries (fst s) \<le> bl_doris_queries (blimits (fst s))"
  shows "branch_queries (fst (snd (query_schedule w es (0, s)))) \<le> bl_doris_queries (blimits (fst s)) + (int w - 1)"
proof -
  have "overshoot_ok w (query_schedule w es c) \<and> blimits (fst (snd (query_schedule w es c))) = blimits (fst (snd c))"
    if "overshoot_ok w c" for c
    using that unfolding query_schedule_def
  proof (induction es arbitrary: c)
    case (Cons e es)
    from overshoot_step [OF Cons.prems, of e] Cons.IH [of "query_step w e c"] show ?case by simp
  qed simp
  from this [of "(0, s)"] assms show ?thesis by (auto simp: overshoot_ok_def)
qed

definition sample_branch :: branch_budget where
  "sample_branch = new_branch_budget ''b1'' (branch_limits_from_settings \<lparr>bs_semantic_reads = None,
     bs_semantic_chars = None, bs_contract_attempts = None, bs_doris_queries = Some 1, bs_duration = None,
     bs_reserve = None\<rparr>)"

lemma sample_branch_simps:
  "branch_queries sample_branch = 0" "bl_doris_queries (blimits sample_branch) = 1"
  "active_depth sample_branch = 0" "active_duration sample_branch = 0" "bl_duration (blimits sample_branch) = 50000000"
  by (simp_all add: sample_branch_def new_branch_budget_def branch_limits_from_settings_def setting_or_def)

theorem branch_queries_bounded_by_workers_witness:
  "branch_queries (fst (snd (query_schedule 1 [QueryAdmit (\<lambda>_. 5) 5, QueryAdmit (\<lambda>_. 5) 5, QueryCommit (\<lambda>_. 6),
      QueryAdmit (\<lambda>_. 5) 5, QueryCommit (\<lambda>_. 6)] (0, (sample_branch, None))))) \<le> 1"
  using branch_queries_bounded_by_workers [of 1 "(sample_branch, None)"] by (simp add: sample_branch_simps)

text \<open>
  The local limit of queries is not safe under concurrency, although the class takes its lock
  around every access: the limit is checked in one critical section and counted in another, with the
  charge of the parent in between. From any state with one query left, two workers that are both
  admitted before either commits leave the branch one query above its limit.
\<close>

theorem branch_query_limit_race:
  assumes "bl_doris_queries (blimits b) = branch_queries b + 1"
    and "active_depth b = 0" and "0 \<le> active_duration b" and "active_duration b < bl_duration (blimits b)"
  shows "branch_queries (fst (snd (query_schedule 2
      [QueryAdmit clk1 pclk1, QueryAdmit clk2 pclk2, QueryCommit cclk1, QueryCommit cclk2] (0, (b, None)))))
    = bl_doris_queries (blimits b) + 1"
proof -
  have a: "branch_admit clk pclk ''doris'' doris_verdict (c, None) = (Inr (), (start_wall_clock (clk 0) c, None))"
    if "branch_counts c = branch_counts b" "active_depth c = 0" "active_duration c = active_duration b" for clk pclk c
  proof -
    have e: "branch_elapsed t (start_wall_clock u c) = active_duration b" for t u
      using assms(3) that by (cases "wall_started c") (simp_all add: branch_elapsed_def start_wall_clock_def)
    have "branch_counts (start_wall_clock u c) = branch_counts b" for u using that by simp
    then show ?thesis using assms(1, 4) that
      by (simp add: branch_admit_def check_time_def Let_def e branch_counts_def doris_verdict_def admit_def)
  qed
  have w: "branch_counts (start_wall_clock u b) = branch_counts b" "active_depth (start_wall_clock u b) = 0"
    "active_duration (start_wall_clock u b) = active_duration b" for u
    using assms(2) by (cases "wall_started b"; simp add: start_wall_clock_def branch_counts_def)+
  have q: "branch_queries (start_wall_clock u c) = branch_queries c" for u c
    by (cases "wall_started c") (simp_all add: start_wall_clock_def)
  show ?thesis using assms(1, 2)
    by (simp add: query_schedule_def a w q branch_commit_def charge_parent_def)
qed

theorem branch_query_limit_race_witness:
  "branch_queries (fst (snd (query_schedule 2
      [QueryAdmit (\<lambda>_. 5) 5, QueryAdmit (\<lambda>_. 6) 6, QueryCommit (\<lambda>_. 7), QueryCommit (\<lambda>_. 8)]
      (0, (sample_branch, None))))) = 2"
  using branch_query_limit_race [of sample_branch "\<lambda>_. 5" 5 "\<lambda>_. 6" 6 "\<lambda>_. 7" "\<lambda>_. 8"]
  by (simp add: sample_branch_simps)

end
