(* ===== verification/Exploration_Protocol.thy ===== *)
theory Exploration_Protocol
  imports Goal_Contract Graph_Search
begin

text \<open>
  The protocol of advisory exploration workers (\<^verbatim>\<open>grounded_exploration_protocol.py\<close>): the
  assignment the root issues, what a worker may answer, the validation of the answer against the
  assignment, and the ledger of events, a chain of fingerprints that is only appended to.

  The models of the source are frozen and checked when they are built: each has a record here and a
  check, in the order of the validator, whose error says which rule failed (the texts are left out).
  Fields the source fixes to one literal have no counterpart. Where the source iterates over a set,
  the order is that of the first occurrences here.
\<close>

section \<open>Checks the models share\<close>

datatype protocol_error =
    MustNotBeEmpty string
  | EmptyValues string
  | DuplicateValues string
  | ExplicitGoalNotAuthorized
  | NarrowerEqualsParent string
  | InheritedDiffers
  | NarrowedEqual
  | SelfDependency
  | UnknownTerminal
  | UnknownStepDependency
  | CyclicPlan
  | MultipleStoppingStates
  | UnknownHypothesis string
  | UnknownRequest string
  | CyclicRequests
  | EventFingerprintMismatch
  | LedgerRevisionMismatch
  | LedgerAssignmentMismatch
  | LedgerSequenceGap
  | LedgerChainMismatch
  | LedgerEventIdRepeated
  | LedgerHeadMismatch
  | RevisionConflict

type_synonym check = "protocol_error + unit"

definition require_nonempty :: "string \<Rightarrow> string \<Rightarrow> check" where
  "require_nonempty v fld = require (py_strip v \<noteq> []) (MustNotBeEmpty fld)"

definition require_unique :: "string list \<Rightarrow> string \<Rightarrow> check" where
  "require_unique vs fld =
     (let normalized = map py_strip vs
      in bind_res (require ([] \<notin> set normalized) (EmptyValues fld))
           (\<lambda>_. require (distinct normalized) (DuplicateValues fld)))"

fun all_checks :: "check list \<Rightarrow> check" where
  "all_checks [] = Inr ()"
| "all_checks (c # cs) = bind_res c (\<lambda>_. all_checks cs)"

lemma all_checks_Inr [simp]: "all_checks cs = Inr () \<longleftrightarrow> (\<forall>c\<in>set cs. c = Inr ())"
  by (induction cs) (auto elim: bind_res_InrE)

declare all_checks.simps [simp del]

text \<open>A text that is not blank, and a list of distinct such texts, up to surrounding white space.\<close>

definition unique_texts :: "string list \<Rightarrow> bool" where
  "unique_texts vs \<longleftrightarrow> [] \<notin> set (map py_strip vs) \<and> distinct (map py_strip vs)"

lemma require_nonempty_Inr [simp]: "require_nonempty v f = Inr u \<longleftrightarrow> py_strip v \<noteq> []"
  by (simp add: require_nonempty_def)

lemma require_unique_Inr [simp]: "require_unique vs f = Inr u \<longleftrightarrow> unique_texts vs"
  by (simp add: require_unique_def unique_texts_def Let_def)

lemma unique_texts_distinct: "unique_texts vs \<Longrightarrow> distinct vs"
  by (simp add: unique_texts_def distinct_map)

text \<open>
  The nested \<open>visit\<close> of the two dependency checks: a node already visited is skipped, one that is
  being visited closes a cycle. \<open>None\<close> is the raised error.
\<close>

function visit_all :: "'a digraph \<Rightarrow> 'a list \<Rightarrow> 'a list \<Rightarrow> 'a list \<Rightarrow> 'a list option" where
  "visit_all G visiting [] visited = Some visited"
| "visit_all G visiting (d # ds) visited =
     (if d \<in> set visited then visit_all G visiting ds visited
      else if d \<in> set visiting then None
      else (case visit_all G (visiting @ [d]) (succs G d) visited of
              None \<Rightarrow> None
            | Some visited' \<Rightarrow> visit_all G visiting ds (d # visited')))"
  by pat_completeness auto
termination
proof (relation "measures [\<lambda>(G, path, ds, visited). card (fst ` set G - set path),
    \<lambda>(G, path, ds, visited). length ds]", goal_cases)
  case (3 G path d ds visited)
  show ?case
  proof (cases "d \<in> fst ` set G")
    case True
    with 3 have "fst ` set G - set (path @ [d]) \<subset> fst ` set G - set path" by auto
    then have "card (fst ` set G - set (path @ [d])) < card (fst ` set G - set path)"
      by (intro psubset_card_mono) auto
    then show ?thesis by simp
  next
    case False
    then have "fst ` set G - set (path @ [d]) = fst ` set G - set path" by auto
    with False show ?thesis by (simp add: succs_not_key)
  qed
qed auto

lemma visit_all_find_cycle:
  assumes "set visiting \<inter> set visited = {}" and "ordered_by (edges G) visited"
  shows "visit_all G visiting ds visited
    = (case find_cycle G visiting ds visited of Inl c \<Rightarrow> None | Inr v \<Rightarrow> Some v)"
  using assms
proof (induction G visiting ds visited rule: visit_all.induct)
  case (2 G path d ds visited)
  consider (old) "d \<in> set visited" "d \<notin> set path" | (cycle) "d \<in> set path" "d \<notin> set visited"
    | (fresh) "d \<notin> set path" "d \<notin> set visited"
    using "2.prems" by blast
  then show ?case
  proof cases
    case old
    then show ?thesis using "2.IH"(1) "2.prems" by simp
  next
    case cycle
    then show ?thesis by simp
  next
    case fresh
    have dis: "set (path @ [d]) \<inter> set visited = {}" using fresh "2.prems" by auto
    note inner = "2.IH"(2) [OF fresh(2, 1) dis "2.prems"(2)]
    show ?thesis
    proof (cases "find_cycle G (path @ [d]) (succs G d) visited")
      case (Inl c)
      then show ?thesis using fresh inner by simp
    next
      case (Inr v)
      note f = find_cycle_Inr [OF Inr "2.prems"(2) dis]
      have "set path \<inter> set (d # v) = {}" and "ordered_by (edges G) (d # v)"
        using f fresh by (auto simp: Image_iff)
      with "2.IH"(3) [OF fresh(2, 1)] inner Inr fresh show ?thesis by simp
    qed
  qed
qed simp

definition acyclic_visit :: "'a digraph \<Rightarrow> bool" where
  "acyclic_visit G = (visit_all G [] (map fst G) [] \<noteq> None)"

lemma acyclic_visit_iff: "acyclic_visit G \<longleftrightarrow> acyclic (edges G)"
proof -
  have "visit_all G [] (map fst G) [] = (case find_cycle G [] (map fst G) [] of Inl c \<Rightarrow> None | Inr v \<Rightarrow> Some v)"
    by (rule visit_all_find_cycle) simp_all
  moreover have "acyclic (edges G)" if "find_cycle G [] (map fst G) [] = Inr v" for v
    using that cycle_of_Nil_iff [of G] by (simp add: cycle_of_def)
  moreover have "\<not> acyclic (edges G)" if c: "find_cycle G [] (map fst G) [] = Inl c" for c
  proof -
    have "c \<noteq> []" using find_cycle_Inl [OF c] by (auto simp: walk_def)
    then show ?thesis using cycle_of_Nil_iff [of G] c by (simp add: cycle_of_def)
  qed
  ultimately show ?thesis
    by (cases "find_cycle G [] (map fst G) []") (auto simp: acyclic_visit_def)
qed

section \<open>The models\<close>

datatype capability =
    DESCRIBE_DISTRIBUTION | COMPARE_GROUPS | TRACE_TIME_CHANGE | FIND_OUTLIER_CANDIDATES
  | MEASURE_ASSOCIATION | CHECK_ROBUSTNESS | ASSESS_DATA_QUALITY | REQUEST_EXISTING_ARTIFACT

datatype evidence_shape =
    SUMMARY_STATISTICS | COMPARISON_RESULT | TIME_SERIES | CANDIDATE_SET
  | ASSOCIATION_RESULT | ROBUSTNESS_RESULT | QUALITY_REPORT | EXISTING_ARTIFACT

fun capability_text :: "capability \<Rightarrow> string" where
  "capability_text DESCRIBE_DISTRIBUTION = ''DESCRIBE_DISTRIBUTION''"
| "capability_text COMPARE_GROUPS = ''COMPARE_GROUPS''"
| "capability_text TRACE_TIME_CHANGE = ''TRACE_TIME_CHANGE''"
| "capability_text FIND_OUTLIER_CANDIDATES = ''FIND_OUTLIER_CANDIDATES''"
| "capability_text MEASURE_ASSOCIATION = ''MEASURE_ASSOCIATION''"
| "capability_text CHECK_ROBUSTNESS = ''CHECK_ROBUSTNESS''"
| "capability_text ASSESS_DATA_QUALITY = ''ASSESS_DATA_QUALITY''"
| "capability_text REQUEST_EXISTING_ARTIFACT = ''REQUEST_EXISTING_ARTIFACT''"

fun shape_text :: "evidence_shape \<Rightarrow> string" where
  "shape_text SUMMARY_STATISTICS = ''SUMMARY_STATISTICS''"
| "shape_text COMPARISON_RESULT = ''COMPARISON_RESULT''"
| "shape_text TIME_SERIES = ''TIME_SERIES''"
| "shape_text CANDIDATE_SET = ''CANDIDATE_SET''"
| "shape_text ASSOCIATION_RESULT = ''ASSOCIATION_RESULT''"
| "shape_text ROBUSTNESS_RESULT = ''ROBUSTNESS_RESULT''"
| "shape_text QUALITY_REPORT = ''QUALITY_REPORT''"
| "shape_text EXISTING_ARTIFACT = ''EXISTING_ARTIFACT''"

record exploration_assignment =
  assignment_id :: string
  objective :: string
  goal_contract_fp :: string
  authorized_goal_ids :: "string list"
  explicit_goal_ids :: "string list"
  population_fp :: string
  narrower_populations :: "string list"
  time_fp :: string
  narrower_times :: "string list"
  assigned_artifacts :: "string list"

definition check_assignment :: "exploration_assignment \<Rightarrow> check" where
  "check_assignment a = all_checks [
     require_nonempty (assignment_id a) ''assignment_id'',
     require_nonempty (objective a) ''objective'',
     require_nonempty (goal_contract_fp a) ''goal_contract_fingerprint'',
     require_nonempty (population_fp a) ''population_scope_fingerprint'',
     require_nonempty (time_fp a) ''time_scope_fingerprint'',
     require (authorized_goal_ids a \<noteq> []) (MustNotBeEmpty ''authorized_goal_ids''),
     require_unique (authorized_goal_ids a) ''authorized_goal_ids'',
     require_unique (explicit_goal_ids a) ''explicit_exploration_goal_ids'',
     require_unique (narrower_populations a) ''allowed_narrower_population_fingerprints'',
     require_unique (narrower_times a) ''allowed_narrower_time_fingerprints'',
     require_unique (assigned_artifacts a) ''source_artifact_fingerprints'',
     require (set (explicit_goal_ids a) \<subseteq> set (authorized_goal_ids a)) ExplicitGoalNotAuthorized,
     require (population_fp a \<notin> set (narrower_populations a)) (NarrowerEqualsParent ''population''),
     require (time_fp a \<notin> set (narrower_times a)) (NarrowerEqualsParent ''time'')]"

datatype scope_relation = INHERIT | NARROW

record scope_signature =
  relation :: scope_relation
  scope_fp :: string
  parent_fp :: string

definition check_scope :: "scope_signature \<Rightarrow> check" where
  "check_scope s = all_checks [
     require_nonempty (scope_fp s) ''fingerprint'',
     require_nonempty (parent_fp s) ''parent_fingerprint'',
     require (relation s = INHERIT \<longrightarrow> scope_fp s = parent_fp s) InheritedDiffers,
     require (relation s = NARROW \<longrightarrow> scope_fp s \<noteq> parent_fp s) NarrowedEqual]"

record hypothesis =
  hypothesis_id :: string
  falsifiable_statement :: string
  hypothesis_premises :: "string list"
  expected_observations :: "string list"
  falsifying_observations :: "string list"
  hypothesis_goals :: "string list"
  hypothesis_population :: string
  hypothesis_time :: string
  competing_explanations :: "string list"

definition require_some_unique :: "string list \<Rightarrow> string \<Rightarrow> check" where
  "require_some_unique vs fld = all_checks [require (vs \<noteq> []) (MustNotBeEmpty fld), require_unique vs fld]"

definition check_hypothesis :: "hypothesis \<Rightarrow> check" where
  "check_hypothesis p = all_checks [
     require_nonempty (hypothesis_id p) ''hypothesis_id'',
     require_nonempty (falsifiable_statement p) ''falsifiable_statement'',
     require_nonempty (hypothesis_population p) ''population_scope_fingerprint'',
     require_nonempty (hypothesis_time p) ''time_scope_fingerprint'',
     require_some_unique (hypothesis_premises p) ''premises'',
     require_some_unique (expected_observations p) ''expected_observations'',
     require_some_unique (falsifying_observations p) ''falsifying_observations'',
     require_some_unique (hypothesis_goals p) ''goal_ids'',
     require_some_unique (competing_explanations p) ''competing_explanations'']"

record evidence_request =
  request_id :: string
  request_capability :: capability
  request_shape :: evidence_shape
  request_goals :: "string list"
  request_hypotheses :: "string list"
  request_population :: scope_signature
  request_time :: scope_signature
  request_artifacts :: "string list"
  request_depends_on :: "string list"
  request_rationale :: string

definition check_request :: "evidence_request \<Rightarrow> check" where
  "check_request r = all_checks [
     check_scope (request_population r), check_scope (request_time r),
     require_nonempty (request_id r) ''request_id'',
     require (request_goals r \<noteq> []) (MustNotBeEmpty ''goal_ids''),
     require_unique (request_goals r) ''goal_ids'',
     require_unique (request_hypotheses r) ''hypothesis_ids'',
     require_unique (request_artifacts r) ''source_artifact_fingerprints'',
     require_unique (request_depends_on r) ''depends_on_request_ids'',
     require (request_id r \<notin> set (request_depends_on r)) SelfDependency]"

record plan_step =
  step_id :: string
  step_goals :: "string list"
  step_requests :: "string list"
  step_hypotheses :: "string list"
  step_depends_on :: "string list"

definition check_step :: "plan_step \<Rightarrow> check" where
  "check_step s = all_checks [
     require_nonempty (step_id s) ''step_id'',
     require (step_goals s \<noteq> []) (MustNotBeEmpty ''goal_ids''),
     require (step_requests s \<noteq> []) (MustNotBeEmpty ''evidence_request_ids''),
     require_unique (step_goals s) ''goal_ids'',
     require_unique (step_requests s) ''evidence_request_ids'',
     require_unique (step_hypotheses s) ''hypothesis_ids'',
     require_unique (step_depends_on s) ''depends_on_step_ids'',
     require (step_id s \<notin> set (step_depends_on s)) SelfDependency]"

record analysis_plan =
  plan_id :: string
  plan_steps :: "plan_step list"
  terminal_steps :: "string list"

definition step_graph :: "plan_step list \<Rightarrow> string digraph" where
  "step_graph ss = map (\<lambda>s. (step_id s, step_depends_on s)) ss"

definition check_plan :: "analysis_plan \<Rightarrow> check" where
  "check_plan p =
     (let ids = map step_id (plan_steps p)
      in all_checks [
        all_checks (map check_step (plan_steps p)),
        require_nonempty (plan_id p) ''plan_id'',
        require (plan_steps p \<noteq> []) (MustNotBeEmpty ''steps''),
        require_unique ids ''step_ids'',
        require_unique (terminal_steps p) ''terminal_step_ids'',
        require (terminal_steps p \<noteq> [] \<and> set (terminal_steps p) \<subseteq> set ids) UnknownTerminal,
        require (\<forall>s\<in>set (plan_steps p). set (step_depends_on s) \<subseteq> set ids) UnknownStepDependency,
        require (acyclic_visit (step_graph (plan_steps p))) CyclicPlan])"

datatype stopping_decision = CONTINUE | STOP_SUFFICIENT | STOP_BUDGET | STOP_NO_PROGRESS | STOP_SAFETY

record stopping_assessment =
  decision :: stopping_decision
  stopping_goals :: "string list"
  supported :: "string list"
  challenged :: "string list"
  unresolved :: "string list"
  outstanding :: "string list"
  stopping_rationale :: string

definition check_stopping :: "stopping_assessment \<Rightarrow> check" where
  "check_stopping s = all_checks [
     require (stopping_goals s \<noteq> []) (MustNotBeEmpty ''goal_ids''),
     require_nonempty (stopping_rationale s) ''rationale'',
     require_unique (stopping_goals s) ''goal_ids'',
     require_unique (supported s) ''supported_hypothesis_ids'',
     require_unique (challenged s) ''challenged_hypothesis_ids'',
     require_unique (unresolved s) ''unresolved_hypothesis_ids'',
     require_unique (outstanding s) ''outstanding_request_ids'',
     require (set (supported s) \<inter> set (challenged s) = {} \<and> set (supported s) \<inter> set (unresolved s) = {}
       \<and> set (challenged s) \<inter> set (unresolved s) = {}) MultipleStoppingStates]"

record advisory_artifact =
  artifact_id :: string
  artifact_assignment :: string
  hypotheses :: "hypothesis list"
  evidence_requests :: "evidence_request list"
  analysis_plan_of :: "analysis_plan option"
  stopping :: stopping_assessment
  artifact_sources :: "string list"
  advisory_notes :: "string list"

text \<open>\<open>_validate_request_dependency_graph\<close>.\<close>

definition request_graph :: "evidence_request list \<Rightarrow> string digraph" where
  "request_graph rs = map (\<lambda>r. (request_id r, request_depends_on r)) rs"

definition check_artifact :: "advisory_artifact \<Rightarrow> check" where
  "check_artifact a =
     (let known_h = set (map hypothesis_id (hypotheses a)); known_r = set (map request_id (evidence_requests a))
      in all_checks [
        all_checks (map check_hypothesis (hypotheses a)),
        all_checks (map check_request (evidence_requests a)),
        (case analysis_plan_of a of None \<Rightarrow> Inr () | Some p \<Rightarrow> check_plan p),
        check_stopping (stopping a),
        require_nonempty (artifact_id a) ''artifact_id'',
        require_nonempty (artifact_assignment a) ''assignment_id'',
        require (hypotheses a \<noteq> []) (MustNotBeEmpty ''hypotheses''),
        require_unique (map hypothesis_id (hypotheses a)) ''hypothesis_ids'',
        require_unique (map request_id (evidence_requests a)) ''request_ids'',
        require_unique (artifact_sources a) ''source_artifact_fingerprints'',
        require_unique (advisory_notes a) ''advisory_notes'',
        all_checks (map (\<lambda>r. all_checks [
          require (set (request_hypotheses r) \<subseteq> known_h) (UnknownHypothesis (request_id r)),
          require (set (request_depends_on r) \<subseteq> known_r) (UnknownRequest (request_id r))]) (evidence_requests a)),
        require (acyclic_visit (request_graph (evidence_requests a))) CyclicRequests,
        (case analysis_plan_of a of None \<Rightarrow> Inr () | Some p \<Rightarrow> all_checks (map (\<lambda>s. all_checks [
          require (set (step_hypotheses s) \<subseteq> known_h) (UnknownHypothesis (step_id s)),
          require (set (step_requests s) \<subseteq> known_r) (UnknownRequest (step_id s))]) (plan_steps p))),
        require (set (supported (stopping a)) \<union> set (challenged (stopping a)) \<union> set (unresolved (stopping a))
          \<subseteq> known_h) (UnknownHypothesis ''stopping''),
        require (set (outstanding (stopping a)) \<subseteq> known_r) (UnknownRequest ''stopping'')])"

section \<open>Validation against the assignment\<close>

definition scope_json :: "scope_signature \<Rightarrow> json" where
  "scope_json s = JObj [
     (''relation'', JStr (case relation s of INHERIT \<Rightarrow> ''INHERIT'' | NARROW \<Rightarrow> ''NARROW'')),
     (''fingerprint'', JStr (scope_fp s)), (''parentFingerprint'', JStr (parent_fp s))]"

definition request_json :: "evidence_request \<Rightarrow> json" where
  "request_json r = JObj [
     (''capability'', JStr (capability_text (request_capability r))),
     (''evidenceShape'', JStr (shape_text (request_shape r))),
     (''goalIds'', JArr (map JStr (sort (request_goals r)))),
     (''hypothesisIds'', JArr (map JStr (sort (request_hypotheses r)))),
     (''populationScope'', scope_json (request_population r)),
     (''timeScope'', scope_json (request_time r)),
     (''sourceArtifactFingerprints'', JArr (map JStr (sort (request_artifacts r))))]"

definition evidence_request_fingerprint :: "(string \<Rightarrow> string) \<Rightarrow> evidence_request \<Rightarrow> string" where
  "evidence_request_fingerprint h r = stable_fingerprint h (request_json r)"

text \<open>The whole models as they are dumped, with the fields the source fixes.\<close>

definition text_array :: "string list \<Rightarrow> json" where
  "text_array xs = JArr (map JStr xs)"

definition assignment_json :: "exploration_assignment \<Rightarrow> json" where
  "assignment_json a = JObj [
     (''protocolVersion'', JStr ''grounded_exploration.v1''), (''assignmentId'', JStr (assignment_id a)),
     (''objective'', JStr (objective a)), (''goalContractFingerprint'', JStr (goal_contract_fp a)),
     (''authorizedGoalIds'', text_array (authorized_goal_ids a)),
     (''explicitExplorationGoalIds'', text_array (explicit_goal_ids a)),
     (''populationScopeFingerprint'', JStr (population_fp a)),
     (''allowedNarrowerPopulationFingerprints'', text_array (narrower_populations a)),
     (''timeScopeFingerprint'', JStr (time_fp a)),
     (''allowedNarrowerTimeFingerprints'', text_array (narrower_times a)),
     (''sourceArtifactFingerprints'', text_array (assigned_artifacts a)),
     (''outputAuthority'', JStr ''ADVISORY'')]"

definition hypothesis_json :: "hypothesis \<Rightarrow> json" where
  "hypothesis_json p = JObj [
     (''hypothesisId'', JStr (hypothesis_id p)), (''falsifiableStatement'', JStr (falsifiable_statement p)),
     (''premises'', text_array (hypothesis_premises p)),
     (''expectedObservations'', text_array (expected_observations p)),
     (''falsifyingObservations'', text_array (falsifying_observations p)),
     (''goalIds'', text_array (hypothesis_goals p)),
     (''populationScopeFingerprint'', JStr (hypothesis_population p)),
     (''timeScopeFingerprint'', JStr (hypothesis_time p)),
     (''competingExplanations'', text_array (competing_explanations p)),
     (''claimStatus'', JStr ''HYPOTHESIS'')]"

definition request_dump :: "evidence_request \<Rightarrow> json" where
  "request_dump r = JObj [
     (''requestId'', JStr (request_id r)), (''capability'', JStr (capability_text (request_capability r))),
     (''evidenceShape'', JStr (shape_text (request_shape r))), (''goalIds'', text_array (request_goals r)),
     (''hypothesisIds'', text_array (request_hypotheses r)),
     (''populationScope'', scope_json (request_population r)), (''timeScope'', scope_json (request_time r)),
     (''sourceArtifactFingerprints'', text_array (request_artifacts r)),
     (''dependsOnRequestIds'', text_array (request_depends_on r)),
     (''rationale'', JStr (request_rationale r)), (''authority'', JStr ''ADVISORY_REQUEST'')]"

definition plan_json :: "analysis_plan \<Rightarrow> json" where
  "plan_json p = JObj [
     (''planId'', JStr (plan_id p)),
     (''steps'', JArr (map (\<lambda>s. JObj [
        (''stepId'', JStr (step_id s)), (''goalIds'', text_array (step_goals s)),
        (''evidenceRequestIds'', text_array (step_requests s)),
        (''hypothesisIds'', text_array (step_hypotheses s)),
        (''dependsOnStepIds'', text_array (step_depends_on s))]) (plan_steps p))),
     (''terminalStepIds'', text_array (terminal_steps p)), (''authority'', JStr ''ADVISORY'')]"

definition stopping_json :: "stopping_assessment \<Rightarrow> json" where
  "stopping_json s = JObj [
     (''decision'', JStr (case decision s of CONTINUE \<Rightarrow> ''CONTINUE'' | STOP_SUFFICIENT \<Rightarrow> ''STOP_SUFFICIENT''
        | STOP_BUDGET \<Rightarrow> ''STOP_BUDGET'' | STOP_NO_PROGRESS \<Rightarrow> ''STOP_NO_PROGRESS'' | STOP_SAFETY \<Rightarrow> ''STOP_SAFETY'')),
     (''goalIds'', text_array (stopping_goals s)), (''supportedHypothesisIds'', text_array (supported s)),
     (''challengedHypothesisIds'', text_array (challenged s)),
     (''unresolvedHypothesisIds'', text_array (unresolved s)),
     (''outstandingRequestIds'', text_array (outstanding s)),
     (''rationale'', JStr (stopping_rationale s)), (''authority'', JStr ''ADVISORY'')]"

definition artifact_json :: "advisory_artifact \<Rightarrow> json" where
  "artifact_json a = JObj [
     (''protocolVersion'', JStr ''grounded_exploration.v1''), (''artifactId'', JStr (artifact_id a)),
     (''assignmentId'', JStr (artifact_assignment a)), (''artifactKind'', JStr ''ADVISORY_EXPLORATION''),
     (''authority'', JStr ''ADVISORY''), (''verificationStatus'', JStr ''UNVERIFIED''),
     (''publishableAsFinal'', JBool False), (''causalConclusionAllowed'', JBool False),
     (''hypotheses'', JArr (map hypothesis_json (hypotheses a))),
     (''evidenceRequests'', JArr (map request_dump (evidence_requests a))),
     (''analysisPlan'', case analysis_plan_of a of None \<Rightarrow> JNull | Some p \<Rightarrow> plan_json p),
     (''stoppingAssessment'', stopping_json (stopping a)),
     (''sourceArtifactFingerprints'', text_array (artifact_sources a)),
     (''advisoryNotes'', text_array (advisory_notes a))]"

definition advisory_artifact_fingerprint :: "(string \<Rightarrow> string) \<Rightarrow> advisory_artifact \<Rightarrow> string" where
  "advisory_artifact_fingerprint h a = stable_fingerprint h (artifact_json a)"

datatype issue_path =
    AtContractFingerprint | AtAuthorizedGoals | AtArtifacts | AtAssignmentId
  | AtHypothesisGoals nat | AtHypothesisPopulation nat | AtHypothesisTime nat
  | AtRequestGoals nat | AtStepGoals nat | AtStoppingGoals | AtRequest string | Nowhere

datatype scope_name = POPULATION_SCOPE | TIME_SCOPE

datatype protocol_issue =
    GOAL_CONTRACT_FINGERPRINT_MISMATCH issue_path
  | UNKNOWN_EXPLORATION_GOAL issue_path
  | GOAL_NOT_EXPLORATION_AUTHORIZED issue_path
  | ARTIFACT_NOT_IN_SESSION_ALLOWLIST issue_path
  | PARENT_MISMATCH scope_name
  | INHERITANCE_MISMATCH scope_name
  | EXPANSION_OR_UNAUTHORIZED_SCOPE scope_name
  | ASSIGNMENT_ID_MISMATCH issue_path
  | SCOPE_EXPANSION_OR_MISMATCH scope_name issue_path
  | GOAL_OUTSIDE_ASSIGNMENT issue_path
  | DUPLICATE_EVIDENCE_REQUEST issue_path

definition session_artifacts :: "string list \<Rightarrow> string set" where
  "session_artifacts allowlist = set (map py_strip allowlist) - {[]}"

definition assignment_goal_issues :: "exploration_assignment \<Rightarrow> goal_contract \<Rightarrow> string \<Rightarrow> protocol_issue list" where
  "assignment_goal_issues a c gid = (case goal_map c gid of
     None \<Rightarrow> [UNKNOWN_EXPLORATION_GOAL AtAuthorizedGoals]
   | Some g \<Rightarrow> issue_if (py_upper (py_strip (kind_text (body g))) \<noteq> ''ANALYSIS'' \<and> gid \<notin> set (explicit_goal_ids a))
       (GOAL_NOT_EXPLORATION_AUTHORIZED AtAuthorizedGoals))"

definition artifact_issues :: "string list \<Rightarrow> string list \<Rightarrow> protocol_issue list" where
  "artifact_issues allowlist fps = concat (map (\<lambda>f. issue_if (f \<notin> session_artifacts allowlist)
     (ARTIFACT_NOT_IN_SESSION_ALLOWLIST AtArtifacts)) fps)"

definition assignment_issues ::
  "exploration_assignment \<Rightarrow> goal_contract \<Rightarrow> string \<Rightarrow> string list \<Rightarrow> protocol_issue list" where
  "assignment_issues a c expected_fp allowlist =
     issue_if (goal_contract_fp a \<noteq> py_strip expected_fp) (GOAL_CONTRACT_FINGERPRINT_MISMATCH AtContractFingerprint)
     @ concat (map (assignment_goal_issues a c) (authorized_goal_ids a))
     @ artifact_issues allowlist (assigned_artifacts a)"

definition scope_issues ::
  "scope_signature \<Rightarrow> string \<Rightarrow> string list \<Rightarrow> scope_name \<Rightarrow> protocol_issue list" where
  "scope_issues s parent narrower name =
     (if parent_fp s \<noteq> parent then [PARENT_MISMATCH name]
      else issue_if (relation s = INHERIT \<and> scope_fp s \<noteq> parent) (INHERITANCE_MISMATCH name)
        @ issue_if (relation s = NARROW \<and> scope_fp s \<notin> set narrower) (EXPANSION_OR_UNAUTHORIZED_SCOPE name))"

definition hypothesis_issues :: "exploration_assignment \<Rightarrow> nat \<times> hypothesis \<Rightarrow> protocol_issue list" where
  "hypothesis_issues a ip = (case ip of (i, p) \<Rightarrow>
     issue_if (hypothesis_population p \<notin> set (population_fp a # narrower_populations a))
       (SCOPE_EXPANSION_OR_MISMATCH POPULATION_SCOPE (AtHypothesisPopulation i))
     @ issue_if (hypothesis_time p \<notin> set (time_fp a # narrower_times a))
       (SCOPE_EXPANSION_OR_MISMATCH TIME_SCOPE (AtHypothesisTime i)))"

definition request_issues :: "exploration_assignment \<Rightarrow> evidence_request \<Rightarrow> protocol_issue list" where
  "request_issues a r =
     scope_issues (request_population r) (population_fp a) (narrower_populations a) POPULATION_SCOPE
     @ scope_issues (request_time r) (time_fp a) (narrower_times a) TIME_SCOPE"

definition artifact_goal_paths :: "advisory_artifact \<Rightarrow> (string \<times> issue_path) list" where
  "artifact_goal_paths art =
     concat (map (\<lambda>(i, p). map (\<lambda>g. (g, AtHypothesisGoals i)) (hypothesis_goals p)) (List.enumerate 0 (hypotheses art)))
     @ concat (map (\<lambda>(i, r). map (\<lambda>g. (g, AtRequestGoals i)) (request_goals r))
         (List.enumerate 0 (evidence_requests art)))
     @ (case analysis_plan_of art of None \<Rightarrow> [] | Some p \<Rightarrow>
         concat (map (\<lambda>(i, s). map (\<lambda>g. (g, AtStepGoals i)) (step_goals s)) (List.enumerate 0 (plan_steps p))))
     @ map (\<lambda>g. (g, AtStoppingGoals)) (stopping_goals (stopping art))"

definition goal_path_issues ::
  "exploration_assignment \<Rightarrow> goal_contract \<Rightarrow> string \<times> issue_path \<Rightarrow> protocol_issue list" where
  "goal_path_issues a c gp = (case gp of (g, path) \<Rightarrow>
     if goal_map c g = None then [UNKNOWN_EXPLORATION_GOAL path]
     else issue_if (g \<notin> set (authorized_goal_ids a)) (GOAL_OUTSIDE_ASSIGNMENT path))"

definition referenced_artifacts :: "exploration_assignment \<Rightarrow> advisory_artifact \<Rightarrow> string list" where
  "referenced_artifacts a art = fromkeys (assigned_artifacts a @ artifact_sources art
     @ concat (map request_artifacts (evidence_requests art)))"

fun duplicate_request_issues :: "(string \<Rightarrow> string) \<Rightarrow> string list \<Rightarrow> evidence_request list \<Rightarrow> protocol_issue list" where
  "duplicate_request_issues h seen [] = []"
| "duplicate_request_issues h seen (r # rs) =
     (let fp = evidence_request_fingerprint h r
      in if fp \<in> set seen
         then DUPLICATE_EVIDENCE_REQUEST (AtRequest (request_id r)) # duplicate_request_issues h seen rs
         else duplicate_request_issues h (fp # seen) rs)"

text \<open>\<open>validate_advisory_exploration_artifact\<close>: the result is valid when there is no issue.\<close>

definition advisory_issues ::
  "(string \<Rightarrow> string) \<Rightarrow> exploration_assignment \<Rightarrow> advisory_artifact \<Rightarrow> goal_contract \<Rightarrow> string \<Rightarrow> string list
    \<Rightarrow> protocol_issue list" where
  "advisory_issues h a art c expected_fp allowlist =
     assignment_issues a c expected_fp allowlist
     @ issue_if (artifact_assignment art \<noteq> assignment_id a) (ASSIGNMENT_ID_MISMATCH AtAssignmentId)
     @ concat (map (hypothesis_issues a) (List.enumerate 0 (hypotheses art)))
     @ concat (map (request_issues a) (evidence_requests art))
     @ concat (map (goal_path_issues a c) (artifact_goal_paths art))
     @ artifact_issues allowlist (referenced_artifacts a art)
     @ duplicate_request_issues h [] (evidence_requests art)"

section \<open>The ledger\<close>

datatype event_type =
    ASSIGNMENT_ACCEPTED | HYPOTHESIS_PROPOSED | EVIDENCE_REQUESTED | ANALYSIS_PLAN_PROPOSED
  | STOPPING_ASSESSED | ADVISORY_ARTIFACT_EMITTED

fun event_type_text :: "event_type \<Rightarrow> string" where
  "event_type_text ASSIGNMENT_ACCEPTED = ''ASSIGNMENT_ACCEPTED''"
| "event_type_text HYPOTHESIS_PROPOSED = ''HYPOTHESIS_PROPOSED''"
| "event_type_text EVIDENCE_REQUESTED = ''EVIDENCE_REQUESTED''"
| "event_type_text ANALYSIS_PLAN_PROPOSED = ''ANALYSIS_PLAN_PROPOSED''"
| "event_type_text STOPPING_ASSESSED = ''STOPPING_ASSESSED''"
| "event_type_text ADVISORY_ARTIFACT_EMITTED = ''ADVISORY_ARTIFACT_EMITTED''"

datatype event_actor = ROOT_KERNEL | EXPLORATION_WORKER

fun actor_text :: "event_actor \<Rightarrow> string" where
  "actor_text ROOT_KERNEL = ''ROOT_KERNEL''"
| "actor_text EXPLORATION_WORKER = ''EXPLORATION_WORKER''"

record ledger_event =
  event_id :: string
  event_assignment :: string
  sequence :: int
  event_type :: event_type
  actor :: event_actor
  payload_fp :: string
  event_sources :: "string list"
  previous_fp :: string
  event_fp :: string

definition event_json :: "ledger_event \<Rightarrow> json" where
  "event_json e = JObj [
     (''eventId'', JStr (event_id e)), (''assignmentId'', JStr (event_assignment e)),
     (''sequence'', JInt (sequence e)), (''eventType'', JStr (event_type_text (event_type e))),
     (''actor'', JStr (actor_text (actor e))), (''authority'', JStr ''ADVISORY''),
     (''payloadFingerprint'', JStr (payload_fp e)),
     (''sourceArtifactFingerprints'', JArr (map JStr (sort (event_sources e)))),
     (''previousEventFingerprint'', JStr (previous_fp e))]"

definition ledger_event_fingerprint :: "(string \<Rightarrow> string) \<Rightarrow> ledger_event \<Rightarrow> string" where
  "ledger_event_fingerprint h e = stable_fingerprint h (event_json e)"

text \<open>The checks of \<open>LedgerEvent\<close>; the first is \<open>ge=1\<close> of the field.\<close>

definition check_event :: "(string \<Rightarrow> string) \<Rightarrow> ledger_event \<Rightarrow> check" where
  "check_event h e = all_checks [
     require (1 \<le> sequence e) LedgerSequenceGap,
     require_nonempty (event_id e) ''event_id'',
     require_nonempty (event_assignment e) ''assignment_id'',
     require_nonempty (payload_fp e) ''payload_fingerprint'',
     require_nonempty (event_fp e) ''event_fingerprint'',
     require_unique (event_sources e) ''source_artifact_fingerprints'',
     require (event_fp e = ledger_event_fingerprint h e) EventFingerprintMismatch]"

text \<open>\<open>build_ledger_event\<close>: the fingerprint field is computed; what it builds is checked.\<close>

definition build_event :: "(string \<Rightarrow> string) \<Rightarrow> ledger_event \<Rightarrow> protocol_error + ledger_event" where
  "build_event h e = (let e' = e\<lparr>event_fp := ledger_event_fingerprint h e\<rparr>
     in bind_res (check_event h e') (\<lambda>_. Inr e'))"

record ledger_state =
  ledger_assignment :: string
  revision :: int
  events :: "ledger_event list"
  head_fp :: string

fun chain_loop :: "string \<Rightarrow> int \<Rightarrow> string \<Rightarrow> string list \<Rightarrow> ledger_event list \<Rightarrow> protocol_error + string" where
  "chain_loop asg index previous seen [] = Inr previous"
| "chain_loop asg index previous seen (e # es) =
     (if event_assignment e \<noteq> asg then Inl LedgerAssignmentMismatch
      else if sequence e \<noteq> index then Inl LedgerSequenceGap
      else if previous_fp e \<noteq> previous then Inl LedgerChainMismatch
      else if event_id e \<in> set seen then Inl LedgerEventIdRepeated
      else chain_loop asg (index + 1) (event_fp e) (event_id e # seen) es)"

definition check_ledger :: "(string \<Rightarrow> string) \<Rightarrow> ledger_state \<Rightarrow> check" where
  "check_ledger h l = all_checks [
     require (0 \<le> revision l) LedgerRevisionMismatch,
     all_checks (map (check_event h) (events l)),
     require_nonempty (ledger_assignment l) ''assignment_id'',
     require (revision l = int (length (events l))) LedgerRevisionMismatch,
     bind_res (chain_loop (ledger_assignment l) 1 [] [] (events l))
       (\<lambda>previous. require (head_fp l = previous) LedgerHeadMismatch)]"

definition append_event ::
  "(string \<Rightarrow> string) \<Rightarrow> ledger_state \<Rightarrow> ledger_event \<Rightarrow> int \<Rightarrow> protocol_error + ledger_state" where
  "append_event h l e expected_revision =
     (if expected_revision \<noteq> revision l then Inl RevisionConflict
      else if event_assignment e \<noteq> ledger_assignment l then Inl LedgerAssignmentMismatch
      else if sequence e \<noteq> revision l + 1 then Inl LedgerSequenceGap
      else if previous_fp e \<noteq> head_fp l then Inl LedgerChainMismatch
      else if \<exists>x\<in>set (events l). event_id x = event_id e then Inl LedgerEventIdRepeated
      else (let l' = \<lparr>ledger_assignment = ledger_assignment l, revision = revision l + 1,
              events = events l @ [e], head_fp = event_fp e\<rparr>
            in bind_res (check_ledger h l') (\<lambda>_. Inr l')))"

end
