(* ===== verification/Exploration_Laws.thy ===== *)
theory Exploration_Laws
  imports Exploration_Protocol
begin

text \<open>
  What the exploration protocol guarantees: an accepted answer stays inside its assignment, an accepted
  plan is acyclic, and the ledger is an append-only chain whose head determines its history.
\<close>

section \<open>Accepted answers stay inside the assignment\<close>

lemma issue_if_none [simp]: "issue_if b i = [] \<longleftrightarrow> \<not> b"
  by (simp add: issue_if_def)

lemma artifact_issues_Nil: "artifact_issues al fps = [] \<longleftrightarrow> set fps \<subseteq> session_artifacts al"
  by (auto simp: artifact_issues_def concat_map_Nil_iff)

definition may_explore :: "exploration_assignment \<Rightarrow> goal_contract \<Rightarrow> string \<Rightarrow> bool" where
  "may_explore a c g = (case goal_map c g of None \<Rightarrow> False
     | Some goal \<Rightarrow> (\<exists>k i b. body goal = Analysis k i b) \<or> g \<in> set (explicit_goal_ids a))"

lemma kind_text_normal: "py_upper (py_strip (kind_text b)) = kind_text b"
  by (cases b; simp only: kind_text.simps; code_simp)

lemma analysis_kind: "py_upper (py_strip (kind_text b)) = ''ANALYSIS'' \<longleftrightarrow> (\<exists>k i j. b = Analysis k i j)"
  unfolding kind_text_normal by (cases b) simp_all

lemma assignment_issues_Nil:
  "assignment_issues a c fp al = [] \<longleftrightarrow> goal_contract_fp a = py_strip fp
     \<and> (\<forall>g\<in>set (authorized_goal_ids a). may_explore a c g) \<and> set (assigned_artifacts a) \<subseteq> session_artifacts al"
  by (auto simp: assignment_issues_def artifact_issues_Nil concat_map_Nil_iff assignment_goal_issues_def
      may_explore_def analysis_kind split: option.splits)

definition scope_within :: "scope_signature \<Rightarrow> string \<Rightarrow> string list \<Rightarrow> bool" where
  "scope_within s parent narrower \<longleftrightarrow> parent_fp s = parent
     \<and> (case relation s of INHERIT \<Rightarrow> scope_fp s = parent | NARROW \<Rightarrow> scope_fp s \<in> set narrower)"

lemma scope_issues_Nil: "scope_issues s parent narrower n = [] \<longleftrightarrow> scope_within s parent narrower"
  by (cases "relation s") (auto simp: scope_issues_def scope_within_def)

definition artifact_goals :: "advisory_artifact \<Rightarrow> string set" where
  "artifact_goals art = (\<Union>p\<in>set (hypotheses art). set (hypothesis_goals p))
     \<union> (\<Union>r\<in>set (evidence_requests art). set (request_goals r))
     \<union> (case analysis_plan_of art of None \<Rightarrow> {} | Some p \<Rightarrow> \<Union>s\<in>set (plan_steps p). set (step_goals s))
     \<union> set (stopping_goals (stopping art))"

lemma enumerate_goals:
  "map fst (concat (map (\<lambda>(i, x). map (\<lambda>g. (g, mk i)) (gs x)) (List.enumerate n xs))) = concat (map gs xs)"
  by (induction xs arbitrary: n) (auto simp: comp_def)

lemma artifact_goal_paths_set: "set (map fst (artifact_goal_paths art)) = artifact_goals art"
  unfolding artifact_goal_paths_def artifact_goals_def
  by (cases "analysis_plan_of art") (simp_all only: map_append enumerate_goals set_append option.case,
    auto simp: comp_def)

lemma goal_path_issues_Nil:
  "goal_path_issues a c gp = [] \<longleftrightarrow> goal_map c (fst gp) \<noteq> None \<and> fst gp \<in> set (authorized_goal_ids a)"
  by (cases gp) (auto simp: goal_path_issues_def)

lemma hypothesis_issues_Nil:
  "concat (map (hypothesis_issues a) (List.enumerate n ps)) = []
     \<longleftrightarrow> (\<forall>p\<in>set ps. hypothesis_population p \<in> set (population_fp a # narrower_populations a)
       \<and> hypothesis_time p \<in> set (time_fp a # narrower_times a))"
  by (induction ps arbitrary: n) (auto simp: hypothesis_issues_def)

lemma duplicate_request_issues_Nil:
  "duplicate_request_issues h seen rs = []
     \<longleftrightarrow> distinct (map (evidence_request_fingerprint h) rs)
       \<and> set (map (evidence_request_fingerprint h) rs) \<inter> set seen = {}"
  by (induction rs arbitrary: seen) (auto simp: Let_def)

text \<open>
  What a valid answer promises. Every goal it mentions is one of the assignment and of the contract,
  and may be explored; hypotheses and requests stay in the population and the time of the assignment,
  or narrow them as the root allowed; every source is an artifact of the session.
\<close>

definition inside_assignment ::
  "exploration_assignment \<Rightarrow> goal_contract \<Rightarrow> string list \<Rightarrow> advisory_artifact \<Rightarrow> bool" where
  "inside_assignment a c allowlist art \<longleftrightarrow>
     (\<forall>g\<in>artifact_goals art. g \<in> set (authorized_goal_ids a) \<and> goal_map c g \<noteq> None)
     \<and> (\<forall>g\<in>set (authorized_goal_ids a). may_explore a c g)
     \<and> (\<forall>p\<in>set (hypotheses art). hypothesis_population p \<in> set (population_fp a # narrower_populations a)
         \<and> hypothesis_time p \<in> set (time_fp a # narrower_times a))
     \<and> (\<forall>r\<in>set (evidence_requests art).
         scope_within (request_population r) (population_fp a) (narrower_populations a)
         \<and> scope_within (request_time r) (time_fp a) (narrower_times a))
     \<and> set (assigned_artifacts a) \<union> set (artifact_sources art)
       \<union> (\<Union>r\<in>set (evidence_requests art). set (request_artifacts r)) \<subseteq> session_artifacts allowlist"

text \<open>
  C17: \<open>validate_advisory_exploration_artifact\<close> reports no issue exactly when the answer stays inside its
  assignment (goals, populations, times, artifacts), belongs to it, binds the active contract, and
  asks no question twice.
\<close>

theorem advisory_valid_iff_inside:
  "advisory_issues h a art c expected_fp allowlist = [] \<longleftrightarrow>
     goal_contract_fp a = py_strip expected_fp \<and> artifact_assignment art = assignment_id a
     \<and> inside_assignment a c allowlist art
     \<and> distinct (map (evidence_request_fingerprint h) (evidence_requests art))"
proof -
  have goals: "concat (map (goal_path_issues a c) (artifact_goal_paths art)) = []
      \<longleftrightarrow> (\<forall>g\<in>artifact_goals art. g \<in> set (authorized_goal_ids a) \<and> goal_map c g \<noteq> None)"
    unfolding concat_map_Nil_iff goal_path_issues_Nil artifact_goal_paths_set [symmetric] by auto
  have requests: "concat (map (request_issues a) (evidence_requests art)) = []
      \<longleftrightarrow> (\<forall>r\<in>set (evidence_requests art).
         scope_within (request_population r) (population_fp a) (narrower_populations a)
         \<and> scope_within (request_time r) (time_fp a) (narrower_times a))"
    by (simp add: concat_map_Nil_iff request_issues_def scope_issues_Nil)
  have arts: "artifact_issues allowlist (referenced_artifacts a art) = []
      \<longleftrightarrow> set (assigned_artifacts a) \<union> set (artifact_sources art)
       \<union> (\<Union>r\<in>set (evidence_requests art). set (request_artifacts r)) \<subseteq> session_artifacts allowlist"
    by (auto simp: artifact_issues_Nil referenced_artifacts_def)
  show ?thesis
    unfolding advisory_issues_def append_is_Nil_conv assignment_issues_Nil issue_if_none goals requests arts
      hypothesis_issues_Nil duplicate_request_issues_Nil inside_assignment_def
    by auto
qed

section \<open>Accepted plans can be carried out\<close>

text \<open>An order of the nodes in which every node comes after all it depends on.\<close>

fun runs_in_order :: "'a digraph \<Rightarrow> 'a set \<Rightarrow> 'a list \<Rightarrow> bool" where
  "runs_in_order G finished [] = True"
| "runs_in_order G finished (v # vs) =
     (v \<notin> finished \<and> set (succs G v) \<subseteq> finished \<and> runs_in_order G (insert v finished) vs)"

lemma runs_in_order_ordered:
  "ordered_by (edges G) acc \<Longrightarrow> runs_in_order G (set acc) vs \<longleftrightarrow> ordered_by (edges G) (rev vs @ acc)"
proof (induction vs arbitrary: acc)
  case (Cons v vs)
  have suffix: "ordered_by r (xs @ ys) \<Longrightarrow> ordered_by r ys" for r :: "('a \<times> 'a) set" and xs ys
    by (induction xs) auto
  show ?case
  proof (cases "v \<notin> set acc \<and> set (succs G v) \<subseteq> set acc")
    case True
    then have "ordered_by (edges G) (v # acc)" using Cons.prems by (auto simp: Image_iff)
    from Cons.IH [OF this] True show ?thesis by simp
  next
    case False
    then have "\<not> ordered_by (edges G) (v # acc)" by (auto simp: Image_iff subset_iff)
    then show ?thesis using False suffix [of "edges G" "rev vs" "v # acc"] by auto
  qed
qed simp

lemma ordered_by_filter:
  "ordered_by r vs \<Longrightarrow> r `` K \<subseteq> K \<Longrightarrow> ordered_by r (filter (\<lambda>v. v \<in> K) vs)"
  by (induction vs) auto

lemma acyclic_visit_order:
  assumes closed: "targets_of G \<subseteq> fst ` set G"
  shows "acyclic_visit G \<longleftrightarrow> (\<exists>vs. set vs = fst ` set G \<and> runs_in_order G {} vs)"
proof
  assume "acyclic_visit G"
  then obtain v where v: "find_cycle G [] (map fst G) [] = Inr v"
    using visit_all_find_cycle [of "[]" "[]" G "map fst G"]
    by (cases "find_cycle G [] (map fst G) []") (auto simp: acyclic_visit_def)
  have o: "ordered_by (edges G) v" "set (map fst G) \<subseteq> set v" using find_cycle_Inr [OF v] by auto
  let ?w = "filter (\<lambda>x. x \<in> fst ` set G) v"
  have "ordered_by (edges G) ?w"
    by (rule ordered_by_filter [OF o(1)]) (use closed in \<open>force simp: Image_iff dest: succs_in_targets\<close>)
  then have "runs_in_order G (set []) (rev ?w)" using runs_in_order_ordered [of G "[]" "rev ?w"] by simp
  moreover have "set (rev ?w) = fst ` set G" using o(2) by auto
  ultimately show "\<exists>vs. set vs = fst ` set G \<and> runs_in_order G {} vs" by (intro exI conjI) simp_all
next
  assume "\<exists>vs. set vs = fst ` set G \<and> runs_in_order G {} vs"
  then obtain vs where vs: "set vs = fst ` set G" "runs_in_order G {} vs" by blast
  then have "ordered_by (edges G) (rev vs)" using runs_in_order_ordered [of G "[]" vs] by simp
  then have "acyclic (edges G)" by (rule ordered_by_acyclic) (simp add: vs Domain_edges)
  then show "acyclic_visit G" by (simp add: acyclic_visit_iff)
qed

lemma targets_map: "targets_of (map (\<lambda>s. (f s, g s)) ss) = (\<Union>s\<in>set ss. set (g s))"
  by (auto simp: targets_of_def)

lemma all_checks_map: "all_checks (map f xs) = Inr () \<longleftrightarrow> (\<forall>x\<in>set xs. f x = Inr ())"
  by auto

text \<open>
  C32: an analysis plan is accepted exactly when its steps are well formed with distinct identifiers,
  its terminal steps and dependencies name steps of the plan, and the steps have an order in which
  each comes after everything it depends on, so that it can be carried out.
\<close>

theorem plan_accepted_iff_runnable:
  "check_plan p = Inr () \<longleftrightarrow>
     (\<forall>s\<in>set (plan_steps p). check_step s = Inr ()) \<and> py_strip (plan_id p) \<noteq> [] \<and> plan_steps p \<noteq> []
     \<and> unique_texts (map step_id (plan_steps p)) \<and> unique_texts (terminal_steps p)
     \<and> terminal_steps p \<noteq> [] \<and> set (terminal_steps p) \<subseteq> step_id ` set (plan_steps p)
     \<and> (\<forall>s\<in>set (plan_steps p). set (step_depends_on s) \<subseteq> step_id ` set (plan_steps p))
     \<and> (\<exists>order. set order = step_id ` set (plan_steps p) \<and> runs_in_order (step_graph (plan_steps p)) {} order)"
proof (cases "\<forall>s\<in>set (plan_steps p). set (step_depends_on s) \<subseteq> step_id ` set (plan_steps p)")
  case True
  then have "targets_of (step_graph (plan_steps p)) \<subseteq> fst ` set (step_graph (plan_steps p))"
    by (auto simp: step_graph_def targets_map image_image)
  from acyclic_visit_order [OF this]
  have "acyclic_visit (step_graph (plan_steps p))
      \<longleftrightarrow> (\<exists>order. set order = step_id ` set (plan_steps p) \<and> runs_in_order (step_graph (plan_steps p)) {} order)"
    by (simp add: step_graph_def image_image)
  then show ?thesis by (simp add: check_plan_def Let_def)
next
  case False
  then show ?thesis by (auto simp add: check_plan_def Let_def)
qed

definition sample_plan :: analysis_plan where
  "sample_plan = \<lparr>plan_id = ''p'',
     plan_steps = [\<lparr>step_id = ''b'', step_goals = [''g''], step_requests = [''r''], step_hypotheses = [], step_depends_on = [''a'']\<rparr>,
       \<lparr>step_id = ''a'', step_goals = [''g''], step_requests = [''r''], step_hypotheses = [], step_depends_on = []\<rparr>],
     terminal_steps = [''b'']\<rparr>"

theorem plan_accepted_iff_runnable_witness:
  "check_plan sample_plan = Inr ()
   \<and> (\<exists>order. set order = step_id ` set (plan_steps sample_plan) \<and> runs_in_order (step_graph (plan_steps sample_plan)) {} order)
   \<and> check_plan (sample_plan\<lparr>terminal_steps := [''c'']\<rparr>) \<noteq> Inr ()"
proof -
  have "check_plan sample_plan = Inr ()" "check_plan (sample_plan\<lparr>terminal_steps := [''c'']\<rparr>) \<noteq> Inr ()" by code_simp+
  with plan_accepted_iff_runnable [of sample_plan] show ?thesis by blast
qed

section \<open>The ledger is an append-only chain\<close>

text \<open>What \<open>check_ledger\<close> accepts, as a chain: \<open>chained asg i prev es fin\<close> for the events from the \<open>i\<close>-th on.\<close>

fun chained :: "string \<Rightarrow> int \<Rightarrow> string \<Rightarrow> ledger_event list \<Rightarrow> string \<Rightarrow> bool" where
  "chained asg i previous [] last_fp = (last_fp = previous)"
| "chained asg i previous (e # es) last_fp =
     (event_assignment e = asg \<and> sequence e = i \<and> previous_fp e = previous
      \<and> chained asg (i + 1) (event_fp e) es last_fp)"

lemma chain_loop_Inr:
  "chain_loop asg i previous seen es = Inr last_fp
     \<longleftrightarrow> chained asg i previous es last_fp \<and> distinct (map event_id es) \<and> set (map event_id es) \<inter> set seen = {}"
  by (induction asg i previous seen es rule: chain_loop.induct) auto

lemma bind_require_Inr:
  "bind_res m (\<lambda>x. require (P x) err) = Inr u \<longleftrightarrow> (\<exists>x. m = Inr x \<and> P x)"
  by (cases m) auto

lemma check_ledger_iff:
  "check_ledger h l = Inr () \<longleftrightarrow> revision l = int (length (events l)) \<and> py_strip (ledger_assignment l) \<noteq> []
     \<and> (\<forall>e\<in>set (events l). check_event h e = Inr ()) \<and> distinct (map event_id (events l))
     \<and> chained (ledger_assignment l) 1 [] (events l) (head_fp l)"
  by (auto simp: check_ledger_def bind_require_Inr chain_loop_Inr)

lemma chained_append:
  "chained asg i previous (es @ [e]) last_fp \<longleftrightarrow>
     chained asg i previous es (previous_fp e) \<and> event_assignment e = asg
     \<and> sequence e = i + int (length es) \<and> last_fp = event_fp e"
  by (induction es arbitrary: i previous) auto

lemma append_stale: "n \<noteq> revision l \<Longrightarrow> append_event h l e n = Inl RevisionConflict"
  by (simp add: append_event_def)

text \<open>
  Appending to a checked ledger succeeds exactly when the writer knows the current revision and
  brings a well-formed event that follows the head (assignment, sequence, previous fingerprint) under
  a new identifier. The result is again a checked ledger, with the old events untouched in front of
  the new one, and any other writer that still holds the old revision is refused.
\<close>

theorem ledger_append_spec:
  assumes "check_ledger h l = Inr ()"
  shows "((\<exists>l'. append_event h l e n = Inr l') \<longleftrightarrow>
      n = revision l \<and> check_event h e = Inr () \<and> event_assignment e = ledger_assignment l
      \<and> sequence e = revision l + 1 \<and> previous_fp e = head_fp l \<and> event_id e \<notin> event_id ` set (events l))
    \<and> (\<forall>l' e' . append_event h l e n = Inr l' \<longrightarrow>
        check_ledger h l' = Inr () \<and> events l' = events l @ [e] \<and> head_fp l' = event_fp e
        \<and> append_event h l' e' n = Inl RevisionConflict)"
proof (rule conjI, rule iffI)
  assume "\<exists>l'. append_event h l e n = Inr l'"
  then show "n = revision l \<and> check_event h e = Inr () \<and> event_assignment e = ledger_assignment l
      \<and> sequence e = revision l + 1 \<and> previous_fp e = head_fp l \<and> event_id e \<notin> event_id ` set (events l)"
    by (auto simp: append_event_def check_ledger_iff Let_def elim!: bind_res_InrE split: if_splits)
next
  assume r: "n = revision l \<and> check_event h e = Inr () \<and> event_assignment e = ledger_assignment l
      \<and> sequence e = revision l + 1 \<and> previous_fp e = head_fp l \<and> event_id e \<notin> event_id ` set (events l)"
  define l' where "l' = \<lparr>ledger_assignment = ledger_assignment l, revision = revision l + 1,
    events = events l @ [e], head_fp = event_fp e\<rparr>"
  have "check_ledger h l' = Inr ()"
    using assms r by (auto simp: l'_def check_ledger_iff chained_append)
  moreover have "\<not> (\<exists>x\<in>set (events l). event_id x = event_id e)" using r by (metis imageI)
  ultimately show "\<exists>l'. append_event h l e n = Inr l'"
    using r by (simp add: append_event_def l'_def)
next
  have ok: "check_ledger h l' = Inr () \<and> events l' = events l @ [e] \<and> head_fp l' = event_fp e \<and> revision l' = n + 1"
    if "append_event h l e n = Inr l'" for l'
    using that by (auto simp: append_event_def Let_def elim!: bind_res_InrE split: if_splits)
  show "\<forall>l' e'. append_event h l e n = Inr l' \<longrightarrow>
        check_ledger h l' = Inr () \<and> events l' = events l @ [e] \<and> head_fp l' = event_fp e
        \<and> append_event h l' e' n = Inl RevisionConflict"
    using append_stale by (auto dest!: ok)
qed

text \<open>Events that say the same: equal up to the order of their sources.\<close>

definition event_content :: "ledger_event \<Rightarrow> ledger_event" where
  "event_content e = e\<lparr>event_sources := sort (event_sources e)\<rparr>"

lemma event_type_text_inj [simp]: "event_type_text a = event_type_text b \<longleftrightarrow> a = b"
  by (cases a; cases b) auto

lemma actor_text_inj [simp]: "actor_text a = actor_text b \<longleftrightarrow> a = b"
  by (cases a; cases b) auto

lemma canon_text_array: "canon (JArr (map JStr xs)) = JArr (map JStr xs)"
  by (simp add: comp_def)

lemma map_JStr_inj [simp]: "map JStr xs = map JStr ys \<longleftrightarrow> xs = ys"
  by (rule inj_map_eq_map) (simp add: inj_def)

lemma event_json_content:
  assumes "canon (event_json d) = canon (event_json e)" and "event_fp d = event_fp e"
  shows "event_content d = event_content (e :: ledger_event)"
proof -
  have "distinct [''eventId'', ''assignmentId'', ''sequence'', ''eventType'', ''actor'', ''authority'',
      ''payloadFingerprint'', ''sourceArtifactFingerprints'', ''previousEventFingerprint'']"
    by code_simp
  with canon_eq_values [OF assms(1) [unfolded event_json_def]] assms(2) show ?thesis
    by (simp add: event_content_def comp_def inj_map_eq_map inj_def)
qed

lemma checked_events_content:
  assumes "inj h" and "check_event h d = Inr ()" and "check_event h e = Inr ()" and "event_fp d = event_fp e"
  shows "event_content d = event_content e" and "previous_fp d = previous_fp e"
proof -
  have "ledger_event_fingerprint h d = ledger_event_fingerprint h e"
    using assms by (simp add: check_event_def)
  then have c: "canon (event_json d) = canon (event_json e)"
    using assms(1) by (simp add: ledger_event_fingerprint_def stable_fingerprint_eq_iff)
  show "event_content d = event_content e" by (rule event_json_content [OF c assms(4)])
  then show "previous_fp d = previous_fp e" by (cases d; cases e) (simp add: event_content_def)
qed

lemma checked_event_fp: "check_event h e = Inr () \<Longrightarrow> event_fp e \<noteq> []"
  by (auto simp: check_event_def py_strip_def strip_of_def lstrip_of_def)

lemma chained_empty_head:
  "chained asg i [] es [] \<Longrightarrow> \<forall>e\<in>set es. check_event h e = Inr () \<Longrightarrow> es = []"
  by (cases es rule: rev_cases) (auto simp: chained_append dest: checked_event_fp)

lemma chain_head_unique:
  assumes h: "inj h"
  shows "chained asg 1 [] es f \<Longrightarrow> chained asg' 1 [] es' f \<Longrightarrow> \<forall>e\<in>set es. check_event h e = Inr () \<Longrightarrow>
    \<forall>e\<in>set es'. check_event h e = Inr () \<Longrightarrow> map event_content es = map event_content es'"
proof (induction es arbitrary: es' f rule: rev_induct)
  case Nil
  then show ?case using chained_empty_head [of asg' 1 es' h] by simp
next
  case (snoc e es)
  show ?case
  proof (cases es' rule: rev_cases)
    case Nil
    with snoc.prems show ?thesis using chained_empty_head [of asg 1 "es @ [e]" h] by simp
  next
    case (snoc ys y)
    have fp: "event_fp e = event_fp y" and e: "check_event h e = Inr ()" and y: "check_event h y = Inr ()"
      using snoc.prems snoc by (simp_all add: chained_append)
    note same = checked_events_content [OF h e y fp]
    have "map event_content es = map event_content ys"
      using snoc.IH [of "previous_fp e" ys] snoc.prems snoc same(2) by (simp add: chained_append)
    with same(1) snoc show ?thesis by simp
  qed
qed

text \<open>
  C19: the head of a checked ledger determines its whole history: two ledgers with the same head
  fingerprint, however they were obtained, hold the same events in the same order, up to the order in
  which an event lists its sources. No event can be changed, dropped or reordered behind a head. The
  hash function is assumed not to collide.
\<close>

theorem ledger_head_determines_history:
  assumes "inj h" and "check_ledger h l = Inr ()" and "check_ledger h l' = Inr ()" and "head_fp l = head_fp l'"
  shows "map event_content (events l) = map event_content (events l') \<and> revision l = revision l'"
proof -
  have "map event_content (events l) = map event_content (events l')"
    by (rule chain_head_unique [OF assms(1), where asg = "ledger_assignment l" and f = "head_fp l'"
          and asg' = "ledger_assignment l'"]) (use assms(2-4) in \<open>simp_all add: check_ledger_iff\<close>)
  moreover from this have "length (events l) = length (events l')" by (metis length_map)
  ultimately show ?thesis using assms(2, 3) by (simp add: check_ledger_iff)
qed

section \<open>Examples\<close>

definition sample_event :: "string \<Rightarrow> int \<Rightarrow> string \<Rightarrow> ledger_event" where
  "sample_event eid n prev = (let e = \<lparr>event_id = eid, event_assignment = ''a1'', sequence = n,
     event_type = HYPOTHESIS_PROPOSED, actor = EXPLORATION_WORKER, payload_fp = ''p'', event_sources = [''s1''],
     previous_fp = prev, event_fp = []\<rparr> in e\<lparr>event_fp := ledger_event_fingerprint id e\<rparr>)"

definition sample_ledger :: ledger_state where
  "sample_ledger = \<lparr>ledger_assignment = ''a1'', revision = 1, events = [sample_event ''e1'' 1 []],
     head_fp = event_fp (sample_event ''e1'' 1 [])\<rparr>"

lemma sample_ledger_ok: "check_ledger id sample_ledger = Inr ()"
  by code_simp

theorem ledger_append_spec_witness:
  "\<exists>l'. append_event id sample_ledger (sample_event ''e2'' 2 (head_fp sample_ledger)) 1 = Inr l'
    \<and> append_event id l' (sample_event ''e3'' 2 (head_fp sample_ledger)) 1 = Inl RevisionConflict"
proof -
  let ?e = "sample_event ''e2'' 2 (head_fp sample_ledger)"
  note spec = ledger_append_spec [OF sample_ledger_ok, of ?e 1]
  have "isl (append_event id sample_ledger ?e 1) = False" by code_simp
  then obtain l' where l': "append_event id sample_ledger ?e 1 = Inr l'"
    by (cases "append_event id sample_ledger ?e 1") auto
  with spec show ?thesis by blast
qed

text \<open>
  A ledger of two events that names two sources of the second one in some order, and the ledger that
  stores them in another order under the same fingerprints; and one with other sources.
\<close>

definition sourced_ledger :: "string list \<Rightarrow> ledger_state" where
  "sourced_ledger sources = (let first = sample_event ''e1'' 1 [];
       e = \<lparr>event_id = ''e2'', event_assignment = ''a1'', sequence = 2, event_type = HYPOTHESIS_PROPOSED,
         actor = EXPLORATION_WORKER, payload_fp = ''p'', event_sources = sources, previous_fp = event_fp first, event_fp = []\<rparr>;
       second = e\<lparr>event_fp := ledger_event_fingerprint id e\<rparr>
     in \<lparr>ledger_assignment = ''a1'', revision = 2, events = [first, second], head_fp = event_fp second\<rparr>)"

theorem ledger_head_determines_history_witness:
  "check_ledger id (sourced_ledger [''s1'', ''s2'']) = Inr ()
   \<and> check_ledger id (sourced_ledger [''s2'', ''s1'']) = Inr ()
   \<and> events (sourced_ledger [''s1'', ''s2'']) \<noteq> events (sourced_ledger [''s2'', ''s1''])
   \<and> map event_content (events (sourced_ledger [''s1'', ''s2'']))
     = map event_content (events (sourced_ledger [''s2'', ''s1'']))
   \<and> check_ledger id (sourced_ledger [''s1'', ''s3'']) = Inr ()
   \<and> head_fp (sourced_ledger [''s1'', ''s3'']) \<noteq> head_fp (sourced_ledger [''s1'', ''s2''])"
proof -
  let ?l = sourced_ledger
  have ok: "check_ledger id (?l [''s1'', ''s2'']) = Inr ()" "check_ledger id (?l [''s2'', ''s1'']) = Inr ()"
    "check_ledger id (?l [''s1'', ''s3'']) = Inr ()" by code_simp+
  have head: "head_fp (?l [''s1'', ''s2'']) = head_fp (?l [''s2'', ''s1''])" by code_simp
  have "events (?l [''s1'', ''s2'']) \<noteq> events (?l [''s2'', ''s1''])"
    "map event_content (events (?l [''s1'', ''s3''])) \<noteq> map event_content (events (?l [''s1'', ''s2'']))"
    by (simp_all add: sourced_ledger_def event_content_def Let_def)
  moreover have "map event_content (events (?l [''s1'', ''s2''])) = map event_content (events (?l [''s2'', ''s1'']))"
    using ledger_head_determines_history [OF inj_on_id ok(1,2) head] by blast
  ultimately show ?thesis using ledger_head_determines_history [OF inj_on_id ok(3,1)] ok by blast
qed

end
