(* ===== verification/Exploration_Coordinator.thy ===== *)
theory Exploration_Coordinator
  imports Exploration_Laws
begin

text \<open>
  The root's side of exploration (\<^verbatim>\<open>grounded_exploration_coordinator.py\<close>): issuing an
  assignment, running a worker on it, and recording what it returns in a store that only swaps a state
  against the revision it was read at.

  Parameters are the artifact catalog (\<open>resolve\<close>: the views of the requested artifacts, or a failure),
  the worker (a function from the invocation to what it returns or raises), the identifiers the
  factory gives out (\<open>ids k\<close> is the k-th of a call), the hash function, and the store's three calls. A
  run reads the store before the worker starts and writes it after: \<open>prepare_run\<close> and \<open>commit_run\<close>.
\<close>

section \<open>Data\<close>

record observation =
  observation_id :: string
  statement :: string
  evidence_refs :: "string list"

definition check_observation :: "observation \<Rightarrow> check" where
  "check_observation ob = all_checks [
     require_nonempty (observation_id ob) ''observation_id'',
     require_nonempty (statement ob) ''statement'',
     require_unique (evidence_refs ob) ''evidence_refs'']"

record source_view =
  source_id :: string
  source_fp :: string
  source_goals :: "string list"
  observations :: "observation list"

definition check_source :: "source_view \<Rightarrow> check" where
  "check_source v = all_checks [
     all_checks (map check_observation (observations v)),
     require_nonempty (source_id v) ''artifact_id'',
     require_nonempty (source_fp v) ''artifact_fingerprint'',
     require (source_goals v \<noteq> []) (MustNotBeEmpty ''goal_ids''),
     require_unique (source_goals v) ''goal_ids'',
     require_unique (map observation_id (observations v)) ''observation_ids'']"

text \<open>The catalog for one process: the views in insertion order.\<close>

definition memory_catalog :: "source_view list \<Rightarrow> string list \<Rightarrow> source_view list option" where
  "memory_catalog vs ids = Some (List.map_filter (map_of (map (\<lambda>v. (source_id v, v)) vs)) ids)"

record scope_authority =
  sa_population :: string
  sa_narrower_populations :: "string list"
  sa_time :: string
  sa_narrower_times :: "string list"

definition check_scope_authority :: "scope_authority \<Rightarrow> check" where
  "check_scope_authority s = all_checks [
     require_nonempty (sa_population s) ''population_scope_fingerprint'',
     require_nonempty (sa_time s) ''time_scope_fingerprint'',
     require_unique (sa_narrower_populations s) ''allowed_narrower_population_fingerprints'',
     require_unique (sa_narrower_times s) ''allowed_narrower_time_fingerprints'',
     require (sa_population s \<notin> set (sa_narrower_populations s)) (NarrowerEqualsParent ''population''),
     require (sa_time s \<notin> set (sa_narrower_times s)) (NarrowerEqualsParent ''time'')]"

record assignment_spec =
  spec_id :: string
  spec_objective :: string
  spec_goals :: "string list"
  spec_explicit :: "string list"
  spec_sources :: "string list"
  spec_scope :: scope_authority

definition check_spec :: "assignment_spec \<Rightarrow> check" where
  "check_spec s = all_checks [
     check_scope_authority (spec_scope s),
     require_nonempty (spec_id s) ''assignment_id'',
     require_nonempty (spec_objective s) ''objective'',
     require (spec_goals s \<noteq> []) (MustNotBeEmpty ''authorized_goal_ids''),
     require (spec_sources s \<noteq> []) (MustNotBeEmpty ''source_artifact_ids''),
     require_unique (spec_goals s) ''authorized_goal_ids'',
     require_unique (spec_explicit s) ''explicit_exploration_goal_ids'',
     require_unique (spec_sources s) ''source_artifact_ids'',
     require (set (spec_explicit s) \<subseteq> set (spec_goals s)) ExplicitGoalNotAuthorized]"

record pending_request =
  pending_id :: string
  pending_assignment :: string
  pending_artifact :: string
  pending_fp :: string
  pending_evidence :: evidence_request

datatype coordinator_code =
    EXPLORATION_ASSIGNMENT_REJECTED
  | EXPLORATION_ASSIGNMENT_STALE
  | ADVISORY_EXPLORATION_ARTIFACT_REJECTED
  | EXPLORATION_ASSIGNMENT_ALREADY_EXISTS
  | EXPLORATION_LEDGER_REVISION_CONFLICT
  | EXPLORATION_SOURCE_ARTIFACT_CHANGED
  | EXPLORATION_WORKER_FAILED
  | EXPLORATION_WORKER_OUTPUT_TYPE_REJECTED
  | EXPLORATION_WORKER_OUTPUT_NOT_JSON
  | EXPLORATION_WORKER_OUTPUT_NOT_OBJECT
  | EXPLORATION_WORKER_OUTPUT_INVALID
  | ADVISORY_ARTIFACT_SOURCE_BINDING_REQUIRED
  | ADVISORY_ARTIFACT_ID_COLLISION
  | VERIFIED_EXPLORATION_SOURCE_UNAVAILABLE
  | VERIFIED_EXPLORATION_SOURCE_AMBIGUOUS
  | VERIFIED_EXPLORATION_SOURCE_INCOMPLETE
  | VERIFIED_EXPLORATION_SOURCE_GOAL_MISMATCH
  | DUPLICATE_EVIDENCE_REQUEST_ACROSS_LEDGER
  | EXPLORATION_ASSIGNMENT_NOT_FOUND

text \<open>A coordinator error with its code and issues, or the \<open>ValueError\<close> of a model.\<close>

datatype coordinator_error =
    Coordinator coordinator_code "protocol_issue list"
  | ModelError protocol_error
  | ContractError contract_error
  | PendingFingerprintMismatch
  | PendingIdMismatch
  | LedgerOfOtherAssignment
  | SourceFingerprintsDiffer
  | PendingOfOtherAssignment
  | AcceptedBindingMismatch
  | PendingOfUnknownArtifact

definition model_check :: "check \<Rightarrow> coordinator_error + unit" where
  "model_check c = (case c of Inl e \<Rightarrow> Inl (ModelError e) | Inr u \<Rightarrow> Inr ())"

definition check_pending :: "(string \<Rightarrow> string) \<Rightarrow> pending_request \<Rightarrow> coordinator_error + unit" where
  "check_pending h p =
     bind_res (model_check (all_checks [check_request (pending_evidence p),
       require_nonempty (pending_assignment p) ''assignment_id'',
       require_nonempty (pending_artifact p) ''advisory_artifact_id'']))
     (\<lambda>_. bind_res (require (pending_fp p = evidence_request_fingerprint h (pending_evidence p)) PendingFingerprintMismatch)
     (\<lambda>_. require (pending_id p = ''capability_request.'' @ evidence_request_fingerprint h (pending_evidence p))
            PendingIdMismatch))"

record accepted_artifact =
  accepted_id :: string
  accepted_fp :: string
  accepted_requests :: "string list"

definition check_accepted :: "accepted_artifact \<Rightarrow> check" where
  "check_accepted a = all_checks [
     require_nonempty (accepted_id a) ''artifact_id'',
     require_nonempty (accepted_fp a) ''artifact_fingerprint'',
     require_unique (accepted_requests a) ''pending_capability_request_ids'']"

record coordinator_state =
  co_assignment :: exploration_assignment
  co_sources :: "source_view list"
  co_ledger :: ledger_state
  co_accepted :: "accepted_artifact list"
  co_pending :: "pending_request list"

text \<open>The validator of the state; the parts are models that were checked when they were built.\<close>

definition pending_by_id :: "coordinator_state \<Rightarrow> string \<Rightarrow> pending_request option" where
  "pending_by_id st i = map_of (map (\<lambda>p. (pending_id p, p)) (co_pending st)) i"

definition check_state :: "coordinator_state \<Rightarrow> coordinator_error + unit" where
  "check_state st =
     (let aid = assignment_id (co_assignment st) in
      bind_res (require (ledger_assignment (co_ledger st) = aid) LedgerOfOtherAssignment)
      (\<lambda>_. bind_res (model_check (all_checks [
         require_unique (map source_id (co_sources st)) ''source_artifact_ids'',
         require_unique (map accepted_id (co_accepted st)) ''accepted_artifact_ids'',
         require_unique (map pending_id (co_pending st)) ''capability_request_ids'',
         require_unique (map pending_fp (co_pending st)) ''pending_request_fingerprints'']))
      (\<lambda>_. bind_res (require (map source_fp (co_sources st) = assigned_artifacts (co_assignment st))
             SourceFingerprintsDiffer)
      (\<lambda>_. bind_res (require (\<forall>p\<in>set (co_pending st). pending_assignment p = aid) PendingOfOtherAssignment)
      (\<lambda>_. bind_res (require (\<forall>a\<in>set (co_accepted st). \<forall>i\<in>set (accepted_requests a).
               case pending_by_id st i of None \<Rightarrow> False | Some p \<Rightarrow> pending_artifact p = accepted_id a)
             AcceptedBindingMismatch)
      (\<lambda>_. require (\<forall>p\<in>set (co_pending st). pending_artifact p \<in> set (map accepted_id (co_accepted st)))
             PendingOfUnknownArtifact))))))"

section \<open>The store\<close>

record 's store_calls =
  op_create :: "coordinator_state \<Rightarrow> 's \<Rightarrow> bool \<times> 's"
  op_load :: "string \<Rightarrow> 's \<Rightarrow> coordinator_state option"
  op_swap :: "string \<Rightarrow> int \<Rightarrow> coordinator_state \<Rightarrow> 's \<Rightarrow> bool \<times> 's"

type_synonym memory_states = "(string, coordinator_state) dict"

definition memory_create :: "coordinator_state \<Rightarrow> memory_states \<Rightarrow> bool \<times> memory_states" where
  "memory_create st s = (let i = assignment_id (co_assignment st)
     in if map_of s i \<noteq> None then (False, s) else (True, AList.update i st s))"

definition memory_load :: "string \<Rightarrow> memory_states \<Rightarrow> coordinator_state option" where
  "memory_load i s = map_of s i"

definition memory_swap :: "string \<Rightarrow> int \<Rightarrow> coordinator_state \<Rightarrow> memory_states \<Rightarrow> bool \<times> memory_states" where
  "memory_swap i expected st s =
     (case map_of s i of
        None \<Rightarrow> (False, s)
      | Some current \<Rightarrow>
          if revision (co_ledger current) \<noteq> expected then (False, s)
          else if assignment_id (co_assignment st) \<noteq> i then (False, s)
          else (True, AList.update i st s))"

definition memory_calls :: "memory_states store_calls" where
  "memory_calls = \<lparr>op_create = memory_create, op_load = memory_load, op_swap = memory_swap\<rparr>"

section \<open>Resolving sources\<close>

type_synonym 'a outcome = "coordinator_error + 'a"

definition coordinator_fail :: "coordinator_code \<Rightarrow> 'a outcome" where
  "coordinator_fail c = Inl (Coordinator c [])"

definition require_code :: "bool \<Rightarrow> coordinator_code \<Rightarrow> unit outcome" where
  "require_code b c = require b (Coordinator c [])"

definition require_valid :: "protocol_issue list \<Rightarrow> coordinator_code \<Rightarrow> unit outcome" where
  "require_valid issues c = require (issues = []) (Coordinator c issues)"

definition resolve_sources ::
  "(string list \<Rightarrow> source_view list option) \<Rightarrow> string list \<Rightarrow> goal_contract \<Rightarrow> source_view list outcome" where
  "resolve_sources resolve ids c =
     (let requested = map py_strip ids in
      case resolve requested of
        None \<Rightarrow> coordinator_fail VERIFIED_EXPLORATION_SOURCE_UNAVAILABLE
      | Some parsed \<Rightarrow>
          bind_res (require_code (distinct (map source_id parsed)) VERIFIED_EXPLORATION_SOURCE_AMBIGUOUS)
          (\<lambda>_. bind_res (require_code (set (map source_id parsed) = set requested) VERIFIED_EXPLORATION_SOURCE_INCOMPLETE)
          (\<lambda>_. let ordered = List.map_filter (map_of (map (\<lambda>v. (source_id v, v)) parsed)) requested
               in bind_res (require_code (\<forall>v\<in>set ordered. \<forall>g\<in>set (source_goals v). goal_map c g \<noteq> None)
                      VERIFIED_EXPLORATION_SOURCE_GOAL_MISMATCH)
                  (\<lambda>_. Inr ordered))))"

section \<open>Issuing an assignment\<close>

definition assignment_of :: "string \<Rightarrow> assignment_spec \<Rightarrow> source_view list \<Rightarrow> exploration_assignment" where
  "assignment_of contract_fp spec sources = \<lparr>assignment_id = spec_id spec, objective = spec_objective spec,
     goal_contract_fp = contract_fp, authorized_goal_ids = spec_goals spec,
     explicit_goal_ids = spec_explicit spec, population_fp = sa_population (spec_scope spec),
     narrower_populations = sa_narrower_populations (spec_scope spec), time_fp = sa_time (spec_scope spec),
     narrower_times = sa_narrower_times (spec_scope spec), assigned_artifacts = map source_fp sources\<rparr>"

definition model_result :: "protocol_error + 'a \<Rightarrow> 'a outcome" where
  "model_result r = (case r of Inl e \<Rightarrow> Inl (ModelError e) | Inr x \<Rightarrow> Inr x)"

definition contract_fp :: "(string \<Rightarrow> string) \<Rightarrow> goal_contract \<Rightarrow> string outcome" where
  "contract_fp h c = (case goal_contract_fingerprint h c of Inl e \<Rightarrow> Inl (ContractError e) | Inr fp \<Rightarrow> Inr fp)"

definition first_event :: "string \<Rightarrow> string \<Rightarrow> exploration_assignment \<Rightarrow> ledger_event" where
  "first_event eid payload a = \<lparr>event_id = eid, event_assignment = assignment_id a, sequence = 1,
     event_type = ASSIGNMENT_ACCEPTED, actor = ROOT_KERNEL, payload_fp = payload,
     event_sources = assigned_artifacts a, previous_fp = [], event_fp = []\<rparr>"

definition empty_ledger :: "string \<Rightarrow> ledger_state" where
  "empty_ledger aid = \<lparr>ledger_assignment = aid, revision = 0, events = [], head_fp = []\<rparr>"

record assignment_receipt =
  rc_assignment :: exploration_assignment
  rc_revision :: int
  rc_source_ids :: "string list"
  rc_source_fps :: "string list"

definition issued_state ::
  "(string \<Rightarrow> string) \<Rightarrow> (string list \<Rightarrow> source_view list option) \<Rightarrow> (nat \<Rightarrow> string)
    \<Rightarrow> goal_contract \<Rightarrow> assignment_spec \<Rightarrow> coordinator_state outcome" where
  "issued_state h resolve ids c spec =
     bind_res (resolve_sources resolve (spec_sources spec) c)
     (\<lambda>sources. bind_res (contract_fp h c)
     (\<lambda>fp. let a = assignment_of fp spec sources in
      bind_res (model_check (check_assignment a))
     (\<lambda>_. bind_res (require_valid (assignment_issues a c fp (map source_fp sources)) EXPLORATION_ASSIGNMENT_REJECTED)
     (\<lambda>_. bind_res (model_result (build_event h (first_event (ids 0)
             (stable_fingerprint h (assignment_json a)) a)))
     (\<lambda>e. bind_res (model_check (check_ledger h (empty_ledger (assignment_id a))))
     (\<lambda>_. bind_res (model_result (append_event h (empty_ledger (assignment_id a)) e 0))
     (\<lambda>ledger. let st = \<lparr>co_assignment = a, co_sources = sources, co_ledger = ledger,
             co_accepted = [], co_pending = []\<rparr>
      in bind_res (check_state st) (\<lambda>_. Inr st))))))))"

definition issue_assignment ::
  "(string \<Rightarrow> string) \<Rightarrow> (string list \<Rightarrow> source_view list option) \<Rightarrow> 's store_calls \<Rightarrow> (nat \<Rightarrow> string)
    \<Rightarrow> goal_contract \<Rightarrow> assignment_spec \<Rightarrow> 's \<Rightarrow> assignment_receipt outcome \<times> 's" where
  "issue_assignment h resolve calls ids c spec s =
     (case issued_state h resolve ids c spec of
        Inl e \<Rightarrow> (Inl e, s)
      | Inr st \<Rightarrow> (case op_create calls st s of
          (False, s') \<Rightarrow> (coordinator_fail EXPLORATION_ASSIGNMENT_ALREADY_EXISTS, s')
        | (True, s') \<Rightarrow> (Inr \<lparr>rc_assignment = co_assignment st, rc_revision = revision (co_ledger st),
            rc_source_ids = map source_id (co_sources st),
            rc_source_fps = assigned_artifacts (co_assignment st)\<rparr>, s')))"

section \<open>Running an assignment\<close>

record goal_view =
  gv_goal_id :: string
  gv_kind :: string
  gv_label :: string
  gv_required :: bool
  gv_depends_on :: "string list"
  gv_population_scope :: string
  gv_population_goals :: "string list"

record worker_invocation =
  inv_assignment :: exploration_assignment
  inv_question :: string
  inv_goals :: "goal_view list"
  inv_sources :: "source_view list"

text \<open>What a worker does: return an artifact, raise a coordinator error, raise anything else, or return
  something else.\<close>

datatype worker_outcome =
    WorkerArtifact advisory_artifact
  | WorkerRaised coordinator_code
  | WorkerFailed
  | WorkerOther

text \<open>\<open>_pending_requests\<close>.\<close>

fun pending_requests ::
  "(string \<Rightarrow> string) \<Rightarrow> string \<Rightarrow> string \<Rightarrow> string list \<Rightarrow> evidence_request list \<Rightarrow> pending_request list outcome" where
  "pending_requests h aid art known [] = Inr []"
| "pending_requests h aid art known (r # rs) =
     (let fp = evidence_request_fingerprint h r;
          p = \<lparr>pending_id = ''capability_request.'' @ fp, pending_assignment = aid, pending_artifact = art,
            pending_fp = fp, pending_evidence = r\<rparr>
      in if fp \<in> set known then coordinator_fail DUPLICATE_EVIDENCE_REQUEST_ACROSS_LEDGER
         else bind_res (check_pending h p)
              (\<lambda>_. bind_res (pending_requests h aid art (fp # known) rs) (\<lambda>ps. Inr (p # ps))))"

text \<open>\<open>_append_artifact_events\<close>: the payloads in order, and the loop.\<close>

definition artifact_payloads :: "advisory_artifact \<Rightarrow> (event_type \<times> json) list" where
  "artifact_payloads art =
     map (\<lambda>p. (HYPOTHESIS_PROPOSED, hypothesis_json p)) (hypotheses art)
     @ map (\<lambda>r. (EVIDENCE_REQUESTED, request_dump r)) (evidence_requests art)
     @ (case analysis_plan_of art of None \<Rightarrow> [] | Some p \<Rightarrow> [(ANALYSIS_PLAN_PROPOSED, plan_json p)])
     @ [(STOPPING_ASSESSED, stopping_json (stopping art)), (ADVISORY_ARTIFACT_EMITTED, artifact_json art)]"

definition worker_event ::
  "(string \<Rightarrow> string) \<Rightarrow> string \<Rightarrow> advisory_artifact \<Rightarrow> ledger_state \<Rightarrow> event_type \<times> json \<Rightarrow> ledger_event" where
  "worker_event h eid art l tp = \<lparr>event_id = eid, event_assignment = artifact_assignment art,
     sequence = revision l + 1, event_type = fst tp, actor = EXPLORATION_WORKER,
     payload_fp = stable_fingerprint h (snd tp),
     event_sources = (if fst tp = ADVISORY_ARTIFACT_EMITTED then artifact_sources art else []),
     previous_fp = head_fp l, event_fp = []\<rparr>"

fun append_payloads ::
  "(string \<Rightarrow> string) \<Rightarrow> (nat \<Rightarrow> string) \<Rightarrow> nat \<Rightarrow> advisory_artifact \<Rightarrow> (event_type \<times> json) list \<Rightarrow> ledger_state
    \<Rightarrow> ledger_state outcome" where
  "append_payloads h ids k art [] l = Inr l"
| "append_payloads h ids k art (tp # tps) l =
     bind_res (model_result (build_event h (worker_event h (ids k) art l tp)))
     (\<lambda>e. bind_res (model_result (append_event h l e (revision l)))
     (\<lambda>l'. append_payloads h ids (Suc k) art tps l'))"

datatype run_status = ADVISORY_ACCEPTED | IDEMPOTENT_REPLAY

record run_report =
  rr_status :: run_status
  rr_assignment_id :: string
  rr_revision :: int
  rr_artifact :: advisory_artifact
  rr_fingerprint :: string
  rr_pending :: "pending_request list"

text \<open>The invocation; only two kinds of goals have a population.\<close>

definition goal_population :: "question_goal \<Rightarrow> string \<times> string list" where
  "goal_population g = (case body g of
     Ranking r \<Rightarrow> (scope_text (population_scope r), population_goal_ids r)
   | Detail d \<Rightarrow> (scope_text (dt_population_scope d), dt_population_goal_ids d)
   | _ \<Rightarrow> ([], []))"

definition goal_view_of :: "question_goal \<Rightarrow> string \<Rightarrow> goal_view" where
  "goal_view_of g gid = \<lparr>gv_goal_id = gid, gv_kind = kind_text (body g), gv_label = label g,
     gv_required = required g, gv_depends_on = depends_on_goal_ids g,
     gv_population_scope = fst (goal_population g), gv_population_goals = snd (goal_population g)\<rparr>"

definition worker_invocation_of ::
  "exploration_assignment \<Rightarrow> goal_contract \<Rightarrow> source_view list \<Rightarrow> worker_invocation" where
  "worker_invocation_of a c sources = \<lparr>inv_assignment = a, inv_question = question c,
     inv_goals = List.map_filter (\<lambda>gid. map_option (\<lambda>g. goal_view_of g gid) (goal_map c gid)) (authorized_goal_ids a),
     inv_sources = sources\<rparr>"

definition worker_result :: "worker_outcome \<Rightarrow> advisory_artifact outcome" where
  "worker_result w = (case w of
     WorkerRaised c \<Rightarrow> coordinator_fail c
   | WorkerFailed \<Rightarrow> coordinator_fail EXPLORATION_WORKER_FAILED
   | WorkerOther \<Rightarrow> coordinator_fail EXPLORATION_WORKER_OUTPUT_TYPE_REJECTED
   | WorkerArtifact art \<Rightarrow>
       bind_res (require_code (check_artifact art = Inr ()) EXPLORATION_WORKER_OUTPUT_TYPE_REJECTED) (\<lambda>_. Inr art))"

definition required_state :: "'s store_calls \<Rightarrow> string \<Rightarrow> 's \<Rightarrow> coordinator_state outcome" where
  "required_state calls aid s =
     bind_res (model_check (require_nonempty aid ''assignment_id''))
     (\<lambda>_. case op_load calls (py_strip aid) s of
            None \<Rightarrow> coordinator_fail EXPLORATION_ASSIGNMENT_NOT_FOUND
          | Some st \<Rightarrow> Inr st)"

text \<open>What a run has decided when it comes to write: a replay, or a replacement for the state.\<close>

datatype prepared = Replay run_report | Replacement coordinator_state run_report

definition replacement_of ::
  "(string \<Rightarrow> string) \<Rightarrow> (nat \<Rightarrow> string) \<Rightarrow> coordinator_state \<Rightarrow> string \<Rightarrow> advisory_artifact \<Rightarrow> string \<Rightarrow> prepared outcome" where
  "replacement_of h ids st aid art fp =
     bind_res (pending_requests h (assignment_id (co_assignment st)) (artifact_id art)
         (map pending_fp (co_pending st)) (evidence_requests art))
     (\<lambda>pending. bind_res (append_payloads h ids 0 art (artifact_payloads art) (co_ledger st))
     (\<lambda>ledger. let accepted = \<lparr>accepted_id = artifact_id art, accepted_fp = fp,
            accepted_requests = map pending_id pending\<rparr>;
          st' = \<lparr>co_assignment = co_assignment st, co_sources = co_sources st, co_ledger = ledger,
            co_accepted = co_accepted st @ [accepted], co_pending = co_pending st @ pending\<rparr>
        in bind_res (model_check (check_accepted accepted))
           (\<lambda>_. bind_res (check_state st')
           (\<lambda>_. Inr (Replacement st' \<lparr>rr_status = ADVISORY_ACCEPTED, rr_assignment_id = aid,
              rr_revision = revision ledger, rr_artifact = art, rr_fingerprint = fp, rr_pending = pending\<rparr>)))))"

definition replay_of ::
  "coordinator_state \<Rightarrow> string \<Rightarrow> advisory_artifact \<Rightarrow> string \<Rightarrow> accepted_artifact \<Rightarrow> prepared outcome" where
  "replay_of st aid art fp prior =
     bind_res (require_code (accepted_fp prior = fp) ADVISORY_ARTIFACT_ID_COLLISION)
     (\<lambda>_. Inr (Replay \<lparr>rr_status = IDEMPOTENT_REPLAY, rr_assignment_id = aid,
        rr_revision = revision (co_ledger st), rr_artifact = art, rr_fingerprint = fp,
        rr_pending = List.map_filter (pending_by_id st) (accepted_requests prior)\<rparr>))"

text \<open>\<open>run_assignment\<close> up to its write.\<close>

definition prepare_run ::
  "(string \<Rightarrow> string) \<Rightarrow> (string list \<Rightarrow> source_view list option) \<Rightarrow> 's store_calls \<Rightarrow> (nat \<Rightarrow> string)
    \<Rightarrow> (worker_invocation \<Rightarrow> worker_outcome) \<Rightarrow> string \<Rightarrow> goal_contract \<Rightarrow> int \<Rightarrow> 's \<Rightarrow> prepared outcome" where
  "prepare_run h resolve calls ids worker aid c expected s =
     bind_res (required_state calls aid s)
     (\<lambda>st. bind_res (require_code (revision (co_ledger st) = expected) EXPLORATION_LEDGER_REVISION_CONFLICT)
     (\<lambda>_. bind_res (contract_fp h c)
     (\<lambda>fp. bind_res (require_valid (assignment_issues (co_assignment st) c fp (map source_fp (co_sources st)))
             EXPLORATION_ASSIGNMENT_STALE)
     (\<lambda>_. bind_res (resolve_sources resolve (map source_id (co_sources st)) c)
     (\<lambda>sources. bind_res (require_code (sources = co_sources st) EXPLORATION_SOURCE_ARTIFACT_CHANGED)
     (\<lambda>_. bind_res (worker_result (worker (worker_invocation_of (co_assignment st) c sources)))
     (\<lambda>art. bind_res (require_valid (advisory_issues h (co_assignment st) art c fp (map source_fp sources))
             ADVISORY_EXPLORATION_ARTIFACT_REJECTED)
     (\<lambda>_. bind_res (require_code (artifact_sources art \<noteq> []) ADVISORY_ARTIFACT_SOURCE_BINDING_REQUIRED)
     (\<lambda>_. let afp = advisory_artifact_fingerprint h art in
       case find (\<lambda>a. accepted_id a = artifact_id art) (co_accepted st) of
         Some prior \<Rightarrow> replay_of st aid art afp prior
       | None \<Rightarrow> replacement_of h ids st aid art afp)))))))))"

definition commit_run ::
  "'s store_calls \<Rightarrow> string \<Rightarrow> int \<Rightarrow> prepared \<Rightarrow> 's \<Rightarrow> run_report outcome \<times> 's" where
  "commit_run calls aid expected p s = (case p of
     Replay r \<Rightarrow> (Inr r, s)
   | Replacement st r \<Rightarrow> (case op_swap calls aid expected st s of
       (True, s') \<Rightarrow> (Inr r, s')
     | (False, s') \<Rightarrow> (coordinator_fail EXPLORATION_LEDGER_REVISION_CONFLICT, s')))"

definition run_assignment ::
  "(string \<Rightarrow> string) \<Rightarrow> (string list \<Rightarrow> source_view list option) \<Rightarrow> 's store_calls \<Rightarrow> (nat \<Rightarrow> string)
    \<Rightarrow> (worker_invocation \<Rightarrow> worker_outcome) \<Rightarrow> string \<Rightarrow> goal_contract \<Rightarrow> int \<Rightarrow> 's \<Rightarrow> run_report outcome \<times> 's" where
  "run_assignment h resolve calls ids worker aid c expected s =
     (case prepare_run h resolve calls ids worker aid c expected s of
        Inl e \<Rightarrow> (Inl e, s)
      | Inr p \<Rightarrow> commit_run calls aid expected p s)"

definition pending_capability_requests :: "'s store_calls \<Rightarrow> string \<Rightarrow> 's \<Rightarrow> pending_request list outcome" where
  "pending_capability_requests calls aid s = bind_res (required_state calls aid s) (\<lambda>st. Inr (co_pending st))"

end
