(* ===== verification/Coordinator_Laws.thy ===== *)
theory Coordinator_Laws
  imports Exploration_Coordinator "HOL-Library.Sublist"
begin

text \<open>
  What the coordinator guarantees over any store that keeps the contract of its three calls
  (\<open>swap_store\<close>, interpreted on the store in memory): every state it writes is a valid model, and however
  issuing, running and committing interleave, the ledger of an assignment only grows.
\<close>

section \<open>The contract of the store\<close>

locale swap_store =
  fixes calls :: "'s store_calls"
  assumes load_create: "op_create calls st s = (True, s') \<Longrightarrow>
      op_load calls i s' = (if i = assignment_id (co_assignment st) then Some st else op_load calls i s)"
    and create_iff: "fst (op_create calls st s) \<longleftrightarrow> op_load calls (assignment_id (co_assignment st)) s = None"
    and create_refused: "op_create calls st s = (False, s') \<Longrightarrow> s' = s"
    and load_swap: "op_swap calls i n st s = (True, s') \<Longrightarrow>
      op_load calls j s' = (if j = i then Some st else op_load calls j s)"
    and swap_iff: "fst (op_swap calls i n st s) \<longleftrightarrow> assignment_id (co_assignment st) = i
      \<and> (\<exists>cur. op_load calls i s = Some cur \<and> revision (co_ledger cur) = n)"
    and swap_refused: "op_swap calls i n st s = (False, s') \<Longrightarrow> s' = s"

interpretation memory_swap: swap_store memory_calls
  by unfold_locales
    (auto simp: memory_calls_def memory_create_def memory_load_def memory_swap_def Let_def
      split: option.splits if_splits)

section \<open>What a run prepares\<close>

lemma model_result_Inr [simp]: "model_result r = Inr x \<longleftrightarrow> r = Inr x"
  by (cases r) (simp_all add: model_result_def)

lemma model_check_Inr [simp]: "model_check c = Inr u \<longleftrightarrow> c = Inr ()"
  by (cases c) (simp_all add: model_check_def)

lemma require_code_Inr [simp]: "require_code b c = Inr u \<longleftrightarrow> b"
  by (simp add: require_code_def)

lemma require_valid_Inr [simp]: "require_valid is c = Inr u \<longleftrightarrow> is = []"
  by (simp add: require_valid_def)

lemma bind_res_Inr: "bind_res m f = Inr y \<longleftrightarrow> (\<exists>x. m = Inr x \<and> f x = Inr y)"
  by (cases m) auto

lemma append_event_grows:
  assumes "append_event h l e n = Inr l'"
  shows "check_ledger h l' = Inr () \<and> events l' = events l @ [e] \<and> revision l' = revision l + 1
    \<and> ledger_assignment l' = ledger_assignment l"
  using assms by (auto simp: append_event_def Let_def elim!: bind_res_InrE split: if_splits)

text \<open>Appending the events of an artifact extends the ledger by one event each.\<close>

lemma append_payloads_grows:
  "append_payloads h ids k art tps l = Inr l' \<Longrightarrow> check_ledger h l = Inr () \<Longrightarrow>
     check_ledger h l' = Inr () \<and> prefix (events l) (events l')
     \<and> revision l' = revision l + int (length tps) \<and> ledger_assignment l' = ledger_assignment l"
proof (induction h ids k art tps l rule: append_payloads.induct)
  case (2 h ids k art tp tps l)
  from "2.prems"(1) obtain e l1 where e: "build_event h (worker_event h (ids k) art l tp) = Inr e"
    and l1: "append_event h l e (revision l) = Inr l1" and rest: "append_payloads h ids (Suc k) art tps l1 = Inr l'"
    by (auto simp: bind_res_Inr)
  note g = append_event_grows [OF l1]
  from "2.IH" [OF rest] g have "check_ledger h l' = Inr () \<and> prefix (events l1) (events l')
     \<and> revision l' = revision l1 + int (length tps) \<and> ledger_assignment l' = ledger_assignment l1" by simp
  with g show ?case by (auto dest: append_prefixD)
qed simp

text \<open>
  With a hash that never gives a blank text and fresh identifiers, the events of an artifact with
  distinct sources can always be appended.
\<close>

lemma build_event_ok:
  assumes "1 \<le> sequence e" "py_strip (event_id e) \<noteq> []" "py_strip (event_assignment e) \<noteq> []"
    "py_strip (payload_fp e) \<noteq> []" "unique_texts (event_sources e)" "py_strip (ledger_event_fingerprint h e) \<noteq> []"
  shows "build_event h e = Inr (e\<lparr>event_fp := ledger_event_fingerprint h e\<rparr>)"
    and "check_event h (e\<lparr>event_fp := ledger_event_fingerprint h e\<rparr>) = Inr ()"
proof -
  have "ledger_event_fingerprint h (e\<lparr>event_fp := x\<rparr>) = ledger_event_fingerprint h e" for x
    by (simp add: ledger_event_fingerprint_def event_json_def)
  then show "check_event h (e\<lparr>event_fp := ledger_event_fingerprint h e\<rparr>) = Inr ()"
    using assms by (simp add: check_event_def)
  then show "build_event h e = Inr (e\<lparr>event_fp := ledger_event_fingerprint h e\<rparr>)"
    by (simp add: build_event_def Let_def)
qed

lemma append_payloads_progress:
  assumes h: "\<And>t. py_strip (h t) \<noteq> []" and ids: "\<And>k. py_strip (ids k) \<noteq> []" "inj ids"
    and art: "unique_texts (artifact_sources art)"
  shows "check_ledger h l = Inr () \<Longrightarrow> ledger_assignment l = artifact_assignment art \<Longrightarrow>
    (\<And>j. k \<le> j \<Longrightarrow> ids j \<notin> event_id ` set (events l)) \<Longrightarrow> \<exists>l'. append_payloads h ids k art tps l = Inr l'"
proof (induction tps arbitrary: k l)
  case (Cons tp tps)
  let ?e = "worker_event h (ids k) art l tp"
  let ?f = "?e\<lparr>event_fp := ledger_event_fingerprint h ?e\<rparr>"
  have fp: "py_strip (stable_fingerprint h j) \<noteq> []" for j using h by (simp add: stable_fingerprint_def)
  have nb: "py_strip (artifact_assignment art) \<noteq> []" and r: "0 \<le> revision l"
    using Cons.prems(1, 2) by (auto simp: check_ledger_iff)
  have pre: "1 \<le> sequence ?e" "py_strip (event_id ?e) \<noteq> []" "py_strip (event_assignment ?e) \<noteq> []"
    "py_strip (payload_fp ?e) \<noteq> []" "unique_texts (event_sources ?e)"
    "py_strip (ledger_event_fingerprint h ?e) \<noteq> []"
    using nb r ids(1) fp art by (simp_all add: worker_event_def ledger_event_fingerprint_def unique_texts_def)
  note be = build_event_ok(1) [OF pre] and ce = build_event_ok(2) [OF pre]
  have "\<exists>l1. append_event h l ?f (revision l) = Inr l1"
    by (rule ledger_append_spec [OF Cons.prems(1), THEN conjunct1, THEN iffD2], intro conjI refl ce)
      (use Cons.prems(2) Cons.prems(3) [of k] in \<open>simp_all add: worker_event_def\<close>)
  then obtain l1 where l1: "append_event h l ?f (revision l) = Inr l1" by blast
  note g = append_event_grows [OF l1]
  have "\<exists>l'. append_payloads h ids (Suc k) art tps l1 = Inr l'"
  proof (rule Cons.IH)
    show "check_ledger h l1 = Inr ()" and "ledger_assignment l1 = artifact_assignment art"
      using g Cons.prems(2) by simp_all
    show "ids j \<notin> event_id ` set (events l1)" if "Suc k \<le> j" for j
      using g Cons.prems(3) [of j] that injD [OF ids(2), of j k] by (auto simp: worker_event_def)
  qed
  then show ?case by (simp add: be l1 model_result_def)
qed simp

lemma artifact_payloads_nonempty: "2 \<le> length (artifact_payloads art)"
  by (simp add: artifact_payloads_def)

lemma pending_requests_checked:
  "pending_requests h aid art known rs = Inr ps \<Longrightarrow> \<forall>p\<in>set ps. check_pending h p = Inr ()"
proof (induction h aid art known rs arbitrary: ps rule: pending_requests.induct)
  case (2 h aid art known r rs)
  then show ?case by (auto simp: Let_def bind_res_Inr coordinator_fail_def split: if_splits)
qed simp

definition state_ok :: "(string \<Rightarrow> string) \<Rightarrow> string \<Rightarrow> coordinator_state \<Rightarrow> bool" where
  "state_ok h i st \<longleftrightarrow> assignment_id (co_assignment st) = i \<and> check_assignment (co_assignment st) = Inr ()
     \<and> check_state st = Inr () \<and> check_ledger h (co_ledger st) = Inr () \<and> 1 \<le> revision (co_ledger st)
     \<and> (\<forall>a\<in>set (co_accepted st). check_accepted a = Inr ())
     \<and> (\<forall>p\<in>set (co_pending st). check_pending h p = Inr ())"

text \<open>A replacement continues a state: same assignment and sources, a longer ledger.\<close>

definition continues :: "coordinator_state \<Rightarrow> coordinator_state \<Rightarrow> bool" where
  "continues st st' \<longleftrightarrow> co_assignment st' = co_assignment st \<and> co_sources st' = co_sources st
     \<and> prefix (events (co_ledger st)) (events (co_ledger st'))
     \<and> prefix (co_accepted st) (co_accepted st') \<and> prefix (co_pending st) (co_pending st')
     \<and> (st' = st \<or> revision (co_ledger st) < revision (co_ledger st'))"

lemma continues_refl [simp]: "continues st st"
  by (simp add: continues_def)

lemma continues_trans: "continues a b \<Longrightarrow> continues b c \<Longrightarrow> continues a c"
  by (auto simp: continues_def intro: prefix_order.trans)

lemma replacement_continues:
  assumes "replacement_of h ids st aid art fp = Inr p" and "state_ok h i st"
  shows "\<exists>st' r. p = Replacement st' r \<and> state_ok h i st' \<and> continues st st'
    \<and> revision (co_ledger st') = revision (co_ledger st) + int (length (artifact_payloads art))
    \<and> rr_revision r = revision (co_ledger st') \<and> rr_status r = ADVISORY_ACCEPTED \<and> rr_artifact r = art"
proof -
  from assms(1) obtain pending ledger where
    pd: "pending_requests h (assignment_id (co_assignment st)) (artifact_id art)
        (map pending_fp (co_pending st)) (evidence_requests art) = Inr pending"
    and lg: "append_payloads h ids 0 art (artifact_payloads art) (co_ledger st) = Inr ledger"
    and rest: "(let accepted = \<lparr>accepted_id = artifact_id art, accepted_fp = fp,
            accepted_requests = map pending_id pending\<rparr>;
          st' = \<lparr>co_assignment = co_assignment st, co_sources = co_sources st, co_ledger = ledger,
            co_accepted = co_accepted st @ [accepted], co_pending = co_pending st @ pending\<rparr>
        in bind_res (model_check (check_accepted accepted))
           (\<lambda>_. bind_res (check_state st')
           (\<lambda>_. Inr (Replacement st' \<lparr>rr_status = ADVISORY_ACCEPTED, rr_assignment_id = aid,
              rr_revision = revision ledger, rr_artifact = art, rr_fingerprint = fp, rr_pending = pending\<rparr>)))) = Inr p"
    unfolding replacement_of_def bind_res_Inr by blast
  have ok: "check_ledger h (co_ledger st) = Inr ()" using assms(2) by (simp add: state_ok_def)
  note g = append_payloads_grows [OF lg ok] and n = artifact_payloads_nonempty [of art]
  from rest g n assms(2) pending_requests_checked [OF pd] show ?thesis
    by (auto simp: Let_def bind_res_Inr state_ok_def continues_def)
qed

lemma prepare_run_cases:
  assumes "prepare_run h resolve calls ids worker aid c n s = Inr p"
  obtains st where "op_load calls (py_strip aid) s = Some st" and "revision (co_ledger st) = n"
    and "(\<exists>r. p = Replay r) \<or> (\<exists>art fp. replacement_of h ids st aid art fp = Inr p)"
proof -
  from assms obtain st where st: "required_state calls aid s = Inr st"
    and rest: "revision (co_ledger st) = n"
    and fin: "\<exists>art. (case find (\<lambda>a. accepted_id a = artifact_id art) (co_accepted st) of
         Some prior \<Rightarrow> replay_of st aid art (advisory_artifact_fingerprint h art) prior
       | None \<Rightarrow> replacement_of h ids st aid art (advisory_artifact_fingerprint h art)) = Inr p"
    unfolding prepare_run_def bind_res_Inr Let_def require_code_Inr by blast
  have ld: "op_load calls (py_strip aid) s = Some st"
    using st by (auto simp: required_state_def bind_res_Inr coordinator_fail_def split: option.splits)
  from fin have "(\<exists>r. p = Replay r) \<or> (\<exists>art fp. replacement_of h ids st aid art fp = Inr p)"
    by (auto simp: replay_of_def bind_res_Inr split: option.splits)
  with ld rest that show ?thesis by blast
qed

lemma find_SomeD: "find P xs = Some x \<Longrightarrow> x \<in> set xs \<and> P x"
  by (induction xs) (auto split: if_splits)

section \<open>Interleavings\<close>

text \<open>
  A configuration is the store and the runs that are prepared and not yet committed, each with the
  assignment id and the revision it was started with. Any call may come from any caller at any time,
  with any catalog, worker and identifiers.
\<close>

type_synonym in_flight = "string \<times> int \<times> prepared"

inductive explore_step ::
  "(string \<Rightarrow> string) \<Rightarrow> 's store_calls \<Rightarrow> 's \<times> in_flight list \<Rightarrow> 's \<times> in_flight list \<Rightarrow> bool"
  for h :: "string \<Rightarrow> string" and calls :: "'s store_calls" where
  Issue: "explore_step h calls (s, rs) (snd (issue_assignment h resolve calls ids c spec s), rs)"
| Prepare: "prepare_run h resolve calls ids worker aid c n s = Inr p
    \<Longrightarrow> explore_step h calls (s, rs) (s, (aid, n, p) # rs)"
| Commit: "(aid, n, p) \<in> set rs
    \<Longrightarrow> explore_step h calls (s, rs) (snd (commit_run calls aid n p s), remove1 (aid, n, p) rs)"

inductive_cases explore_stepE: "explore_step h calls c c'"

definition explore_run ::
  "(string \<Rightarrow> string) \<Rightarrow> 's store_calls \<Rightarrow> 's \<times> in_flight list \<Rightarrow> 's \<times> in_flight list \<Rightarrow> bool" where
  "explore_run h calls = (explore_step h calls)\<^sup>*\<^sup>*"

text \<open>What issuing writes, when it writes.\<close>

lemma issued_state_ok:
  assumes "issued_state h resolve ids c spec = Inr st"
  shows "state_ok h (spec_id spec) st \<and> revision (co_ledger st) = 1"
proof -
  from assms obtain sources fp e ledger where
    a: "check_assignment (assignment_of fp spec sources) = Inr ()"
    and l: "append_event h (empty_ledger (assignment_id (assignment_of fp spec sources))) e 0 = Inr ledger"
    and st: "st = \<lparr>co_assignment = assignment_of fp spec sources, co_sources = sources, co_ledger = ledger,
                  co_accepted = [], co_pending = []\<rparr>" and chk: "check_state st = Inr ()"
    unfolding issued_state_def bind_res_Inr Let_def model_check_Inr model_result_Inr
    by - (elim exE conjE, rule that, assumption, assumption, auto)
  have "assignment_id (assignment_of fp spec sources) = spec_id spec" by (simp add: assignment_of_def)
  with a append_event_grows [OF l] chk show ?thesis
    by (simp add: state_ok_def empty_ledger_def st)
qed

lemma issue_assignment_cases:
  assumes "issue_assignment h resolve calls ids c spec s = (r, s')"
  obtains (kept) "s' = s" and "isl r"
  | (tried) st ok where "state_ok h (spec_id spec) st" and "op_create calls st s = (ok, s')" and "isl r = (\<not> ok)"
proof (cases "issued_state h resolve ids c spec")
  case (Inl e)
  then show ?thesis using assms kept by (auto simp: issue_assignment_def)
next
  case (Inr st)
  obtain ok s1 where c: "op_create calls st s = (ok, s1)" by (rule prod.exhaust)
  have "s1 = s'" and "isl r = (\<not> ok)"
    using assms by (cases ok; auto simp: issue_assignment_def Inr c coordinator_fail_def)+
  then show ?thesis using tried issued_state_ok [OF Inr] c by blast
qed

context swap_store
begin

definition store_ok :: "(string \<Rightarrow> string) \<Rightarrow> 's \<Rightarrow> bool" where
  "store_ok h s \<longleftrightarrow> (\<forall>i st. op_load calls i s = Some st \<longrightarrow> state_ok h i st)"

text \<open>
  A run in flight is sound when the state it would write continues the one that is stored, as long as
  the revision is still the one it started from.
\<close>

definition flight_ok :: "(string \<Rightarrow> string) \<Rightarrow> 's \<Rightarrow> in_flight \<Rightarrow> bool" where
  "flight_ok h s f = (case f of (aid, n, p) \<Rightarrow> (case p of Replay r \<Rightarrow> True
     | Replacement st' r \<Rightarrow> (\<exists>i. state_ok h i st' \<and> n < revision (co_ledger st')
         \<and> (\<exists>cur. op_load calls i s = Some cur \<and> n \<le> revision (co_ledger cur)
            \<and> (revision (co_ledger cur) = n \<longrightarrow> continues cur st')))))"

definition config_ok :: "(string \<Rightarrow> string) \<Rightarrow> 's \<times> in_flight list \<Rightarrow> bool" where
  "config_ok h c \<longleftrightarrow> store_ok h (fst c) \<and> (\<forall>f\<in>set (snd c). flight_ok h (fst c) f)"

definition store_continues :: "'s \<Rightarrow> 's \<Rightarrow> bool" where
  "store_continues s s' \<longleftrightarrow> (\<forall>i st. op_load calls i s = Some st \<longrightarrow>
     (\<exists>st'. op_load calls i s' = Some st' \<and> continues st st'))"

lemma store_continues_refl [simp]: "store_continues s s"
  by (auto simp: store_continues_def)

lemma flight_ok_continues:
  assumes "flight_ok h s f" and "store_continues s s'"
  shows "flight_ok h s' f"
proof -
  obtain aid n p where f: "f = (aid, n, p)" by (cases f)
  show ?thesis
  proof (cases p)
    case (Replacement st' r)
    from assms(1) obtain i cur where i: "state_ok h i st'" "n < revision (co_ledger st')"
        "op_load calls i s = Some cur" "n \<le> revision (co_ledger cur)"
        "revision (co_ledger cur) = n \<longrightarrow> continues cur st'"
      by (auto simp: flight_ok_def f Replacement)
    from assms(2) i(3) obtain new where new: "op_load calls i s' = Some new" "continues cur new"
      by (auto simp: store_continues_def)
    have "n \<le> revision (co_ledger new) \<and> (revision (co_ledger new) = n \<longrightarrow> continues new st')"
      using i(4, 5) new(2) by (auto simp: continues_def)
    with i(1, 2) new(1) show ?thesis by (auto simp: flight_ok_def f Replacement)
  qed (simp add: flight_ok_def f)
qed

lemma create_step:
  assumes "store_ok h s" and "state_ok h i st" and "op_create calls st s = (ok, s')"
  shows "store_ok h s' \<and> store_continues s s'"
proof (cases ok)
  case True
  have none: "op_load calls (assignment_id (co_assignment st)) s = None"
    using create_iff [of st s] assms(3) True by simp
  have ld: "op_load calls j s' = (if j = assignment_id (co_assignment st) then Some st else op_load calls j s)" for j
    using load_create [of st s s' j] assms(3) True by simp
  show ?thesis using assms(1, 2) none by (auto simp: store_ok_def store_continues_def ld state_ok_def)
next
  case False
  then show ?thesis using create_refused [of st s s'] assms by simp
qed

lemma prepare_flight_ok:
  assumes "store_ok h s" and "prepare_run h resolve calls ids worker aid c n s = Inr p"
  shows "flight_ok h s (aid, n, p)"
proof (rule prepare_run_cases [OF assms(2)])
  fix st assume st: "op_load calls (py_strip aid) s = Some st" "revision (co_ledger st) = n"
    and p: "(\<exists>r. p = Replay r) \<or> (\<exists>art fp. replacement_of h ids st aid art fp = Inr p)"
  have ok: "state_ok h (py_strip aid) st" using assms(1) st(1) by (simp add: store_ok_def)
  from p show ?thesis
  proof (elim disjE exE)
    fix art fp assume r: "replacement_of h ids st aid art fp = Inr p"
    from replacement_continues [OF r ok] obtain st' r where
      "p = Replacement st' r" "state_ok h (py_strip aid) st'" "continues st st'"
      "revision (co_ledger st) < revision (co_ledger st')"
      using artifact_payloads_nonempty [of art] by fastforce
    with st ok show ?thesis by (auto simp: flight_ok_def state_ok_def intro!: exI [of _ "py_strip aid"])
  qed (simp add: flight_ok_def)
qed

lemma commit_step:
  assumes "store_ok h s" and "flight_ok h s (aid, n, p)"
  shows "store_ok h (snd (commit_run calls aid n p s)) \<and> store_continues s (snd (commit_run calls aid n p s))"
proof (cases p)
  case (Replay r)
  then show ?thesis using assms by (simp add: commit_run_def)
next
  case (Replacement st' r)
  obtain ok s' where sw: "op_swap calls aid n st' s = (ok, s')" by (rule prod.exhaust)
  show ?thesis
  proof (cases ok)
    case False
    with sw swap_refused [of aid n st' s s'] have "s' = s" by simp
    with False sw assms(1) show ?thesis by (simp add: commit_run_def Replacement)
  next
    case True
    from swap_iff [of aid n st' s] sw True obtain cur where cur: "assignment_id (co_assignment st') = aid"
      "op_load calls aid s = Some cur" "revision (co_ledger cur) = n" by auto
    from assms(2) obtain i where i: "state_ok h i st'"
        "\<exists>cur. op_load calls i s = Some cur \<and> n \<le> revision (co_ledger cur)
            \<and> (revision (co_ledger cur) = n \<longrightarrow> continues cur st')"
      by (auto simp: flight_ok_def Replacement)
    have "i = aid" using i(1) cur(1) by (simp add: state_ok_def)
    with i cur have "continues cur st'" "state_ok h aid st'" by auto
    moreover have "op_load calls j s' = (if j = aid then Some st' else op_load calls j s)" for j
      using load_swap sw True by simp
    ultimately show ?thesis using assms(1) cur sw True
      by (auto simp: commit_run_def Replacement store_ok_def store_continues_def)
  qed
qed

lemma config_step:
  assumes "explore_step h calls c c'" and "config_ok h c"
  shows "config_ok h c' \<and> store_continues (fst c) (fst c')"
  using assms
proof (cases rule: explore_step.cases)
  case (Issue s rs resolve ids ct spec)
  obtain r s' where i: "issue_assignment h resolve calls ids ct spec s = (r, s')" by (rule prod.exhaust)
  have "store_ok h s' \<and> store_continues s s'"
  proof (rule issue_assignment_cases [OF i])
    assume "s' = s"
    then show ?thesis using assms(2) Issue by (simp add: config_ok_def)
  next
    fix st ok assume "state_ok h (spec_id spec) st" and "op_create calls st s = (ok, s')"
    moreover have "store_ok h s" using assms(2) Issue by (simp add: config_ok_def)
    ultimately show ?thesis using create_step by blast
  qed
  then show ?thesis using assms(2) Issue i flight_ok_continues by (auto simp: config_ok_def)
next
  case (Prepare resolve ids worker aid ct n s p rs)
  then show ?thesis using assms(2) prepare_flight_ok by (auto simp: config_ok_def)
next
  case (Commit aid n p rs s)
  have "store_ok h s" "flight_ok h s (aid, n, p)" using assms(2) Commit by (auto simp: config_ok_def)
  from commit_step [OF this] Commit assms(2) show ?thesis
    by (auto simp: config_ok_def intro: flight_ok_continues dest: notin_set_remove1 set_remove1_subset [THEN subsetD])
qed

lemma config_run:
  assumes "(explore_step h calls)\<^sup>*\<^sup>* c c'" and "config_ok h c"
  shows "config_ok h c' \<and> store_continues (fst c) (fst c')"
  using assms
proof (induction rule: rtranclp_induct)
  case (step c1 c2)
  from step config_step [OF step(2)] have "config_ok h c2" "store_continues (fst c) (fst c1)"
    "store_continues (fst c1) (fst c2)" by auto
  then show ?case unfolding store_continues_def by (meson continues_trans)
qed simp

end

section \<open>An example\<close>

definition sample_view :: source_view where
  "sample_view = \<lparr>source_id = ''art1'', source_fp = ''f1'', source_goals = [''gmv''], observations = []\<rparr>"

definition sample_spec :: assignment_spec where
  "sample_spec = \<lparr>spec_id = ''x1'', spec_objective = ''why'', spec_goals = [''gmv''], spec_explicit = [''gmv''],
     spec_sources = [''art1''], spec_scope = \<lparr>sa_population = ''p'', sa_narrower_populations = [],
       sa_time = ''t'', sa_narrower_times = []\<rparr>\<rparr>"

definition sample_advisory :: advisory_artifact where
  "sample_advisory = \<lparr>artifact_id = ''adv1'', artifact_assignment = ''x1'',
     hypotheses = [\<lparr>hypothesis_id = ''h1'', falsifiable_statement = ''s'', hypothesis_premises = [''a''],
       expected_observations = [''b''], falsifying_observations = [''c''], hypothesis_goals = [''gmv''],
       hypothesis_population = ''p'', hypothesis_time = ''t'', competing_explanations = [''d'']\<rparr>],
     evidence_requests = [], analysis_plan_of = None,
     stopping = \<lparr>decision = STOP_SUFFICIENT, stopping_goals = [''gmv''], supported = [''h1''], challenged = [],
       unresolved = [], outstanding = [], stopping_rationale = ''done''\<rparr>,
     artifact_sources = [''f1''], advisory_notes = []\<rparr>"

text \<open>For the examples the fingerprints are constant; nothing below needs them to differ.\<close>

definition flat :: "string \<Rightarrow> string" where
  "flat s = ''fp''"

definition sample_ids :: "nat \<Rightarrow> string" where
  "sample_ids k = CHR ''e'' # replicate k CHR ''x''"

definition issued_store :: memory_states where
  "issued_store = snd (issue_assignment flat (memory_catalog [sample_view]) memory_calls (\<lambda>_. ''e0'')
     sample_contract sample_spec [])"

definition issued_sample :: coordinator_state where
  "issued_sample = (case issued_state flat (memory_catalog [sample_view]) (\<lambda>_. ''e0'') sample_contract sample_spec
     of Inr st \<Rightarrow> st | Inl e \<Rightarrow> undefined)"

lemma issued_sample: "issued_state flat (memory_catalog [sample_view]) (\<lambda>_. ''e0'') sample_contract sample_spec
    = Inr issued_sample"
proof -
  have "\<not> isl (issued_state flat (memory_catalog [sample_view]) (\<lambda>_. ''e0'') sample_contract sample_spec)"
    by code_simp
  then show ?thesis
    by (cases "issued_state flat (memory_catalog [sample_view]) (\<lambda>_. ''e0'') sample_contract sample_spec")
      (auto simp: issued_sample_def)
qed

lemma issued_store_load: "memory_load ''x1'' issued_store = Some issued_sample"
proof -
  have "assignment_id (co_assignment issued_sample) = ''x1''"
    using issued_state_ok [OF issued_sample] by (simp add: state_ok_def sample_spec_def)
  then show ?thesis
    by (simp add: issued_store_def issue_assignment_def issued_sample memory_calls_def memory_create_def
        memory_load_def Let_def)
qed

lemma issued_reachable: "explore_run flat memory_calls ([], []) (issued_store, [])"
  unfolding explore_run_def issued_store_def by (rule r_into_rtranclp) (rule explore_step.Issue)

lemma flat_simps [simp]:
  "stable_fingerprint flat j = ''fp''" "ledger_event_fingerprint flat e = ''fp''"
  "advisory_artifact_fingerprint flat art = ''fp''"
  by (simp_all add: stable_fingerprint_def ledger_event_fingerprint_def advisory_artifact_fingerprint_def flat_def)

definition sample_state :: coordinator_state where
  "sample_state = (let a = assignment_of ''fp'' sample_spec [sample_view] in
     \<lparr>co_assignment = a, co_sources = [sample_view], co_ledger = \<lparr>ledger_assignment = ''x1'', revision = 1,
        events = [(first_event ''e0'' ''fp'' a)\<lparr>event_fp := ''fp''\<rparr>], head_fp = ''fp''\<rparr>,
      co_accepted = [], co_pending = []\<rparr>)"

lemma issued_sample_value: "issued_sample = sample_state"
proof -
  have "issued_state flat (memory_catalog [sample_view]) (\<lambda>_. ''e0'') sample_contract sample_spec = Inr sample_state"
    by code_simp
  then show ?thesis by (simp add: issued_sample)
qed

section \<open>The coordinator over the store in memory\<close>

lemma memory_load_eq: "op_load memory_calls = memory_load"
  by (simp add: memory_calls_def)

lemma empty_config_ok: "memory_swap.config_ok h ([], [])"
  by (simp add: memory_swap.config_ok_def memory_swap.store_ok_def memory_load_eq memory_load_def)

lemma reachable_ok:
  assumes "explore_run h memory_calls ([], []) c"
  shows "memory_swap.config_ok h c"
  using memory_swap.config_run [OF assms [unfolded explore_run_def] empty_config_ok] by blast

text \<open>
  C38: whatever is issued, prepared and committed, in any interleaving and with any catalogs, workers
  and identifiers, every state in the store is a valid coordinator state stored under the identifier
  of its assignment: a checked assignment, a checked ledger with at least the accepting event, accepted
  artifacts and pending requests that belong together, and request fingerprints that match.
\<close>

theorem exploration_states_valid:
  assumes "explore_run h memory_calls ([], []) (s, rs)" and "memory_load i s = Some st"
  shows "state_ok h i st"
  using reachable_ok [OF assms(1)] assms(2)
  by (simp add: memory_swap.config_ok_def memory_swap.store_ok_def memory_load_eq)

theorem exploration_states_valid_witness:
  "state_ok flat ''x1'' issued_sample"
  by (rule exploration_states_valid [OF issued_reachable issued_store_load])

text \<open>
  C10: the record of an exploration is append-only: from any reachable configuration on, whatever
  interleaves, an assignment that is stored stays stored with the same assignment and sources, its
  events, accepted artifacts and pending requests are kept in place and only added to, and every
  change raises the revision. No concurrent run can overwrite what another has recorded.
\<close>

theorem exploration_append_only:
  assumes "explore_run h memory_calls ([], []) c" and "explore_run h memory_calls c c'"
    and "memory_load i (fst c) = Some st"
  shows "\<exists>st'. memory_load i (fst c') = Some st' \<and> continues st st'"
  using memory_swap.config_run [OF assms(2) [unfolded explore_run_def] reachable_ok [OF assms(1)]] assms(3)
  by (simp add: memory_swap.store_continues_def memory_load_eq)

theorem exploration_append_only_witness:
  "\<exists>st'. memory_load ''x1'' (snd (issue_assignment flat (memory_catalog []) memory_calls (\<lambda>_. ''e9'')
      sample_contract sample_spec issued_store)) = Some st' \<and> continues issued_sample st'"
proof -
  have "explore_run flat memory_calls (issued_store, []) (snd (issue_assignment flat (memory_catalog []) memory_calls
      (\<lambda>_. ''e9'') sample_contract sample_spec issued_store), [])"
    unfolding explore_run_def by (rule r_into_rtranclp) (rule explore_step.Issue)
  from exploration_append_only [OF issued_reachable this, of "''x1''" issued_sample] issued_store_load
  show ?thesis by simp
qed

text \<open>
  C36: a run whose artifact was found good gets through when nobody was faster: it is accepted, its
  replacement is stored, and the revision has grown by one for each hypothesis, request, plan,
  stopping assessment and artifact it reports. Of several runs that were prepared at one revision only one gets
  through: the others are told of the conflict and change nothing.
\<close>

theorem exploration_run_commits:
  assumes "explore_run h memory_calls ([], []) (s, rs)" and "py_strip aid = aid"
    and "prepare_run h resolve memory_calls ids worker aid c n s = Inr (Replacement st r)"
  shows "\<exists>s'. run_assignment h resolve memory_calls ids worker aid c n s = (Inr r, s')
    \<and> memory_load aid s' = Some st \<and> rr_status r = ADVISORY_ACCEPTED \<and> rr_revision r = revision (co_ledger st)
    \<and> revision (co_ledger st) = n + int (length (artifact_payloads (rr_artifact r)))
    \<and> (\<forall>st2 r2. commit_run memory_calls aid n (Replacement st2 r2) s'
        = (coordinator_fail EXPLORATION_LEDGER_REVISION_CONFLICT, s'))"
proof -
  have ok: "memory_swap.store_ok h s" using reachable_ok [OF assms(1)] by (simp add: memory_swap.config_ok_def)
  obtain cur art fp where cur: "op_load memory_calls aid s = Some cur" "revision (co_ledger cur) = n"
    and rep: "replacement_of h ids cur aid art fp = Inr (Replacement st r)"
    using prepare_run_cases [OF assms(3)] assms(2) by (metis prepared.distinct(1))
  have "state_ok h aid cur" using ok cur(1) by (simp add: memory_swap.store_ok_def)
  from replacement_continues [OF rep this]
  have st: "state_ok h aid st" "revision (co_ledger st) = n + int (length (artifact_payloads art))"
    "rr_revision r = revision (co_ledger st)" "rr_status r = ADVISORY_ACCEPTED" "rr_artifact r = art"
    using cur(2) by auto
  have aid: "assignment_id (co_assignment st) = aid" using st(1) by (simp add: state_ok_def)
  obtain s' where sw: "op_swap memory_calls aid n st s = (True, s')"
    using memory_swap.swap_iff [of aid n st s] aid cur by (cases "op_swap memory_calls aid n st s") auto
  have run: "run_assignment h resolve memory_calls ids worker aid c n s = (Inr r, s')"
    by (simp add: run_assignment_def assms(3) commit_run_def sw)
  have new: "memory_load aid s' = Some st"
    using memory_swap.load_swap [OF sw, of aid] by (simp add: memory_load_eq)
  have "commit_run memory_calls aid n (Replacement st2 r2) s'
        = (coordinator_fail EXPLORATION_LEDGER_REVISION_CONFLICT, s')" for st2 r2
  proof -
    have "\<not> fst (op_swap memory_calls aid n st2 s')"
      using memory_swap.swap_iff [of aid n st2 s'] new st(2) artifact_payloads_nonempty [of art]
      by (auto simp: memory_load_eq)
    then obtain s2 where "op_swap memory_calls aid n st2 s' = (False, s2)"
      by (cases "op_swap memory_calls aid n st2 s'") auto
    with memory_swap.swap_refused [OF this] show ?thesis by (simp add: commit_run_def)
  qed
  with run new st show ?thesis by blast
qed

theorem exploration_run_commits_witness:
  "\<exists>s' r st. run_assignment flat (memory_catalog [sample_view]) memory_calls sample_ids
      (\<lambda>_. WorkerArtifact sample_advisory) ''x1'' sample_contract 1 issued_store = (Inr r, s')
    \<and> memory_load ''x1'' s' = Some st \<and> rr_status r = ADVISORY_ACCEPTED"
proof -
  let ?p = "prepare_run flat (memory_catalog [sample_view]) memory_calls sample_ids
      (\<lambda>_. WorkerArtifact sample_advisory) ''x1'' sample_contract 1 issued_store"
  let ?a = "co_assignment sample_state"
  have id: "py_strip ''x1'' = ''x1''" by code_simp
  have st: "required_state memory_calls ''x1'' issued_store = Inr sample_state"
    by (simp add: required_state_def require_nonempty_def require_def model_check_def id memory_load_eq
        issued_store_load issued_sample_value)
  have fp: "contract_fp flat sample_contract = Inr ''fp''" by code_simp
  have parts: "revision (co_ledger sample_state) = 1" "map source_fp (co_sources sample_state) = [''f1'']"
    "map source_id (co_sources sample_state) = [''art1'']" "co_sources sample_state = [sample_view]"
    "co_accepted sample_state = []"
    by (simp_all add: sample_state_def sample_view_def Let_def)
  have ok1: "assignment_issues ?a sample_contract ''fp'' [''f1''] = []" by code_simp
  have ok2: "resolve_sources (memory_catalog [sample_view]) [''art1''] sample_contract = Inr [sample_view]" by code_simp
  have ok3: "check_artifact sample_advisory = Inr ()" by code_simp
  have ok4: "advisory_issues flat ?a sample_advisory sample_contract ''fp'' [''f1''] = []" by code_simp
  have ok5: "artifact_sources sample_advisory \<noteq> []" by (simp add: sample_advisory_def)
  have led: "check_ledger flat (co_ledger sample_state) = Inr ()"
    using issued_state_ok [OF issued_sample] by (simp add: state_ok_def issued_sample_value)
  have ids: "inj sample_ids" by (rule injI) (simp add: sample_ids_def)
  have "\<not> py_isspace CHR ''e''" "\<not> py_isspace CHR ''x''" "py_strip ''fp'' \<noteq> []" by code_simp+
  then have strips: "py_strip (sample_ids k) \<noteq> []" "py_strip (flat t) \<noteq> []" for k t
    using strip_of_clean [of "sample_ids k" py_isspace] by (auto simp: sample_ids_def flat_def py_strip_def)
  have fresh: "sample_ids j \<notin> event_id ` set (events (co_ledger sample_state))" for j
    by (cases j) (simp_all add: sample_ids_def sample_state_def first_event_def Let_def)
  have art: "unique_texts (artifact_sources sample_advisory)" by code_simp
  have asg: "ledger_assignment (co_ledger sample_state) = artifact_assignment sample_advisory"
    by (simp add: sample_state_def sample_advisory_def Let_def)
  obtain l where l: "append_payloads flat sample_ids 0 sample_advisory (artifact_payloads sample_advisory)
      (co_ledger sample_state) = Inr l"
    using append_payloads_progress [OF strips(2) strips(1) ids art led asg fresh] by blast
  have la: "ledger_assignment l = ''x1''"
    using append_payloads_grows [OF l led] by (simp add: sample_state_def Let_def)
  have acc: "check_accepted \<lparr>accepted_id = ''adv1'', accepted_fp = ''fp'', accepted_requests = []\<rparr> = Inr ()" by code_simp
  have uniq: "unique_texts [''art1'']" "unique_texts [''adv1'']" "unique_texts []" by code_simp+
  have none: "evidence_requests sample_advisory = []" "artifact_id sample_advisory = ''adv1''"
    "co_pending sample_state = []" "assignment_id ?a = ''x1''" "assigned_artifacts ?a = [''f1'']"
    by (simp_all add: sample_advisory_def sample_state_def assignment_of_def sample_spec_def sample_view_def Let_def)
  have "\<exists>st r. replacement_of flat sample_ids sample_state ''x1'' sample_advisory ''fp'' = Inr (Replacement st r)"
  proof -
    have "source_fp sample_view = ''f1''" "source_id sample_view = ''art1''" by (simp_all add: sample_view_def)
    then have "check_state \<lparr>co_assignment = ?a, co_sources = [sample_view], co_ledger = l,
        co_accepted = [\<lparr>accepted_id = ''adv1'', accepted_fp = ''fp'', accepted_requests = []\<rparr>], co_pending = []\<rparr> = Inr ()"
      unfolding check_state_def Let_def bind_res_Inr by (simp add: none la uniq)
    then show ?thesis by (simp add: replacement_of_def none parts l acc Let_def model_check_def)
  qed
  then obtain st r where
    rep: "replacement_of flat sample_ids sample_state ''x1'' sample_advisory ''fp'' = Inr (Replacement st r)" by blast
  have src: "source_fp sample_view = ''f1''" "source_id sample_view = ''art1''" by (simp_all add: sample_view_def)
  have p: "?p = Inr (Replacement st r)"
    by (simp add: prepare_run_def st fp parts src ok1 ok2 ok3 ok4 ok5 rep require_code_def require_valid_def
        require_def worker_result_def)
  from exploration_run_commits [OF issued_reachable id p] show ?thesis by blast
qed

text \<open>
  An assignment issued under an identifier with surrounding white space cannot be run: it is stored
  under the identifier as given, and looked up under the stripped one.
\<close>

lemma padded_assignment_unreachable:
  assumes "issue_assignment h resolve memory_calls ids c spec s = (Inr rc, s')"
    and "py_strip (spec_id spec) \<noteq> spec_id spec" and "memory_load (py_strip (spec_id spec)) s = None"
  shows "memory_load (spec_id spec) s' \<noteq> None
    \<and> run_assignment h' resolve' memory_calls ids' worker (spec_id spec) c' n s'
      = (coordinator_fail EXPLORATION_ASSIGNMENT_NOT_FOUND, s')"
proof (rule issue_assignment_cases [OF assms(1)])
  fix st ok assume st: "state_ok h (spec_id spec) st" "op_create memory_calls st s = (ok, s')" "isl (Inr rc) = (\<not> ok)"
  have i: "assignment_id (co_assignment st) = spec_id spec" and nb: "py_strip (spec_id spec) \<noteq> []"
    using st(1) by (auto simp: state_ok_def check_assignment_def)
  have ld: "memory_load j s' = (if j = spec_id spec then Some st else memory_load j s)" for j
    using memory_swap.load_create [of st s s' j] st(2, 3) i by (simp add: memory_load_eq)
  have "required_state memory_calls (spec_id spec) s' = coordinator_fail EXPLORATION_ASSIGNMENT_NOT_FOUND"
    using nb assms(2, 3) by (simp add: required_state_def model_check_def memory_load_eq ld require_nonempty_def require_def)
  then show ?thesis by (simp add: run_assignment_def prepare_run_def coordinator_fail_def ld)
qed simp

end
