(* ===== verification/Data_Snapshot.thy ===== *)
theory Data_Snapshot
  imports Execution_Graph
begin

text \<open>
  Data snapshots: the identity and consistency of one governed read (\<open>DataSnapshotContract\<close> in
  \<^verbatim>\<open>models.py\<close>), when the results of several queries must come from one snapshot, and whether given
  results may be composed (\<^verbatim>\<open>data_snapshot_contract.py\<close>).

  The selected queries are those of a frozen execution graph; the goals are those of the contract.
\<close>

section \<open>The snapshot of one read\<close>

datatype consistency_mode = UNSUPPORTED | OBSERVED_EPOCH | AS_OF_READ

fun consistency_text :: "consistency_mode \<Rightarrow> string" where
  "consistency_text UNSUPPORTED = ''UNSUPPORTED''"
| "consistency_text OBSERVED_EPOCH = ''OBSERVED_EPOCH''"
| "consistency_text AS_OF_READ = ''AS_OF_READ''"

record data_snapshot =
  datasource_fp :: string
  datasource_environment :: string
  data_epoch :: string
  consistency :: consistency_mode
  semantic_activation_fp :: string
  cache_generation :: string
  unsupported_reason :: string

definition cache_identity_complete :: "data_snapshot \<Rightarrow> bool" where
  "cache_identity_complete s \<longleftrightarrow>
     consistency s \<in> {OBSERVED_EPOCH, AS_OF_READ} \<and> datasource_fp s \<noteq> [] \<and> datasource_environment s \<noteq> []
     \<and> data_epoch s \<noteq> [] \<and> semantic_activation_fp s \<noteq> [] \<and> cache_generation s \<noteq> []"

definition supports_atomic_multi_query :: "data_snapshot \<Rightarrow> bool" where
  "supports_atomic_multi_query s \<longleftrightarrow> consistency s = AS_OF_READ \<and> cache_identity_complete s"

definition cache_identity :: "data_snapshot \<Rightarrow> (string, string) dict" where
  "cache_identity s = (if \<not> cache_identity_complete s then [] else
     [(''datasourceFingerprint'', datasource_fp s), (''datasourceEnvironment'', datasource_environment s),
      (''dataEpoch'', data_epoch s), (''consistencyMode'', consistency_text (consistency s)),
      (''semanticActivationFingerprint'', semantic_activation_fp s), (''cacheGeneration'', cache_generation s)])"

section \<open>When several queries need one snapshot\<close>

datatype snapshot_reason_code =
    ATOMIC_SNAPSHOT_CONTRACT_SCOPE_EDGE
  | ATOMIC_SNAPSHOT_CROSS_NODE_COMPARISON
  | ATOMIC_SNAPSHOT_CROSS_NODE_ANALYSIS
  | ATOMIC_SNAPSHOT_CROSS_NODE_POPULATION

record snapshot_reason =
  reason_code :: snapshot_reason_code
  reason_queries :: "string list"
  reason_goals :: "string list"
  reason_kind :: string
  reason_edge :: int
  reason_mode :: string

record snapshot_requirement =
  require_atomic :: bool
  selected_queries :: "string list"
  snapshot_reasons :: "snapshot_reason list"

text \<open>\<open>node_to_query\<close>; in a dictionary the last entry of a key counts.\<close>

definition node_queries :: "(string, string) dict \<Rightarrow> (string, string) dict" where
  "node_queries receipt = rev (filter (\<lambda>(k, q). k \<noteq> [] \<and> q \<noteq> []) (map (\<lambda>(k, q). (py_strip k, py_strip q)) receipt))"

text \<open>\<open>query_ids_by_goal_id\<close>: the selected queries that answer a goal.\<close>

definition add_goal_query :: "string \<Rightarrow> string \<Rightarrow> (string, string list) dict \<Rightarrow> (string, string list) dict" where
  "add_goal_query q g m = AList.update g (fromkeys (dict_get m g [] @ [q])) m"

definition queries_by_goal :: "string list \<Rightarrow> (string, string list) dict \<Rightarrow> (string, string list) dict" where
  "queries_by_goal selected goal_ids = fold (\<lambda>(raw, gs) m.
     if py_strip raw \<notin> set selected then m
     else fold (\<lambda>g m. if py_strip g = [] then m else add_goal_query (py_strip raw) (py_strip g) m) gs m) goal_ids []"

text \<open>
  \<open>add_reason\<close>: a reason counts when it concerns two selected queries at least, and once; the key of
  the code is the whole reason.
\<close>

definition add_reason :: "string list \<Rightarrow> snapshot_reason \<Rightarrow> snapshot_reason list \<Rightarrow> snapshot_reason list" where
  "add_reason selected r rs =
     (let qs = sorted_set (filter (\<lambda>q. q \<in> set selected) (reason_queries r));
          r' = r\<lparr>reason_queries := qs, reason_goals := sorted_set (reason_goals r)\<rparr>
      in if length qs < 2 \<or> r' \<in> set rs then rs else rs @ [r'])"

definition edge_reason :: "(string, string) dict \<Rightarrow> nat \<Rightarrow> edge_spec \<Rightarrow> snapshot_reason option" where
  "edge_reason node_query i e = (if dependency_mode e \<noteq> CONTRACT_SCOPE then None
     else Some \<lparr>reason_code = ATOMIC_SNAPSHOT_CONTRACT_SCOPE_EDGE,
       reason_queries = [dict_get node_query (source_client_key e) [], dict_get node_query (target_client_key e) []],
       reason_goals = [], reason_kind = [], reason_edge = int i, reason_mode = mode_text (dependency_mode e)\<rparr>)"

definition edge_reasons :: "(string, string) dict \<Rightarrow> edge_spec list \<Rightarrow> snapshot_reason list" where
  "edge_reasons node_query es = List.map_filter (\<lambda>(i, e). edge_reason node_query i e) (enumerate 0 es)"

text \<open>The goals a goal compares or analyses, or the population it ranks or details.\<close>

fun structural_inputs :: "goal_body \<Rightarrow> (snapshot_reason_code \<times> string list) option" where
  "structural_inputs (Comparison _ ls rs) = Some (ATOMIC_SNAPSHOT_CROSS_NODE_COMPARISON, ls @ rs)"
| "structural_inputs (Analysis _ is bs) = Some (ATOMIC_SNAPSHOT_CROSS_NODE_ANALYSIS, is @ bs)"
| "structural_inputs (Ranking r) = (if population_scope r = ALL_MATCHING_ROWS then None
     else Some (ATOMIC_SNAPSHOT_CROSS_NODE_POPULATION, population_goal_ids r))"
| "structural_inputs (Detail d) = (if dt_population_scope d = ALL_MATCHING_ROWS then None
     else Some (ATOMIC_SNAPSHOT_CROSS_NODE_POPULATION, dt_population_goal_ids d))"
| "structural_inputs _ = None"

definition goal_reason :: "(string, string list) dict \<Rightarrow> question_goal \<Rightarrow> snapshot_reason option" where
  "goal_reason by_goal g = (case structural_inputs (body g) of
     Some (rc, inputs) \<Rightarrow>
       if inputs = [] then None
       else Some \<lparr>reason_code = rc,
         reason_queries = concat (map (\<lambda>i. dict_get by_goal i []) (goal_id g # inputs)),
         reason_goals = goal_id g # inputs, reason_kind = kind_text (body g), reason_edge = - 1, reason_mode = []\<rparr>
   | None \<Rightarrow> None)"

definition derive_snapshot_requirement ::
  "string list \<Rightarrow> (string, string) dict \<Rightarrow> edge_spec list \<Rightarrow> goal_contract \<Rightarrow> (string, string list) dict
    \<Rightarrow> snapshot_requirement" where
  "derive_snapshot_requirement raw_selected receipt es c goal_ids =
     (let selected = fromkeys (filter (\<lambda>q. q \<noteq> []) (map py_strip raw_selected));
          by_goal = queries_by_goal selected goal_ids;
          found = fold (add_reason selected)
            (edge_reasons (node_queries receipt) es @ List.map_filter (goal_reason by_goal) (goals c)) []
      in if length selected < 2
         then \<lparr>require_atomic = False, selected_queries = selected, snapshot_reasons = []\<rparr>
         else \<lparr>require_atomic = found \<noteq> [], selected_queries = selected, snapshot_reasons = found\<rparr>)"

section \<open>Whether results may be composed\<close>

record query_bundle =
  bundle_failed :: bool
  bundle_snapshot :: data_snapshot

datatype snapshot_issue =
    DATA_SNAPSHOT_MISSING
  | DATA_SNAPSHOT_UNSUPPORTED
  | DATA_SNAPSHOT_MISMATCH
  | ATOMIC_MULTI_QUERY_SNAPSHOT_UNSUPPORTED

definition validate_query_bundle_snapshots :: "query_bundle list \<Rightarrow> bool \<Rightarrow> snapshot_issue list" where
  "validate_query_bundle_snapshots bundles atomic =
     (let snapshots = map bundle_snapshot (filter (\<lambda>b. \<not> bundle_failed b) bundles);
          identities = map cache_identity snapshots
      in case identities of
           [] \<Rightarrow> [DATA_SNAPSHOT_MISSING]
         | first # others \<Rightarrow>
             if [] \<in> set identities then [DATA_SNAPSHOT_UNSUPPORTED]
             else if list_ex (\<lambda>i. i \<noteq> first) others then [DATA_SNAPSHOT_MISMATCH]
             else if atomic \<and> 1 < length snapshots \<and> \<not> list_all supports_atomic_multi_query snapshots
             then [ATOMIC_MULTI_QUERY_SNAPSHOT_UNSUPPORTED]
             else [])"

end
