(* ===== verification/Ttl_Cache.thy ===== *)
theory Ttl_Cache
  imports Py_Text Canonical_Json
begin

text \<open>
  The result caches of \<^verbatim>\<open>cache.py\<close>: the cache in memory with a life time and a least-recently-used
  bound, the one over Redis with the first as its fallback, and the keys.

  Times are whole microseconds, read from the clock by the caller. A value is never changed in place
  (the code copies it on the way in and out). What the Redis server answers, the text of the exception
  included, is an argument of the operation.
\<close>

section \<open>Keys\<close>

definition stable_cache_key :: "(string \<Rightarrow> string) \<Rightarrow> string \<Rightarrow> json \<Rightarrow> string" where
  "stable_cache_key digest namespace payload = namespace @ '':'' @ digest (dumps_spaced payload)"

definition safe_namespace :: "string \<Rightarrow> string" where
  "safe_namespace namespace =
     (let text = py_strip (if namespace = [] then ''merchant_ai'' else namespace);
          safe = map (\<lambda>c. if py_isalnum c \<or> c \<in> {CHR ''_'', CHR ''-'', CHR '':''} then c else CHR ''_'') text
      in if safe = [] then ''merchant_ai'' else safe)"

section \<open>The cache in memory\<close>

record 'v ttl_cache =
  cache_name :: string
  max_entries :: int
  ttl_seconds :: int
  cache_items :: "(string \<times> int \<times> 'v) list"
  hits :: int
  misses :: int
  set_count :: int
  evictions :: int

definition new_ttl_cache :: "string \<Rightarrow> int \<Rightarrow> int \<Rightarrow> 'v ttl_cache" where
  "new_ttl_cache n m t = \<lparr>cache_name = n, max_entries = max 1 (if m = 0 then 1 else m), ttl_seconds = max 0 t,
     cache_items = [], hits = 0, misses = 0, set_count = 0, evictions = 0\<rparr>"

text \<open>\<open>OrderedDict\<close>: \<open>pop\<close>, and \<open>d[k] = v\<close> followed by \<open>move_to_end(k)\<close>.\<close>

definition drop_key :: "string \<Rightarrow> (string \<times> 'a) list \<Rightarrow> (string \<times> 'a) list" where
  "drop_key k d = filter (\<lambda>kv. fst kv \<noteq> k) d"

definition put_last :: "string \<Rightarrow> 'a \<Rightarrow> (string \<times> 'a) list \<Rightarrow> (string \<times> 'a) list" where
  "put_last k v d = drop_key k d @ [(k, v)]"

definition cache_off :: "string \<Rightarrow> 'v ttl_cache \<Rightarrow> bool" where
  "cache_off key c \<longleftrightarrow> key = [] \<or> ttl_seconds c \<le> 0"

definition cache_get :: "int \<Rightarrow> string \<Rightarrow> 'v ttl_cache \<Rightarrow> 'v option \<times> 'v ttl_cache" where
  "cache_get now key c =
     (if cache_off key c then (None, c\<lparr>misses := misses c + 1\<rparr>)
      else case map_of (cache_items c) key of
        None \<Rightarrow> (None, c\<lparr>misses := misses c + 1\<rparr>)
      | Some (expires_at, v) \<Rightarrow>
          if expires_at < now
          then (None, c\<lparr>cache_items := drop_key key (cache_items c), evictions := evictions c + 1, misses := misses c + 1\<rparr>)
          else (Some v, c\<lparr>cache_items := put_last key (expires_at, v) (cache_items c), hits := hits c + 1\<rparr>))"

text \<open>\<open>while len(self._items) > self.max_entries\<close>: the oldest entry goes.\<close>

fun evict_loop :: "int \<Rightarrow> 'a list \<Rightarrow> int \<Rightarrow> 'a list \<times> int" where
  "evict_loop m [] e = ([], e)"
| "evict_loop m (x # xs) e = (if m < int (length (x # xs)) then evict_loop m xs (e + 1) else (x # xs, e))"

definition cache_set :: "int \<Rightarrow> string \<Rightarrow> 'v \<Rightarrow> 'v ttl_cache \<Rightarrow> 'v ttl_cache" where
  "cache_set now key v c =
     (if cache_off key c then c
      else let items = put_last key (now + 1000000 * ttl_seconds c, v) (cache_items c);
               p = evict_loop (max_entries c) items (evictions c)
           in c\<lparr>cache_items := fst p, set_count := set_count c + 1, evictions := snd p\<rparr>)"

definition cache_clear :: "'v ttl_cache \<Rightarrow> 'v ttl_cache" where
  "cache_clear c = c\<lparr>cache_items := []\<rparr>"

definition cache_trace :: "'v ttl_cache \<Rightarrow> (string \<times> json) list" where
  "cache_trace c = [(''name'', JStr (cache_name c)), (''backend'', JStr ''memory''),
     (''entries'', JInt (int (length (cache_items c)))), (''maxEntries'', JInt (max_entries c)),
     (''ttlSeconds'', JInt (ttl_seconds c)), (''hits'', JInt (hits c)), (''misses'', JInt (misses c)),
     (''sets'', JInt (set_count c)), (''evictions'', JInt (evictions c))]"

section \<open>The cache over Redis\<close>

datatype 'v get_reply = GetFails string | NoEntry | Undecodable string | Entry 'v

record 'v redis_cache =
  rc_name :: string
  rc_max_entries :: int
  rc_ttl_seconds :: int
  rc_namespace :: string
  rc_hits :: int
  rc_misses :: int
  rc_sets :: int
  rc_last_error :: string
  rc_fallback :: "'v ttl_cache"
  rc_available :: bool

text \<open>\<open>ping\<close> is what connecting and the first call gave: an exception, or nothing.\<close>

definition new_redis_cache :: "string \<Rightarrow> int \<Rightarrow> int \<Rightarrow> string \<Rightarrow> string \<Rightarrow> string option \<Rightarrow> 'v redis_cache" where
  "new_redis_cache n m t url namespace ping =
     (let c = \<lparr>rc_name = n, rc_max_entries = max 1 (if m = 0 then 1 else m), rc_ttl_seconds = max 0 t,
            rc_namespace = safe_namespace namespace, rc_hits = 0, rc_misses = 0, rc_sets = 0, rc_last_error = [],
            rc_fallback = new_ttl_cache n m t, rc_available = False\<rparr>
      in if url = [] \<or> rc_ttl_seconds c \<le> 0 then c
         else case ping of None \<Rightarrow> c\<lparr>rc_available := True\<rparr> | Some e \<Rightarrow> c\<lparr>rc_last_error := take 200 e\<rparr>)"

definition redis_key :: "'v redis_cache \<Rightarrow> string \<Rightarrow> string" where
  "redis_key c key = rc_namespace c @ '':ttl:'' @ rc_name c @ '':'' @ key"

definition fallback_get :: "int \<Rightarrow> string \<Rightarrow> 'v redis_cache \<Rightarrow> 'v option \<times> 'v redis_cache" where
  "fallback_get now key c = (let p = cache_get now key (rc_fallback c) in (fst p, c\<lparr>rc_fallback := snd p\<rparr>))"

definition redis_lost :: "string \<Rightarrow> 'v redis_cache \<Rightarrow> 'v redis_cache" where
  "redis_lost e c = c\<lparr>rc_last_error := take 200 e, rc_available := False\<rparr>"

definition redis_get :: "int \<Rightarrow> 'v get_reply \<Rightarrow> string \<Rightarrow> 'v redis_cache \<Rightarrow> 'v option \<times> 'v redis_cache" where
  "redis_get now reply key c =
     (if key = [] \<or> rc_ttl_seconds c \<le> 0 then (None, c\<lparr>rc_misses := rc_misses c + 1\<rparr>)
      else if \<not> rc_available c then fallback_get now key c
      else case reply of
        NoEntry \<Rightarrow> (None, c\<lparr>rc_misses := rc_misses c + 1\<rparr>)
      | Entry v \<Rightarrow> (Some v, c\<lparr>rc_hits := rc_hits c + 1\<rparr>)
      | Undecodable e \<Rightarrow> fallback_get now key (redis_lost e (c\<lparr>rc_hits := rc_hits c + 1\<rparr>))
      | GetFails e \<Rightarrow> fallback_get now key (redis_lost e c))"

text \<open>\<open>reply\<close> is the exception of encoding the value or of the call, if there is one.\<close>

definition redis_set :: "int \<Rightarrow> string option \<Rightarrow> string \<Rightarrow> 'v \<Rightarrow> 'v redis_cache \<Rightarrow> 'v redis_cache" where
  "redis_set now reply key v c =
     (if key = [] \<or> rc_ttl_seconds c \<le> 0 then c
      else if \<not> rc_available c then c\<lparr>rc_fallback := cache_set now key v (rc_fallback c)\<rparr>
      else case reply of
        None \<Rightarrow> c\<lparr>rc_sets := rc_sets c + 1\<rparr>
      | Some e \<Rightarrow> (redis_lost e c)\<lparr>rc_fallback := cache_set now key v (rc_fallback c)\<rparr>)"

definition redis_clear :: "string option \<Rightarrow> 'v redis_cache \<Rightarrow> 'v redis_cache" where
  "redis_clear reply c =
     (let c = c\<lparr>rc_fallback := cache_clear (rc_fallback c)\<rparr>
      in if \<not> rc_available c then c else case reply of None \<Rightarrow> c | Some e \<Rightarrow> redis_lost e c)"

text \<open>The loop of \<open>_redis_entry_count\<close> over the keys the server lists.\<close>

fun count_keys :: "int \<Rightarrow> int \<Rightarrow> string list \<Rightarrow> int" where
  "count_keys m n [] = n"
| "count_keys m n (k # ks) = (if m \<le> n + 1 then n + 1 else count_keys m (n + 1) ks)"

definition redis_entry_count :: "string + string list \<Rightarrow> 'v redis_cache \<Rightarrow> int \<times> 'v redis_cache" where
  "redis_entry_count reply c =
     (if \<not> rc_available c then (int (length (cache_items (rc_fallback c))), c)
      else case reply of
        Inr ks \<Rightarrow> (count_keys (rc_max_entries c) 0 ks, c)
      | Inl e \<Rightarrow> (0, c\<lparr>rc_last_error := take 200 e\<rparr>))"

definition redis_trace :: "string + string list \<Rightarrow> 'v redis_cache \<Rightarrow> (string \<times> json) list \<times> 'v redis_cache" where
  "redis_trace reply c =
     (let (n, c') = redis_entry_count reply c; f = rc_fallback c'
      in ([(''name'', JStr (rc_name c)), (''backend'', JStr (if rc_available c then ''redis'' else ''redis+memory_fallback'')),
           (''available'', JBool (rc_available c)), (''namespace'', JStr (rc_namespace c)), (''entries'', JInt n),
           (''maxEntries'', JInt (rc_max_entries c)), (''ttlSeconds'', JInt (rc_ttl_seconds c)),
           (''hits'', JInt (rc_hits c + hits f)), (''misses'', JInt (rc_misses c + misses f)),
           (''sets'', JInt (rc_sets c + set_count f)), (''evictions'', JInt (evictions f))]
          @ (if rc_last_error c' \<noteq> [] then [(''lastError'', JStr (rc_last_error c'))] else [])
          @ (if \<not> rc_available c' then [(''fallback'', JObj (cache_trace f))] else []), c'))"

section \<open>Choosing a cache\<close>

record cache_settings =
  cs_max_entries :: int
  cs_cache_enabled :: bool
  cs_redis_enabled :: bool
  cs_redis_cache_enabled :: bool
  cs_redis_url :: string
  cs_redis_namespace :: string

datatype 'v any_cache = InMemory "'v ttl_cache" | OverRedis "'v redis_cache"

definition build_ttl_cache :: "string \<Rightarrow> cache_settings \<Rightarrow> int \<Rightarrow> string option \<Rightarrow> 'v any_cache" where
  "build_ttl_cache n s t ping =
     (let m = (if cs_max_entries s = 0 then 512 else cs_max_entries s);
          effective = (if cs_cache_enabled s then t else 0)
      in if cs_redis_enabled s \<and> cs_redis_cache_enabled s
         then OverRedis (new_redis_cache n m effective (cs_redis_url s)
           (if cs_redis_namespace s = [] then ''merchant_ai'' else cs_redis_namespace s) ping)
         else InMemory (new_ttl_cache n m effective))"

end
