(* ===== verification/Doris_Repository.thy ===== *)
theory Doris_Repository
  imports Data_Snapshot Ttl_Cache Json_Python
begin

text \<open>
  The Doris repository (\<open>DorisRepository\<close> of \<^verbatim>\<open>repositories.py\<close>): the snapshot of the current data
  generation, the check that a given snapshot is still current, and queries through the result cache.

  The database is a parameter: a call carries what it answers, the rows or the text of its exception,
  first to the query of the data epoch and then to the query itself. The rows of a query are of any
  type; those of the epoch query are objects. The cache is the one in memory. Rows are read at most
  once per call, so the two readings of the clock by the cache are arguments too. Left out are the
  capture times of the snapshots and the parts of a log record but the operation and the message.
\<close>

section \<open>Configuration\<close>

record repo_config =
  db_host :: string
  db_port :: int
  db_database :: string
  cfg_environment :: string
  cfg_epoch_sql :: string
  cfg_epoch_column :: string
  cfg_generation :: string

definition datasource_fingerprint :: "(string \<Rightarrow> string) \<Rightarrow> repo_config \<Rightarrow> string" where
  "datasource_fingerprint digest cfg = stable_cache_key digest ''doris_datasource'' (JObj
     [(''host'', JStr (db_host cfg)), (''port'', JInt (db_port cfg)), (''database'', JStr (db_database cfg)),
      (''environment'', JStr (py_strip (cfg_environment cfg)))])"

section \<open>Which statements are cached\<close>

text \<open>\<open>text.rstrip(";")\<close> and \<open>" ".join(text.split())\<close>.\<close>

definition without_semicolons :: "string \<Rightarrow> string" where
  "without_semicolons s = rstrip_of (\<lambda>c. c = CHR '';'') s"

definition normalize_sql_for_cache :: "string \<Rightarrow> string" where
  "normalize_sql_for_cache sql = join_with '' '' (py_words sql)"

definition volatile_calls :: "string list" where
  "volatile_calls = ['' rand('', '' random('', '' now('', '' current_timestamp'', '' uuid('']"

definition cacheable_query :: "string \<Rightarrow> bool" where
  "cacheable_query sql =
     (let text = py_lower (py_strip sql)
      in if text = [] then False
         else if \<not> (starts_with text ''select'' \<or> starts_with text ''show '') then False
         else if CHR '';'' \<in> set (without_semicolons text) then False
         else \<not> list_ex (contains_text ('' '' @ text)) volatile_calls)"

definition valid_sha256 :: "string \<Rightarrow> bool" where
  "valid_sha256 value = (let text = py_lower (py_strip value)
     in length text = 64 \<and> list_all (\<lambda>c. c \<in> set ''0123456789abcdef'') text)"

section \<open>The current snapshot\<close>

type_synonym epoch_reply = "string + (string, json) dict list"

definition missing_settings :: "(string \<times> string) list \<Rightarrow> string list" where
  "missing_settings named = map fst (filter (\<lambda>(_, v). v = []) named)"

text \<open>The second component is the logged degradation, if the epoch query raised.\<close>

definition capture_data_snapshot ::
  "(string \<Rightarrow> string) \<Rightarrow> repo_config \<Rightarrow> epoch_reply \<Rightarrow> string \<Rightarrow> data_snapshot \<times> (string \<times> string) option" where
  "capture_data_snapshot digest cfg reply semantic =
     (let environment = py_strip (cfg_environment cfg); sql = py_strip (cfg_epoch_sql cfg);
          column = py_strip (cfg_epoch_column cfg); generation = py_strip (cfg_generation cfg);
          activation = py_strip semantic;
          base = \<lparr>datasource_fp = datasource_fingerprint digest cfg, datasource_environment = environment,
            data_epoch = [], consistency = UNSUPPORTED, semantic_activation_fp = activation,
            cache_generation = generation, unsupported_reason = []\<rparr>;
          missing = missing_settings [(''DATASOURCE_ENVIRONMENT'', environment), (''DATA_EPOCH_SQL'', sql),
            (''DATA_EPOCH_COLUMN'', column), (''SEMANTIC_ACTIVATION_FINGERPRINT'', activation),
            (''CACHE_GENERATION'', generation)]
      in if missing \<noteq> [] then (base\<lparr>unsupported_reason := ''MISSING_'' @ join_with ''_AND_'' missing\<rparr>, None)
         else if \<not> cacheable_query sql
         then (base\<lparr>unsupported_reason := ''DATA_EPOCH_SQL_MUST_BE_SINGLE_READ_ONLY_QUERY''\<rparr>, None)
         else case reply of
           Inl e \<Rightarrow> (base\<lparr>unsupported_reason := ''DATA_EPOCH_QUERY_FAILED''\<rparr>, Some (''capture_data_snapshot'', take 500 e))
         | Inr [row] \<Rightarrow>
             (if map_of row column = None then (base\<lparr>unsupported_reason := ''DATA_EPOCH_RESULT_INVALID''\<rparr>, None)
              else let epoch = py_strip (payload_text row column)
                in if epoch = [] then (base\<lparr>unsupported_reason := ''DATA_EPOCH_EMPTY''\<rparr>, None)
                   else (base\<lparr>data_epoch := epoch, consistency := OBSERVED_EPOCH\<rparr>, None))
         | Inr _ \<Rightarrow> (base\<lparr>unsupported_reason := ''DATA_EPOCH_RESULT_INVALID''\<rparr>, None))"

datatype repo_error =
    AsOfReadUnsupported
  | SnapshotDatasourceMismatch
  | SnapshotRevalidationFailed
  | SnapshotStale
  | QueryFailed string
  | MerchantIdRequired
  | IllegalIdentifier
  | SqlRequired

definition snapshot_is_current ::
  "(string \<Rightarrow> string) \<Rightarrow> repo_config \<Rightarrow> epoch_reply \<Rightarrow> data_snapshot \<Rightarrow> (repo_error + bool) \<times> (string \<times> string) option" where
  "snapshot_is_current digest cfg reply s =
     (if \<not> cache_identity_complete s then (Inr False, None)
      else if consistency s = AS_OF_READ then (Inl AsOfReadUnsupported, None)
      else if datasource_fp s \<noteq> datasource_fingerprint digest cfg then (Inl SnapshotDatasourceMismatch, None)
      else let (current, log) = capture_data_snapshot digest cfg reply (semantic_activation_fp s)
        in if \<not> cache_identity_complete current then (Inl SnapshotRevalidationFailed, log)
           else if cache_identity current \<noteq> cache_identity s then (Inl SnapshotStale, log)
           else (Inr True, log))"

definition same_authority :: "data_snapshot \<Rightarrow> data_snapshot \<Rightarrow> bool" where
  "same_authority a b \<longleftrightarrow> datasource_fp a = datasource_fp b \<and> datasource_environment a = datasource_environment b
     \<and> data_epoch a = data_epoch b \<and> consistency a = consistency b
     \<and> semantic_activation_fp a = semantic_activation_fp b \<and> cache_generation a = cache_generation b"

definition revalidate_data_snapshot ::
  "(string \<Rightarrow> string) \<Rightarrow> repo_config \<Rightarrow> epoch_reply \<Rightarrow> data_snapshot
    \<Rightarrow> (repo_error + data_snapshot) \<times> (string \<times> string) option" where
  "revalidate_data_snapshot digest cfg reply s =
     (if cache_identity_complete s
      then case snapshot_is_current digest cfg reply s of (Inl e, log) \<Rightarrow> (Inl e, log) | (Inr _, log) \<Rightarrow> (Inr s, log)
      else if datasource_fp s \<noteq> [] \<and> datasource_fp s \<noteq> datasource_fingerprint digest cfg
      then (Inl SnapshotDatasourceMismatch, None)
      else case capture_data_snapshot digest cfg reply (semantic_activation_fp s) of
        (current, log) \<Rightarrow> (if same_authority current s then Inr s else Inl SnapshotStale, log))"

section \<open>A query\<close>

record 'v query_call =
  qc_sql :: string
  qc_params :: "json list"
  qc_snapshot :: "data_snapshot option"
  qc_semantic :: string
  qc_scope :: string
  qc_epoch_reply :: epoch_reply
  qc_rows_reply :: "string + 'v"
  qc_read_at :: int
  qc_stored_at :: int

record 'v doris_repo =
  repo_cache :: "'v ttl_cache"
  last_cache_hit :: bool
  last_cache_key :: string
  last_identity_kind :: string
  last_semantic_fp :: string
  last_scope_fp :: string
  last_data_snapshot :: data_snapshot
  last_degraded :: "(string \<times> string) option"

definition empty_snapshot :: data_snapshot where
  "empty_snapshot = \<lparr>datasource_fp = [], datasource_environment = [], data_epoch = [], consistency = UNSUPPORTED,
     semantic_activation_fp = [], cache_generation = [], unsupported_reason = []\<rparr>"

definition new_repo :: "'v ttl_cache \<Rightarrow> 'v doris_repo" where
  "new_repo cache = \<lparr>repo_cache = cache, last_cache_hit = False, last_cache_key = [], last_identity_kind = [],
     last_semantic_fp = [], last_scope_fp = [], last_data_snapshot = empty_snapshot, last_degraded = None\<rparr>"

definition effective_snapshot :: "'v query_call \<Rightarrow> data_snapshot" where
  "effective_snapshot q = (case qc_snapshot q of Some s \<Rightarrow> s
     | None \<Rightarrow> empty_snapshot\<lparr>unsupported_reason := ''DATA_SNAPSHOT_CONTRACT_NOT_SUPPLIED''\<rparr>)"

definition semantic_identity_available :: "'v query_call \<Rightarrow> bool" where
  "semantic_identity_available q \<longleftrightarrow>
     valid_sha256 (py_lower (py_strip (qc_semantic q))) \<and> valid_sha256 (py_lower (py_strip (qc_scope q)))"

definition query_identity :: "'v query_call \<Rightarrow> (string \<times> json) list" where
  "query_identity q = (if semantic_identity_available q
     then [(''semanticRequestFingerprint'', JStr (py_lower (py_strip (qc_semantic q)))),
           (''scopeFingerprint'', JStr (py_lower (py_strip (qc_scope q))))]
     else [(''sql'', JStr (normalize_sql_for_cache (qc_sql q)))])"

definition query_cache_key :: "(string \<Rightarrow> string) \<Rightarrow> 'v query_call \<Rightarrow> string" where
  "query_cache_key digest q = stable_cache_key digest ''doris'' (JObj
     [(''queryIdentity'', JObj (query_identity q)), (''params'', JArr (qc_params q)),
      (''snapshot'', JObj (map (\<lambda>(k, v). (k, JStr v)) (cache_identity (effective_snapshot q))))])"

definition note_log :: "(string \<times> string) option \<Rightarrow> 'v doris_repo \<Rightarrow> 'v doris_repo" where
  "note_log log r = (case log of None \<Rightarrow> r | Some l \<Rightarrow> r\<lparr>last_degraded := Some l\<rparr>)"

text \<open>The reset at the start of a query, and what is noted about a query that has a cache key.\<close>

definition begin_query :: "'v query_call \<Rightarrow> 'v doris_repo \<Rightarrow> 'v doris_repo" where
  "begin_query q r = r\<lparr>last_cache_hit := False, last_cache_key := [], last_identity_kind := [], last_semantic_fp := [],
     last_scope_fp := [], last_data_snapshot := effective_snapshot q\<rparr>"

definition note_identity :: "'v query_call \<Rightarrow> 'v doris_repo \<Rightarrow> 'v doris_repo" where
  "note_identity q r = (let semantic = semantic_identity_available q in
     r\<lparr>last_identity_kind := (if semantic then ''SEMANTIC_REQUEST'' else ''SQL''),
       last_semantic_fp := (if semantic then py_lower (py_strip (qc_semantic q)) else []),
       last_scope_fp := (if semantic then py_lower (py_strip (qc_scope q)) else [])\<rparr>)"

text \<open>Running the statement, and storing its rows under the key if there is one.\<close>

definition run_statement :: "string \<Rightarrow> 'v query_call \<Rightarrow> 'v doris_repo \<Rightarrow> (repo_error + 'v) \<times> 'v doris_repo" where
  "run_statement key q r = (case qc_rows_reply q of
     Inl e \<Rightarrow> (Inl (QueryFailed e), r\<lparr>last_degraded := Some (''query'', take 500 e)\<rparr>)
   | Inr rows \<Rightarrow> (Inr rows, if key = [] then r
       else r\<lparr>repo_cache := cache_set (qc_stored_at q) key rows (repo_cache r), last_cache_key := key\<rparr>))"

definition repo_query ::
  "(string \<Rightarrow> string) \<Rightarrow> repo_config \<Rightarrow> 'v query_call \<Rightarrow> 'v doris_repo \<Rightarrow> (repo_error + 'v) \<times> 'v doris_repo" where
  "repo_query digest cfg q r =
     (case snapshot_is_current digest cfg (qc_epoch_reply q) (effective_snapshot q) of
        (Inl e, log) \<Rightarrow> (Inl e, note_log log (begin_query q r))
      | (Inr current, log) \<Rightarrow>
          (let r = note_log log (begin_query q r)
           in if \<not> (cacheable_query (qc_sql q) \<and> current) then run_statement [] q r
              else let key = query_cache_key digest q; r = note_identity q r;
                       (cached, cache) = cache_get (qc_read_at q) key (repo_cache r); r = r\<lparr>repo_cache := cache\<rparr>
                in case cached of
                     Some rows \<Rightarrow> (Inr rows, r\<lparr>last_cache_hit := True, last_cache_key := key\<rparr>)
                   | None \<Rightarrow> run_statement key q r))"

definition clear_repo_cache :: "'v doris_repo \<Rightarrow> 'v doris_repo" where
  "clear_repo_cache r = r\<lparr>repo_cache := cache_clear (repo_cache r)\<rparr>"

section \<open>Statements over one table\<close>

definition safe_identifier :: "string \<Rightarrow> repo_error + string" where
  "safe_identifier s = (if s = [] \<or> \<not> list_all (\<lambda>c. py_isalnum c \<or> c = CHR ''_'') s then Inl IllegalIdentifier else Inr s)"

definition backquoted :: "string \<Rightarrow> string" where
  "backquoted s = ''`'' @ s @ ''`''"

definition show_statement :: "string \<Rightarrow> string \<Rightarrow> repo_error + string" where
  "show_statement what tbl = bind_res (safe_identifier tbl) (\<lambda>t. Inr (''SHOW '' @ what @ '' '' @ backquoted t))"

definition explain_statement :: "string \<Rightarrow> repo_error + string" where
  "explain_statement sql = (if py_strip sql = [] then Inl SqlRequired else Inr (''EXPLAIN VERBOSE '' @ py_strip sql))"

definition sample_statement :: "string \<Rightarrow> string \<Rightarrow> string \<Rightarrow> int \<Rightarrow> repo_error + string \<times> json list" where
  "sample_statement tbl merchant column limit =
     bind_res (safe_identifier tbl) (\<lambda>t. bind_res (safe_identifier column) (\<lambda>c.
       if py_strip merchant = [] then Inl MerchantIdRequired
       else Inr (''SELECT * FROM '' @ backquoted t @ '' WHERE '' @ backquoted c @ '' = %s LIMIT ''
         @ int_text (max 1 (min limit 100)), [JStr (py_strip merchant)])))"

end
