(* ===== verification/Cache_Laws.thy ===== *)
theory Cache_Laws
  imports Ttl_Cache
begin

text \<open>
  What the caches promise: what is served is what was last put in, not longer ago than the life time;
  the bound on the entries; and that the entries used last are the ones kept.
\<close>

section \<open>The interface: a lossy map with a life time\<close>

datatype 'v cache_op = Get int string | Put int string 'v | Clear

text \<open>What a map without loss holds for each key: the value put in last and its expiry.\<close>

fun latest :: "int \<Rightarrow> 'v cache_op list \<Rightarrow> (string \<rightharpoonup> int \<times> 'v) \<Rightarrow> (string \<rightharpoonup> int \<times> 'v)" where
  "latest ttl [] m = m"
| "latest ttl (Get t k # ops) m = latest ttl ops m"
| "latest ttl (Put t k v # ops) m = latest ttl ops (m(k \<mapsto> (t + ttl, v)))"
| "latest ttl (Clear # ops) m = latest ttl ops Map.empty"

text \<open>
  A cache may forget an entry, but never serves one that was replaced or has expired: \<open>holds\<close> is what
  it could still serve.
\<close>

locale lossy_map =
  fixes get :: "int \<Rightarrow> string \<Rightarrow> 'c \<Rightarrow> 'v option \<times> 'c"
    and put :: "int \<Rightarrow> string \<Rightarrow> 'v \<Rightarrow> 'c \<Rightarrow> 'c"
    and clear :: "'c \<Rightarrow> 'c"
    and ok :: "'c \<Rightarrow> bool"
    and holds :: "'c \<Rightarrow> string \<rightharpoonup> int \<times> 'v"
    and ttl :: "'c \<Rightarrow> int"
  assumes ok_get: "ok c \<Longrightarrow> ok (snd (get now k c))"
    and ok_put: "ok c \<Longrightarrow> ok (put now k v c)"
    and ok_clear: "ok c \<Longrightarrow> ok (clear c)"
    and get_forgets: "ok c \<Longrightarrow> holds (snd (get now k c)) \<subseteq>\<^sub>m holds c"
    and get_held: "ok c \<Longrightarrow> fst (get now k c) = Some v \<Longrightarrow> \<exists>e. holds c k = Some (e, v) \<and> now \<le> e"
    and put_holds: "ok c \<Longrightarrow> holds (put now k v c) \<subseteq>\<^sub>m (holds c)(k \<mapsto> (now + ttl c, v))"
    and clear_holds: "holds (clear c) = Map.empty"
    and ttl_get: "ttl (snd (get now k c)) = ttl c"
    and ttl_put: "ttl (put now k v c) = ttl c"
    and ttl_clear: "ttl (clear c) = ttl c"
begin

fun step :: "'v cache_op \<Rightarrow> 'c \<Rightarrow> 'c" where
  "step (Get t k) c = snd (get t k c)"
| "step (Put t k v) c = put t k v c"
| "step Clear c = clear c"

lemma step_ok: "ok c \<Longrightarrow> ok (step op c)"
  by (cases op) (simp_all add: ok_get ok_put ok_clear)

lemma step_ttl: "ttl (step op c) = ttl c"
  by (cases op) (simp_all add: ttl_get ttl_put ttl_clear)

lemma steps_ok: "ok c \<Longrightarrow> ok (fold step ops c)"
  by (induction ops arbitrary: c) (simp_all add: step_ok)

lemma step_latest:
  assumes "ok c" and "holds c \<subseteq>\<^sub>m m"
  shows "holds (step op c) \<subseteq>\<^sub>m latest (ttl c) [op] m"
proof (cases op)
  case (Get t k)
  then show ?thesis using map_le_trans [OF get_forgets assms(2)] assms(1) by simp
next
  case (Put t k v)
  then show ?thesis using map_le_trans [OF put_holds map_le_upd [OF assms(2)]] assms(1) by simp
next
  case Clear
  then show ?thesis by (simp add: clear_holds)
qed

lemma steps_latest: "ok c \<Longrightarrow> holds c \<subseteq>\<^sub>m m \<Longrightarrow> holds (fold step ops c) \<subseteq>\<^sub>m latest (ttl c) ops m"
proof (induction ops arbitrary: c m)
  case (Cons op ops)
  have "latest t (op # ops) m = latest t ops (latest t [op] m)" for t by (cases op) simp_all
  then show ?case
    using Cons.IH [OF step_ok [OF Cons.prems(1)] step_latest [OF Cons.prems, of op]] by (simp add: step_ttl)
qed simp

lemma serves_latest:
  assumes "ok c" and "holds c = Map.empty" and "fst (get now k (fold step ops c)) = Some v"
  shows "\<exists>e. latest (ttl c) ops Map.empty k = Some (e, v) \<and> now \<le> e"
proof -
  have "holds (fold step ops c) \<subseteq>\<^sub>m latest (ttl c) ops Map.empty"
    using steps_latest [of c Map.empty ops] assms(1,2) by simp
  moreover obtain e where "holds (fold step ops c) k = Some (e, v)" "now \<le> e"
    using get_held [OF steps_ok [OF assms(1)] assms(3)] by blast
  ultimately show ?thesis by (metis domI map_le_def)
qed

end

section \<open>The cache in memory provides it\<close>

lemma map_of_drop_key: "map_of (drop_key k d) = (map_of d)(k := None)"
  by (induction d) (auto simp: drop_key_def)

lemma fst_drop_key: "map fst (drop_key k d) = filter (\<lambda>x. x \<noteq> k) (map fst d)"
  by (simp add: drop_key_def filter_map comp_def)

lemma distinct_put_last: "distinct (map fst d) \<Longrightarrow> distinct (map fst (put_last k v d))"
  unfolding put_last_def map_append fst_drop_key by auto

lemma map_of_put_last: "map_of (put_last k v d) = (map_of d)(k \<mapsto> v)"
proof (rule ext)
  fix x
  show "map_of (put_last k v d) x = ((map_of d)(k \<mapsto> v)) x"
    by (cases "x = k") (auto simp: put_last_def map_add_def map_of_drop_key split: option.split)
qed

lemma evict_loop_take_last: "0 \<le> m \<Longrightarrow> fst (evict_loop m xs e) = take_last (nat m) xs"
proof (induction m xs e rule: evict_loop.induct)
  case (2 m x xs e)
  then show ?case by (auto simp: take_last_def Suc_diff_le nat_less_iff)
qed (simp add: take_last_def)

lemma evict_loop_count: "snd (evict_loop m xs e) = e + int (length xs) - int (length (fst (evict_loop m xs e)))"
  by (induction m xs e rule: evict_loop.induct) auto

lemma map_of_drop_le:
  assumes "distinct (map fst d)"
  shows "map_of (drop n d) \<subseteq>\<^sub>m map_of d"
proof -
  have "map_of d k = Some v" if "map_of (drop n d) k = Some v" for k v
    using map_of_SomeD [OF that] in_set_dropD [of "(k, v)" n d] map_of_is_SomeI [OF assms] by blast
  then show ?thesis by (auto simp: map_le_def)
qed

definition cache_ok :: "'v ttl_cache \<Rightarrow> bool" where
  "cache_ok c \<longleftrightarrow> distinct (map fst (cache_items c)) \<and> 1 \<le> max_entries c
     \<and> int (length (cache_items c)) \<le> max_entries c"

definition cache_life :: "'v ttl_cache \<Rightarrow> int" where
  "cache_life c = 1000000 * ttl_seconds c"

lemma length_put_last_known: "map_of d k \<noteq> None \<Longrightarrow> length (put_last k v d) \<le> length d"
proof (induction d)
  case (Cons x d)
  have "length (drop_key k d) \<le> length d" by (simp add: drop_key_def)
  with Cons show ?case by (cases x) (auto simp: put_last_def drop_key_def split: if_splits)
qed simp

lemma cache_get_ok: "cache_ok c \<Longrightarrow> cache_ok (snd (cache_get now k c))"
proof -
  assume c: "cache_ok c"
  have drop: "distinct (map fst (drop_key k (cache_items c)))" "length (drop_key k (cache_items c)) \<le> length (cache_items c)"
    using c by (auto simp: cache_ok_def fst_drop_key) (simp add: drop_key_def)
  have put: "length (put_last k v (cache_items c)) \<le> length (cache_items c)" if "map_of (cache_items c) k = Some u" for u v
    using length_put_last_known [of "cache_items c" k v] that by simp
  have "int (length (put_last k v (cache_items c))) \<le> max_entries c" if "map_of (cache_items c) k = Some u" for u v
    using put [OF that, of v] c by (simp add: cache_ok_def)
  then show ?thesis using c drop
    by (auto simp: cache_get_def cache_ok_def distinct_put_last split: option.split simp del: map_of_eq_Some_iff)
qed

lemma cache_set_items:
  "cache_ok c \<Longrightarrow> \<not> cache_off k c \<Longrightarrow> cache_items (cache_set now k v c)
      = take_last (nat (max_entries c)) (put_last k (now + cache_life c, v) (cache_items c))"
  by (simp add: cache_set_def Let_def cache_life_def evict_loop_take_last cache_ok_def)

lemma cache_settings_kept [simp]:
  "max_entries (cache_set now k v c) = max_entries c" "ttl_seconds (cache_set now k v c) = ttl_seconds c"
  "max_entries (snd (cache_get now k c)) = max_entries c" "ttl_seconds (snd (cache_get now k c)) = ttl_seconds c"
  by (auto simp: cache_set_def cache_get_def Let_def split: option.split)

lemma cache_set_ok: "cache_ok c \<Longrightarrow> cache_ok (cache_set now k v c)"
proof (cases "cache_off k c")
  case False
  assume c: "cache_ok c"
  have "distinct (map fst (take_last n (put_last k x (cache_items c))))" for n x
    using distinct_put_last [of "cache_items c" k x] c
    by (simp add: take_last_def cache_ok_def drop_map [symmetric] del: drop_map)
  moreover have "int (min (nat m) n) \<le> m" if "1 \<le> m" for m n
    using that by (auto simp: min_def)
  ultimately show ?thesis using cache_set_items [OF c False] c by (simp add: cache_ok_def)
qed (simp add: cache_set_def)

definition cache_holds :: "'v ttl_cache \<Rightarrow> string \<rightharpoonup> int \<times> 'v" where
  "cache_holds c k = (if cache_off k c then None else map_of (cache_items c) k)"

lemma cache_off_kept [simp]:
  "cache_off k' (cache_set now k v c) = cache_off k' c" "cache_off k' (snd (cache_get now k c)) = cache_off k' c"
  by (simp_all add: cache_off_def)

lemma cache_get_map: "map_of (cache_items (snd (cache_get now k c))) \<subseteq>\<^sub>m map_of (cache_items c)"
  by (auto simp: cache_get_def map_of_drop_key map_of_put_last map_le_def split: option.split)

lemma cache_get_Some:
  "fst (cache_get now k c) = Some v \<longleftrightarrow> (\<exists>e. cache_holds c k = Some (e, v) \<and> now \<le> e)"
  by (auto simp: cache_get_def cache_holds_def split: option.split if_splits)

lemma cache_set_map:
  assumes "cache_ok c" and "\<not> cache_off k c"
  shows "map_of (cache_items (cache_set now k v c)) \<subseteq>\<^sub>m (map_of (cache_items c))(k \<mapsto> (now + cache_life c, v))"
  unfolding cache_set_items [OF assms] take_last_def map_of_put_last [symmetric]
  using assms(1) by (intro map_of_drop_le distinct_put_last) (simp add: cache_ok_def)

lemma map_le_restricted: "m \<subseteq>\<^sub>m m' \<Longrightarrow> (\<lambda>k. if p k then None else m k) \<subseteq>\<^sub>m (\<lambda>k. if p k then None else m' k)"
  by (auto simp: map_le_def dom_def split: if_splits)

lemma cache_holds_set:
  assumes "cache_ok c"
  shows "cache_holds (cache_set now k v c) \<subseteq>\<^sub>m (cache_holds c)(k \<mapsto> (now + cache_life c, v))"
proof (cases "cache_off k c")
  case True
  then have "cache_set now k v c = c" "k \<notin> dom (cache_holds c)" by (auto simp: cache_set_def cache_holds_def dom_def)
  then show ?thesis by (auto simp: map_le_def)
next
  case False
  have "cache_holds (cache_set now k v c) = (\<lambda>k'. if cache_off k' c then None else map_of (cache_items (cache_set now k v c)) k')"
    by (rule ext) (simp add: cache_holds_def)
  moreover have "(cache_holds c)(k \<mapsto> (now + cache_life c, v))
      = (\<lambda>k'. if cache_off k' c then None else ((map_of (cache_items c))(k \<mapsto> (now + cache_life c, v))) k')"
    using False by (auto simp: cache_holds_def)
  ultimately show ?thesis using map_le_restricted [OF cache_set_map [OF assms False]] by simp
qed

lemma cache_holds_get: "cache_holds (snd (cache_get now k c)) \<subseteq>\<^sub>m cache_holds c"
proof -
  have "cache_holds (snd (cache_get now k c)) = (\<lambda>k'. if cache_off k' c then None else map_of (cache_items (snd (cache_get now k c))) k')"
    and "cache_holds c = (\<lambda>k'. if cache_off k' c then None else map_of (cache_items c) k')"
    by (rule ext, simp add: cache_holds_def)+
  then show ?thesis using map_le_restricted [OF cache_get_map] by simp
qed

interpretation tc: lossy_map cache_get cache_set cache_clear cache_ok cache_holds cache_life
proof unfold_locales
  fix c :: "'v ttl_cache" and now k and v :: 'v
  show "cache_ok c \<Longrightarrow> cache_ok (snd (cache_get now k c))" by (rule cache_get_ok)
  show "cache_ok c \<Longrightarrow> cache_ok (cache_set now k v c)" by (rule cache_set_ok)
  show "cache_ok c \<Longrightarrow> cache_ok (cache_clear c)" by (simp add: cache_ok_def cache_clear_def)
  show "cache_holds (snd (cache_get now k c)) \<subseteq>\<^sub>m cache_holds c" by (rule cache_holds_get)
  show "fst (cache_get now k c) = Some v \<Longrightarrow> \<exists>e. cache_holds c k = Some (e, v) \<and> now \<le> e"
    by (simp add: cache_get_Some)
  show "cache_ok c \<Longrightarrow> cache_holds (cache_set now k v c) \<subseteq>\<^sub>m (cache_holds c)(k \<mapsto> (now + cache_life c, v))"
    by (rule cache_holds_set)
qed (auto simp: cache_clear_def cache_holds_def cache_life_def)

section \<open>Which entries are kept\<close>

fun cache_step :: "'v cache_op \<Rightarrow> 'v ttl_cache \<Rightarrow> 'v ttl_cache" where
  "cache_step (Get t k) c = snd (cache_get t k c)"
| "cache_step (Put t k v) c = cache_set t k v c"
| "cache_step Clear c = cache_clear c"

lemma step_is_cache_step [simp]: "tc.step = cache_step"
proof (intro ext)
  fix op :: "'v cache_op" and c
  show "tc.step op c = cache_step op c" by (cases op) simp_all
qed

fun touched :: "'v cache_op \<Rightarrow> string set" where
  "touched (Get t k) = {k}"
| "touched (Put t k v) = {k}"
| "touched Clear = {}"

text \<open>The entry of \<open>k\<close> is there, and only keys of \<open>T\<close> were used after it.\<close>

definition recent :: "string \<Rightarrow> int \<times> 'v \<Rightarrow> string set \<Rightarrow> 'v ttl_cache \<Rightarrow> bool" where
  "recent k x T c \<longleftrightarrow> k \<notin> T \<and> (\<exists>pre post. cache_items c = pre @ (k, x) # post \<and> fst ` set post \<subseteq> T)"

lemma recentI:
  "cache_items c = pre @ (k, x) # post \<Longrightarrow> fst ` set post \<subseteq> T \<Longrightarrow> k \<notin> T \<Longrightarrow> recent k x T c"
  unfolding recent_def by blast

lemma recentE:
  assumes "recent k x T c"
  obtains pre post where "k \<notin> T" and "cache_items c = pre @ (k, x) # post" and "fst ` set post \<subseteq> T"
  using assms unfolding recent_def by blast

lemma drop_key_split: "k' \<noteq> k \<Longrightarrow> drop_key k' (pre @ (k, x) # post) = drop_key k' pre @ (k, x) # drop_key k' post"
  by (simp add: drop_key_def)

lemma set_drop_key: "set (drop_key k d) \<subseteq> set d"
  by (auto simp: drop_key_def)

lemma recent_drop: "recent k x T c \<Longrightarrow> k' \<noteq> k \<Longrightarrow> recent k x T (c\<lparr>cache_items := drop_key k' (cache_items c)\<rparr>)"
  unfolding recent_def using set_drop_key by (fastforce simp: drop_key_split)

lemma recent_put_last:
  assumes "recent k x T c" and "k' \<noteq> k"
  shows "recent k x (insert k' T) (c\<lparr>cache_items := put_last k' y (cache_items c)\<rparr>)"
proof -
  obtain pre post where p: "k \<notin> T" "cache_items c = pre @ (k, x) # post" "fst ` set post \<subseteq> T"
    using assms(1) by (rule recentE)
  have "put_last k' y (cache_items c) = drop_key k' pre @ (k, x) # (drop_key k' post @ [(k', y)])"
    using assms(2) by (simp add: put_last_def p(2) drop_key_split)
  moreover have "fst ` set (drop_key k' post @ [(k', y)]) \<subseteq> insert k' T"
    using p(3) set_drop_key [of k' post] by auto
  ultimately show ?thesis using p(1) assms(2)
    by (intro recentI [where pre = "drop_key k' pre" and post = "drop_key k' post @ [(k', y)]"]) auto
qed

lemma recent_mono: "recent k x T c \<Longrightarrow> T \<subseteq> T' \<Longrightarrow> k \<notin> T' \<Longrightarrow> recent k x T' c"
  unfolding recent_def by blast

lemma recent_cong: "cache_items c = cache_items c' \<Longrightarrow> recent k x T c = recent k x T c'"
  by (simp add: recent_def)

lemma recent_take_last:
  assumes "recent k x T c" and "distinct (map fst (cache_items c))" and "finite T" and "card T < n"
    and "cache_items c' = take_last n (cache_items c)"
  shows "recent k x T c'"
proof -
  obtain pre post where p: "k \<notin> T" "cache_items c = pre @ (k, x) # post" "fst ` set post \<subseteq> T"
    using assms(1) by (rule recentE)
  have "distinct (map fst post)" using assms(2) p(2) by simp
  from distinct_card [OF this] have "length post = card (fst ` set post)" by simp
  also have "\<dots> \<le> card T" using p(3) assms(3) by (rule card_mono [rotated])
  finally have "length (cache_items c) - n \<le> length pre" using assms(4) p(2) by simp
  then have "cache_items c' = drop (length (cache_items c) - n) pre @ (k, x) # post"
    unfolding assms(5) take_last_def by (simp add: p(2))
  then show ?thesis using p(3,1) by (rule recentI)
qed

lemma recent_get:
  assumes "recent k x T c" and "k' \<noteq> k"
  shows "recent k x (insert k' T) (snd (cache_get now k' c))"
proof -
  have grow: "recent k x (insert k' T) c" using assms by (intro recent_mono [OF assms(1)]) (auto simp: recent_def)
  have "recent k x (insert k' T) (c\<lparr>cache_items := drop_key k' (cache_items c)\<rparr>)"
    using recent_drop [OF grow assms(2)] .
  then show ?thesis using grow recent_put_last [OF assms]
    by (auto simp: cache_get_def recent_def split: option.split)
qed

lemma recent_set:
  assumes "recent k x T c" and "k' \<noteq> k" and "cache_ok c" and "finite T" and "int (card (insert k' T)) < max_entries c"
  shows "recent k x (insert k' T) (cache_set now k' v c)"
proof (cases "cache_off k' c")
  case True
  then show ?thesis using assms(1,2) recent_mono [OF assms(1), of "insert k' T"]
    by (auto simp: cache_set_def recent_def)
next
  case False
  let ?c = "c\<lparr>cache_items := put_last k' (now + cache_life c, v) (cache_items c)\<rparr>"
  show ?thesis
  proof (rule recent_take_last)
    show "recent k x (insert k' T) ?c" by (rule recent_put_last [OF assms(1,2)])
    show "cache_items (cache_set now k' v c) = take_last (nat (max_entries c)) (cache_items ?c)"
      using cache_set_items [OF assms(3) False] by simp
    show "distinct (map fst (cache_items ?c))" using assms(3) by (simp add: cache_ok_def distinct_put_last)
  qed (use assms(4,5) in auto)
qed

lemma recent_steps:
  assumes "recent k x T c" and "cache_ok c" and "finite T" and "Clear \<notin> set ops" and "k \<notin> \<Union> (touched ` set ops)"
    and "int (card (T \<union> \<Union> (touched ` set ops))) < max_entries c"
  shows "recent k x (T \<union> \<Union> (touched ` set ops)) (fold cache_step ops c)"
  using assms
proof (induction ops arbitrary: c T)
  case (Cons op ops)
  have fin: "finite (T \<union> \<Union> (touched ` set (op # ops)))"
  proof -
    have "finite (touched o')" for o' :: "'v cache_op" by (cases o') simp_all
    then show ?thesis using Cons.prems(3) by auto
  qed
  have ok: "cache_ok (cache_step op c)" using tc.step_ok [OF Cons.prems(2), of op] by simp
  have m: "max_entries (cache_step op c) = max_entries c" using Cons.prems(4) by (cases op) auto
  obtain k' where k': "touched op = {k'}" using Cons.prems(4) by (cases op) auto
  have k: "k' \<noteq> k" using Cons.prems(5) k' by auto
  have "insert k' T \<subseteq> T \<union> \<Union> (touched ` set (op # ops))" using k' by auto
  from card_mono [OF fin this] Cons.prems(6) have c: "int (card (insert k' T)) < max_entries c" by linarith
  have "recent k x (insert k' T) (cache_step op c)"
  proof (cases op)
    case (Get t k2)
    then show ?thesis using recent_get [OF Cons.prems(1) k] k' by simp
  next
    case (Put t k2 v)
    then show ?thesis using recent_set [OF Cons.prems(1) k Cons.prems(2,3) c] k' by simp
  qed (use Cons.prems(4) in simp)
  moreover have "T \<union> \<Union> (touched ` set (op # ops)) = insert k' T \<union> \<Union> (touched ` set ops)" using k' by auto
  moreover have "finite (insert k' T)" "Clear \<notin> set ops" "k \<notin> \<Union> (touched ` set ops)" using Cons.prems(3-5) by auto
  moreover have "int (card (insert k' T \<union> \<Union> (touched ` set ops))) < max_entries (cache_step op c)"
    using Cons.prems(6) m \<open>T \<union> \<Union> (touched ` set (op # ops)) = insert k' T \<union> \<Union> (touched ` set ops)\<close> by simp
  ultimately show ?case using Cons.IH [of "insert k' T", OF _ ok] by simp
qed simp

section \<open>Properties\<close>

lemma new_cache_ok: "cache_ok (new_ttl_cache n m t)"
  by (simp add: cache_ok_def new_ttl_cache_def)

lemma new_cache_empty: "cache_holds (new_ttl_cache n m t) = Map.empty"
  by (rule ext) (simp add: cache_holds_def new_ttl_cache_def)

lemma new_cache_life: "cache_life (new_ttl_cache n m t) = 1000000 * max 0 t"
  by (simp add: cache_life_def new_ttl_cache_def)

text \<open>
  C26: whatever was stored, read and cleared before, what a cache serves for a key is the value that was
  stored under that key last, after the last clearing, and not longer ago than the life time.
\<close>

theorem cache_serves_latest:
  assumes "fst (cache_get now k (fold cache_step ops (new_ttl_cache n m t))) = Some v"
  shows "\<exists>e. latest (1000000 * max 0 t) ops Map.empty k = Some (e, v) \<and> now \<le> e"
  using tc.serves_latest [OF new_cache_ok new_cache_empty, unfolded step_is_cache_step, OF assms]
  by (simp add: new_cache_life)

theorem cache_serves_latest_witness:
  "fst (cache_get 2000000 ''k'' (fold cache_step [Put 0 ''k'' 1, Put 1000000 ''k'' (2 :: int), Get 1500000 ''k'']
     (new_ttl_cache [] 1 1))) = Some 2
   \<and> (\<exists>e. latest 1000000 [Put 0 ''k'' 1, Put 1000000 ''k'' (2 :: int), Get 1500000 ''k''] Map.empty ''k'' = Some (e, 2)
        \<and> 2000000 \<le> e)"
proof -
  have a: "fst (cache_get 2000000 ''k'' (fold cache_step [Put 0 ''k'' 1, Put 1000000 ''k'' (2 :: int), Get 1500000 ''k'']
     (new_ttl_cache [] 1 1))) = Some 2" by code_simp
  show ?thesis using cache_serves_latest [OF a] a by simp
qed

fun is_get :: "'v cache_op \<Rightarrow> bool" where
  "is_get (Get t k) = True"
| "is_get _ = False"

lemma cache_books:
  "hits (fold cache_step ops c) + misses (fold cache_step ops c) = hits c + misses c + int (length (filter is_get ops))"
proof (induction ops arbitrary: c)
  case (Cons op ops)
  have "hits (cache_step op c) + misses (cache_step op c) = hits c + misses c + (if is_get op then 1 else 0)"
    by (cases op) (auto simp: cache_get_def cache_set_def cache_clear_def Let_def split: option.split)
  then show ?case by (simp add: Cons)
qed simp

text \<open>
  A cache never holds more than its maximum of entries, and at least one entry fits; no key has two;
  and every reading of it is counted as a hit or a miss.
\<close>

theorem cache_bounded:
  fixes ops :: "'v cache_op list"
  shows "int (length (cache_items (fold cache_step ops (new_ttl_cache n m t)))) \<le> max 1 m
   \<and> distinct (map fst (cache_items (fold cache_step ops (new_ttl_cache n m t))))
   \<and> hits (fold cache_step ops (new_ttl_cache n m t)) + misses (fold cache_step ops (new_ttl_cache n m t))
     = int (length (filter is_get ops))"
proof -
  let ?c = "new_ttl_cache n m t :: 'v ttl_cache"
  have "max_entries (cache_step op c) = max_entries c" for op and c :: "'v ttl_cache"
    by (cases op) (simp_all add: cache_clear_def)
  then have "max_entries (fold cache_step ops c) = max_entries c" for c :: "'v ttl_cache"
    by (induction ops arbitrary: c) simp_all
  then have "max_entries (fold cache_step ops ?c) = max 1 m" by (auto simp: new_ttl_cache_def)
  moreover have "cache_ok (fold cache_step ops ?c)" using tc.steps_ok [OF new_cache_ok, of ops] by simp
  moreover have "hits ?c = 0" "misses ?c = 0" by (simp_all add: new_ttl_cache_def)
  ultimately show ?thesis using cache_books [of ops ?c] by (simp add: cache_ok_def)
qed

text \<open>
  An entry is kept as long as it is among the most recently used: while fewer other keys than the
  maximum of entries are used after it was stored, it is served until its life time is over.
\<close>

theorem lru_keeps_recent:
  fixes ops :: "'v cache_op list"
  assumes "cache_ok c" and "0 < ttl_seconds c" and "k \<noteq> []"
    and "Clear \<notin> set ops" and "k \<notin> \<Union> (touched ` set ops)" and "int (card (\<Union> (touched ` set ops))) < max_entries c"
    and "now \<le> stored + cache_life c"
  shows "fst (cache_get now k (fold cache_step ops (cache_set stored k v c))) = Some v"
proof -
  let ?c = "cache_set stored k v c" and ?x = "(stored + cache_life c, v)"
  have off: "\<not> cache_off k c" using assms(2,3) by (simp add: cache_off_def)
  have ok: "cache_ok ?c" using assms(1) by (rule cache_set_ok)
  have "cache_items ?c = take_last (nat (max_entries c)) (put_last k ?x (cache_items c))"
    by (rule cache_set_items [OF assms(1) off])
  moreover have "0 < nat (max_entries c)" using assms(1) by (simp add: cache_ok_def)
  ultimately have "\<exists>pre. cache_items ?c = pre @ [(k, ?x)]"
    by (auto simp: take_last_def put_last_def)
  then have "recent k ?x {} ?c" by (auto simp: recent_def)
  from recent_steps [OF this ok _ assms(4,5)] assms(6)
  have "recent k ?x (\<Union> (touched ` set ops)) (fold cache_step ops ?c)" by simp
  moreover have fin: "cache_ok (fold cache_step ops ?c)" using tc.steps_ok [OF ok, of ops] by simp
  moreover have "(k, ?x) \<in> set (cache_items (fold cache_step ops ?c))"
    using calculation(1) by (elim recentE) simp
  ultimately have "map_of (cache_items (fold cache_step ops ?c)) k = Some ?x"
    by (simp only: cache_ok_def map_of_is_SomeI)
  moreover have "cache_off k (fold cache_step ops c') = cache_off k c'" for c' :: "'v ttl_cache"
  proof (induction ops arbitrary: c')
    case (Cons op ops)
    have "cache_off k (cache_step op c') = cache_off k c'" by (cases op) (simp_all add: cache_clear_def cache_off_def)
    then show ?case by (simp add: Cons)
  qed simp
  ultimately show ?thesis using off assms(7) by (simp add: cache_get_Some cache_holds_def)
qed

theorem lru_keeps_recent_witness:
  "fst (cache_get 5 ''k'' (fold cache_step [Put 1 ''a'' 7, Put 2 ''b'' 8, Get 3 ''a'', Put 4 ''b'' (9 :: int)]
     (cache_set 0 ''k'' 1 (new_ttl_cache [] 3 60)))) = Some 1"
proof (rule lru_keeps_recent)
  show "cache_ok (new_ttl_cache [] 3 60 :: int ttl_cache)" by (rule new_cache_ok)
qed (simp_all add: new_ttl_cache_def cache_life_def card_insert_if)

end
