(* ===== verification/Snapshot_Laws.thy ===== *)
theory Snapshot_Laws
  imports Data_Snapshot
begin

text \<open>
  When results need one atomic snapshot, in terms of the frozen graph and the goals alone, and what
  composable results have in common.
\<close>

section \<open>Which queries answer a goal\<close>

definition selected_of :: "string list \<Rightarrow> string list" where
  "selected_of raw = fromkeys (filter (\<lambda>q. q \<noteq> []) (map py_strip raw))"

definition answers_goal :: "string list \<Rightarrow> (string, string list) dict \<Rightarrow> string \<Rightarrow> string \<Rightarrow> bool" where
  "answers_goal selected goal_ids q g \<longleftrightarrow> q \<in> set selected \<and> g \<noteq> []
     \<and> (\<exists>raw gs h. (raw, gs) \<in> set goal_ids \<and> py_strip raw = q \<and> h \<in> set gs \<and> py_strip h = g)"

lemma dict_get_add_goal_query:
  "set (dict_get (add_goal_query q g m) g' []) = (if g' = g then insert q else id) (set (dict_get m g' []))"
  by (auto simp: add_goal_query_def dict_get_def)

lemma goals_of_one_query:
  "set (dict_get (fold (\<lambda>h m. if py_strip h = [] then m else add_goal_query q (py_strip h) m) gs m) g [])
     = {q' \<in> {q}. g \<noteq> [] \<and> g \<in> py_strip ` set gs} \<union> set (dict_get m g [])"
  by (induction gs arbitrary: m) (auto simp: dict_get_add_goal_query)

lemma queries_by_goal_fold:
  "set (dict_get (fold (\<lambda>(raw, gs) m. if py_strip raw \<notin> set selected then m
       else fold (\<lambda>h m. if py_strip h = [] then m else add_goal_query (py_strip raw) (py_strip h) m) gs m) goal_ids m) g [])
     = {q. answers_goal selected goal_ids q g} \<union> set (dict_get m g [])"
proof (induction goal_ids arbitrary: m)
  case Nil
  then show ?case by (simp add: answers_goal_def)
next
  case (Cons x xs)
  obtain raw gs where x: "x = (raw, gs)" by (rule prod.exhaust)
  have "{q. answers_goal selected (x # xs) q g} = {q. answers_goal selected xs q g} \<union>
      (if py_strip raw \<in> set selected then {q' \<in> {py_strip raw}. g \<noteq> [] \<and> g \<in> py_strip ` set gs} else {})"
    unfolding answers_goal_def x by auto
  then show ?case unfolding x by (simp add: Cons goals_of_one_query) blast
qed

lemma queries_by_goal_iff:
  "q \<in> set (dict_get (queries_by_goal selected goal_ids) g []) \<longleftrightarrow> answers_goal selected goal_ids q g"
  unfolding queries_by_goal_def queries_by_goal_fold by (simp add: dict_get_def)

section \<open>When a reason counts\<close>

definition connects :: "string list \<Rightarrow> snapshot_reason \<Rightarrow> bool" where
  "connects selected r \<longleftrightarrow> (\<exists>q1 q2. q1 \<noteq> q2 \<and> {q1, q2} \<subseteq> set (reason_queries r) \<inter> set selected)"

lemma two_members_iff: "distinct xs \<Longrightarrow> 2 \<le> length xs \<longleftrightarrow> (\<exists>a b. a \<noteq> b \<and> {a, b} \<subseteq> set xs)"
proof -
  assume "distinct xs"
  then have "length xs = card (set xs)" by (simp add: distinct_card)
  then show ?thesis using card_2_iff' [of "set xs"] card_le_Suc_iff [of 1 "set xs"]
    by (metis One_nat_def Suc_1 card_2_iff card_mono finite_set obtain_subset_with_card_n)
qed

lemma add_reason_connects:
  "add_reason selected r rs = [] \<longleftrightarrow> rs = [] \<and> \<not> connects selected r"
proof -
  let ?qs = "sorted_set (filter (\<lambda>q. q \<in> set selected) (reason_queries r))"
  have "2 \<le> length ?qs \<longleftrightarrow> connects selected r"
    using two_members_iff [of ?qs] by (auto simp: connects_def)
  then show ?thesis by (auto simp: add_reason_def Let_def)
qed

lemma fold_add_reason: "fold (add_reason selected) new rs = [] \<longleftrightarrow> rs = [] \<and> (\<forall>r\<in>set new. \<not> connects selected r)"
  by (induction new arbitrary: rs) (auto simp: add_reason_connects)

lemma set_map_filter: "y \<in> set (List.map_filter f xs) \<longleftrightarrow> (\<exists>x\<in>set xs. f x = Some y)"
  by (force simp: List.map_filter_def image_iff)

definition crosses_queries :: "(string, string) dict \<Rightarrow> string list \<Rightarrow> edge_spec \<Rightarrow> bool" where
  "crosses_queries nq selected e \<longleftrightarrow> dependency_mode e = CONTRACT_SCOPE
     \<and> dict_get nq (source_client_key e) [] \<noteq> dict_get nq (target_client_key e) []
     \<and> {dict_get nq (source_client_key e) [], dict_get nq (target_client_key e) []} \<subseteq> set selected"

lemma edge_reason_connects:
  "(\<exists>r. edge_reason nq i e = Some r \<and> connects selected r) \<longleftrightarrow> crosses_queries nq selected e"
  by (auto simp: edge_reason_def crosses_queries_def connects_def)

lemma ex_enumerate: "(\<exists>x\<in>set (enumerate n es). P (snd x)) \<longleftrightarrow> (\<exists>e\<in>set es. P e)"
proof -
  have "snd ` set (enumerate n es) = set es" by (metis list.set_map map_snd_enumerate)
  then have "(\<exists>e\<in>set es. P e) \<longleftrightarrow> (\<exists>e\<in>snd ` set (enumerate n es). P e)" by simp
  then show ?thesis by simp
qed

lemma bex_map_filter: "(\<exists>r\<in>set (List.map_filter f xs). P r) \<longleftrightarrow> (\<exists>x\<in>set xs. \<exists>r. f x = Some r \<and> P r)"
  unfolding Bex_def set_map_filter by blast

lemma edge_reasons_connect:
  "(\<exists>r\<in>set (edge_reasons nq es). connects selected r) \<longleftrightarrow> (\<exists>e\<in>set es. crosses_queries nq selected e)"
proof -
  have "(\<exists>r\<in>set (edge_reasons nq es). connects selected r) \<longleftrightarrow>
      (\<exists>x\<in>set (enumerate 0 es). \<exists>r. edge_reason nq (fst x) (snd x) = Some r \<and> connects selected r)"
    by (simp only: edge_reasons_def bex_map_filter case_prod_unfold)
  then show ?thesis by (simp add: edge_reason_connects ex_enumerate)
qed

definition joins_queries :: "string list \<Rightarrow> (string, string list) dict \<Rightarrow> question_goal \<Rightarrow> bool" where
  "joins_queries selected goal_ids g \<longleftrightarrow> (\<exists>rc inputs q1 q2. structural_inputs (body g) = Some (rc, inputs)
     \<and> inputs \<noteq> [] \<and> q1 \<noteq> q2
     \<and> (\<exists>i\<in>set (goal_id g # inputs). answers_goal selected goal_ids q1 i)
     \<and> (\<exists>i\<in>set (goal_id g # inputs). answers_goal selected goal_ids q2 i))"

lemma goal_reason_connects:
  "(\<exists>r. goal_reason (queries_by_goal selected goal_ids) g = Some r \<and> connects selected r)
     \<longleftrightarrow> joins_queries selected goal_ids g"
proof (cases "structural_inputs (body g)")
  case None
  then show ?thesis by (simp add: goal_reason_def joins_queries_def)
next
  case (Some p)
  obtain rc inputs where p: "p = (rc, inputs)" by (rule prod.exhaust)
  let ?Q = "{q. \<exists>i\<in>set (goal_id g # inputs). answers_goal selected goal_ids q i}"
  have j: "joins_queries selected goal_ids g \<longleftrightarrow> inputs \<noteq> [] \<and> (\<exists>q1 q2. q1 \<noteq> q2 \<and> q1 \<in> ?Q \<and> q2 \<in> ?Q)"
    unfolding joins_queries_def Some p by blast
  show ?thesis
  proof (cases "inputs = []")
    case True
    then show ?thesis using j Some p by (simp add: goal_reason_def)
  next
    case False
    define qs where "qs = concat (map (\<lambda>i. dict_get (queries_by_goal selected goal_ids) i []) (goal_id g # inputs))"
    define r where "r = \<lparr>reason_code = rc, reason_queries = qs, reason_goals = goal_id g # inputs,
      reason_kind = kind_text (body g), reason_edge = - 1, reason_mode = []\<rparr>"
    have r: "goal_reason (queries_by_goal selected goal_ids) g = Some r"
      using False by (simp only: goal_reason_def Some p r_def qs_def option.case prod.case if_False)
    have qs: "set (reason_queries r) = ?Q"
      unfolding r_def qs_def by (auto simp: queries_by_goal_iff)
    have "?Q \<subseteq> set selected" by (auto simp: answers_goal_def)
    then have "connects selected r \<longleftrightarrow> (\<exists>q1 q2. q1 \<noteq> q2 \<and> {q1, q2} \<subseteq> ?Q)"
      by (simp only: connects_def qs Int_absorb2)
    then show ?thesis unfolding r j using False by simp
  qed
qed

section \<open>Properties\<close>

text \<open>
  C31: a portfolio of selected query results needs one atomic snapshot exactly when a contract-scope
  edge of the graph runs between two of its queries, or a goal that compares, analyses, ranks or
  details other goals is answered, together with these, by two of its queries.
\<close>

theorem snapshot_required_iff:
  "require_atomic (derive_snapshot_requirement raw receipt es c goal_ids) \<longleftrightarrow>
     (\<exists>e\<in>set es. crosses_queries (node_queries receipt) (selected_of raw) e)
     \<or> (\<exists>g\<in>set (goals c). joins_queries (selected_of raw) goal_ids g)"
proof -
  let ?sel = "selected_of raw"
  let ?new = "edge_reasons (node_queries receipt) es
    @ List.map_filter (goal_reason (queries_by_goal ?sel goal_ids)) (goals c)"
  have new: "(\<exists>r\<in>set ?new. connects ?sel r) \<longleftrightarrow>
      (\<exists>e\<in>set es. crosses_queries (node_queries receipt) ?sel e) \<or> (\<exists>g\<in>set (goals c). joins_queries ?sel goal_ids g)"
    by (simp only: set_append bex_Un edge_reasons_connect bex_map_filter goal_reason_connects)
  have two: "2 \<le> length ?sel" if "connects ?sel r" for r
  proof -
    from that obtain a b where "a \<noteq> b" "{a, b} \<subseteq> set ?sel" by (auto simp: connects_def)
    then show ?thesis using two_members_iff [of ?sel] by (auto simp: selected_of_def)
  qed
  have "require_atomic (derive_snapshot_requirement raw receipt es c goal_ids)
      \<longleftrightarrow> 2 \<le> length ?sel \<and> fold (add_reason ?sel) ?new [] \<noteq> []"
    by (simp add: derive_snapshot_requirement_def selected_of_def Let_def)
  also have "\<dots> \<longleftrightarrow> (\<exists>r\<in>set ?new. connects ?sel r)"
    using two by (auto simp: fold_add_reason)
  finally show ?thesis unfolding new .
qed

lemma identity_of_complete: "cache_identity s = [] \<longleftrightarrow> \<not> cache_identity_complete s"
  by (simp add: cache_identity_def)

lemma same_identity_reads:
  assumes "cache_identity s = cache_identity t" and "cache_identity s \<noteq> []"
  shows "datasource_fp s = datasource_fp t \<and> data_epoch s = data_epoch t \<and> consistency s = consistency t
    \<and> semantic_activation_fp s = semantic_activation_fp t"
proof -
  have "consistency_text a = consistency_text b \<Longrightarrow> a = b" for a b by (cases a; cases b) simp_all
  then show ?thesis using assms by (auto simp: cache_identity_def split: if_splits)
qed

lemma validate_snapshots_iff:
  "validate_query_bundle_snapshots bs atomic = [] \<longleftrightarrow>
     (let ss = map bundle_snapshot (filter (\<lambda>b. \<not> bundle_failed b) bs) in
      (\<exists>s\<in>set ss. cache_identity s \<noteq> [] \<and> (\<forall>t\<in>set ss. cache_identity t = cache_identity s))
      \<and> (atomic \<and> 1 < length ss \<longrightarrow> (\<forall>s\<in>set ss. consistency s = AS_OF_READ)))"
proof -
  define ss where "ss = map bundle_snapshot (filter (\<lambda>b. \<not> bundle_failed b) bs)"
  show ?thesis
  proof (cases ss)
    case Nil
    then show ?thesis unfolding ss_def by (simp add: validate_query_bundle_snapshots_def)
  next
    case (Cons s ts)
    have v: "validate_query_bundle_snapshots bs atomic = [] \<longleftrightarrow>
        [] \<notin> cache_identity ` set ss \<and> (\<forall>t\<in>set ts. cache_identity t = cache_identity s)
        \<and> (atomic \<and> 1 < length ss \<longrightarrow> (\<forall>t\<in>set ss. supports_atomic_multi_query t))"
      using Cons unfolding validate_query_bundle_snapshots_def ss_def [symmetric]
      by (auto simp: Let_def list_ex_iff list_all_iff)
    have ident: "[] \<notin> cache_identity ` set ss \<and> (\<forall>t\<in>set ts. cache_identity t = cache_identity s)
        \<longleftrightarrow> (\<exists>u\<in>set ss. cache_identity u \<noteq> [] \<and> (\<forall>t\<in>set ss. cache_identity t = cache_identity u))"
      unfolding Cons by auto
    have "supports_atomic_multi_query t \<longleftrightarrow> consistency t = AS_OF_READ"
      if "[] \<notin> cache_identity ` set ss" "t \<in> set ss" for t
      using that identity_of_complete [of t] unfolding supports_atomic_multi_query_def by (metis image_eqI)
    then show ?thesis unfolding v ss_def [symmetric] Let_def ident [symmetric] by blast
  qed
qed

text \<open>
  C24: results that pass the snapshot check of a portfolio were read from one datasource at one data
  epoch under one semantic activation, and when the portfolio needs an atomic snapshot and has
  several results, each was an as-of read.
\<close>

theorem composed_results_one_snapshot:
  assumes "validate_query_bundle_snapshots bs (require_atomic (derive_snapshot_requirement raw receipt es c goal_ids)) = []"
    and "b1 \<in> set bs" and "\<not> bundle_failed b1" and "b2 \<in> set bs" and "\<not> bundle_failed b2"
  shows "data_epoch (bundle_snapshot b1) \<noteq> []
    \<and> datasource_fp (bundle_snapshot b1) = datasource_fp (bundle_snapshot b2)
    \<and> data_epoch (bundle_snapshot b1) = data_epoch (bundle_snapshot b2)
    \<and> semantic_activation_fp (bundle_snapshot b1) = semantic_activation_fp (bundle_snapshot b2)
    \<and> (require_atomic (derive_snapshot_requirement raw receipt es c goal_ids) \<and> b1 \<noteq> b2
       \<longrightarrow> consistency (bundle_snapshot b1) = AS_OF_READ)"
proof -
  define ok where "ok = filter (\<lambda>b. \<not> bundle_failed b) bs"
  have mem: "b1 \<in> set ok" "b2 \<in> set ok" using assms(2-5) by (auto simp: ok_def)
  from assms(1) [unfolded validate_snapshots_iff Let_def, folded ok_def] obtain s where
    ident: "cache_identity s \<noteq> []" "\<forall>t\<in>set (map bundle_snapshot ok). cache_identity t = cache_identity s"
    and atomic: "require_atomic (derive_snapshot_requirement raw receipt es c goal_ids) \<and> 1 < length ok
      \<longrightarrow> (\<forall>t\<in>set (map bundle_snapshot ok). consistency t = AS_OF_READ)"
    by auto
  have same: "cache_identity (bundle_snapshot b1) = cache_identity (bundle_snapshot b2)"
    and some: "cache_identity (bundle_snapshot b1) \<noteq> []"
    using ident mem by auto
  have "1 < length ok" if "b1 \<noteq> b2" using that mem by (cases ok; cases "tl ok") auto
  moreover have "data_epoch (bundle_snapshot b1) \<noteq> []"
    using some identity_of_complete [of "bundle_snapshot b1"] by (simp add: cache_identity_complete_def)
  ultimately show ?thesis using same_identity_reads [OF same some] atomic mem by auto
qed

definition snapshot_at :: "consistency_mode \<Rightarrow> string \<Rightarrow> data_snapshot" where
  "snapshot_at m epoch = \<lparr>datasource_fp = ''d'', datasource_environment = ''prod'', data_epoch = epoch, consistency = m,
     semantic_activation_fp = ''a'', cache_generation = ''1'', unsupported_reason = []\<rparr>"

definition sample_portfolio :: snapshot_requirement where
  "sample_portfolio = derive_snapshot_requirement ['' q1'', ''q2''] [(''n1'', ''q1''), (''n2'', ''q2'')]
     [\<lparr>source_client_key = ''n1'', target_client_key = ''n2'', dependency_mode = CONTRACT_SCOPE,
       artifact_kind = [], target_binding_ref = []\<rparr>]
     \<lparr>contract_version = [], contract_id = [], question = [], goals = [], source = []\<rparr> []"

theorem composed_results_one_snapshot_witness:
  "require_atomic sample_portfolio
   \<and> validate_query_bundle_snapshots [\<lparr>bundle_failed = False, bundle_snapshot = snapshot_at AS_OF_READ ''e1''\<rparr>,
       \<lparr>bundle_failed = True, bundle_snapshot = snapshot_at OBSERVED_EPOCH ''e2''\<rparr>,
       \<lparr>bundle_failed = False, bundle_snapshot = (snapshot_at AS_OF_READ ''e1'')\<lparr>unsupported_reason := ''x''\<rparr>\<rparr>]
       (require_atomic sample_portfolio) = []
   \<and> consistency (snapshot_at AS_OF_READ ''e1'') = AS_OF_READ
   \<and> validate_query_bundle_snapshots [\<lparr>bundle_failed = False, bundle_snapshot = snapshot_at OBSERVED_EPOCH ''e1''\<rparr>,
       \<lparr>bundle_failed = False, bundle_snapshot = snapshot_at OBSERVED_EPOCH ''e1''\<rparr>] (require_atomic sample_portfolio)
       = [ATOMIC_MULTI_QUERY_SNAPSHOT_UNSUPPORTED]"
proof -
  let ?b1 = "\<lparr>bundle_failed = False, bundle_snapshot = snapshot_at AS_OF_READ ''e1''\<rparr>"
  let ?b2 = "\<lparr>bundle_failed = False, bundle_snapshot = (snapshot_at AS_OF_READ ''e1'')\<lparr>unsupported_reason := ''x''\<rparr>\<rparr>"
  let ?bs = "[?b1, \<lparr>bundle_failed = True, bundle_snapshot = snapshot_at OBSERVED_EPOCH ''e2''\<rparr>, ?b2]"
  have a: "require_atomic sample_portfolio" by code_simp
  have b: "validate_query_bundle_snapshots ?bs (require_atomic sample_portfolio) = []" by code_simp
  have c: "validate_query_bundle_snapshots [\<lparr>bundle_failed = False, bundle_snapshot = snapshot_at OBSERVED_EPOCH ''e1''\<rparr>,
       \<lparr>bundle_failed = False, bundle_snapshot = snapshot_at OBSERVED_EPOCH ''e1''\<rparr>] (require_atomic sample_portfolio)
       = [ATOMIC_MULTI_QUERY_SNAPSHOT_UNSUPPORTED]" by code_simp
  have "?b1 \<noteq> ?b2" by code_simp
  then have "consistency (bundle_snapshot ?b1) = AS_OF_READ"
    using composed_results_one_snapshot [OF b [unfolded sample_portfolio_def], of ?b1 ?b2] a
    by (simp add: sample_portfolio_def)
  with a b c show ?thesis by simp
qed

end
