(* ===== verification/Repository_Laws.thy ===== *)
theory Repository_Laws
  imports Doris_Repository Cache_Laws Snapshot_Laws
begin

text \<open>
  What the repository promises about cached rows: they are the rows the database gave for a request with
  the same identity, under the same snapshot, which both times was the current one. They rest on the
  cache only through its interface, the lossy map.
\<close>

section \<open>When a snapshot is current\<close>

lemma snapshot_current_iff:
  "fst (snapshot_is_current digest cfg reply s) = Inr True \<longleftrightarrow>
     cache_identity_complete s \<and> consistency s = OBSERVED_EPOCH
     \<and> cache_identity (fst (capture_data_snapshot digest cfg reply (semantic_activation_fp s))) = cache_identity s"
proof -
  obtain cur log where c: "capture_data_snapshot digest cfg reply (semantic_activation_fp s) = (cur, log)"
    by (rule prod.exhaust)
  have fp: "datasource_fp cur = datasource_fingerprint digest cfg"
    using c unfolding capture_data_snapshot_def Let_def
    by (auto split: if_splits sum.splits list.splits)
  have "consistency s = AS_OF_READ \<or> consistency s = OBSERVED_EPOCH" if "cache_identity_complete s"
    using that by (auto simp: cache_identity_complete_def)
  moreover have "datasource_fp cur = datasource_fp s \<and> consistency cur = consistency s"
    if "cache_identity cur = cache_identity s" "cache_identity_complete s"
    using same_identity_reads [OF that(1)] that identity_of_complete by metis
  moreover have "consistency cur \<noteq> AS_OF_READ"
    using c unfolding capture_data_snapshot_def Let_def
    by (auto split: if_splits sum.splits list.splits)
  ultimately show ?thesis using fp identity_of_complete [of cur] identity_of_complete [of s]
    by (auto simp: snapshot_is_current_def c)
qed

section \<open>Keys identify requests\<close>

definition same_request :: "'v query_call \<Rightarrow> 'v query_call \<Rightarrow> bool" where
  "same_request q q' \<longleftrightarrow> query_identity q = query_identity q' \<and> map canon (qc_params q) = map canon (qc_params q')
     \<and> cache_identity (effective_snapshot q) = cache_identity (effective_snapshot q')"

lemma canon_texts_inj:
  assumes "canon (JObj (map (\<lambda>(k, v). (k, JStr v)) d)) = canon (JObj (map (\<lambda>(k, v). (k, JStr v)) d'))"
    and "map fst d = map fst d'" and "distinct (map fst d)"
  shows "d = d'"
proof -
  let ?f = "\<lambda>(k, v). (k, JStr v)"
  have fst: "map fst (map ?f d) = map fst d" for d by (simp add: comp_def case_prod_unfold)
  have "map (\<lambda>kv. canon (snd kv)) (map ?f d) = map (\<lambda>kv. canon (snd kv)) (map ?f d')"
    using assms by (intro canon_eq_values) (simp_all only: fst)
  then have "map (JStr \<circ> snd) d = map (JStr \<circ> snd) d'" by (simp add: comp_def case_prod_unfold)
  then have "map snd d = map snd d'" unfolding map_map [symmetric] by (metis inj_map_eq_map inj_onI json.inject(3))
  with assms(2) show ?thesis by (metis zip_map_fst_snd)
qed

lemma canon_identity_inj:
  fixes q q' :: "'v query_call"
  assumes "canon (JObj (query_identity q)) = canon (JObj (query_identity q'))"
  shows "query_identity q = query_identity q'"
proof -
  let ?d = "\<lambda>q. if semantic_identity_available q
     then [(''semanticRequestFingerprint'', py_lower (py_strip (qc_semantic q))),
           (''scopeFingerprint'', py_lower (py_strip (qc_scope q)))]
     else [(''sql'', normalize_sql_for_cache (qc_sql q))]"
  have d: "query_identity q = map (\<lambda>(k, v). (k, JStr v)) (?d q)" for q :: "'v query_call"
    by (simp add: query_identity_def)
  have "length (query_identity q) = length (query_identity q')"
    using arg_cong [OF assms, where f = "\<lambda>j. case j of JObj d \<Rightarrow> length d | _ \<Rightarrow> 0"] by simp
  then have "map fst (?d q) = map fst (?d q')" by (simp add: query_identity_def split: if_splits)
  moreover have "distinct (map fst (?d q))" by simp
  ultimately have "?d q = ?d q'" using assms unfolding d by (intro canon_texts_inj)
  then show ?thesis by (simp only: d)
qed

lemma same_key_same_request:
  assumes "inj digest" and "query_cache_key digest q = query_cache_key digest q'"
    and "cache_identity_complete (effective_snapshot q)" and "cache_identity_complete (effective_snapshot q')"
  shows "same_request q q'"
proof -
  let ?texts = "\<lambda>q. map (\<lambda>(k, v). (k, JStr v)) (cache_identity (effective_snapshot q))"
  let ?payload = "\<lambda>q. [(''queryIdentity'', JObj (query_identity q)), (''params'', JArr (qc_params q)),
      (''snapshot'', JObj (?texts q))]"
  have "canon (JObj (?payload q)) = canon (JObj (?payload q'))"
    using assms(1,2) by (simp add: query_cache_key_def stable_cache_key_def inj_eq dumps_spaced_eq_iff del: canon.simps)
  from canon_eq_values [OF this] have
    "canon (JObj (query_identity q)) = canon (JObj (query_identity q'))"
    and "canon (JArr (qc_params q)) = canon (JArr (qc_params q'))"
    and "canon (JObj (?texts q)) = canon (JObj (?texts q'))"
    by (simp_all del: canon.simps)
  moreover from this(3) have "cache_identity (effective_snapshot q) = cache_identity (effective_snapshot q')"
    by (rule canon_texts_inj) (use assms(3,4) in \<open>simp_all add: cache_identity_def\<close>)
  ultimately show ?thesis using canon_identity_inj by (simp add: same_request_def)
qed

section \<open>What the cache holds\<close>

text \<open>The rows a call stored: the database gave them, and the snapshot was current.\<close>

definition stored_by :: "(string \<Rightarrow> string) \<Rightarrow> repo_config \<Rightarrow> 'v query_call \<Rightarrow> string \<Rightarrow> 'v \<Rightarrow> bool" where
  "stored_by digest cfg q key rows \<longleftrightarrow> key = query_cache_key digest q \<and> qc_rows_reply q = Inr rows
     \<and> cacheable_query (qc_sql q)
     \<and> fst (snapshot_is_current digest cfg (qc_epoch_reply q) (effective_snapshot q)) = Inr True"

definition served_well :: "(string \<Rightarrow> string) \<Rightarrow> repo_config \<Rightarrow> 'v query_call set \<Rightarrow> 'v ttl_cache \<Rightarrow> bool" where
  "served_well digest cfg Q cache \<longleftrightarrow> cache_ok cache \<and> (\<forall>k e v. cache_holds cache k = Some (e, v) \<longrightarrow>
     (\<exists>q\<in>Q. stored_by digest cfg q k v \<and> e = qc_stored_at q + cache_life cache))"

lemma served_well_get:
  assumes "served_well digest cfg Q cache"
  shows "served_well digest cfg Q (snd (cache_get now k cache))"
proof -
  have "cache_holds (snd (cache_get now k cache)) \<subseteq>\<^sub>m cache_holds cache"
    using assms by (intro tc.get_forgets) (simp add: served_well_def)
  then have "cache_holds cache k' = Some x" if "cache_holds (snd (cache_get now k cache)) k' = Some x" for k' x
    using that by (metis domI map_le_def)
  then show ?thesis using assms tc.ok_get tc.ttl_get unfolding served_well_def by metis
qed

lemma served_well_put:
  assumes "served_well digest cfg Q cache" and "stored_by digest cfg q k rows" and "q \<in> Q"
  shows "served_well digest cfg Q (cache_set (qc_stored_at q) k rows cache)"
proof -
  have "cache_holds (cache_set (qc_stored_at q) k rows cache)
      \<subseteq>\<^sub>m (cache_holds cache)(k \<mapsto> (qc_stored_at q + cache_life cache, rows))"
    using assms(1) by (intro tc.put_holds) (simp add: served_well_def)
  then have "((cache_holds cache)(k \<mapsto> (qc_stored_at q + cache_life cache, rows))) k' = Some x"
    if "cache_holds (cache_set (qc_stored_at q) k rows cache) k' = Some x" for k' x
    using that by (metis domI map_le_def)
  then have "\<exists>q\<in>Q. stored_by digest cfg q k' v \<and> e = qc_stored_at q + cache_life cache"
    if "cache_holds (cache_set (qc_stored_at q) k rows cache) k' = Some (e, v)" for k' e v
    using that assms unfolding served_well_def by (cases "k' = k") fastforce+
  moreover have "cache_ok (cache_set (qc_stored_at q) k rows cache)"
    using assms(1) by (intro tc.ok_put) (simp add: served_well_def)
  ultimately show ?thesis unfolding served_well_def tc.ttl_put by blast
qed

lemma served_well_mono: "served_well digest cfg Q cache \<Longrightarrow> Q \<subseteq> Q' \<Longrightarrow> served_well digest cfg Q' cache"
  unfolding served_well_def by blast

section \<open>Queries\<close>

lemma noted_cache [simp]:
  "repo_cache (note_log log r) = repo_cache r" "repo_cache (begin_query q r) = repo_cache r"
  "repo_cache (note_identity q r) = repo_cache r" "last_cache_hit (note_log log r) = last_cache_hit r"
  "\<not> last_cache_hit (begin_query q r)" "last_cache_hit (note_identity q r) = last_cache_hit r"
  by (auto simp: note_log_def begin_query_def note_identity_def Let_def split: option.split)

text \<open>What a query does to the cache, and where its rows come from.\<close>

lemma repo_query_cases:
  assumes "repo_query digest cfg q r = (res, r')"
  obtains (uncached) "repo_cache r' = repo_cache r" and "\<not> last_cache_hit r'" and "\<forall>rows. res = Inr rows \<longrightarrow> qc_rows_reply q = Inr rows"
  | (hit) rows where "res = Inr rows" and "fst (cache_get (qc_read_at q) (query_cache_key digest q) (repo_cache r)) = Some rows"
      and "repo_cache r' = snd (cache_get (qc_read_at q) (query_cache_key digest q) (repo_cache r))"
      and "fst (snapshot_is_current digest cfg (qc_epoch_reply q) (effective_snapshot q)) = Inr True"
      and "last_cache_hit r'"
  | (failed) "repo_cache r' = snd (cache_get (qc_read_at q) (query_cache_key digest q) (repo_cache r))"
      and "\<not> last_cache_hit r'" and "isl res"
  | (stored) rows where "stored_by digest cfg q (query_cache_key digest q) rows" and "res = Inr rows"
      and "repo_cache r' = cache_set (qc_stored_at q) (query_cache_key digest q) rows
        (snd (cache_get (qc_read_at q) (query_cache_key digest q) (repo_cache r)))"
      and "\<not> last_cache_hit r'"
proof -
  obtain cur log where s: "snapshot_is_current digest cfg (qc_epoch_reply q) (effective_snapshot q) = (cur, log)"
    by (rule prod.exhaust)
  obtain cached cache where g: "cache_get (qc_read_at q) (query_cache_key digest q) (repo_cache r) = (cached, cache)"
    by (rule prod.exhaust)
  have key: "query_cache_key digest q \<noteq> []" by (simp add: query_cache_key_def stable_cache_key_def)
  show ?thesis
  proof (cases "cur = Inr True \<and> cacheable_query (qc_sql q)")
    case False
    have "repo_cache r' = repo_cache r \<and> \<not> last_cache_hit r' \<and> (\<forall>rows. res = Inr rows \<longrightarrow> qc_rows_reply q = Inr rows)"
      using assms False by (auto simp: repo_query_def s run_statement_def Let_def split: sum.splits)
    with uncached show ?thesis by blast
  next
    case True
    show ?thesis
    proof (cases cached)
      case (Some rows)
      then show ?thesis using assms True s g by (intro hit [of rows]) (auto simp: repo_query_def Let_def)
    next
      case None
      show ?thesis
      proof (cases "qc_rows_reply q")
        case (Inl e)
        then show ?thesis using assms True s g None by (intro failed) (auto simp: repo_query_def Let_def run_statement_def)
      next
        case (Inr rows)
        then show ?thesis using assms True s g None key
          by (intro stored [of rows]) (auto simp: repo_query_def Let_def run_statement_def stored_by_def)
      qed
    qed
  qed
qed

lemma repo_query_served_well:
  assumes "served_well digest cfg Q (repo_cache r)"
  shows "served_well digest cfg (insert q Q) (repo_cache (snd (repo_query digest cfg q r)))"
proof -
  obtain res r' where e: "repo_query digest cfg q r = (res, r')" by (rule prod.exhaust)
  have Q: "served_well digest cfg (insert q Q) (repo_cache r)" using assms by (rule served_well_mono) blast
  from e show ?thesis
  proof (cases rule: repo_query_cases)
    case (stored rows)
    then show ?thesis using e served_well_put [OF served_well_get [OF Q] stored(1)] by simp
  qed (use e Q served_well_get [OF Q] in simp_all)
qed

lemma repo_queries_served_well:
  "served_well digest cfg Q (repo_cache r) \<Longrightarrow>
     served_well digest cfg (Q \<union> set qs) (repo_cache (fold (\<lambda>q r. snd (repo_query digest cfg q r)) qs r))"
proof (induction qs arbitrary: Q r)
  case (Cons q qs)
  from Cons.IH [OF repo_query_served_well [OF Cons.prems]] show ?case by simp
qed simp

section \<open>Properties\<close>

definition run_queries :: "(string \<Rightarrow> string) \<Rightarrow> repo_config \<Rightarrow> 'v query_call list \<Rightarrow> 'v doris_repo \<Rightarrow> 'v doris_repo" where
  "run_queries digest cfg qs r = fold (\<lambda>q r. snd (repo_query digest cfg q r)) qs r"

definition observed_epoch :: "(string \<Rightarrow> string) \<Rightarrow> repo_config \<Rightarrow> 'v query_call \<Rightarrow> string" where
  "observed_epoch digest cfg q =
     data_epoch (fst (capture_data_snapshot digest cfg (qc_epoch_reply q) (semantic_activation_fp (effective_snapshot q))))"

lemma observed_epoch_current:
  assumes "fst (snapshot_is_current digest cfg (qc_epoch_reply q) (effective_snapshot q)) = Inr True"
  shows "observed_epoch digest cfg q = data_epoch (effective_snapshot q)"
  using assms same_identity_reads identity_of_complete
  unfolding snapshot_current_iff observed_epoch_def by metis

lemma new_cache_served_well: "served_well digest cfg {} (new_ttl_cache n m t)"
  by (simp add: served_well_def new_cache_ok new_cache_empty)

lemma run_queries_life: "cache_life (repo_cache (run_queries digest cfg qs r)) = cache_life (repo_cache r)"
proof (induction qs arbitrary: r)
  case (Cons q qs)
  obtain res r' where e: "repo_query digest cfg q r = (res, r')" by (rule prod.exhaust)
  from e have "cache_life (repo_cache r') = cache_life (repo_cache r)"
    by (cases rule: repo_query_cases) (simp_all add: tc.ttl_get tc.ttl_put)
  then show ?case using Cons e by (simp add: run_queries_def)
qed (simp add: run_queries_def)

text \<open>
  C8: rows that a query gets from the cache are the rows the database gave to an earlier call with the
  same identity, equal parameters and the same snapshot, not longer ago than the life time, and the data
  epoch the repository observed for both calls is the one of that snapshot. All other rows come from the
  database in the call itself.
\<close>

theorem cached_rows_are_current:
  fixes q :: "'v query_call"
  assumes "inj digest"
    and "repo_query digest cfg q (run_queries digest cfg qs (new_repo (new_ttl_cache n m t))) = (Inr rows, r')"
  shows "(last_cache_hit r' \<longrightarrow> (\<exists>q'\<in>set qs. same_request q q' \<and> qc_rows_reply q' = Inr rows
            \<and> qc_read_at q \<le> qc_stored_at q' + 1000000 * max 0 t
            \<and> observed_epoch digest cfg q = observed_epoch digest cfg q'
            \<and> observed_epoch digest cfg q = data_epoch (effective_snapshot q)))
    \<and> (\<not> last_cache_hit r' \<longrightarrow> qc_rows_reply q = Inr rows)"
proof -
  define r where "r = run_queries digest cfg qs (new_repo (new_ttl_cache n m t) :: 'v doris_repo)"
  have "served_well digest cfg {} (repo_cache (new_repo (new_ttl_cache n m t) :: 'v doris_repo))"
    by (simp add: new_repo_def new_cache_served_well)
  from repo_queries_served_well [OF this, of qs] have well: "served_well digest cfg (set qs) (repo_cache r)"
    by (simp add: r_def run_queries_def)
  have life: "cache_life (repo_cache r) = 1000000 * max 0 t"
    by (simp add: r_def run_queries_life new_repo_def new_cache_life)
  show ?thesis using assms(2) [folded r_def]
  proof (cases rule: repo_query_cases)
    case (hit rows')
    obtain e where "cache_holds (repo_cache r) (query_cache_key digest q) = Some (e, rows)" "qc_read_at q \<le> e"
      using hit(1,2) by (auto simp: cache_get_Some)
    with well obtain q' where q': "q' \<in> set qs" "stored_by digest cfg q' (query_cache_key digest q) rows"
        "qc_read_at q \<le> qc_stored_at q' + 1000000 * max 0 t"
      unfolding served_well_def life by metis
    note cur = q'(2) [unfolded stored_by_def, THEN conjunct2, THEN conjunct2, THEN conjunct2]
    have "same_request q q'"
      using q'(2) hit(4) cur snapshot_current_iff by (intro same_key_same_request [OF assms(1)]) (auto simp: stored_by_def)
    moreover from this have "data_epoch (effective_snapshot q) = data_epoch (effective_snapshot q')"
      using same_identity_reads hit(4) identity_of_complete unfolding same_request_def snapshot_current_iff by metis
    ultimately have hitting: "\<exists>q'\<in>set qs. same_request q q' \<and> qc_rows_reply q' = Inr rows
            \<and> qc_read_at q \<le> qc_stored_at q' + 1000000 * max 0 t
            \<and> observed_epoch digest cfg q = observed_epoch digest cfg q'
            \<and> observed_epoch digest cfg q = data_epoch (effective_snapshot q)"
      using q' observed_epoch_current [OF hit(4)] observed_epoch_current [OF cur] by (auto simp: stored_by_def)
    with hit(5) show ?thesis by blast
  qed (auto simp: stored_by_def)
qed

definition sample_repo :: repo_config where
  "sample_repo = \<lparr>db_host = ''h'', db_port = 1, db_database = ''d'', cfg_environment = ''p'', cfg_epoch_sql = ''select e'',
     cfg_epoch_column = ''e'', cfg_generation = ''1''\<rparr>"

definition epoch_seven :: epoch_reply where
  "epoch_seven = Inr [[(''e'', JInt 7)]]"

definition sample_query :: "string \<Rightarrow> int \<Rightarrow> int \<Rightarrow> int query_call" where
  "sample_query sql rows t = \<lparr>qc_sql = sql, qc_params = [],
     qc_snapshot = Some (fst (capture_data_snapshot id sample_repo epoch_seven ''a'')), qc_semantic = [], qc_scope = [],
     qc_epoch_reply = epoch_seven, qc_rows_reply = Inr rows, qc_read_at = t, qc_stored_at = t\<rparr>"

definition second_result :: "string \<Rightarrow> string \<Rightarrow> (repo_error + int) \<times> int doris_repo" where
  "second_result sql sql' = repo_query id sample_repo (sample_query sql' 2 1000)
     (run_queries id sample_repo [sample_query sql 1 0] (new_repo (new_ttl_cache [] 8 60)))"

theorem cached_rows_are_current_witness:
  "fst (second_result ''select x'' ''select  x'') = Inr 1
   \<and> (\<exists>q'\<in>set [sample_query ''select x'' 1 0]. same_request (sample_query ''select  x'' 2 1000) q' \<and> qc_rows_reply q' = Inr 1)
   \<and> observed_epoch id sample_repo (sample_query ''select  x'' 2 1000) = ''7''"
proof -
  let ?q = "sample_query ''select  x'' 2 1000"
  let ?r = "second_result ''select x'' ''select  x''"
  have fst: "fst ?r = Inr 1" and hit: "last_cache_hit (snd ?r)" by code_simp+
  have e: "data_epoch (effective_snapshot ?q) = ''7''" by code_simp
  have "repo_query id sample_repo ?q (run_queries id sample_repo [sample_query ''select x'' 1 0] (new_repo (new_ttl_cache [] 8 60)))
      = (Inr 1, snd ?r)"
    using fst prod.collapse [of ?r] by (simp add: second_result_def)
  from cached_rows_are_current [OF inj_on_id this] hit have
    "\<exists>q'\<in>set [sample_query ''select x'' 1 0]. same_request ?q q' \<and> qc_rows_reply q' = Inr 1
       \<and> observed_epoch id sample_repo ?q = data_epoch (effective_snapshot ?q)"
    by blast
  with fst e show ?thesis by auto
qed

definition where_y_is :: "string \<Rightarrow> string" where
  "where_y_is literal = ''select x where y = '' @ [CHR 0x27] @ literal @ [CHR 0x27]"

text \<open>
  Without a semantic fingerprint the rows of a statement are served to another one that differs in
  the spacing of a text literal alone, though it asks for something else.
\<close>

theorem literal_spacing_shares_rows:
  "fst (second_result (where_y_is ''a  b'') (where_y_is ''a b'')) = Inr 1
   \<and> qc_rows_reply (sample_query (where_y_is ''a b'') 2 1000) = Inr 2"
  by code_simp

text \<open>
  A query under a snapshot that is no longer the current one is refused, whatever is cached and
  whatever the database would answer, and leaves the cache as it is.
\<close>

theorem stale_snapshot_refused:
  assumes "cache_identity_complete (effective_snapshot q)"
    and "cache_identity (fst (capture_data_snapshot digest cfg (qc_epoch_reply q)
          (semantic_activation_fp (effective_snapshot q)))) \<noteq> cache_identity (effective_snapshot q)"
  shows "isl (fst (repo_query digest cfg q r)) \<and> repo_cache (snd (repo_query digest cfg q r)) = repo_cache r
    \<and> \<not> last_cache_hit (snd (repo_query digest cfg q r))"
proof -
  obtain cur log where s: "snapshot_is_current digest cfg (qc_epoch_reply q) (effective_snapshot q) = (cur, log)"
    by (rule prod.exhaust)
  have "cur \<noteq> Inr True"
    using snapshot_current_iff [of digest cfg "qc_epoch_reply q" "effective_snapshot q"] assms(2) s by auto
  moreover have "cur \<noteq> Inr False"
    using s assms(1) by (auto simp: snapshot_is_current_def split: if_splits prod.splits)
  ultimately obtain e where "cur = Inl e" by (cases cur) auto
  then show ?thesis by (simp add: repo_query_def s)
qed

theorem stale_snapshot_refused_witness:
  "isl (fst (repo_query id sample_repo ((sample_query ''select x'' 2 1000)\<lparr>qc_epoch_reply := Inr [[(''e'', JInt 8)]]\<rparr>)
     (run_queries id sample_repo [sample_query ''select x'' 1 0] (new_repo (new_ttl_cache [] 8 60)))))"
proof -
  let ?q = "(sample_query ''select x'' 2 1000)\<lparr>qc_epoch_reply := Inr [[(''e'', JInt 8)]]\<rparr>"
  have a: "cache_identity_complete (effective_snapshot ?q)" by code_simp
  have b: "cache_identity (fst (capture_data_snapshot id sample_repo (qc_epoch_reply ?q)
          (semantic_activation_fp (effective_snapshot ?q)))) \<noteq> cache_identity (effective_snapshot ?q)" by code_simp
  show ?thesis using stale_snapshot_refused [OF a b] by blast
qed

end
