(* ===== verification/Population_Model.thy ===== *)
theory Population_Model
  imports Revision_Payload
begin

text \<open>
  The typed facts about populations (\<^verbatim>\<open>grounded_population_verifier.py\<close>): scopes, reviews, declarations, lineage
  proofs, claims, result evidence and attestations, with their validators, dumps and fingerprints. A
  population is the set of rows or entities a goal is about; nothing here reads language or SQL.

  The hash is the parameter \<open>h\<close>. Enums are datatypes with the members of the source; the text of a member is
  its name. Messages, paths and details of gaps are left out: no decision and no fingerprint reads them.
\<close>

section \<open>Enums\<close>

datatype verification_stage = GOAL_DECLARATION | PRE_EXECUTION | POST_RESULT

datatype scope_kind = UNIVERSE | INDEPENDENT | SAME_AS_GOAL | VERIFIED_ENTITY_SET | PREDICATE_SCOPE | VERIFIED_RESULT_ARTIFACT

datatype constraint_kind = TIME | PREDICATE | ENTITY_MEMBERSHIP | RELATION | GOVERNED_SCOPE

datatype lineage_mechanism =
    DIRECT_SCOPE | SAME_QUERY_PREDICATE_LINEAGE | SAME_QUERY_CTE_LINEAGE | SAME_QUERY_SEMI_JOIN_LINEAGE
  | VERIFIED_ENTITY_SET_ARTIFACT | VERIFIED_RESULT_RELATION      \<comment> \<open>the last is \<open>VERIFIED_RESULT_ARTIFACT\<close>\<close>

datatype artifact_kind = ENTITY_SET | QUERY_RESULT | RESULT_RELATION

datatype artifact_coverage = ALL_ROWS | COMPLETE | EXACT_ENTITY_SET | TOP_N | PREVIEW | PARTIAL | UNKNOWN

text \<open>\<open>PopulationGapCode\<close> is a string enum of 74 members; a code is its text here.\<close>

type_synonym gap_code = string

primrec stage_text :: "verification_stage \<Rightarrow> string" where
  "stage_text GOAL_DECLARATION = ''GOAL_DECLARATION''"
| "stage_text PRE_EXECUTION = ''PRE_EXECUTION''"
| "stage_text POST_RESULT = ''POST_RESULT''"

primrec scope_kind_text :: "scope_kind \<Rightarrow> string" where
  "scope_kind_text UNIVERSE = ''UNIVERSE''"
| "scope_kind_text INDEPENDENT = ''INDEPENDENT''"
| "scope_kind_text SAME_AS_GOAL = ''SAME_AS_GOAL''"
| "scope_kind_text VERIFIED_ENTITY_SET = ''VERIFIED_ENTITY_SET''"
| "scope_kind_text PREDICATE_SCOPE = ''PREDICATE_SCOPE''"
| "scope_kind_text VERIFIED_RESULT_ARTIFACT = ''VERIFIED_RESULT_ARTIFACT''"

primrec constraint_text :: "constraint_kind \<Rightarrow> string" where
  "constraint_text TIME = ''TIME''"
| "constraint_text PREDICATE = ''PREDICATE''"
| "constraint_text ENTITY_MEMBERSHIP = ''ENTITY_MEMBERSHIP''"
| "constraint_text RELATION = ''RELATION''"
| "constraint_text GOVERNED_SCOPE = ''GOVERNED_SCOPE''"

primrec mechanism_text :: "lineage_mechanism \<Rightarrow> string" where
  "mechanism_text DIRECT_SCOPE = ''DIRECT_SCOPE''"
| "mechanism_text SAME_QUERY_PREDICATE_LINEAGE = ''SAME_QUERY_PREDICATE_LINEAGE''"
| "mechanism_text SAME_QUERY_CTE_LINEAGE = ''SAME_QUERY_CTE_LINEAGE''"
| "mechanism_text SAME_QUERY_SEMI_JOIN_LINEAGE = ''SAME_QUERY_SEMI_JOIN_LINEAGE''"
| "mechanism_text VERIFIED_ENTITY_SET_ARTIFACT = ''VERIFIED_ENTITY_SET_ARTIFACT''"
| "mechanism_text VERIFIED_RESULT_RELATION = ''VERIFIED_RESULT_ARTIFACT''"

primrec artifact_kind_text :: "artifact_kind \<Rightarrow> string" where
  "artifact_kind_text ENTITY_SET = ''ENTITY_SET''"
| "artifact_kind_text QUERY_RESULT = ''QUERY_RESULT''"
| "artifact_kind_text RESULT_RELATION = ''RESULT_RELATION''"

primrec coverage_text :: "artifact_coverage \<Rightarrow> string" where
  "coverage_text ALL_ROWS = ''ALL_ROWS''"
| "coverage_text COMPLETE = ''COMPLETE''"
| "coverage_text EXACT_ENTITY_SET = ''EXACT_ENTITY_SET''"
| "coverage_text TOP_N = ''TOP_N''"
| "coverage_text PREVIEW = ''PREVIEW''"
| "coverage_text PARTIAL = ''PARTIAL''"
| "coverage_text UNKNOWN = ''UNKNOWN''"

section \<open>Scopes, reviews and declarations\<close>

record population_constraint =
  pc_fp :: string
  pc_kind :: constraint_kind
  pc_refs :: "string list"

record scope_descriptor =
  sd_id :: string
  sd_kind :: scope_kind
  sd_goals :: "string list"
  sd_artifacts :: "string list"
  sd_population :: string
  sd_entity :: string
  sd_grain :: string
  sd_snapshot :: string
  sd_constraints :: "population_constraint list"
  sd_complete :: bool

record population_declaration =
  pd_consumer :: string
  pd_scope :: scope_descriptor

record population_expectation =
  px_id :: string
  px_consumer :: string
  px_scope :: scope_descriptor

record semantic_review =
  rv_id :: string
  rv_question :: string
  rv_skeleton :: string
  rv_request :: string
  rv_output :: string
  rv_verifier :: string
  rv_complete :: bool
  rv_expectations :: "population_expectation list"

definition constraint_ok :: "population_constraint \<Rightarrow> bool" where
  "constraint_ok c \<longleftrightarrow> py_strip (pc_fp c) \<noteq> [] \<and> unique_texts (pc_refs c)"

definition scope_ok :: "scope_descriptor \<Rightarrow> bool" where
  "scope_ok s \<longleftrightarrow> py_strip (sd_id s) \<noteq> [] \<and> unique_texts (sd_goals s) \<and> unique_texts (sd_artifacts s)
     \<and> unique_texts (map pc_fp (sd_constraints s)) \<and> list_all constraint_ok (sd_constraints s)"

definition population_declaration_ok :: "population_declaration \<Rightarrow> bool" where
  "population_declaration_ok d \<longleftrightarrow> py_strip (pd_consumer d) \<noteq> [] \<and> scope_ok (pd_scope d)"

definition expectation_ok :: "population_expectation \<Rightarrow> bool" where
  "expectation_ok x \<longleftrightarrow> py_strip (px_id x) \<noteq> [] \<and> py_strip (px_consumer x) \<noteq> [] \<and> scope_ok (px_scope x)"

definition review_ok :: "semantic_review \<Rightarrow> bool" where
  "review_ok r \<longleftrightarrow> py_strip (rv_id r) \<noteq> [] \<and> py_strip (rv_question r) \<noteq> [] \<and> py_strip (rv_verifier r) \<noteq> []
     \<and> list_all expectation_ok (rv_expectations r)"

definition constraint_json :: "population_constraint \<Rightarrow> json" where
  "constraint_json c = JObj [(''fingerprint'', JStr (pc_fp c)), (''kind'', JStr (constraint_text (pc_kind c))),
     (''semanticRefIds'', strings_json (pc_refs c))]"

definition scope_json :: "scope_descriptor \<Rightarrow> json" where
  "scope_json s = JObj
     [(''scopeId'', JStr (sd_id s)), (''kind'', JStr (scope_kind_text (sd_kind s))), (''sourceGoalIds'', strings_json (sd_goals s)),
      (''sourceArtifactIds'', strings_json (sd_artifacts s)), (''populationFingerprint'', JStr (sd_population s)),
      (''entityIdentityRef'', JStr (sd_entity s)), (''grainFingerprint'', JStr (sd_grain s)),
      (''snapshotFingerprint'', JStr (sd_snapshot s)), (''constraints'', JArr (map constraint_json (sd_constraints s))),
      (''completeMembershipRequired'', JBool (sd_complete s))]"

definition review_json :: "semantic_review \<Rightarrow> json" where
  "review_json r = JObj
     [(''reviewId'', JStr (rv_id r)), (''questionFingerprint'', JStr (rv_question r)),
      (''goalSkeletonFingerprint'', JStr (rv_skeleton r)), (''providerRequestFingerprint'', JStr (rv_request r)),
      (''providerOutputFingerprint'', JStr (rv_output r)), (''verifierFingerprint'', JStr (rv_verifier r)),
      (''complete'', JBool (rv_complete r)),
      (''expectations'', JArr (map (\<lambda>x. JObj [(''expectationId'', JStr (px_id x)), (''consumerGoalId'', JStr (px_consumer x)),
         (''expectedScope'', scope_json (px_scope x))]) (rv_expectations r)))]"

text \<open>\<open>population_declaration_scope_fingerprint\<close>: what is declared, without identifiers and order.\<close>

definition declaration_scope_fingerprint :: "(string \<Rightarrow> string) \<Rightarrow> scope_descriptor \<Rightarrow> string" where
  "declaration_scope_fingerprint h s = stable_fingerprint h (JObj
     [(''kind'', JStr (scope_kind_text (sd_kind s))), (''sourceGoalIds'', strings_json (sort (sd_goals s))),
      (''sourceArtifactIds'', strings_json (sort (sd_artifacts s))), (''populationFingerprint'', JStr (sd_population s)),
      (''entityIdentityRef'', JStr (sd_entity s)), (''grainFingerprint'', JStr (sd_grain s)),
      (''snapshotFingerprint'', JStr (sd_snapshot s)),
      (''constraintFingerprints'', strings_json (sort (map pc_fp (sd_constraints s)))),
      (''completeMembershipRequired'', JBool (sd_complete s))])"

section \<open>Artifacts, proofs and claims\<close>

record artifact_evidence =
  ae_id :: string
  ae_fp :: string
  ae_kind :: artifact_kind
  ae_coverage :: artifact_coverage
  ae_population :: string
  ae_verifier :: string
  ae_verified :: bool
  ae_immutable :: bool
  ae_contract :: string
  ae_graph :: string
  ae_query :: string
  ae_sql :: string
  ae_snapshot :: string
  ae_lineage :: "string list"

record lineage_proof =
  lp_id :: string
  lp_mechanism :: lineage_mechanism
  lp_verifier :: string
  lp_verified :: bool
  lp_graph :: string
  lp_node :: string
  lp_generation :: int
  lp_attempt :: string
  lp_query :: string
  lp_sql :: string
  lp_source_population :: string
  lp_result_population :: string
  lp_goals :: "string list"
  lp_nodes :: "string list"
  lp_constraints :: "population_constraint list"
  lp_artifacts :: "artifact_evidence list"
  lp_source_entity :: string
  lp_result_entity :: string
  lp_entity_mapping :: string
  lp_relations :: "string list"
  lp_source_grain :: string
  lp_result_grain :: string
  lp_grain_mapping :: string
  lp_source_snapshot :: string
  lp_result_snapshot :: string
  lp_alignment :: string
  lp_complete :: bool

record execution_claim =
  cl_consumer :: string
  cl_node :: string
  cl_generation :: int
  cl_attempt :: string
  cl_declaration_fp :: string
  cl_required :: scope_descriptor
  cl_effective :: scope_descriptor
  cl_query :: string
  cl_sql :: string
  cl_proofs :: "lineage_proof list"

record result_evidence =
  re_consumer :: string
  re_node :: string
  re_artifact :: artifact_evidence
  re_lineage :: "string list"

definition artifact_ok :: "artifact_evidence \<Rightarrow> bool" where
  "artifact_ok a \<longleftrightarrow> py_strip (ae_id a) \<noteq> [] \<and> py_strip (ae_fp a) \<noteq> [] \<and> py_strip (ae_population a) \<noteq> []
     \<and> py_strip (ae_verifier a) \<noteq> [] \<and> unique_texts (ae_lineage a)"

definition lineage_ok :: "lineage_proof \<Rightarrow> bool" where
  "lineage_ok p \<longleftrightarrow> list_all constraint_ok (lp_constraints p) \<and> list_all artifact_ok (lp_artifacts p) \<and> 0 \<le> lp_generation p
     \<and> py_strip (lp_id p) \<noteq> [] \<and> py_strip (lp_verifier p) \<noteq> [] \<and> unique_texts (lp_goals p) \<and> unique_texts (lp_nodes p)
     \<and> unique_texts (lp_relations p) \<and> unique_texts (map pc_fp (lp_constraints p)) \<and> unique_texts (map ae_id (lp_artifacts p))"

definition claim_model_ok :: "execution_claim \<Rightarrow> bool" where
  "claim_model_ok c \<longleftrightarrow> scope_ok (cl_required c) \<and> scope_ok (cl_effective c) \<and> list_all lineage_ok (cl_proofs c)
     \<and> 0 \<le> cl_generation c \<and> py_strip (cl_consumer c) \<noteq> [] \<and> unique_texts (map lp_id (cl_proofs c))"

definition result_ok :: "result_evidence \<Rightarrow> bool" where
  "result_ok r \<longleftrightarrow> py_strip (re_consumer r) \<noteq> [] \<and> py_strip (re_node r) \<noteq> [] \<and> unique_texts (re_lineage r) \<and> artifact_ok (re_artifact r)"

definition artifact_json :: "artifact_evidence \<Rightarrow> json" where
  "artifact_json a = JObj
     [(''artifactId'', JStr (ae_id a)), (''artifactFingerprint'', JStr (ae_fp a)),
      (''artifactKind'', JStr (artifact_kind_text (ae_kind a))), (''coverage'', JStr (coverage_text (ae_coverage a))),
      (''populationFingerprint'', JStr (ae_population a)), (''verifierFingerprint'', JStr (ae_verifier a)),
      (''verified'', JBool (ae_verified a)), (''immutable'', JBool (ae_immutable a)),
      (''goalContractFingerprint'', JStr (ae_contract a)), (''graphFingerprint'', JStr (ae_graph a)),
      (''queryContractFingerprint'', JStr (ae_query a)), (''sqlAstFingerprint'', JStr (ae_sql a)),
      (''snapshotFingerprint'', JStr (ae_snapshot a)), (''lineageProofFingerprints'', strings_json (ae_lineage a))]"

definition lineage_json :: "lineage_proof \<Rightarrow> json" where
  "lineage_json p = JObj
     [(''proofId'', JStr (lp_id p)), (''mechanism'', JStr (mechanism_text (lp_mechanism p))),
      (''verifierFingerprint'', JStr (lp_verifier p)), (''verified'', JBool (lp_verified p)),
      (''graphFingerprint'', JStr (lp_graph p)), (''queryNodeId'', JStr (lp_node p)), (''generation'', JInt (lp_generation p)),
      (''attemptId'', JStr (lp_attempt p)), (''queryContractFingerprint'', JStr (lp_query p)),
      (''sqlAstFingerprint'', JStr (lp_sql p)), (''sourcePopulationFingerprint'', JStr (lp_source_population p)),
      (''resultPopulationFingerprint'', JStr (lp_result_population p)), (''sourceGoalIds'', strings_json (lp_goals p)),
      (''sourceNodeIds'', strings_json (lp_nodes p)), (''preservedConstraints'', JArr (map constraint_json (lp_constraints p))),
      (''artifactEvidence'', JArr (map artifact_json (lp_artifacts p))), (''sourceEntityIdentityRef'', JStr (lp_source_entity p)),
      (''resultEntityIdentityRef'', JStr (lp_result_entity p)), (''entityMappingFingerprint'', JStr (lp_entity_mapping p)),
      (''relationshipRefIds'', strings_json (lp_relations p)), (''sourceGrainFingerprint'', JStr (lp_source_grain p)),
      (''resultGrainFingerprint'', JStr (lp_result_grain p)), (''grainMappingFingerprint'', JStr (lp_grain_mapping p)),
      (''sourceSnapshotFingerprint'', JStr (lp_source_snapshot p)), (''resultSnapshotFingerprint'', JStr (lp_result_snapshot p)),
      (''snapshotAlignmentFingerprint'', JStr (lp_alignment p)), (''completeMembership'', JBool (lp_complete p))]"

definition lineage_fingerprint :: "(string \<Rightarrow> string) \<Rightarrow> lineage_proof \<Rightarrow> string" where
  "lineage_fingerprint h p = stable_fingerprint h (lineage_json p)"

definition claim_json :: "execution_claim \<Rightarrow> json" where
  "claim_json c = JObj
     [(''consumerGoalId'', JStr (cl_consumer c)), (''queryNodeId'', JStr (cl_node c)), (''generation'', JInt (cl_generation c)),
      (''attemptId'', JStr (cl_attempt c)), (''declarationScopeFingerprint'', JStr (cl_declaration_fp c)),
      (''requiredScope'', scope_json (cl_required c)), (''effectiveScope'', scope_json (cl_effective c)),
      (''queryContractFingerprint'', JStr (cl_query c)), (''sqlAstFingerprint'', JStr (cl_sql c)),
      (''lineageProofs'', JArr (map lineage_json (cl_proofs c)))]"

definition result_json :: "result_evidence \<Rightarrow> json" where
  "result_json r = JObj
     [(''consumerGoalId'', JStr (re_consumer r)), (''queryNodeId'', JStr (re_node r)),
      (''resultArtifact'', artifact_json (re_artifact r)), (''lineageProofFingerprints'', strings_json (re_lineage r))]"

section \<open>Attestations\<close>

record scope_attestation =
  sx_consumer :: string
  sx_kind :: scope_kind
  sx_goals :: "string list"
  sx_declaration_fp :: string
  sx_population :: string
  sx_entity :: string
  sx_grain :: string
  sx_constraints :: "string list"
  sx_complete :: bool
  sx_node :: string
  sx_generation :: int
  sx_attempt :: string
  sx_query :: string
  sx_sql :: string
  sx_snapshot :: string
  sx_artifacts :: "string list"
  sx_proofs :: "string list"

record attestation =
  av_stage :: verification_stage
  av_passed :: bool
  av_open :: bool
  av_input :: string
  av_contract :: string
  av_question :: string
  av_graph :: string
  av_scopes :: "scope_attestation list"
  av_proofs :: "string list"
  av_artifacts :: "string list"
  av_gaps :: "gap_code list"
  av_previous :: string
  av_fp :: string

record population_gap =
  gp_code :: gap_code
  gp_consumer :: string
  gp_node :: string
  gp_proof :: string
  gp_artifact :: string

text \<open>\<open>passed\<close> and \<open>gate_open\<close> of a result are that there are no gaps.\<close>

record verification =
  vr_gaps :: "population_gap list"
  vr_attestation :: attestation

definition scope_attestation_json :: "scope_attestation \<Rightarrow> json" where
  "scope_attestation_json s = JObj
     [(''consumerGoalId'', JStr (sx_consumer s)), (''scopeKind'', JStr (scope_kind_text (sx_kind s))),
      (''sourceGoalIds'', strings_json (sx_goals s)), (''declarationScopeFingerprint'', JStr (sx_declaration_fp s)),
      (''populationFingerprint'', JStr (sx_population s)), (''entityIdentityRef'', JStr (sx_entity s)),
      (''grainFingerprint'', JStr (sx_grain s)), (''constraintFingerprints'', strings_json (sx_constraints s)),
      (''completeMembershipRequired'', JBool (sx_complete s)), (''queryNodeId'', JStr (sx_node s)),
      (''generation'', JInt (sx_generation s)), (''attemptId'', JStr (sx_attempt s)),
      (''queryContractFingerprint'', JStr (sx_query s)), (''sqlAstFingerprint'', JStr (sx_sql s)),
      (''snapshotFingerprint'', JStr (sx_snapshot s)), (''sourceArtifactIds'', strings_json (sx_artifacts s)),
      (''proofFingerprints'', strings_json (sx_proofs s))]"

definition attestation_json :: "attestation \<Rightarrow> json" where
  "attestation_json a = JObj
     [(''verifierVersion'', JStr ''population_semantic_verifier.v1''), (''stage'', JStr (stage_text (av_stage a))),
      (''passed'', JBool (av_passed a)), (''gateOpen'', JBool (av_open a)), (''inputFingerprint'', JStr (av_input a)),
      (''goalContractFingerprint'', JStr (av_contract a)), (''questionFingerprint'', JStr (av_question a)),
      (''graphFingerprint'', JStr (av_graph a)), (''acceptedScopes'', JArr (map scope_attestation_json (av_scopes a))),
      (''acceptedProofFingerprints'', strings_json (av_proofs a)), (''artifactFingerprints'', strings_json (av_artifacts a)),
      (''gapCodes'', strings_json (av_gaps a)), (''previousAttestationFingerprint'', JStr (av_previous a)),
      (''attestationFingerprint'', JStr (av_fp a))]"

definition attestation_fingerprint :: "(string \<Rightarrow> string) \<Rightarrow> attestation \<Rightarrow> string" where
  "attestation_fingerprint h a = stable_fingerprint h (attestation_json (a\<lparr>av_fp := []\<rparr>))"

definition attestation_or_null :: "attestation option \<Rightarrow> json" where
  "attestation_or_null a = (case a of None \<Rightarrow> JNull | Some x \<Rightarrow> attestation_json x)"

end
