(* ===== verification/Population_Verifier.thy ===== *)
theory Population_Verifier
  imports Population_Model
begin

text \<open>
  The population gate as a decision on typed facts (\<open>PopulationSemanticVerifier\<close> of
  \<^verbatim>\<open>grounded_population_verifier.py\<close>): declarations against an independent review, execution claims with their
  lineage proofs before a query runs, and results after it. Every stage returns the gaps it found and an
  attestation that names the attestation before it.
\<close>

section \<open>Declarations from a goal contract\<close>

definition population_question_fingerprint :: "(string \<Rightarrow> string) \<Rightarrow> string \<Rightarrow> string" where
  "population_question_fingerprint h q = stable_fingerprint h (JObj [(''question'', JStr q)])"

text \<open>
  Only detail and ranking goals have the two population fields; reading them of another goal raises
  (\<open>AttributeError\<close>).
\<close>

datatype projection_error = PopulationFieldMissing | ProjectionContract contract_error

primrec scope_kind_of :: "population_scope \<Rightarrow> scope_kind" where
  "scope_kind_of ALL_MATCHING_ROWS = INDEPENDENT"
| "scope_kind_of population_scope.SAME_AS_GOAL = scope_kind.SAME_AS_GOAL"
| "scope_kind_of population_scope.VERIFIED_ENTITY_SET = scope_kind.VERIFIED_ENTITY_SET"
| "scope_kind_of VERIFIED_PREDICATE_SCOPE = PREDICATE_SCOPE"
| "scope_kind_of population_scope.VERIFIED_RESULT_ARTIFACT = scope_kind.VERIFIED_RESULT_ARTIFACT"

fun population_fields :: "goal_body \<Rightarrow> (population_scope \<times> string list) option" where
  "population_fields (Detail d) = Some (dt_population_scope d, dt_population_goal_ids d)"
| "population_fields (Ranking r) = Some (population_scope r, population_goal_ids r)"
| "population_fields _ = None"

fun is_ranking :: "goal_body \<Rightarrow> bool" where
  "is_ranking (Ranking _) = True"
| "is_ranking _ = False"

definition complete_kind :: "scope_kind \<Rightarrow> bool" where
  "complete_kind k \<longleftrightarrow> k \<in> {scope_kind.SAME_AS_GOAL, scope_kind.VERIFIED_ENTITY_SET, scope_kind.VERIFIED_RESULT_ARTIFACT}"

definition projected :: "question_goal \<Rightarrow> population_scope \<Rightarrow> string list \<Rightarrow> population_declaration" where
  "projected g s gs = \<lparr>pd_consumer = goal_id g, pd_scope =
     \<lparr>sd_id = ''goal:'' @ goal_id g @ '':population'', sd_kind = scope_kind_of s, sd_goals = gs, sd_artifacts = [],
      sd_population = [], sd_entity = [], sd_grain = [], sd_snapshot = [], sd_constraints = [],
      sd_complete = complete_kind (scope_kind_of s)\<rparr>\<rparr>"

text \<open>\<open>requested\<close> is \<open>None\<close> when \<open>consumer_goal_ids\<close> is not given.\<close>

definition project_goal :: "string list option \<Rightarrow> question_goal \<Rightarrow> projection_error + population_declaration option" where
  "project_goal requested g =
     (case requested of
        Some ids \<Rightarrow>
          if goal_id g \<notin> set (filter (\<lambda>t. t \<noteq> []) (map py_strip ids)) then Inr None
          else (case population_fields (body g) of None \<Rightarrow> Inl PopulationFieldMissing
            | Some (s, gs) \<Rightarrow> Inr (Some (projected g s gs)))
      | None \<Rightarrow>
          (case population_fields (body g) of None \<Rightarrow> Inl PopulationFieldMissing
           | Some (s, gs) \<Rightarrow>
               Inr (if is_ranking (body g) \<or> gs \<noteq> [] \<or> s \<noteq> ALL_MATCHING_ROWS then Some (projected g s gs) else None)))"

definition declarations_from_contract ::
  "goal_contract \<Rightarrow> string list option \<Rightarrow> projection_error + population_declaration list" where
  "declarations_from_contract c requested =
     (case parse_contract c of Inl e \<Rightarrow> Inl (ProjectionContract e)
      | Inr n \<Rightarrow> bind_res (map_res (project_goal requested) (goals n)) (\<lambda>ds. Inr (List.map_filter id ds)))"

section \<open>Requests and results\<close>

record declaration_request =
  dq_question :: string
  dq_skeleton :: string
  dq_contract :: string
  dq_author :: string
  dq_review :: "semantic_review option"
  dq_trusted :: "string list"
  dq_declarations :: "population_declaration list"

record pre_request =
  pq_contract :: string
  pq_graph :: string
  pq_prior :: "attestation option"
  pq_lineage_trusted :: "string list"
  pq_artifact_trusted :: "string list"
  pq_required :: "string list"
  pq_explicit :: bool
  pq_claims :: "execution_claim list"

record post_request =
  oq_contract :: string
  oq_graph :: string
  oq_prior :: "attestation option"
  oq_trusted :: "string list"
  oq_required :: "string list"
  oq_explicit :: bool
  oq_results :: "result_evidence list"

definition declaration_request_json :: "declaration_request \<Rightarrow> json" where
  "declaration_request_json q = JObj
     [(''stage'', JStr (stage_text GOAL_DECLARATION)), (''questionFingerprint'', JStr (dq_question q)),
      (''goalSkeletonFingerprint'', JStr (dq_skeleton q)), (''goalContractFingerprint'', JStr (dq_contract q)),
      (''declarationAuthorFingerprint'', JStr (dq_author q)),
      (''semanticReview'', case dq_review q of None \<Rightarrow> JNull | Some r \<Rightarrow> review_json r),
      (''trustedSemanticVerifierFingerprints'', strings_json (dq_trusted q)),
      (''declarations'', JArr (map (\<lambda>d. JObj [(''consumerGoalId'', JStr (pd_consumer d)),
         (''declaredScope'', scope_json (pd_scope d))]) (dq_declarations q)))]"

definition pre_request_json :: "pre_request \<Rightarrow> json" where
  "pre_request_json q = JObj
     [(''stage'', JStr (stage_text PRE_EXECUTION)), (''goalContractFingerprint'', JStr (pq_contract q)),
      (''graphFingerprint'', JStr (pq_graph q)), (''declarationAttestation'', attestation_or_null (pq_prior q)),
      (''trustedLineageVerifierFingerprints'', strings_json (pq_lineage_trusted q)),
      (''trustedArtifactVerifierFingerprints'', strings_json (pq_artifact_trusted q)),
      (''requiredConsumerGoalIds'', strings_json (pq_required q)), (''consumerScopeSelectionExplicit'', JBool (pq_explicit q)),
      (''claims'', JArr (map claim_json (pq_claims q)))]"

definition post_request_json :: "post_request \<Rightarrow> json" where
  "post_request_json q = JObj
     [(''stage'', JStr (stage_text POST_RESULT)), (''goalContractFingerprint'', JStr (oq_contract q)),
      (''graphFingerprint'', JStr (oq_graph q)), (''preExecutionAttestation'', attestation_or_null (oq_prior q)),
      (''trustedArtifactVerifierFingerprints'', strings_json (oq_trusted q)),
      (''requiredConsumerGoalIds'', strings_json (oq_required q)), (''consumerScopeSelectionExplicit'', JBool (oq_explicit q)),
      (''results'', JArr (map result_json (oq_results q)))]"

text \<open>\<open>_gap\<close>, \<open>_dedupe_gaps\<close> (the five fields are the identity of a gap) and \<open>_result\<close>.\<close>

definition gap :: "gap_code \<Rightarrow> string \<Rightarrow> string \<Rightarrow> string \<Rightarrow> string \<Rightarrow> population_gap" where
  "gap c consumer node proof_id artifact = \<lparr>gp_code = c, gp_consumer = consumer, gp_node = node, gp_proof = proof_id, gp_artifact = artifact\<rparr>"

definition dedupe_gaps :: "population_gap list \<Rightarrow> population_gap list" where
  "dedupe_gaps gs = fromkeys gs"

definition make_verification ::
  "(string \<Rightarrow> string) \<Rightarrow> verification_stage \<Rightarrow> json \<Rightarrow> string \<Rightarrow> string \<Rightarrow> string \<Rightarrow> attestation option
    \<Rightarrow> population_gap list \<Rightarrow> scope_attestation list \<Rightarrow> string list \<Rightarrow> string list \<Rightarrow> verification" where
  "make_verification h stage request contract question_fp graph previous gaps scopes proofs artifacts =
     (let gs = dedupe_gaps gaps;
          a = \<lparr>av_stage = stage, av_passed = (gs = []), av_open = (gs = []), av_input = stable_fingerprint h request,
               av_contract = contract, av_question = question_fp, av_graph = graph,
               av_scopes = sort_key sx_consumer scopes, av_proofs = sorted_set proofs, av_artifacts = sorted_set artifacts,
               av_gaps = map gp_code gs, av_previous = (case previous of None \<Rightarrow> [] | Some p \<Rightarrow> av_fp p), av_fp = []\<rparr>
      in \<lparr>vr_gaps = gs, vr_attestation = a\<lparr>av_fp := attestation_fingerprint h a\<rparr>\<rparr>)"

definition verification_passed :: "verification \<Rightarrow> bool" where
  "verification_passed v \<longleftrightarrow> vr_gaps v = []"

text \<open>\<open>_unique_by_consumer\<close>: the first item of every stripped key, and the keys that occur again.\<close>

fun unique_by :: "('a \<Rightarrow> string) \<Rightarrow> 'a list \<Rightarrow> (string, 'a) dict \<Rightarrow> string list \<Rightarrow> (string, 'a) dict \<times> string list" where
  "unique_by f [] mapped duplicates = (mapped, duplicates)"
| "unique_by f (x # xs) mapped duplicates =
     (if py_strip (f x) \<in> fst ` set mapped then unique_by f xs mapped (List.insert (py_strip (f x)) duplicates)
      else unique_by f xs (mapped @ [(py_strip (f x), x)]) duplicates)"

definition unique_by_consumer :: "('a \<Rightarrow> string) \<Rightarrow> 'a list \<Rightarrow> (string, 'a) dict \<times> string list" where
  "unique_by_consumer f xs = unique_by f xs [] []"

definition keys_minus :: "string list \<Rightarrow> string list \<Rightarrow> string list" where
  "keys_minus xs ys = sorted_set (filter (\<lambda>x. x \<notin> set ys) xs)"

definition keys_both :: "string list \<Rightarrow> string list \<Rightarrow> string list" where
  "keys_both xs ys = sorted_set (filter (\<lambda>x. x \<in> set ys) xs)"

section \<open>Goal declaration\<close>

definition compare_declaration_scopes :: "scope_descriptor \<Rightarrow> scope_descriptor \<Rightarrow> string \<Rightarrow> population_gap list" where
  "compare_declaration_scopes expected declared consumer =
     (let g = (\<lambda>c. gap c consumer [] [] [])
      in issue_if (sd_kind expected \<noteq> sd_kind declared) (g ''POPULATION_SCOPE_KIND_MISMATCH'')
       @ issue_if (set (sd_goals expected) \<noteq> set (sd_goals declared)) (g ''POPULATION_SOURCE_GOAL_MISMATCH'')
       @ issue_if (sd_artifacts expected \<noteq> [] \<and> set (sd_artifacts expected) \<noteq> set (sd_artifacts declared))
           (g ''POPULATION_SOURCE_ARTIFACT_MISMATCH'')
       @ issue_if (sd_population expected \<noteq> [] \<and> sd_population expected \<noteq> sd_population declared)
           (g ''POPULATION_SCOPE_FINGERPRINT_MISMATCH'')
       @ issue_if (sd_entity expected \<noteq> [] \<and> sd_entity expected \<noteq> sd_entity declared) (g ''POPULATION_ENTITY_IDENTITY_MISMATCH'')
       @ issue_if (sd_grain expected \<noteq> [] \<and> sd_grain expected \<noteq> sd_grain declared) (g ''POPULATION_GRAIN_MISMATCH'')
       @ issue_if (sd_complete expected \<noteq> sd_complete declared) (g ''POPULATION_COMPLETENESS_MISMATCH'')
       @ issue_if (sd_kind expected = scope_kind.SAME_AS_GOAL \<and> sd_goals expected = []) (g ''POPULATION_SOURCE_REQUIRED''))"

definition review_gaps :: "declaration_request \<Rightarrow> semantic_review \<Rightarrow> population_gap list" where
  "review_gaps q r =
     (let g = (\<lambda>c. gap c [] [] [] [])
      in issue_if (rv_verifier r \<notin> set (dq_trusted q)) (g ''SEMANTIC_REVIEW_UNTRUSTED'')
       @ issue_if (rv_verifier r = dq_author q) (g ''SEMANTIC_REVIEW_NOT_INDEPENDENT'')
       @ issue_if (rv_question r \<noteq> dq_question q) (g ''QUESTION_FINGERPRINT_MISMATCH'')
       @ (if dq_skeleton q = [] then []
          else if rv_skeleton r = [] \<or> rv_request r = [] \<or> rv_output r = [] then [g ''SEMANTIC_REVIEW_BINDING_MISSING'']
          else issue_if (rv_skeleton r \<noteq> dq_skeleton q) (g ''GOAL_SKELETON_FINGERPRINT_MISMATCH''))
       @ issue_if (\<not> rv_complete r) (g ''SEMANTIC_REVIEW_INCOMPLETE''))"

definition declared_attestation :: "(string \<Rightarrow> string) \<Rightarrow> string \<Rightarrow> scope_descriptor \<Rightarrow> scope_attestation" where
  "declared_attestation h consumer s =
     \<lparr>sx_consumer = consumer, sx_kind = sd_kind s, sx_goals = sort (sd_goals s),
      sx_declaration_fp = declaration_scope_fingerprint h s, sx_population = sd_population s, sx_entity = sd_entity s,
      sx_grain = sd_grain s, sx_constraints = sort (map pc_fp (sd_constraints s)), sx_complete = sd_complete s,
      sx_node = [], sx_generation = 0, sx_attempt = [], sx_query = [], sx_sql = [], sx_snapshot = [],
      sx_artifacts = sort (sd_artifacts s), sx_proofs = []\<rparr>"

text \<open>The scopes both sides name, with what they say.\<close>

definition declared_pairs ::
  "(string, population_expectation) dict \<Rightarrow> (string, population_declaration) dict \<Rightarrow> (string \<times> scope_descriptor \<times> scope_descriptor) list" where
  "declared_pairs xm dm = List.map_filter (\<lambda>k. case (map_of xm k, map_of dm k) of
     (Some x, Some d) \<Rightarrow> Some (k, px_scope x, pd_scope d) | _ \<Rightarrow> None) (keys_both (map fst xm) (map fst dm))"

definition declaration_gaps ::
  "(string, population_expectation) dict \<times> string list \<Rightarrow> (string, population_declaration) dict \<times> string list \<Rightarrow> population_gap list" where
  "declaration_gaps x d =
     (let g = (\<lambda>c k. gap c k [] [] [])
      in map (g ''POPULATION_DECLARATION_DUPLICATE'') (sorted_set (snd x @ snd d))
       @ map (g ''POPULATION_DECLARATION_MISSING'') (keys_minus (map fst (fst x)) (map fst (fst d)))
       @ map (g ''POPULATION_DECLARATION_UNEXPECTED'') (keys_minus (map fst (fst d)) (map fst (fst x)))
       @ concat (map (\<lambda>(k, e, s). compare_declaration_scopes e s k) (declared_pairs (fst x) (fst d))))"

definition verify_goal_declaration :: "(string \<Rightarrow> string) \<Rightarrow> declaration_request \<Rightarrow> verification" where
  "verify_goal_declaration h q =
     (let g = (\<lambda>c. gap c [] [] [] []);
          x = unique_by_consumer px_consumer (case dq_review q of None \<Rightarrow> [] | Some r \<Rightarrow> rv_expectations r);
          d = unique_by_consumer pd_consumer (dq_declarations q)
      in make_verification h GOAL_DECLARATION (declaration_request_json q) (dq_contract q) (dq_question q) [] None
           (issue_if (py_strip (dq_contract q) = []) (g ''GOAL_CONTRACT_FINGERPRINT_REQUIRED'')
            @ issue_if (py_strip (dq_author q) = []) (g ''DECLARATION_AUTHORITY_REQUIRED'')
            @ (case dq_review q of None \<Rightarrow> [g ''SEMANTIC_REVIEW_REQUIRED''] | Some r \<Rightarrow> review_gaps q r)
            @ declaration_gaps x d)
           (map (\<lambda>(k, e, s). declared_attestation h k s)
             (filter (\<lambda>(k, e, s). compare_declaration_scopes e s k = []) (declared_pairs (fst x) (fst d))))
           [] [])"

section \<open>Before execution\<close>

text \<open>\<open>_validate_prior_attestation\<close>; no graph is checked when \<open>graph\<close> is empty.\<close>

definition prior_gaps ::
  "(string \<Rightarrow> string) \<Rightarrow> attestation option \<Rightarrow> verification_stage \<Rightarrow> string \<Rightarrow> string \<Rightarrow> population_gap list" where
  "prior_gaps h prior stage contract graph =
     (let g = (\<lambda>c. gap c [] [] [] [])
      in case prior of None \<Rightarrow> [g ''PRIOR_ATTESTATION_REQUIRED'']
       | Some a \<Rightarrow>
           issue_if (av_stage a \<noteq> stage) (g ''PRIOR_ATTESTATION_STAGE_MISMATCH'')
           @ issue_if (\<not> av_passed a \<or> \<not> av_open a \<or> av_fp a \<noteq> attestation_fingerprint h a) (g ''PRIOR_ATTESTATION_INVALID'')
           @ issue_if (av_contract a \<noteq> contract) (g ''PRIOR_ATTESTATION_SCOPE_MISMATCH'')
           @ issue_if (graph \<noteq> [] \<and> av_graph a \<noteq> graph) (g ''PRIOR_ATTESTATION_SCOPE_MISMATCH''))"

definition attested_scopes :: "attestation option \<Rightarrow> scope_attestation list" where
  "attested_scopes prior = (case prior of None \<Rightarrow> [] | Some a \<Rightarrow> av_scopes a)"

definition attested_scope :: "attestation option \<Rightarrow> string \<Rightarrow> scope_attestation option" where
  "attested_scope prior k = map_of (rev (map (\<lambda>s. (sx_consumer s, s)) (attested_scopes prior))) k"

definition selection_mismatch :: "bool \<Rightarrow> string list \<Rightarrow> string list \<Rightarrow> bool" where
  "selection_mismatch explicit requested attested =
     (if explicit then \<not> set requested \<subseteq> set attested else requested \<noteq> [] \<and> set requested \<noteq> set attested)"

definition mechanisms_of :: "scope_kind \<Rightarrow> lineage_mechanism list" where
  "mechanisms_of k = (case k of
     UNIVERSE \<Rightarrow> [DIRECT_SCOPE]
   | INDEPENDENT \<Rightarrow> [DIRECT_SCOPE]
   | scope_kind.SAME_AS_GOAL \<Rightarrow> [SAME_QUERY_PREDICATE_LINEAGE, SAME_QUERY_CTE_LINEAGE, SAME_QUERY_SEMI_JOIN_LINEAGE,
       VERIFIED_ENTITY_SET_ARTIFACT, VERIFIED_RESULT_RELATION]
   | PREDICATE_SCOPE \<Rightarrow> [SAME_QUERY_PREDICATE_LINEAGE, SAME_QUERY_CTE_LINEAGE, SAME_QUERY_SEMI_JOIN_LINEAGE, VERIFIED_RESULT_RELATION]
   | scope_kind.VERIFIED_ENTITY_SET \<Rightarrow> [VERIFIED_ENTITY_SET_ARTIFACT]
   | scope_kind.VERIFIED_RESULT_ARTIFACT \<Rightarrow> [VERIFIED_RESULT_RELATION])"

definition dependent_kind :: "scope_kind \<Rightarrow> bool" where
  "dependent_kind k \<longleftrightarrow> k \<in> {scope_kind.SAME_AS_GOAL, scope_kind.VERIFIED_ENTITY_SET, PREDICATE_SCOPE, scope_kind.VERIFIED_RESULT_ARTIFACT}"

definition complete_coverage :: "artifact_coverage \<Rightarrow> bool" where
  "complete_coverage c \<longleftrightarrow> c \<in> {ALL_ROWS, COMPLETE, EXACT_ENTITY_SET, TOP_N}"

text \<open>\<open>_verify_source_artifact\<close>, for a mechanism that needs artifacts.\<close>

definition source_artifact_gaps ::
  "string list \<Rightarrow> execution_claim \<Rightarrow> lineage_proof \<Rightarrow> artifact_evidence \<Rightarrow> population_gap list" where
  "source_artifact_gaps trusted c p a =
     (let g = (\<lambda>code. gap code (cl_consumer c) (cl_node c) (lp_id p) (ae_id a))
      in issue_if (ae_verifier a \<notin> set trusted) (g ''ARTIFACT_UNTRUSTED'')
       @ issue_if (\<not> ae_verified a) (g ''ARTIFACT_UNVERIFIED'')
       @ issue_if (\<not> ae_immutable a) (g ''ARTIFACT_NOT_IMMUTABLE'')
       @ issue_if (if lp_mechanism p = VERIFIED_ENTITY_SET_ARTIFACT then ae_kind a \<noteq> ENTITY_SET else ae_kind a = ENTITY_SET)
           (g ''ARTIFACT_KIND_MISMATCH'')
       @ issue_if (\<not> complete_coverage (ae_coverage a)) (g ''ARTIFACT_COVERAGE_INCOMPLETE'')
       @ issue_if (ae_population a \<noteq> sd_population (cl_required c)) (g ''ARTIFACT_POPULATION_MISMATCH'')
       @ issue_if (sd_artifacts (cl_required c) \<noteq> [] \<and> ae_id a \<notin> set (sd_artifacts (cl_required c)))
           (g ''POPULATION_SOURCE_ARTIFACT_MISMATCH''))"

definition artifact_mechanism :: "lineage_mechanism \<Rightarrow> bool" where
  "artifact_mechanism m \<longleftrightarrow> m \<in> {VERIFIED_ENTITY_SET_ARTIFACT, VERIFIED_RESULT_RELATION}"

definition artifact_part :: "string list \<Rightarrow> execution_claim \<Rightarrow> lineage_proof \<Rightarrow> population_gap list" where
  "artifact_part trusted c p =
     (let g = (\<lambda>code. gap code (cl_consumer c) (cl_node c) (lp_id p) []); as = lp_artifacts p
      in if \<not> artifact_mechanism (lp_mechanism p) then []
         else issue_if (as = []) (g ''ARTIFACT_EVIDENCE_REQUIRED'')
            @ (if list_ex (\<lambda>a. source_artifact_gaps trusted c p a = []) as then []
               else concat (map (source_artifact_gaps trusted c p) as))
            @ issue_if (\<not> set (sd_artifacts (cl_required c)) \<subseteq> set (map ae_id as)) (g ''POPULATION_SOURCE_ARTIFACT_MISMATCH''))"

text \<open>The execution the proof is about, and the two populations it connects.\<close>

definition binding_part :: "string list \<Rightarrow> string \<Rightarrow> execution_claim \<Rightarrow> lineage_proof \<Rightarrow> population_gap list" where
  "binding_part trusted graph c p =
     (let g = (\<lambda>code. gap code (cl_consumer c) (cl_node c) (lp_id p) []);
          differs = (\<lambda>a b. a = [] \<or> a \<noteq> b)
      in issue_if (lp_verifier p \<notin> set trusted) (g ''LINEAGE_PROOF_UNTRUSTED'')
       @ issue_if (\<not> lp_verified p) (g ''LINEAGE_PROOF_UNVERIFIED'')
       @ issue_if (differs (lp_graph p) graph) (g ''LINEAGE_GRAPH_MISMATCH'')
       @ issue_if (differs (lp_node p) (cl_node c)) (g ''LINEAGE_QUERY_NODE_MISMATCH'')
       @ issue_if (lp_generation p = 0 \<or> lp_generation p \<noteq> cl_generation c) (g ''LINEAGE_GENERATION_MISMATCH'')
       @ issue_if (differs (lp_attempt p) (cl_attempt c)) (g ''LINEAGE_ATTEMPT_MISMATCH'')
       @ issue_if (differs (lp_query p) (cl_query c)) (g ''LINEAGE_QUERY_CONTRACT_MISMATCH'')
       @ issue_if (differs (lp_sql p) (cl_sql c)) (g ''LINEAGE_SQL_AST_MISMATCH''))"

text \<open>\<open>a or b\<close> of two texts.\<close>

definition or_else :: "string \<Rightarrow> string \<Rightarrow> string" where
  "or_else a b = (if a \<noteq> [] then a else b)"

definition population_part :: "execution_claim \<Rightarrow> lineage_proof \<Rightarrow> population_gap list" where
  "population_part c p =
     (let g = (\<lambda>code. gap code (cl_consumer c) (cl_node c) (lp_id p) []); r = cl_required c; e = cl_effective c
      in issue_if (lp_mechanism p \<notin> set (mechanisms_of (sd_kind r))) (g ''LINEAGE_MECHANISM_INVALID'')
       @ issue_if (lp_source_population p \<noteq> sd_population r) (g ''LINEAGE_SOURCE_POPULATION_MISMATCH'')
       @ issue_if (lp_result_population p \<noteq> sd_population e) (g ''LINEAGE_RESULT_POPULATION_MISMATCH'')
       @ issue_if (dependent_kind (sd_kind r) \<and> sd_population r \<noteq> sd_population e) (g ''POPULATION_SCOPE_FINGERPRINT_MISMATCH'')
       @ issue_if (\<not> set (sd_goals r) \<subseteq> set (lp_goals p)) (g ''LINEAGE_SOURCE_GOAL_MISMATCH'')
       @ issue_if (\<not> pc_fp ` set (sd_constraints r) \<subseteq> pc_fp ` set (lp_constraints p)) (g ''CONSTRAINT_LINEAGE_INCOMPLETE'')
       @ issue_if (or_else (lp_source_entity p) (sd_entity r) \<noteq> or_else (lp_result_entity p) (sd_entity e)
             \<and> \<not> (lp_entity_mapping p \<noteq> [] \<and> lp_relations p \<noteq> [])) (g ''ENTITY_MAPPING_REQUIRED'')
       @ issue_if (or_else (lp_source_grain p) (sd_grain r) \<noteq> or_else (lp_result_grain p) (sd_grain e) \<and> lp_grain_mapping p = [])
           (g ''GRAIN_MAPPING_REQUIRED'')
       @ issue_if (lp_source_snapshot p \<noteq> sd_snapshot r) (g ''LINEAGE_SOURCE_SNAPSHOT_MISMATCH'')
       @ issue_if (lp_result_snapshot p \<noteq> sd_snapshot e) (g ''LINEAGE_RESULT_SNAPSHOT_MISMATCH'')
       @ issue_if (lp_source_snapshot p \<noteq> lp_result_snapshot p \<and> lp_alignment p = []) (g ''SNAPSHOT_ALIGNMENT_REQUIRED'')
       @ issue_if (sd_complete r \<and> \<not> lp_complete p) (g ''MEMBERSHIP_INCOMPLETE''))"

definition time_filter_degradation :: "execution_claim \<Rightarrow> lineage_proof \<Rightarrow> population_gap list \<Rightarrow> bool" where
  "time_filter_degradation c p gs \<longleftrightarrow> dependent_kind (sd_kind (cl_required c)) \<and> lp_mechanism p = SAME_QUERY_PREDICATE_LINEAGE
     \<and> pc_kind ` set (lp_constraints p) = {TIME}
     \<and> list_ex (\<lambda>g. gp_code g \<in> {''LINEAGE_SOURCE_POPULATION_MISMATCH'', ''LINEAGE_RESULT_POPULATION_MISMATCH'',
         ''POPULATION_SCOPE_FINGERPRINT_MISMATCH'', ''CONSTRAINT_LINEAGE_INCOMPLETE'', ''ENTITY_MAPPING_REQUIRED'',
         ''GRAIN_MAPPING_REQUIRED''}) gs"

definition lineage_gaps :: "pre_request \<Rightarrow> execution_claim \<Rightarrow> lineage_proof \<Rightarrow> population_gap list" where
  "lineage_gaps q c p =
     (let gs = binding_part (pq_lineage_trusted q) (pq_graph q) c p @ population_part c p @ artifact_part (pq_artifact_trusted q) c p
      in dedupe_gaps (gs @ issue_if (time_filter_degradation c p gs)
           (gap ''POPULATION_DEGRADED_TO_TIME_FILTER'' (cl_consumer c) (cl_node c) (lp_id p) [])))"

text \<open>The chain of comparisons of a claim with the declared scope; each branch adds the same gap.\<close>

definition scope_changed :: "execution_claim \<Rightarrow> scope_attestation option \<Rightarrow> bool" where
  "scope_changed c prior =
     (case prior of None \<Rightarrow> True
      | Some s \<Rightarrow> cl_declaration_fp c \<noteq> sx_declaration_fp s \<or> sd_kind (cl_required c) \<noteq> sx_kind s
          \<or> set (sd_goals (cl_required c)) \<noteq> set (sx_goals s)
          \<or> sx_artifacts s \<noteq> [] \<and> set (sd_artifacts (cl_required c)) \<noteq> set (sx_artifacts s)
          \<or> sd_complete (cl_required c) \<noteq> sx_complete s
          \<or> sx_entity s \<noteq> [] \<and> sd_entity (cl_required c) \<noteq> sx_entity s
          \<or> sx_grain s \<noteq> [] \<and> sd_grain (cl_required c) \<noteq> sx_grain s
          \<or> \<not> set (sx_constraints s) \<subseteq> pc_fp ` set (sd_constraints (cl_required c)))"

definition claim_gaps :: "pre_request \<Rightarrow> string \<Rightarrow> execution_claim \<Rightarrow> population_gap list" where
  "claim_gaps q consumer c =
     (let g = (\<lambda>code. gap code consumer (cl_node c) [] []); r = cl_required c; e = cl_effective c;
          blank = (\<lambda>t. py_strip t = [])
      in issue_if (scope_changed c (attested_scope (pq_prior q) consumer)) (g ''PRIOR_ATTESTATION_SCOPE_MISMATCH'')
       @ issue_if (blank (cl_node c)) (gap ''QUERY_NODE_REQUIRED'' consumer [] [] [])
       @ issue_if (cl_generation c < 1) (g ''QUERY_GENERATION_REQUIRED'')
       @ issue_if (blank (cl_attempt c)) (g ''QUERY_ATTEMPT_REQUIRED'')
       @ issue_if (blank (cl_query c)) (g ''QUERY_CONTRACT_FINGERPRINT_REQUIRED'')
       @ issue_if (blank (cl_sql c)) (g ''SQL_AST_FINGERPRINT_REQUIRED'')
       @ issue_if (blank (sd_population r) \<or> blank (sd_population e)) (g ''POPULATION_FINGERPRINT_REQUIRED'')
       @ issue_if (blank (sd_grain r) \<or> blank (sd_grain e)) (g ''POPULATION_GRAIN_REQUIRED'')
       @ issue_if (blank (sd_snapshot r) \<or> blank (sd_snapshot e)) (g ''SNAPSHOT_FINGERPRINT_REQUIRED'')
       @ issue_if (sd_kind r = scope_kind.VERIFIED_ENTITY_SET \<and> (blank (sd_entity r) \<or> blank (sd_entity e)))
           (g ''POPULATION_ENTITY_IDENTITY_REQUIRED'')
       @ issue_if (sd_kind r \<in> {scope_kind.VERIFIED_ENTITY_SET, scope_kind.VERIFIED_RESULT_ARTIFACT} \<and> sd_artifacts r = [])
           (g ''POPULATION_SOURCE_REQUIRED'')
       @ issue_if (sd_kind r \<noteq> sd_kind e) (g ''POPULATION_SCOPE_KIND_MISMATCH'')
       @ issue_if (cl_proofs c = []) (g ''LINEAGE_PROOF_REQUIRED'')
       @ (if list_ex (\<lambda>p. lineage_gaps q c p = []) (cl_proofs c) then [] else concat (map (lineage_gaps q c) (cl_proofs c))))"

definition successful_proofs :: "pre_request \<Rightarrow> execution_claim \<Rightarrow> lineage_proof list" where
  "successful_proofs q c = filter (\<lambda>p. lineage_gaps q c p = []) (cl_proofs c)"

definition claim_proof_fps :: "(string \<Rightarrow> string) \<Rightarrow> pre_request \<Rightarrow> execution_claim \<Rightarrow> string list" where
  "claim_proof_fps h q c = sort (map (lineage_fingerprint h) (successful_proofs q c))"

definition claim_attestation :: "(string \<Rightarrow> string) \<Rightarrow> pre_request \<Rightarrow> string \<Rightarrow> execution_claim \<Rightarrow> scope_attestation" where
  "claim_attestation h q consumer c =
     (let e = cl_effective c
      in \<lparr>sx_consumer = consumer, sx_kind = sd_kind e, sx_goals = sort (sd_goals (cl_required c)),
          sx_declaration_fp = cl_declaration_fp c, sx_population = sd_population e, sx_entity = sd_entity e, sx_grain = sd_grain e,
          sx_constraints = sort (map pc_fp (sd_constraints e)), sx_complete = sd_complete (cl_required c), sx_node = cl_node c,
          sx_generation = cl_generation c, sx_attempt = cl_attempt c, sx_query = cl_query c, sx_sql = cl_sql c,
          sx_snapshot = sd_snapshot e,
          sx_artifacts = sorted_set (map ae_id (concat (map lp_artifacts (successful_proofs q c)))),
          sx_proofs = claim_proof_fps h q c\<rparr>)"

definition required_consumers :: "bool \<Rightarrow> string list \<Rightarrow> attestation option \<Rightarrow> string list" where
  "required_consumers explicit requested prior = (if explicit then requested else map sx_consumer (attested_scopes prior))"

text \<open>The claims of the required consumers, in their order.\<close>

definition chosen :: "string list \<Rightarrow> (string, 'a) dict \<Rightarrow> (string \<times> 'a) list" where
  "chosen needed mapped = List.map_filter (\<lambda>k. map_option (Pair k) (map_of mapped k)) (keys_both needed (map fst mapped))"

definition consumer_gaps :: "gap_code \<Rightarrow> gap_code \<Rightarrow> gap_code \<Rightarrow> string list \<Rightarrow> (string, 'a) dict \<times> string list \<Rightarrow> population_gap list" where
  "consumer_gaps duplicate missing unexpected needed m =
     (let g = (\<lambda>c k. gap c k [] [] [])
      in map (g duplicate) (sorted_set (snd m)) @ map (g missing) (keys_minus needed (map fst (fst m)))
       @ map (g unexpected) (keys_minus (map fst (fst m)) needed))"

definition verify_pre_execution :: "(string \<Rightarrow> string) \<Rightarrow> pre_request \<Rightarrow> verification" where
  "verify_pre_execution h q =
     (let needed = required_consumers (pq_explicit q) (pq_required q) (pq_prior q);
          m = unique_by_consumer cl_consumer (pq_claims q);
          cs = chosen needed (fst m);
          accepted = filter (\<lambda>(k, c). claim_gaps q k c = []) cs
      in make_verification h PRE_EXECUTION (pre_request_json q) (pq_contract q) [] (pq_graph q) (pq_prior q)
           (prior_gaps h (pq_prior q) GOAL_DECLARATION (pq_contract q) []
            @ issue_if (py_strip (pq_graph q) = []) (gap ''GRAPH_FINGERPRINT_REQUIRED'' [] [] [] [])
            @ issue_if (selection_mismatch (pq_explicit q) (pq_required q) (map sx_consumer (attested_scopes (pq_prior q))))
                (gap ''PRIOR_ATTESTATION_SCOPE_MISMATCH'' [] [] [] [])
            @ consumer_gaps ''EXECUTION_CLAIM_DUPLICATE'' ''EXECUTION_CLAIM_MISSING'' ''EXECUTION_CLAIM_UNEXPECTED'' needed m
            @ concat (map (\<lambda>(k, c). claim_gaps q k c) cs))
           (map (\<lambda>(k, c). claim_attestation h q k c) accepted)
           (concat (map (\<lambda>(k, c). claim_proof_fps h q c) accepted))
           (concat (map (\<lambda>(k, c). map ae_fp (concat (map lp_artifacts (successful_proofs q c)))) accepted)))"

section \<open>After execution\<close>

text \<open>\<open>_verify_result_artifact\<close>.\<close>

definition result_artifact_gaps :: "post_request \<Rightarrow> string \<Rightarrow> string \<Rightarrow> scope_attestation \<Rightarrow> artifact_evidence \<Rightarrow> population_gap list" where
  "result_artifact_gaps q consumer node s a =
     (let g = (\<lambda>code. gap code consumer node [] (ae_id a)); differs = (\<lambda>a b. a = [] \<or> a \<noteq> b)
      in issue_if (ae_verifier a \<notin> set (oq_trusted q)) (g ''ARTIFACT_UNTRUSTED'')
       @ issue_if (\<not> ae_verified a) (g ''ARTIFACT_UNVERIFIED'')
       @ issue_if (\<not> ae_immutable a) (g ''ARTIFACT_NOT_IMMUTABLE'')
       @ issue_if (ae_kind a = ENTITY_SET) (g ''ARTIFACT_KIND_MISMATCH'')
       @ issue_if (\<not> complete_coverage (ae_coverage a)) (g ''ARTIFACT_COVERAGE_INCOMPLETE'')
       @ issue_if (\<not> set (sx_proofs s) \<subseteq> set (ae_lineage a)) (g ''RESULT_LINEAGE_ATTESTATION_MISMATCH'')
       @ issue_if (ae_population a \<noteq> sx_population s) (g ''ARTIFACT_POPULATION_MISMATCH'')
       @ issue_if (differs (ae_contract a) (oq_contract q)) (g ''ARTIFACT_GOAL_CONTRACT_MISMATCH'')
       @ issue_if (differs (ae_graph a) (oq_graph q)) (g ''ARTIFACT_GRAPH_MISMATCH'')
       @ issue_if (differs (ae_query a) (sx_query s)) (g ''ARTIFACT_QUERY_CONTRACT_MISMATCH'')
       @ issue_if (differs (ae_sql a) (sx_sql s)) (g ''ARTIFACT_SQL_AST_MISMATCH'')
       @ issue_if (differs (ae_snapshot a) (sx_snapshot s)) (g ''ARTIFACT_SNAPSHOT_MISMATCH''))"

definition result_gaps :: "post_request \<Rightarrow> string \<Rightarrow> result_evidence \<Rightarrow> population_gap list" where
  "result_gaps q consumer r =
     (let g = (\<lambda>code. gap code consumer (re_node r) [] [])
      in case attested_scope (oq_prior q) consumer of None \<Rightarrow> [g ''PRIOR_ATTESTATION_SCOPE_MISMATCH'']
       | Some s \<Rightarrow>
           issue_if (re_node r \<noteq> sx_node s) (g ''PRIOR_ATTESTATION_SCOPE_MISMATCH'')
           @ issue_if (\<not> set (sx_proofs s) \<subseteq> set (re_lineage r)) (g ''RESULT_LINEAGE_ATTESTATION_MISMATCH'')
           @ issue_if (set (re_lineage r) \<noteq> set (ae_lineage (re_artifact r))) (g ''RESULT_LINEAGE_ATTESTATION_MISMATCH'')
           @ result_artifact_gaps q consumer (re_node r) s (re_artifact r))"

definition verify_post_result :: "(string \<Rightarrow> string) \<Rightarrow> post_request \<Rightarrow> verification" where
  "verify_post_result h q =
     (let needed = required_consumers (oq_explicit q) (oq_required q) (oq_prior q);
          m = unique_by_consumer re_consumer (oq_results q);
          rs = chosen needed (fst m);
          accepted = filter (\<lambda>(k, r). result_gaps q k r = []) rs
      in make_verification h POST_RESULT (post_request_json q) (oq_contract q) [] (oq_graph q) (oq_prior q)
           (prior_gaps h (oq_prior q) PRE_EXECUTION (oq_contract q) (oq_graph q)
            @ issue_if (selection_mismatch (oq_explicit q) (oq_required q) (map sx_consumer (attested_scopes (oq_prior q))))
                (gap ''PRIOR_ATTESTATION_SCOPE_MISMATCH'' [] [] [] [])
            @ consumer_gaps ''RESULT_EVIDENCE_DUPLICATE'' ''RESULT_EVIDENCE_MISSING'' ''RESULT_EVIDENCE_UNEXPECTED'' needed m
            @ concat (map (\<lambda>(k, r). result_gaps q k r) rs))
           (List.map_filter (\<lambda>(k, r). attested_scope (oq_prior q) k) accepted)
           (case oq_prior q of None \<Rightarrow> [] | Some a \<Rightarrow> av_proofs a)
           (map (\<lambda>(k, r). ae_fp (re_artifact r)) accepted))"

section \<open>Entry points\<close>

text \<open>\<open>goal_population_verification_input\<close>: the request of the first stage for a parsed contract.\<close>

definition goal_verification_input ::
  "(string \<Rightarrow> string) \<Rightarrow> goal_contract \<Rightarrow> semantic_review \<Rightarrow> string \<Rightarrow> string list \<Rightarrow> string list option
    \<Rightarrow> projection_error + declaration_request" where
  "goal_verification_input h c review author trusted requested =
     (case parse_contract c of Inl e \<Rightarrow> Inl (ProjectionContract e)
      | Inr n \<Rightarrow>
          (case goal_contract_fingerprint h n of Inl e \<Rightarrow> Inl (ProjectionContract e)
           | Inr fp \<Rightarrow> bind_res (declarations_from_contract n requested) (\<lambda>ds. Inr
          \<lparr>dq_question = population_question_fingerprint h (question n), dq_skeleton = rv_skeleton review,
           dq_contract = fp, dq_author = author, dq_review = Some review,
           dq_trusted = trusted, dq_declarations = ds\<rparr>)))"

text \<open>\<open>PopulationSemanticVerifier.verify\<close>, on a request of any stage.\<close>

datatype population_request = DeclarationRequest declaration_request | PreRequest pre_request | PostRequest post_request

fun verify_population :: "(string \<Rightarrow> string) \<Rightarrow> population_request \<Rightarrow> verification" where
  "verify_population h (DeclarationRequest q) = verify_goal_declaration h q"
| "verify_population h (PreRequest q) = verify_pre_execution h q"
| "verify_population h (PostRequest q) = verify_post_result h q"

end
